(* ===== verification/Go_Prelude.thy ===== *)
theory Go_Prelude
  imports Main "HOL-Library.Word"
begin

text \<open>
  The vocabulary every component theory shares: errors as values, Go maps and the order a
  \<^verbatim>\<open>range\<close> loop visits them in, 64-bit signed arithmetic, time stamps, and the list and map
  lemmas the component proofs use.

  Conventions of the whole development.
  \<^item> A Go string is a \<^typ>\<open>string\<close>, that is a list of bytes.
  \<^item> A Go map is a \<^typ>\<open>'k \<rightharpoonup> 'v\<close>. \<^verbatim>\<open>range\<close> visits a map in an order the language leaves
    open, so a definition that ranges over a map takes the order as an argument \<open>ks\<close>;
    \<open>range_order m ks\<close> says that \<open>ks\<close> is one of the orders the loop can take, and the theorems
    hold for every such order.
  \<^item> A returned \<^verbatim>\<open>error\<close> is the left injection of \<open>go_error + 'a\<close>.
  \<^item> \<^verbatim>\<open>time.Now()\<close> is an argument \<open>now\<close>: a \<^verbatim>\<open>time.Time\<close> is a number of nanoseconds since the
    Unix epoch, and a \<^verbatim>\<open>time.Duration\<close> a number of nanoseconds.
  \<^item> Operations that the code runs under one mutex are one step of the model.
\<close>

named_theorems go_simps \<open>definitions of the shared vocabulary, unfolded by the component proofs\<close>

named_theorems key_simps \<open>equations on qualified object keys\<close>

subsection \<open>Errors\<close>

text \<open>
  The errors the modelled code builds with \<^verbatim>\<open>fmt.Errorf\<close>, by what they say: the kind of object
  and the name printed in the message. \<open>Wrap\<close> is the \<^verbatim>\<open>%w\<close> form, \<open>ExecError\<close> an error that the
  SQL engine returned.
\<close>

datatype go_error =
    AlreadyExists string string
  | DoesNotExist string string
  | Invalid string string
  | NotAllowed string string
  | ExecError string
  | Wrap string go_error

type_synonym 'a result = "go_error + 'a"

type_synonym time = int
type_synonym duration = int

abbreviation Ok :: "'a \<Rightarrow> 'a result" where
  "Ok x \<equiv> Inr x"

abbreviation Err :: "go_error \<Rightarrow> 'a result" where
  "Err e \<equiv> Inl e"

definition is_ok :: "'a result \<Rightarrow> bool" where
  "is_ok r = (case r of Inl _ \<Rightarrow> False | Inr _ \<Rightarrow> True)"

lemma is_ok_simps [simp]: "is_ok (Inr x)" "\<not> is_ok (Inl e)"
  by (simp_all add: is_ok_def)

lemma is_ok_iff: "is_ok r \<longleftrightarrow> (\<exists>x. r = Inr x)"
  by (cases r) auto

text \<open>A caller that drops the error and keeps the state it had: \<^verbatim>\<open>_ = f(...)\<close>.\<close>

definition ignore_error :: "'s \<Rightarrow> 's result \<Rightarrow> 's" where
  "ignore_error s r = (case r of Inl _ \<Rightarrow> s | Inr s' \<Rightarrow> s')"

lemma ignore_error_simps [simp]:
  "ignore_error s (Inl e) = s" "ignore_error s (Inr s') = s'"
  by (simp_all add: ignore_error_def)

subsection \<open>Durations\<close>

definition second :: duration where "second = 1000000000"
definition minute :: duration where "minute = 60 * second"
definition hour :: duration where "hour = 60 * minute"

lemmas duration_defs = second_def minute_def hour_def

lemma duration_pos [simp]: "0 < second" "0 < minute" "0 < hour"
  by (simp_all add: duration_defs)

subsection \<open>64-bit signed arithmetic\<close>

text \<open>Go's \<^verbatim>\<open>int\<close>, \<^verbatim>\<open>int64\<close> and \<^verbatim>\<open>time.Duration\<close> wrap around at 64 bits, in two's complement.\<close>

definition max_int64 :: int where "max_int64 = 9223372036854775807"
definition min_int64 :: int where "min_int64 = - 9223372036854775808"

definition wrap64 :: "int \<Rightarrow> int" where
  "wrap64 x = (x + 9223372036854775808) mod 18446744073709551616 - 9223372036854775808"

lemma wrap64_id: "min_int64 \<le> x \<Longrightarrow> x \<le> max_int64 \<Longrightarrow> wrap64 x = x"
  by (simp add: wrap64_def min_int64_def max_int64_def)

lemma wrap64_range: "min_int64 \<le> wrap64 x \<and> wrap64 x \<le> max_int64"
proof -
  have "0 \<le> (x + 9223372036854775808) mod 18446744073709551616" by simp
  moreover have "(x + 9223372036854775808) mod 18446744073709551616 < 18446744073709551616"
    by simp
  ultimately show ?thesis
    by (simp add: wrap64_def min_int64_def max_int64_def)
qed

lemma wrap64_over:
  assumes "max_int64 < x" "x \<le> 2 * max_int64 + 1"
  shows "wrap64 x = x - 18446744073709551616"
proof -
  have "(x + 9223372036854775808) mod 18446744073709551616
      = (x + 9223372036854775808 - 18446744073709551616) mod 18446744073709551616"
    by (rule minus_mod_self2 [symmetric])
  also have "\<dots> = x + 9223372036854775808 - 18446744073709551616"
    using assms by (simp add: max_int64_def)
  finally show ?thesis by (simp add: wrap64_def)
qed

subsection \<open>Go maps and range loops\<close>

definition range_order :: "('k \<rightharpoonup> 'v) \<Rightarrow> 'k list \<Rightarrow> bool" where
  "range_order m ks \<longleftrightarrow> distinct ks \<and> set ks = dom m"

definition range_values :: "('k \<rightharpoonup> 'v) \<Rightarrow> 'k list \<Rightarrow> 'v list" where
  "range_values m ks = List.map_filter m ks"

definition range_entries :: "('k \<rightharpoonup> 'v) \<Rightarrow> 'k list \<Rightarrow> ('k \<times> 'v) list" where
  "range_entries m ks = List.map_filter (\<lambda>k. map_option (Pair k) (m k)) ks"

text \<open>A range loop that rewrites every value in place; the order does not matter.\<close>

definition map_values :: "('v \<Rightarrow> 'w) \<Rightarrow> ('k \<rightharpoonup> 'v) \<Rightarrow> ('k \<rightharpoonup> 'w)" where
  "map_values f m = (\<lambda>k. map_option f (m k))"

lemma map_values_apply [simp]: "map_values f m k = map_option f (m k)"
  by (simp add: map_values_def)

lemma dom_map_values [simp]: "dom (map_values f m) = dom m"
  by (auto simp: dom_def)

lemma map_values_upd [simp]: "map_values f (m(k \<mapsto> v)) = (map_values f m)(k \<mapsto> f v)"
  by (auto simp: map_values_def)

lemma range_order_distinct: "range_order m ks \<Longrightarrow> distinct ks"
  by (simp add: range_order_def)

lemma range_order_mem: "range_order m ks \<Longrightarrow> k \<in> set ks \<longleftrightarrow> (\<exists>v. m k = Some v)"
  by (auto simp: range_order_def)

lemma range_order_finite: "range_order m ks \<Longrightarrow> finite (dom m)"
  by (metis List.finite_set range_order_def)

lemma range_order_length: "range_order m ks \<Longrightarrow> length ks = card (dom m)"
  by (metis distinct_card range_order_def)

lemma range_order_exists: "finite (dom m) \<Longrightarrow> \<exists>ks. range_order m ks"
  unfolding range_order_def using finite_distinct_list by metis

lemma range_values_Nil [simp]: "range_values m [] = []"
  by (simp add: range_values_def map_filter_simps)

lemma range_values_Cons [simp]:
  "range_values m (k # ks) =
     (case m k of None \<Rightarrow> range_values m ks | Some v \<Rightarrow> v # range_values m ks)"
  by (simp add: range_values_def map_filter_simps split: option.split)

lemma range_entries_Nil [simp]: "range_entries m [] = []"
  by (simp add: range_entries_def map_filter_simps)

lemma range_entries_Cons [simp]:
  "range_entries m (k # ks) =
     (case m k of None \<Rightarrow> range_entries m ks | Some v \<Rightarrow> (k, v) # range_entries m ks)"
  by (simp add: range_entries_def map_filter_simps split: option.split)

lemma set_range_values: "set (range_values m ks) = {v. \<exists>k \<in> set ks. m k = Some v}"
  by (induction ks) (auto split: option.split)

lemma set_range_entries: "set (range_entries m ks) = {(k, v). k \<in> set ks \<and> m k = Some v}"
  by (induction ks) (auto split: option.split)

lemma set_range_values_order:
  "range_order m ks \<Longrightarrow> set (range_values m ks) = ran m"
  by (auto simp: set_range_values range_order_def ran_def)

lemma set_range_entries_order:
  "range_order m ks \<Longrightarrow> (k, v) \<in> set (range_entries m ks) \<longleftrightarrow> m k = Some v"
  by (auto simp: set_range_entries range_order_def)

lemma length_range_values_order:
  "range_order m ks \<Longrightarrow> length (range_values m ks) = length ks"
proof -
  have "set ks \<subseteq> dom m \<Longrightarrow> length (range_values m ks) = length ks"
    by (induction ks) auto
  then show "range_order m ks \<Longrightarrow> ?thesis" by (simp add: range_order_def)
qed

lemma map_fst_range_entries: "set ks \<subseteq> dom m \<Longrightarrow> map fst (range_entries m ks) = ks"
  by (induction ks) auto

lemma map_snd_range_entries: "map snd (range_entries m ks) = range_values m ks"
  by (induction ks) (auto split: option.split)

lemma map_upd_other: "k \<noteq> k' \<Longrightarrow> (m(k \<mapsto> v)) k' = m k'"
  by simp

subsection \<open>Lists\<close>

text \<open>The loop \<^verbatim>\<open>for i, a := range xs { if p(a) { xs = append(xs[:i], xs[i+1:]...); break } }\<close>.\<close>

fun remove_first :: "('a \<Rightarrow> bool) \<Rightarrow> 'a list \<Rightarrow> 'a list" where
  "remove_first p [] = []"
| "remove_first p (x # xs) = (if p x then xs else x # remove_first p xs)"

lemma remove_first_id: "(\<And>x. x \<in> set xs \<Longrightarrow> \<not> p x) \<Longrightarrow> remove_first p xs = xs"
  by (induction xs) auto

lemma set_remove_first_subset: "set (remove_first p xs) \<subseteq> set xs"
  by (induction xs) auto

lemma filter_remove_first: "filter (\<lambda>x. \<not> p x) (remove_first p xs) = filter (\<lambda>x. \<not> p x) xs"
  by (induction xs) auto

lemma find_None_iff_filter: "List.find p xs = None \<longleftrightarrow> filter p xs = []"
  by (auto simp: find_None_iff filter_empty_conv)

lemma find_append: "List.find p (xs @ ys) = (case List.find p xs of None \<Rightarrow> List.find p ys | Some x \<Rightarrow> Some x)"
  by (induction xs) auto

lemma distinct_map_remove_first:
  "distinct (map f xs) \<Longrightarrow> distinct (map f (remove_first p xs))"
  by (induction xs) (auto dest: set_remove_first_subset [THEN subsetD])

lemma remove_first_none_left:
  "distinct (map f xs) \<Longrightarrow> x \<in> set (remove_first (\<lambda>x. f x = k) xs) \<Longrightarrow> f x \<noteq> k"
  by (induction xs) (force split: if_splits)+

text \<open>The loop \<^verbatim>\<open>for i := n - 1; i >= 0; i-- { if p(xs[i]) { return xs[i] } }\<close>.\<close>

definition find_last :: "('a \<Rightarrow> bool) \<Rightarrow> 'a list \<Rightarrow> 'a option" where
  "find_last p xs = List.find p (rev xs)"

lemma find_last_None: "find_last p xs = None \<longleftrightarrow> (\<forall>x \<in> set xs. \<not> p x)"
  by (auto simp: find_last_def find_None_iff)

lemma find_last_SomeD:
  "find_last p xs = Some x \<Longrightarrow> \<exists>ys zs. xs = ys @ x # zs \<and> p x \<and> (\<forall>z \<in> set zs. \<not> p z)"
proof (induction xs rule: rev_induct)
  case Nil
  then show ?case by (simp add: find_last_def)
next
  case (snoc a xs)
  show ?case
  proof (cases "p a")
    case True
    with snoc.prems have "xs @ [a] = xs @ x # [] \<and> p x" by (simp add: find_last_def)
    then show ?thesis by (metis empty_iff empty_set)
  next
    case False
    with snoc.prems have "find_last p xs = Some x" by (simp add: find_last_def)
    with snoc.IH obtain ys zs where "xs = ys @ x # zs" "p x" "\<forall>z \<in> set zs. \<not> p z" by blast
    then have "xs @ [a] = ys @ x # (zs @ [a]) \<and> p x \<and> (\<forall>z \<in> set (zs @ [a]). \<not> p z)"
      using False by simp
    then show ?thesis by blast
  qed
qed

end
