(* ===== verification/Go_Strings.thy ===== *)
theory Go_Strings
  imports Go_Prelude
begin

text \<open>
  The parts of Go's \<^verbatim>\<open>strings\<close> and \<^verbatim>\<open>strconv\<close> packages that the code uses, on byte strings. Case
  mapping and white space are those of ASCII; the functions leave other bytes alone, so the model
  is exact on ASCII text. Then the qualified keys \<^verbatim>\<open>DB.SCHEMA.NAME\<close> under which every subsystem
  files its objects, with the fact that keys of dot-free names do not collide.
\<close>

subsection \<open>Characters\<close>

definition upper_char :: "char \<Rightarrow> char" where
  "upper_char c = (let n = (of_char c :: nat) in if 97 \<le> n \<and> n \<le> 122 then char_of (n - 32) else c)"

definition lower_char :: "char \<Rightarrow> char" where
  "lower_char c = (let n = (of_char c :: nat) in if 65 \<le> n \<and> n \<le> 90 then char_of (n + 32) else c)"

definition is_space :: "char \<Rightarrow> bool" where
  "is_space c = (let n = (of_char c :: nat) in n = 32 \<or> (9 \<le> n \<and> n \<le> 13))"

definition is_digit :: "char \<Rightarrow> bool" where
  "is_digit c = (let n = (of_char c :: nat) in 48 \<le> n \<and> n \<le> 57)"

definition is_alpha :: "char \<Rightarrow> bool" where
  "is_alpha c = (let n = (of_char c :: nat) in (65 \<le> n \<and> n \<le> 90) \<or> (97 \<le> n \<and> n \<le> 122))"

text \<open>Code equations on the bits of a byte, so that evaluation needs no arithmetic.\<close>

lemma upper_char_code [code]:
  "upper_char (Char b0 b1 b2 b3 b4 b5 b6 b7) =
     (if b5 \<and> b6 \<and> \<not> b7 \<and> (b0 \<or> b1 \<or> b2 \<or> b3 \<or> b4) \<and> \<not> (b4 \<and> b3 \<and> (b2 \<or> b1 \<and> b0))
      then Char b0 b1 b2 b3 b4 False b6 b7 else Char b0 b1 b2 b3 b4 b5 b6 b7)"
  by (cases b0; cases b1; cases b2; cases b3; cases b4; cases b5; cases b6; cases b7)
    (auto simp: upper_char_def char_of_def bit_0)

lemma lower_char_code [code]:
  "lower_char (Char b0 b1 b2 b3 b4 b5 b6 b7) =
     (if \<not> b5 \<and> b6 \<and> \<not> b7 \<and> (b0 \<or> b1 \<or> b2 \<or> b3 \<or> b4) \<and> \<not> (b4 \<and> b3 \<and> (b2 \<or> b1 \<and> b0))
      then Char b0 b1 b2 b3 b4 True b6 b7 else Char b0 b1 b2 b3 b4 b5 b6 b7)"
  by (cases b0; cases b1; cases b2; cases b3; cases b4; cases b5; cases b6; cases b7)
    (auto simp: lower_char_def char_of_def bit_0)

lemma is_space_code [code]:
  "is_space (Char b0 b1 b2 b3 b4 b5 b6 b7) \<longleftrightarrow>
     \<not> b7 \<and> \<not> b6 \<and> \<not> b4 \<and>
     (b5 \<and> \<not> b3 \<and> \<not> b2 \<and> \<not> b1 \<and> \<not> b0 \<or> \<not> b5 \<and> b3 \<and> (b0 \<or> b1 \<or> b2) \<and> \<not> (b2 \<and> b1))"
  by (cases b0; cases b1; cases b2; cases b3; cases b4; cases b5; cases b6; cases b7)
    (simp_all add: is_space_def)

lemma is_digit_code [code]:
  "is_digit (Char b0 b1 b2 b3 b4 b5 b6 b7) \<longleftrightarrow> b4 \<and> b5 \<and> \<not> b6 \<and> \<not> b7 \<and> \<not> (b3 \<and> (b2 \<or> b1))"
  by (cases b0; cases b1; cases b2; cases b3; cases b4; cases b5; cases b6; cases b7)
    (simp_all add: is_digit_def)

lemma is_alpha_code [code]:
  "is_alpha (Char b0 b1 b2 b3 b4 b5 b6 b7) \<longleftrightarrow>
     b6 \<and> \<not> b7 \<and> (b0 \<or> b1 \<or> b2 \<or> b3 \<or> b4) \<and> \<not> (b4 \<and> b3 \<and> (b2 \<or> b1 \<and> b0))"
  by (cases b0; cases b1; cases b2; cases b3; cases b4; cases b5; cases b6; cases b7)
    (simp_all add: is_alpha_def)

lemma upper_char_idem [simp]: "upper_char (upper_char c) = upper_char c"
  by (auto simp: upper_char_def Let_def)

lemma lower_char_idem [simp]: "lower_char (lower_char c) = lower_char c"
  by (auto simp: lower_char_def Let_def)

lemma upper_lower_char [simp]: "upper_char (lower_char c) = upper_char c"
  by (auto simp: upper_char_def lower_char_def Let_def)

lemma lower_upper_char [simp]: "lower_char (upper_char c) = lower_char c"
  by (auto simp: upper_char_def lower_char_def Let_def)

lemma upper_char_dot [simp]: "upper_char c = CHR ''.'' \<longleftrightarrow> c = CHR ''.''"
proof -
  have "upper_char (CHR ''.'') = CHR ''.''" by (simp add: upper_char_def)
  moreover have "c = CHR ''.''" if "upper_char c = CHR ''.''"
  proof -
    from that have "(of_char (upper_char c) :: nat) = 46" by simp
    then have "upper_char c = c" by (auto simp: upper_char_def Let_def split: if_splits)
    with that show ?thesis by simp
  qed
  ultimately show ?thesis by blast
qed

lemma lower_char_dot [simp]: "lower_char c = CHR ''.'' \<longleftrightarrow> c = CHR ''.''"
  by (metis upper_char_dot upper_lower_char)

subsection \<open>Case\<close>

definition ToUpper :: "string \<Rightarrow> string" where
  "ToUpper s = map upper_char s"

definition ToLower :: "string \<Rightarrow> string" where
  "ToLower s = map lower_char s"

definition EqualFold :: "string \<Rightarrow> string \<Rightarrow> bool" where
  "EqualFold s t \<longleftrightarrow> ToLower s = ToLower t"

lemma ToUpper_idem [simp]: "ToUpper (ToUpper s) = ToUpper s"
  by (simp add: ToUpper_def)

lemma ToLower_idem [simp]: "ToLower (ToLower s) = ToLower s"
  by (simp add: ToLower_def)

lemma ToUpper_ToLower [simp]: "ToUpper (ToLower s) = ToUpper s"
  by (simp add: ToUpper_def ToLower_def)

lemma ToLower_ToUpper [simp]: "ToLower (ToUpper s) = ToLower s"
  by (simp add: ToUpper_def ToLower_def)

lemma ToUpper_append [simp]: "ToUpper (s @ t) = ToUpper s @ ToUpper t"
  by (simp add: ToUpper_def)

lemma ToLower_append [simp]: "ToLower (s @ t) = ToLower s @ ToLower t"
  by (simp add: ToLower_def)

lemma length_ToUpper [simp]: "length (ToUpper s) = length s"
  by (simp add: ToUpper_def)

lemma length_ToLower [simp]: "length (ToLower s) = length s"
  by (simp add: ToLower_def)

lemma ToUpper_Nil [simp]: "ToUpper [] = []" "ToUpper s = [] \<longleftrightarrow> s = []"
  by (simp_all add: ToUpper_def)

lemma ToLower_Nil [simp]: "ToLower [] = []" "ToLower s = [] \<longleftrightarrow> s = []"
  by (simp_all add: ToLower_def)

lemma ToUpper_eq_iff_ToLower_eq: "ToUpper s = ToUpper t \<longleftrightarrow> ToLower s = ToLower t"
  by (metis ToLower_ToUpper ToUpper_ToLower)

lemma EqualFold_iff_ToUpper: "EqualFold s t \<longleftrightarrow> ToUpper s = ToUpper t"
  by (simp add: EqualFold_def ToUpper_eq_iff_ToLower_eq)

lemma EqualFold_refl [simp]: "EqualFold s s"
  by (simp add: EqualFold_def)

lemma dot_in_ToUpper [simp]: "CHR ''.'' \<in> set (ToUpper s) \<longleftrightarrow> CHR ''.'' \<in> set s"
  by (metis (no_types, opaque_lifting) ToUpper_def image_iff list.set_map upper_char_dot)

lemma dot_in_ToLower [simp]: "CHR ''.'' \<in> set (ToLower s) \<longleftrightarrow> CHR ''.'' \<in> set s"
  by (metis (no_types, opaque_lifting) ToLower_def image_iff list.set_map lower_char_dot)

text \<open>
  Case mapping of literals by rewriting: \<open>simp add: lit_simps\<close> evaluates \<open>ToUpper\<close> and \<open>ToLower\<close> of a
  literal string.
\<close>

lemma upper_char_letters:
  "map upper_char ''abcdefghijklmnopqrstuvwxyz'' = ''ABCDEFGHIJKLMNOPQRSTUVWXYZ''"
  by code_simp

lemma lower_char_letters:
  "map lower_char ''ABCDEFGHIJKLMNOPQRSTUVWXYZ'' = ''abcdefghijklmnopqrstuvwxyz''"
  by code_simp

lemma upper_char_keep: "(of_char c :: nat) < 97 \<or> 122 < (of_char c :: nat) \<Longrightarrow> upper_char c = c"
  by (auto simp: upper_char_def Let_def)

lemma lower_char_keep: "(of_char c :: nat) < 65 \<or> 90 < (of_char c :: nat) \<Longrightarrow> lower_char c = c"
  by (auto simp: lower_char_def Let_def)

lemmas upper_lits = upper_char_letters [unfolded list.map list.inject] upper_char_keep
lemmas lower_lits = lower_char_letters [unfolded list.map list.inject] lower_char_keep
lemmas lit_simps = ToUpper_def ToLower_def upper_lits lower_lits

subsection \<open>Prefixes, trimming, searching\<close>

definition HasPrefix :: "string \<Rightarrow> string \<Rightarrow> bool" where
  "HasPrefix s p \<longleftrightarrow> take (length p) s = p"

definition HasSuffix :: "string \<Rightarrow> string \<Rightarrow> bool" where
  "HasSuffix s p \<longleftrightarrow> HasPrefix (rev s) (rev p)"

definition TrimPrefix :: "string \<Rightarrow> string \<Rightarrow> string" where
  "TrimPrefix s p = (if HasPrefix s p then drop (length p) s else s)"

definition TrimSuffix :: "string \<Rightarrow> string \<Rightarrow> string" where
  "TrimSuffix s p = (if HasSuffix s p then take (length s - length p) s else s)"

definition trim_by :: "(char \<Rightarrow> bool) \<Rightarrow> string \<Rightarrow> string" where
  "trim_by p s = rev (dropWhile p (rev (dropWhile p s)))"

definition TrimSpace :: "string \<Rightarrow> string" where
  "TrimSpace s = trim_by is_space s"

definition Trim :: "string \<Rightarrow> string \<Rightarrow> string" where
  "Trim s cutset = trim_by (\<lambda>c. c \<in> set cutset) s"

definition TrimRight :: "string \<Rightarrow> string \<Rightarrow> string" where
  "TrimRight s cutset = rev (dropWhile (\<lambda>c. c \<in> set cutset) (rev s))"

text \<open>\<^verbatim>\<open>strings.Index\<close>: the first offset at which the substring occurs.\<close>

fun Index :: "string \<Rightarrow> string \<Rightarrow> nat option" where
  "Index [] p = (if p = [] then Some 0 else None)"
| "Index (c # s) p = (if HasPrefix (c # s) p then Some 0 else map_option Suc (Index s p))"

definition Contains :: "string \<Rightarrow> string \<Rightarrow> bool" where
  "Contains s p \<longleftrightarrow> Index s p \<noteq> None"

lemma HasPrefix_iff: "HasPrefix s p \<longleftrightarrow> (\<exists>t. s = p @ t)"
proof -
  have "s = p @ drop (length p) s" if "take (length p) s = p"
    using that by (metis append_take_drop_id)
  then show ?thesis by (auto simp: HasPrefix_def)
qed

lemma HasPrefix_append [simp]: "HasPrefix (p @ s) p"
  by (simp add: HasPrefix_def)

lemma HasPrefix_Nil [simp]: "HasPrefix s []"
  by (simp add: HasPrefix_def)

lemma Nil_HasPrefix [simp]: "HasPrefix [] p \<longleftrightarrow> p = []"
  by (auto simp: HasPrefix_def)

lemma HasPrefix_Cons [simp]: "HasPrefix (c # s) (d # p) \<longleftrightarrow> c = d \<and> HasPrefix s p"
  by (auto simp: HasPrefix_def)

lemma Index_SomeD: "Index s p = Some i \<Longrightarrow> \<exists>u v. s = u @ p @ v \<and> length u = i"
proof (induction s arbitrary: i)
  case Nil
  then show ?case by (auto split: if_splits)
next
  case (Cons c s)
  show ?case
  proof (cases "HasPrefix (c # s) p")
    case True
    with Cons.prems obtain v where "c # s = [] @ p @ v" "i = 0" by (auto simp: HasPrefix_iff)
    then show ?thesis by (metis list.size(3))
  next
    case False
    with Cons.prems obtain j where "Index s p = Some j" "i = Suc j" by auto
    with Cons.IH obtain u v where "s = u @ p @ v" "length u = j" by blast
    then have "c # s = (c # u) @ p @ v" "length (c # u) = i" using \<open>i = Suc j\<close> by simp_all
    then show ?thesis by blast
  qed
qed

lemma Index_append: "Index (u @ p @ v) p \<noteq> None"
proof (induction u)
  case Nil
  show ?case
  proof (cases "p @ v")
    case (Cons c s)
    then have "HasPrefix (c # s) p" by (metis HasPrefix_append)
    with Cons show ?thesis by simp
  qed simp
next
  case (Cons c u)
  then show ?case by auto
qed

lemma Contains_iff: "Contains s p \<longleftrightarrow> (\<exists>u v. s = u @ p @ v)"
  by (metis Contains_def Index_SomeD Index_append not_None_eq)

lemma set_trim_by: "set (trim_by p s) \<subseteq> set s"
proof -
  have "set (trim_by p s) \<subseteq> set (rev (dropWhile p s))"
    by (auto simp: trim_by_def dest: set_dropWhileD)
  also have "\<dots> \<subseteq> set s" by (auto dest: set_dropWhileD)
  finally show ?thesis .
qed

lemma trim_by_middle: "\<exists>u v. s = u @ trim_by p s @ v \<and> (\<forall>c \<in> set u \<union> set v. p c)"
proof -
  let ?t = "dropWhile p s"
  have "s = takeWhile p s @ ?t" by simp
  moreover have "?t = trim_by p s @ rev (takeWhile p (rev ?t))"
    by (metis rev_append rev_rev_ident takeWhile_dropWhile_id trim_by_def)
  ultimately have "s = takeWhile p s @ trim_by p s @ rev (takeWhile p (rev ?t))" by simp
  moreover have "\<forall>c \<in> set (takeWhile p s) \<union> set (rev (takeWhile p (rev ?t))). p c"
    by (auto dest: set_takeWhileD)
  ultimately show ?thesis by blast
qed

subsection \<open>Splitting and joining\<close>

text \<open>\<^verbatim>\<open>strings.Split\<close> with a one-byte separator; never empty.\<close>

fun Split :: "string \<Rightarrow> char \<Rightarrow> string list" where
  "Split [] sep = [[]]"
| "Split (c # s) sep =
     (if c = sep then [] # Split s sep
      else (case Split s sep of [] \<Rightarrow> [[c]] | p # ps \<Rightarrow> (c # p) # ps))"

fun Join :: "string list \<Rightarrow> string \<Rightarrow> string" where
  "Join [] sep = []"
| "Join [s] sep = s"
| "Join (s # t # ts) sep = s @ sep @ Join (t # ts) sep"

text \<open>\<^verbatim>\<open>strings.SplitN(s, sep, 2)\<close>: at most one cut.\<close>

fun SplitN2 :: "string \<Rightarrow> char \<Rightarrow> string list" where
  "SplitN2 s sep =
     (if sep \<in> set s then [takeWhile (\<lambda>c. c \<noteq> sep) s, tl (dropWhile (\<lambda>c. c \<noteq> sep) s)] else [s])"

text \<open>\<^verbatim>\<open>strings.Fields\<close>: the maximal runs of non-space bytes.\<close>

fun fields_acc :: "string \<Rightarrow> string \<Rightarrow> string list" where
  "fields_acc [] w = (if w = [] then [] else [rev w])"
| "fields_acc (c # s) w =
     (if is_space c then (if w = [] then fields_acc s [] else rev w # fields_acc s [])
      else fields_acc s (c # w))"

definition Fields :: "string \<Rightarrow> string list" where
  "Fields s = fields_acc s []"

text \<open>\<^verbatim>\<open>strings.ReplaceAll\<close> for a non-empty old string: left to right, not overlapping.\<close>

fun ReplaceAll :: "string \<Rightarrow> string \<Rightarrow> string \<Rightarrow> string" where
  "ReplaceAll [] old new = []"
| "ReplaceAll (c # s) old new =
     (if old \<noteq> [] \<and> HasPrefix (c # s) old then new @ ReplaceAll (drop (length old - 1) s) old new
      else c # ReplaceAll s old new)"

lemma Split_nonempty [simp]: "Split s sep \<noteq> []"
  by (induction s) (auto split: list.split)

lemma Join_Cons: "ps \<noteq> [] \<Longrightarrow> Join (p # ps) sep = p @ sep @ Join ps sep"
  by (cases ps) simp_all

lemma Join_Cons_head: "Join ((c # p) # ps) sep = c # Join (p # ps) sep"
  by (cases ps) simp_all

lemma Join_Split: "Join (Split s sep) [sep] = s"
proof (induction s)
  case (Cons c s)
  then show ?case
    by (cases "Split s sep") (simp_all add: Join_Cons Join_Cons_head del: Join.simps(3))
qed simp

lemma Split_no_sep: "sep \<notin> set s \<Longrightarrow> Split s sep = [s]"
  by (induction s) auto

lemma Split_parts_no_sep: "p \<in> set (Split s sep) \<Longrightarrow> sep \<notin> set p"
proof (induction s arbitrary: p)
  case (Cons c s)
  then show ?case by (cases "Split s sep") (auto split: if_splits)
qed simp

definition word_like :: "string \<Rightarrow> bool" where
  "word_like f \<longleftrightarrow> f \<noteq> [] \<and> (\<forall>c \<in> set f. \<not> is_space c)"

lemma fields_acc_word_like:
  "(\<forall>c \<in> set w. \<not> is_space c) \<Longrightarrow> f \<in> set (fields_acc s w) \<Longrightarrow> word_like f"
proof (induction s arbitrary: w)
  case Nil
  then show ?case by (simp add: word_like_def split: if_splits)
next
  case (Cons c s)
  show ?case
  proof (cases "is_space c")
    case True
    with Cons.prems have "f = rev w \<and> w \<noteq> [] \<or> f \<in> set (fields_acc s [])" by (simp split: if_splits)
    with Cons.prems(1) Cons.IH [of "[]"] show ?thesis by (auto simp: word_like_def)
  next
    case False
    with Cons.prems have "f \<in> set (fields_acc s (c # w))" "\<forall>x \<in> set (c # w). \<not> is_space x" by simp_all
    then show ?thesis using Cons.IH by blast
  qed
qed

lemma Fields_word_like: "f \<in> set (Fields s) \<Longrightarrow> word_like f"
  unfolding Fields_def by (rule fields_acc_word_like [of "[]"]) simp_all

text \<open>Doubling one byte, the form every quoting function of the code uses.\<close>

lemma ReplaceAll_double:
  "ReplaceAll s [q] [q, q] = concat (map (\<lambda>c. if c = q then [q, q] else [c]) s)"
  by (induction s) (auto simp: HasPrefix_def)

subsection \<open>Numbers\<close>

definition digit_val :: "char \<Rightarrow> int" where
  "digit_val c = of_char c - 48"

fun digits_val :: "int \<Rightarrow> string \<Rightarrow> int option" where
  "digits_val acc [] = Some acc"
| "digits_val acc (c # s) = (if is_digit c then digits_val (10 * acc + digit_val c) s else None)"

text \<open>\<^verbatim>\<open>strconv.Atoi\<close>: an optional sign, at least one digit, and the value fits in 64 bits.\<close>

definition Atoi :: "string \<Rightarrow> int option" where
  "Atoi s =
     (let neg = HasPrefix s ''-'';
          ds = (if neg \<or> HasPrefix s ''+'' then tl s else s)
      in if ds = [] then None
         else case digits_val 0 ds of
                None \<Rightarrow> None
              | Some n \<Rightarrow>
                  (let v = (if neg then - n else n)
                   in if min_int64 \<le> v \<and> v \<le> max_int64 then Some v else None))"

lemma Atoi_range: "Atoi s = Some v \<Longrightarrow> min_int64 \<le> v \<and> v \<le> max_int64"
  by (auto simp: Atoi_def Let_def split: if_splits option.splits)

subsection \<open>Qualified object keys\<close>

text \<open>
  \<^verbatim>\<open>fmt.Sprintf("%s.%s.%s", db, schema, name)\<close> with a case mapping on every part: the shape of
  \<^verbatim>\<open>qualifiedName\<close>, \<^verbatim>\<open>streamKey\<close>, \<^verbatim>\<open>taskKey\<close>, \<^verbatim>\<open>pipeKey\<close>, \<^verbatim>\<open>tagKey\<close> and their kin.
\<close>

definition dotted :: "string \<Rightarrow> string \<Rightarrow> string \<Rightarrow> string" where
  "dotted db schema name = db @ ''.'' @ schema @ ''.'' @ name"

definition dot_free :: "string \<Rightarrow> bool" where
  "dot_free s \<longleftrightarrow> CHR ''.'' \<notin> set s"

lemma dot_free_case [simp]: "dot_free (ToUpper s) = dot_free s" "dot_free (ToLower s) = dot_free s"
  by (simp_all add: dot_free_def)

lemma dot_split_inj:
  "dot_free a \<Longrightarrow> dot_free a' \<Longrightarrow> a @ ''.'' @ r = a' @ ''.'' @ r' \<Longrightarrow> a = a' \<and> r = r'"
proof (induction a arbitrary: a')
  case Nil
  then show ?case by (cases a') (auto simp: dot_free_def)
next
  case (Cons c a)
  then obtain d b where a': "a' = d # b" by (cases a') (auto simp: dot_free_def)
  with Cons.prems have "dot_free a" "dot_free b" "a @ ''.'' @ r = b @ ''.'' @ r'" "c = d"
    by (auto simp: dot_free_def)
  with Cons.IH a' show ?case by blast
qed

lemma dotted_inj:
  assumes "dot_free db" "dot_free db'" "dot_free schema" "dot_free schema'"
  shows "dotted db schema name = dotted db' schema' name' \<longleftrightarrow>
           db = db' \<and> schema = schema' \<and> name = name'"
  unfolding dotted_def using assms by (metis dot_split_inj)

lemma ToUpper_dotted [key_simps]:
  "ToUpper (dotted db schema name) = dotted (ToUpper db) (ToUpper schema) (ToUpper name)"
  by (simp add: dotted_def) (simp add: ToUpper_def upper_char_def)

lemma ToLower_dotted [key_simps]:
  "ToLower (dotted db schema name) = dotted (ToLower db) (ToLower schema) (ToLower name)"
  by (simp add: dotted_def) (simp add: ToLower_def lower_char_def)

text \<open>Listing by key prefix, as \<^verbatim>\<open>ShowSequences\<close> and the like do, finds exactly the objects of the schema.\<close>

lemma HasPrefix_dotted:
  assumes "dot_free db" "dot_free db'" "dot_free schema" "dot_free schema'"
  shows "HasPrefix (dotted db schema name) (db' @ ''.'' @ schema' @ ''.'') \<longleftrightarrow> db = db' \<and> schema = schema'"
proof
  assume "HasPrefix (dotted db schema name) (db' @ ''.'' @ schema' @ ''.'')"
  then obtain t where "db @ ''.'' @ schema @ ''.'' @ name = db' @ ''.'' @ schema' @ ''.'' @ t"
    by (auto simp: HasPrefix_iff dotted_def)
  with assms show "db = db' \<and> schema = schema'" by (blast dest: dot_split_inj)
qed (auto simp: HasPrefix_iff dotted_def)

end
