(* ===== verification/Session.thy ===== *)
theory Session
  imports Go_Strings
begin

text \<open>
  \<^verbatim>\<open>internal/session/session.go\<close>: the sessions the server hands out, keyed by token, with the
  four-hour expiry and the random UUIDs that serve as session ids and tokens. The operations run
  under the manager's mutex, so each is one function on the manager's state; the random bytes of
  \<^verbatim>\<open>crypto/rand\<close> and the clock are arguments.
\<close>

unbundle bit_operations_syntax

subsection \<open>State\<close>

definition sessionTimeout :: duration where
  "sessionTimeout = 4 * hour"

record Session =
  sess_ID :: string
  sess_Token :: string
  sess_Database :: string
  sess_Schema :: string
  sess_Warehouse :: string
  sess_Role :: string
  sess_User :: string
  sess_CreatedAt :: time
  sess_LastActiveAt :: time

record session_Manager =
  sessions :: "string \<rightharpoonup> Session"

definition session_NewManager :: session_Manager where
  "session_NewManager = \<lparr>sessions = Map.empty\<rparr>"

subsection \<open>UUIDs\<close>

definition hex_digit :: "nat \<Rightarrow> char" where
  "hex_digit n = ''0123456789abcdef'' ! n"

definition hex_byte :: "8 word \<Rightarrow> string" where
  "hex_byte b = [hex_digit (unat (drop_bit 4 b)), hex_digit (unat (b AND 15))]"

definition hex_bytes :: "8 word list \<Rightarrow> string" where
  "hex_bytes bs = concat (map hex_byte bs)"

definition slice :: "nat \<Rightarrow> nat \<Rightarrow> 'a list \<Rightarrow> 'a list" where
  "slice i j xs = take (j - i) (drop i xs)"

text \<open>The two masked bytes of a version 4 UUID.\<close>

definition uuid_bytes :: "8 word list \<Rightarrow> 8 word list" where
  "uuid_bytes buf =
     (let b6 = buf[6 := ((buf ! 6) AND 0x0f) OR 0x40]
      in b6[8 := ((b6 ! 8) AND 0x3f) OR 0x80])"

text \<open>\<open>buf\<close> stands for the 16 bytes \<^verbatim>\<open>rand.Read\<close> delivers.\<close>

definition generateUUID :: "8 word list \<Rightarrow> string" where
  "generateUUID buf =
     (let b = uuid_bytes buf
      in hex_bytes (slice 0 4 b) @ ''-'' @ hex_bytes (slice 4 6 b) @ ''-'' @ hex_bytes (slice 6 8 b)
         @ ''-'' @ hex_bytes (slice 8 10 b) @ ''-'' @ hex_bytes (slice 10 16 b))"

subsection \<open>Operations\<close>

definition CreateSession ::
  "session_Manager \<Rightarrow> 8 word list \<Rightarrow> 8 word list \<Rightarrow> time \<Rightarrow>
   string \<Rightarrow> string \<Rightarrow> string \<Rightarrow> string \<Rightarrow> string \<Rightarrow> Session \<times> session_Manager" where
  "CreateSession m rid rtok now user database schema warehouse role =
     (let database = (if database = '''' then ''miniflake'' else database);
          schema = (if schema = '''' then ''main'' else schema);
          s = \<lparr>sess_ID = generateUUID rid, sess_Token = generateUUID rtok,
               sess_Database = database, sess_Schema = schema, sess_Warehouse = warehouse,
               sess_Role = role, sess_User = user, sess_CreatedAt = now, sess_LastActiveAt = now\<rparr>
      in (s, m\<lparr>sessions := (sessions m)(sess_Token s \<mapsto> s)\<rparr>))"

definition GetSession :: "session_Manager \<Rightarrow> string \<Rightarrow> Session option" where
  "GetSession m token = sessions m token"

definition DeleteSession :: "session_Manager \<Rightarrow> string \<Rightarrow> session_Manager" where
  "DeleteSession m token = m\<lparr>sessions := (sessions m)(token := None)\<rparr>"

definition session_Reset :: "session_Manager \<Rightarrow> session_Manager" where
  "session_Reset m = m\<lparr>sessions := Map.empty\<rparr>"

definition UpdateActivity :: "session_Manager \<Rightarrow> time \<Rightarrow> string \<Rightarrow> session_Manager" where
  "UpdateActivity m now token =
     (case sessions m token of
        None \<Rightarrow> m
      | Some s \<Rightarrow> m\<lparr>sessions := (sessions m)(token \<mapsto> s\<lparr>sess_LastActiveAt := now\<rparr>)\<rparr>)"

text \<open>\<^verbatim>\<open>expireLoop\<close>: what one tick of the ticker does, visiting the sessions in the order \<open>ks\<close>.\<close>

definition expire_one :: "time \<Rightarrow> session_Manager \<Rightarrow> string \<Rightarrow> session_Manager" where
  "expire_one now m token =
     (case sessions m token of
        None \<Rightarrow> m
      | Some s \<Rightarrow>
          if now - sess_LastActiveAt s > sessionTimeout
          then m\<lparr>sessions := (sessions m)(token := None)\<rparr> else m)"

definition expire_tick :: "session_Manager \<Rightarrow> string list \<Rightarrow> time \<Rightarrow> session_Manager" where
  "expire_tick m ks now = foldl (expire_one now) m ks"

subsection \<open>The manager as a state machine\<close>

inductive session_step :: "session_Manager \<Rightarrow> session_Manager \<Rightarrow> bool" where
  create: "CreateSession m rid rtok now user database schema warehouse role = (s, m') \<Longrightarrow>
     length rid = 16 \<Longrightarrow> length rtok = 16 \<Longrightarrow> session_step m m'"
| delete: "session_step m (DeleteSession m token)"
| reset: "session_step m (session_Reset m)"
| touch: "session_step m (UpdateActivity m now token)"
| tick: "range_order (sessions m) ks \<Longrightarrow> session_step m (expire_tick m ks now)"

inductive session_reachable :: "session_Manager \<Rightarrow> bool" where
  start: "session_reachable session_NewManager"
| step: "session_reachable m \<Longrightarrow> session_step m m' \<Longrightarrow> session_reachable m'"

definition session_ok :: "string \<Rightarrow> Session \<Rightarrow> bool" where
  "session_ok token s \<longleftrightarrow>
     sess_Token s = token \<and> sess_Database s \<noteq> '''' \<and> sess_Schema s \<noteq> ''''"

definition session_inv :: "session_Manager \<Rightarrow> bool" where
  "session_inv m \<longleftrightarrow> (\<forall>token s. sessions m token = Some s \<longrightarrow> session_ok token s)"

subsection \<open>Expiry\<close>

lemma sessions_expire_one:
  "sessions (expire_one now m token) k =
     (if k = token then Option.bind (sessions m k)
        (\<lambda>s. if now - sess_LastActiveAt s > sessionTimeout then None else Some s)
      else sessions m k)"
  by (auto simp: expire_one_def split: option.split)

lemma sessions_expire_fold:
  "distinct ks \<Longrightarrow> sessions (foldl (expire_one now) m ks) k =
     (if k \<in> set ks then Option.bind (sessions m k)
        (\<lambda>s. if now - sess_LastActiveAt s > sessionTimeout then None else Some s)
      else sessions m k)"
  by (induction ks arbitrary: m) (auto simp: sessions_expire_one)

lemma sessions_expire_tick:
  assumes "range_order (sessions m) ks"
  shows "sessions (expire_tick m ks now) k = Option.bind (sessions m k)
     (\<lambda>s. if now - sess_LastActiveAt s > sessionTimeout then None else Some s)"
proof (cases "k \<in> set ks")
  case True
  then show ?thesis
    using assms by (simp add: expire_tick_def sessions_expire_fold range_order_distinct)
next
  case False
  then have "sessions m k = None" using assms by (auto simp: range_order_def)
  with False show ?thesis
    using assms by (simp add: expire_tick_def sessions_expire_fold range_order_distinct)
qed

subsection \<open>The invariant\<close>

lemma session_inv_init: "session_inv session_NewManager"
  by (simp add: session_inv_def session_NewManager_def)

lemma session_inv_create:
  "session_inv m \<Longrightarrow> CreateSession m rid rtok now u d sc w r = (s, m') \<Longrightarrow> session_inv m'"
  by (auto simp: session_inv_def session_ok_def CreateSession_def Let_def split: if_splits)

lemma session_inv_delete: "session_inv m \<Longrightarrow> session_inv (DeleteSession m token)"
  by (simp add: session_inv_def DeleteSession_def)

lemma session_inv_reset: "session_inv (session_Reset m)"
  by (simp add: session_inv_def session_Reset_def)

lemma session_inv_touch: "session_inv m \<Longrightarrow> session_inv (UpdateActivity m now token)"
  by (auto simp: session_inv_def session_ok_def UpdateActivity_def split: option.splits)

lemma session_inv_tick:
  "session_inv m \<Longrightarrow> range_order (sessions m) ks \<Longrightarrow> session_inv (expire_tick m ks now)"
  by (auto simp: session_inv_def sessions_expire_tick bind_eq_Some_conv split: if_splits)

lemmas session_inv_ops = session_inv_create session_inv_delete session_inv_reset
  session_inv_touch session_inv_tick

lemma session_step_inv: "session_step m m' \<Longrightarrow> session_inv m \<Longrightarrow> session_inv m'"
  by (induction rule: session_step.induct) (auto intro: session_inv_ops)

subsection \<open>The UUID format\<close>

lemma slice_length [simp]: "j \<le> length xs \<Longrightarrow> length (slice i j xs) = j - i"
  by (simp add: slice_def)

lemma length_hex_bytes [simp]: "length (hex_bytes bs) = 2 * length bs"
  by (induction bs) (simp_all add: hex_bytes_def hex_byte_def)

lemma length_uuid_bytes [simp]: "length (uuid_bytes buf) = length buf"
  by (simp add: uuid_bytes_def Let_def)

lemma version_byte: "drop_bit 4 ((b AND 0x0f) OR 0x40) = (4 :: 8 word)"
  by (rule bit_word_eqI) (auto simp: bit_simps less_Suc_eq numeral_eq_Suc)

lemma low_two_bits: "x AND 3 \<in> {0, 1, 2, 3 :: 8 word}"
proof -
  have "unat (x AND 3) \<le> unat (3 :: 8 word)"
    by (rule word_and_le1 [THEN word_le_nat_alt [THEN iffD1]])
  then have "unat (x AND 3) \<in> {0, 1, 2, 3}" by auto
  then show ?thesis by (auto simp: unat_arith_simps)
qed

lemma variant_byte: "drop_bit 4 ((b AND 0x3f) OR 0x80 :: 8 word) \<in> {8, 9, 10, 11}"
proof -
  have "drop_bit 4 ((b AND 0x3f) OR 0x80) = (drop_bit 4 b AND 3) OR (8 :: 8 word)"
    by (rule bit_word_eqI) (auto simp: bit_simps less_Suc_eq numeral_eq_Suc)
  moreover have "drop_bit 4 b AND 3 \<in> {0, 1, 2, 3 :: 8 word}" by (rule low_two_bits)
  ultimately show ?thesis by auto
qed

lemma generateUUID_chars:
  assumes "length buf = 16"
  shows "length (generateUUID buf) = 36"
    and "\<forall>i \<in> {8, 13, 18, 23}. generateUUID buf ! i = CHR ''-''"
    and "generateUUID buf ! 14 = hex_digit (unat (drop_bit 4 ((buf ! 6 AND 0x0f) OR 0x40)))"
    and "generateUUID buf ! 19 = hex_digit (unat (drop_bit 4 ((buf ! 8 AND 0x3f) OR 0x80)))"
proof -
  obtain b0 b1 b2 b3 b4 b5 b6 b7 b8 b9 b10 b11 b12 b13 b14 b15 where
    buf: "buf = [b0, b1, b2, b3, b4, b5, b6, b7, b8, b9, b10, b11, b12, b13, b14, b15]"
    using assms by (auto simp: numeral_eq_Suc length_Suc_conv)
  note eval = generateUUID_def uuid_bytes_def hex_bytes_def hex_byte_def slice_def
  show "length (generateUUID buf) = 36" by (simp add: buf eval)
  show "\<forall>i \<in> {8, 13, 18, 23}. generateUUID buf ! i = CHR ''-''" by (simp add: buf eval)
  show "generateUUID buf ! 14 = hex_digit (unat (drop_bit 4 ((buf ! 6 AND 0x0f) OR 0x40)))"
    by (simp add: buf eval)
  show "generateUUID buf ! 19 = hex_digit (unat (drop_bit 4 ((buf ! 8 AND 0x3f) OR 0x80)))"
    by (simp add: buf eval)
qed

text \<open>
  Every id and token is a version 4 UUID: 36 characters with dashes at the four fixed places,
  the version digit 4, and a variant digit among 8, 9, a, b, whatever bytes the random source gave.
\<close>

theorem generateUUID_v4:
  assumes "length buf = 16"
  shows "length (generateUUID buf) = 36 \<and>
     (\<forall>i \<in> {8, 13, 18, 23}. generateUUID buf ! i = CHR ''-'') \<and>
     generateUUID buf ! 14 = CHR ''4'' \<and> generateUUID buf ! 19 \<in> set ''89ab''"
proof -
  have "generateUUID buf ! 14 = CHR ''4''"
    unfolding generateUUID_chars(3) [OF assms] version_byte by (simp add: hex_digit_def)
  moreover have "generateUUID buf ! 19 \<in> set ''89ab''"
    unfolding generateUUID_chars(4) [OF assms]
    using variant_byte [of "buf ! 8"] by (auto simp: hex_digit_def)
  ultimately show ?thesis using generateUUID_chars(1,2) [OF assms] by blast
qed

theorem generateUUID_v4_witness:
  "length (replicate 16 (255 :: 8 word)) = 16 \<and>
   generateUUID (replicate 16 255) ! 14 = CHR ''4'' \<and>
   generateUUID (replicate 16 255) ! 19 \<in> set ''89ab''"
proof -
  have "length (replicate 16 (255 :: 8 word)) = 16" by simp
  then show ?thesis using generateUUID_v4 [of "replicate 16 255"] by blast
qed

text \<open>
  In every state the manager can reach, a session is filed under its own token and names a
  database and a schema, so the subsystems that key their state by both never see empty parts.
\<close>

theorem session_reachable_inv:
  assumes "session_reachable m" and "GetSession m token = Some s"
  shows "sess_Token s = token \<and> sess_Database s \<noteq> '''' \<and> sess_Schema s \<noteq> ''''"
proof -
  from assms(1) have "session_inv m"
    by (induction rule: session_reachable.induct) (auto intro: session_inv_init session_step_inv)
  with assms(2) show ?thesis by (simp add: session_inv_def session_ok_def GetSession_def)
qed

definition uuid_example_manager :: session_Manager where
  "uuid_example_manager =
     snd (CreateSession session_NewManager (replicate 16 0) (replicate 16 7) 0
            ''ann'' '''' '''' ''WH'' ''SYSADMIN'')"

lemma uuid_example_get:
  "GetSession uuid_example_manager (generateUUID (replicate 16 7)) =
     Some \<lparr>sess_ID = generateUUID (replicate 16 0), sess_Token = generateUUID (replicate 16 7),
           sess_Database = ''miniflake'', sess_Schema = ''main'', sess_Warehouse = ''WH'',
           sess_Role = ''SYSADMIN'', sess_User = ''ann'', sess_CreatedAt = 0, sess_LastActiveAt = 0\<rparr>"
  by (simp add: uuid_example_manager_def GetSession_def CreateSession_def Let_def)

lemma uuid_example_reachable: "session_reachable uuid_example_manager"
proof (rule session_reachable.step [OF session_reachable.start])
  show "session_step session_NewManager uuid_example_manager"
    unfolding uuid_example_manager_def
    by (rule session_step.create [of _ "replicate 16 0" "replicate 16 7" 0 "''ann''" "''''" "''''"
          "''WH''" "''SYSADMIN''" "fst (CreateSession session_NewManager (replicate 16 0) (replicate 16 7)
            0 ''ann'' '''' '''' ''WH'' ''SYSADMIN'')"]) simp_all
qed

theorem session_reachable_inv_witness:
  "session_reachable uuid_example_manager \<and>
   (\<exists>s. GetSession uuid_example_manager (generateUUID (replicate 16 7)) = Some s \<and>
        sess_Token s = generateUUID (replicate 16 7) \<and> sess_Database s \<noteq> '''' \<and> sess_Schema s \<noteq> '''')"
  using uuid_example_reachable uuid_example_get
    session_reachable_inv [OF uuid_example_reachable uuid_example_get] by blast

text \<open>
  One pass of the expiry loop, in whatever order it visits the sessions, removes exactly the
  sessions idle for more than four hours and leaves the others as they were.
\<close>

theorem expire_tick_exact:
  assumes "range_order (sessions m) ks"
  shows "GetSession (expire_tick m ks now) token =
     (case GetSession m token of
        None \<Rightarrow> None
      | Some s \<Rightarrow> if now - sess_LastActiveAt s \<le> 4 * 3600 * 1000000000 then Some s else None)"
  by (auto simp: GetSession_def sessions_expire_tick [OF assms] sessionTimeout_def duration_defs
      split: option.split)

theorem expire_tick_exact_witness:
  "range_order (sessions uuid_example_manager) [generateUUID (replicate 16 7)] \<and>
   GetSession (expire_tick uuid_example_manager [generateUUID (replicate 16 7)] (4 * hour + 1))
     (generateUUID (replicate 16 7)) = None"
proof -
  have order: "range_order (sessions uuid_example_manager) [generateUUID (replicate 16 7)]"
    by (simp add: range_order_def uuid_example_manager_def CreateSession_def session_NewManager_def
        Let_def)
  show ?thesis
    using order expire_tick_exact [OF order, of "4 * hour + 1" "generateUUID (replicate 16 7)"]
    by (simp add: uuid_example_get duration_defs)
qed

end
