(* ===== verification/Registry.thy ===== *)
theory Registry
  imports Go_Strings
begin

text \<open>
  The contract most subsystems share: a store of objects filed under a key computed from a name,
  with \<^verbatim>\<open>Create\<close> refusing a taken key, \<^verbatim>\<open>Drop\<close> refusing a free one, and both leaving every other
  object alone. The locale states what a provider promises; its lemmas are what the callers rely
  on, up to a refinement: any history of create and drop calls acts on the store like the same
  history on a plain map. The subsystem theories interpret it on their own operations.
\<close>

datatype ('n, 'a) reg_op = RegCreate 'n 'a | RegDrop 'n

text \<open>A history of calls whose errors the client ignores; a refused call leaves the store as it was.\<close>

fun reg_run ::
  "('s \<Rightarrow> 'n \<Rightarrow> 'a \<Rightarrow> 's result) \<Rightarrow> ('s \<Rightarrow> 'n \<Rightarrow> 's result) \<Rightarrow> 's \<Rightarrow> ('n, 'a) reg_op list \<Rightarrow> 's"
where
  "reg_run create remove s [] = s"
| "reg_run create remove s (RegCreate n a # ops) = reg_run create remove (ignore_error s (create s n a)) ops"
| "reg_run create remove s (RegDrop n # ops) = reg_run create remove (ignore_error s (remove s n)) ops"

text \<open>The abstract specification: the same history on a map.\<close>

fun spec_run ::
  "('n \<Rightarrow> 'k) \<Rightarrow> ('n \<Rightarrow> 'a \<Rightarrow> 'v) \<Rightarrow> ('n \<Rightarrow> 'a \<Rightarrow> bool) \<Rightarrow> ('k \<rightharpoonup> 'v) \<Rightarrow> ('n, 'a) reg_op list \<Rightarrow> ('k \<rightharpoonup> 'v)"
where
  "spec_run key entry valid m [] = m"
| "spec_run key entry valid m (RegCreate n a # ops) =
     spec_run key entry valid (if m (key n) = None \<and> valid n a then m(key n \<mapsto> entry n a) else m) ops"
| "spec_run key entry valid m (RegDrop n # ops) = spec_run key entry valid (m(key n := None)) ops"

locale registry =
  fixes lookup :: "'s \<Rightarrow> 'k \<Rightarrow> 'v option"
    and create :: "'s \<Rightarrow> 'n \<Rightarrow> 'a \<Rightarrow> 's result"
    and remove :: "'s \<Rightarrow> 'n \<Rightarrow> 's result"
    and key :: "'n \<Rightarrow> 'k"
    and entry :: "'n \<Rightarrow> 'a \<Rightarrow> 'v"
    and valid :: "'n \<Rightarrow> 'a \<Rightarrow> bool"
  assumes create_ok: "create s n a = Inr s' \<Longrightarrow>
      lookup s (key n) = None \<and> valid n a \<and> lookup s' = (lookup s)(key n \<mapsto> entry n a)"
    and create_free: "lookup s (key n) = None \<Longrightarrow> valid n a \<Longrightarrow> is_ok (create s n a)"
    and remove_ok: "remove s n = Inr s' \<Longrightarrow>
      lookup s (key n) \<noteq> None \<and> lookup s' = (lookup s)(key n := None)"
    and remove_taken: "lookup s (key n) \<noteq> None \<Longrightarrow> is_ok (remove s n)"
begin

lemma create_iff: "is_ok (create s n a) \<longleftrightarrow> lookup s (key n) = None \<and> valid n a"
  using create_ok create_free by (auto simp: is_ok_iff)

lemma remove_iff: "is_ok (remove s n) \<longleftrightarrow> lookup s (key n) \<noteq> None"
  using remove_ok remove_taken by (auto simp: is_ok_iff)

lemma lookup_create:
  "lookup (ignore_error s (create s n a)) =
     (if lookup s (key n) = None \<and> valid n a then (lookup s)(key n \<mapsto> entry n a) else lookup s)"
  using create_iff [of s n a] create_ok [of s n a] by (cases "create s n a") auto

lemma lookup_remove: "lookup (ignore_error s (remove s n)) = (lookup s)(key n := None)"
  using remove_iff [of s n] remove_ok [of s n] by (cases "remove s n") auto

lemma create_then_get: "create s n a = Inr s' \<Longrightarrow> lookup s' (key n) = Some (entry n a)"
  by (drule create_ok) simp

lemma create_keeps_others: "create s n a = Inr s' \<Longrightarrow> k \<noteq> key n \<Longrightarrow> lookup s' k = lookup s k"
  by (drule create_ok) simp

lemma remove_keeps_others: "remove s n = Inr s' \<Longrightarrow> k \<noteq> key n \<Longrightarrow> lookup s' k = lookup s k"
  by (drule remove_ok) simp

lemma create_twice_refused:
  assumes "create s n a = Inr s'" and "key n' = key n"
  shows "\<not> is_ok (create s' n' b)"
  using assms create_then_get [OF assms(1)] by (simp add: create_iff)

lemma remove_after_create:
  assumes "create s n a = Inr s'"
  shows "\<exists>s''. remove s' n = Inr s'' \<and> lookup s'' = lookup s"
proof -
  from assms have get: "lookup s' (key n) \<noteq> None" by (simp add: create_then_get)
  then obtain s'' where s'': "remove s' n = Inr s''" using remove_iff is_ok_iff by metis
  from create_ok [OF assms] have "lookup s (key n) = None"
    and s': "lookup s' = (lookup s)(key n \<mapsto> entry n a)" by simp_all
  then have "(lookup s')(key n := None) = lookup s" by (simp add: fun_upd_idem)
  with remove_ok [OF s''] have "lookup s'' = lookup s" by simp
  with s'' show ?thesis by blast
qed

lemma remove_twice_refused: "remove s n = Inr s' \<Longrightarrow> \<not> is_ok (remove s' n)"
  by (drule remove_ok) (simp add: remove_iff)

text \<open>The refinement: a store under any history is the map under that history.\<close>

lemma run_refines_spec:
  "lookup (reg_run create remove s ops) = spec_run key entry valid (lookup s) ops"
proof (induction ops arbitrary: s)
  case (Cons op ops)
  show ?case
  proof (cases op)
    case (RegCreate n a)
    with Cons.IH show ?thesis by (simp add: lookup_create)
  next
    case (RegDrop n)
    then show ?thesis by (simp only: reg_run.simps spec_run.simps lookup_remove Cons.IH)
  qed
qed simp

end

text \<open>A subsystem that can be wiped: whatever happened before, a reset leaves the state of a fresh start.\<close>

locale resettable =
  fixes reset :: "'s \<Rightarrow> 's" and fresh :: "'s"
  assumes reset_fresh: "reset s = fresh"
begin

lemma reset_forgets: "reset s = reset s'"
  by (simp add: reset_fresh)

lemma reset_idem: "reset (reset s) = reset s"
  by (simp add: reset_fresh)

end

end
