(* ===== verification/Catalog.thy ===== *)
theory Catalog
  imports Registry
begin

text \<open>
  \<^verbatim>\<open>internal/catalog/catalog.go\<close>: the account's databases, schemas, tables and warehouses. Names
  are case-insensitive: every operation files and looks up under the upper-cased name. The views,
  stages, streams, tasks and pipes of a schema are metadata slots that this package creates empty
  and never fills. Listing and SHOW operations range over maps, so they take the visiting order.
\<close>

subsection \<open>State\<close>

record ColumnMeta =
  col_Name :: string
  col_Type :: string
  col_Nullable :: bool
  col_Default :: string
  col_Comment :: string

record TableMeta =
  tbl_Name :: string
  tbl_Columns :: "ColumnMeta list"
  tbl_ClusterBy :: "string list"
  tbl_Comment :: string
  tbl_IsTemporary :: bool
  tbl_IsTransient :: bool
  tbl_CreatedAt :: "time option"
  tbl_Owner :: string

record ViewMeta =
  view_Name :: string
  view_Definition :: string
  view_Columns :: "ColumnMeta list"
  view_CreatedAt :: time

record cat_StageMeta =
  cstage_Name :: string
  cstage_StageType :: string
  cstage_URL :: string
  cstage_CreatedAt :: time

record StreamMeta =
  cstream_Name :: string
  cstream_TableName :: string
  cstream_CreatedAt :: time

record TaskMeta =
  ctask_Name :: string
  ctask_Definition :: string
  ctask_Schedule :: string
  ctask_State :: string
  ctask_CreatedAt :: time

record PipeMeta =
  cpipe_Name :: string
  cpipe_Definition :: string
  cpipe_CreatedAt :: time

record Schema =
  sch_Name :: string
  sch_Tables :: "string \<rightharpoonup> TableMeta"
  sch_Views :: "string \<rightharpoonup> ViewMeta"
  sch_Stages :: "string \<rightharpoonup> cat_StageMeta"
  sch_Streams :: "string \<rightharpoonup> StreamMeta"
  sch_Tasks :: "string \<rightharpoonup> TaskMeta"
  sch_Pipes :: "string \<rightharpoonup> PipeMeta"
  sch_CreatedAt :: time
  sch_Owner :: string

record Database =
  db_Name :: string
  db_Schemas :: "string \<rightharpoonup> Schema"
  db_CreatedAt :: time
  db_Owner :: string

record Warehouse =
  wh_Name :: string
  wh_Size :: string
  wh_State :: string
  wh_AutoSuspend :: int
  wh_CreatedAt :: time

record Catalog =
  databases :: "string \<rightharpoonup> Database"
  warehouses :: "string \<rightharpoonup> Warehouse"

definition catalog_New :: Catalog where
  "catalog_New = \<lparr>databases = Map.empty, warehouses = Map.empty\<rparr>"

definition newSchema :: "time \<Rightarrow> string \<Rightarrow> string \<Rightarrow> Schema" where
  "newSchema now name owner =
     \<lparr>sch_Name = name, sch_Tables = Map.empty, sch_Views = Map.empty, sch_Stages = Map.empty,
      sch_Streams = Map.empty, sch_Tasks = Map.empty, sch_Pipes = Map.empty,
      sch_CreatedAt = now, sch_Owner = owner\<rparr>"

subsection \<open>Databases\<close>

definition new_database :: "time \<Rightarrow> string \<Rightarrow> string \<Rightarrow> Database" where
  "new_database now name owner =
     \<lparr>db_Name = ToUpper name,
      db_Schemas = [''PUBLIC'' \<mapsto> newSchema now ''PUBLIC'' owner,
                    ''INFORMATION_SCHEMA'' \<mapsto> newSchema now ''INFORMATION_SCHEMA'' ''''],
      db_CreatedAt = now, db_Owner = owner\<rparr>"

definition CreateDatabase :: "Catalog \<Rightarrow> time \<Rightarrow> string \<Rightarrow> string \<Rightarrow> Catalog result" where
  "CreateDatabase c now name owner =
     (let key = ToUpper name
      in if databases c key \<noteq> None then Err (AlreadyExists ''database'' key)
         else Ok (c\<lparr>databases := (databases c)(key \<mapsto> new_database now name owner)\<rparr>))"

definition DropDatabase :: "Catalog \<Rightarrow> string \<Rightarrow> Catalog result" where
  "DropDatabase c name =
     (let key = ToUpper name
      in if databases c key = None then Err (DoesNotExist ''database'' key)
         else Ok (c\<lparr>databases := (databases c)(key := None)\<rparr>))"

definition GetDatabase :: "Catalog \<Rightarrow> string \<Rightarrow> Database result" where
  "GetDatabase c name =
     (let key = ToUpper name
      in case databases c key of
           None \<Rightarrow> Err (DoesNotExist ''database'' key)
         | Some db \<Rightarrow> Ok db)"

definition ListDatabases :: "Catalog \<Rightarrow> string list \<Rightarrow> Database list" where
  "ListDatabases c ks = range_values (databases c) ks"

subsection \<open>Schemas\<close>

definition CreateSchema :: "Catalog \<Rightarrow> time \<Rightarrow> string \<Rightarrow> string \<Rightarrow> string \<Rightarrow> Catalog result" where
  "CreateSchema c now dbName schemaName owner =
     (let dbKey = ToUpper dbName
      in case databases c dbKey of
           None \<Rightarrow> Err (DoesNotExist ''database'' dbKey)
         | Some db \<Rightarrow>
             (let sKey = ToUpper schemaName
              in if db_Schemas db sKey \<noteq> None then Err (AlreadyExists ''schema'' sKey)
                 else Ok (c\<lparr>databases := (databases c)(dbKey \<mapsto>
                   db\<lparr>db_Schemas := (db_Schemas db)(sKey \<mapsto> newSchema now sKey owner)\<rparr>)\<rparr>)))"

definition DropSchema :: "Catalog \<Rightarrow> string \<Rightarrow> string \<Rightarrow> Catalog result" where
  "DropSchema c dbName schemaName =
     (let dbKey = ToUpper dbName
      in case databases c dbKey of
           None \<Rightarrow> Err (DoesNotExist ''database'' dbKey)
         | Some db \<Rightarrow>
             (let sKey = ToUpper schemaName
              in if db_Schemas db sKey = None then Err (DoesNotExist ''schema'' sKey)
                 else Ok (c\<lparr>databases := (databases c)(dbKey \<mapsto>
                   db\<lparr>db_Schemas := (db_Schemas db)(sKey := None)\<rparr>)\<rparr>)))"

definition getSchemaLocked :: "Catalog \<Rightarrow> string \<Rightarrow> string \<Rightarrow> Schema result" where
  "getSchemaLocked c dbName schemaName =
     (let dbKey = ToUpper dbName
      in case databases c dbKey of
           None \<Rightarrow> Err (DoesNotExist ''database'' dbKey)
         | Some db \<Rightarrow>
             (let sKey = ToUpper schemaName
              in case db_Schemas db sKey of
                   None \<Rightarrow> Err (DoesNotExist ''schema'' sKey)
                 | Some s \<Rightarrow> Ok s))"

definition getSchemaRLocked :: "Catalog \<Rightarrow> string \<Rightarrow> string \<Rightarrow> Schema result" where
  "getSchemaRLocked c dbName schemaName = getSchemaLocked c dbName schemaName"

text \<open>\<^verbatim>\<open>GetSchema\<close> repeats the lookup of \<^verbatim>\<open>getSchemaLocked\<close> under the read lock.\<close>

definition GetSchema :: "Catalog \<Rightarrow> string \<Rightarrow> string \<Rightarrow> Schema result" where
  "GetSchema c dbName schemaName =
     (let dbKey = ToUpper dbName
      in case databases c dbKey of
           None \<Rightarrow> Err (DoesNotExist ''database'' dbKey)
         | Some db \<Rightarrow>
             (let sKey = ToUpper schemaName
              in case db_Schemas db sKey of
                   None \<Rightarrow> Err (DoesNotExist ''schema'' sKey)
                 | Some s \<Rightarrow> Ok s))"

definition ListSchemas :: "Catalog \<Rightarrow> string \<Rightarrow> string list \<Rightarrow> Schema list result" where
  "ListSchemas c dbName ks =
     (let dbKey = ToUpper dbName
      in case databases c dbKey of
           None \<Rightarrow> Err (DoesNotExist ''database'' dbKey)
         | Some db \<Rightarrow> Ok (range_values (db_Schemas db) ks))"

subsection \<open>Tables\<close>

text \<open>
  The code mutates the schema a pointer reaches; here the updated schema is put back in its
  database, and the database in the catalog.
\<close>

definition put_schema :: "Catalog \<Rightarrow> string \<Rightarrow> string \<Rightarrow> Schema \<Rightarrow> Catalog" where
  "put_schema c dbName schemaName s =
     (case databases c (ToUpper dbName) of
        None \<Rightarrow> c
      | Some db \<Rightarrow> c\<lparr>databases := (databases c)(ToUpper dbName \<mapsto>
          db\<lparr>db_Schemas := (db_Schemas db)(ToUpper schemaName \<mapsto> s)\<rparr>)\<rparr>)"

definition RegisterTable :: "Catalog \<Rightarrow> time \<Rightarrow> string \<Rightarrow> string \<Rightarrow> TableMeta \<Rightarrow> Catalog result" where
  "RegisterTable c now dbName schemaName table =
     (case getSchemaLocked c dbName schemaName of
        Inl err \<Rightarrow> Err err
      | Inr s \<Rightarrow>
          (let key = ToUpper (tbl_Name table)
           in if sch_Tables s key \<noteq> None then Err (AlreadyExists ''table'' key)
              else
                let table = table\<lparr>tbl_Name := key\<rparr>;
                    table = (if tbl_CreatedAt table = None then table\<lparr>tbl_CreatedAt := Some now\<rparr> else table)
                in Ok (put_schema c dbName schemaName
                         (s\<lparr>sch_Tables := (sch_Tables s)(key \<mapsto> table)\<rparr>))))"

definition DropTable :: "Catalog \<Rightarrow> string \<Rightarrow> string \<Rightarrow> string \<Rightarrow> Catalog result" where
  "DropTable c dbName schemaName tableName =
     (case getSchemaLocked c dbName schemaName of
        Inl err \<Rightarrow> Err err
      | Inr s \<Rightarrow>
          (let key = ToUpper tableName
           in if sch_Tables s key = None then Err (DoesNotExist ''table'' key)
              else Ok (put_schema c dbName schemaName
                         (s\<lparr>sch_Tables := (sch_Tables s)(key := None)\<rparr>))))"

definition GetTable :: "Catalog \<Rightarrow> string \<Rightarrow> string \<Rightarrow> string \<Rightarrow> TableMeta result" where
  "GetTable c dbName schemaName tableName =
     (case getSchemaRLocked c dbName schemaName of
        Inl err \<Rightarrow> Err err
      | Inr s \<Rightarrow>
          (let key = ToUpper tableName
           in case sch_Tables s key of
                None \<Rightarrow> Err (DoesNotExist ''table'' key)
              | Some t \<Rightarrow> Ok t))"

definition ListTables :: "Catalog \<Rightarrow> string \<Rightarrow> string \<Rightarrow> string list \<Rightarrow> TableMeta list result" where
  "ListTables c dbName schemaName ks =
     (case getSchemaRLocked c dbName schemaName of
        Inl err \<Rightarrow> Err err
      | Inr s \<Rightarrow> Ok (range_values (sch_Tables s) ks))"

subsection \<open>Warehouses\<close>

definition new_warehouse :: "time \<Rightarrow> string \<Rightarrow> string \<Rightarrow> int \<Rightarrow> Warehouse" where
  "new_warehouse now name sz autoSuspend =
     \<lparr>wh_Name = ToUpper name, wh_Size = sz, wh_State = ''STARTED'',
      wh_AutoSuspend = autoSuspend, wh_CreatedAt = now\<rparr>"

definition CreateWarehouse :: "Catalog \<Rightarrow> time \<Rightarrow> string \<Rightarrow> string \<Rightarrow> int \<Rightarrow> Catalog result" where
  "CreateWarehouse c now name sz autoSuspend =
     (let key = ToUpper name
      in if warehouses c key \<noteq> None then Err (AlreadyExists ''warehouse'' key)
         else Ok (c\<lparr>warehouses := (warehouses c)(key \<mapsto> new_warehouse now name sz autoSuspend)\<rparr>))"

definition GetWarehouse :: "Catalog \<Rightarrow> string \<Rightarrow> Warehouse result" where
  "GetWarehouse c name =
     (let key = ToUpper name
      in case warehouses c key of
           None \<Rightarrow> Err (DoesNotExist ''warehouse'' key)
         | Some wh \<Rightarrow> Ok wh)"

definition ListWarehouses :: "Catalog \<Rightarrow> string list \<Rightarrow> Warehouse list" where
  "ListWarehouses c ks = range_values (warehouses c) ks"

subsection \<open>Initial state and reset\<close>

definition catalog_Init :: "Catalog \<Rightarrow> time \<Rightarrow> Catalog" where
  "catalog_Init c now =
     (let c = ignore_error c (CreateDatabase c now ''SNOWFLAKE_SAMPLE_DATA'' ''SYSADMIN'')
      in ignore_error c (CreateWarehouse c now ''COMPUTE_WH'' ''X-Small'' 600))"

definition catalog_Reset :: "time \<Rightarrow> Catalog \<Rightarrow> Catalog" where
  "catalog_Reset now c = catalog_Init (c\<lparr>databases := Map.empty, warehouses := Map.empty\<rparr>) now"

subsection \<open>SHOW helpers\<close>

text \<open>The cells of a SHOW row, by their Go type; times are printed by the parameter \<open>fmt\<close>.\<close>

datatype cell = StrCell string | IntCell int | BoolCell bool

definition ShowDatabases :: "(time \<Rightarrow> string) \<Rightarrow> Catalog \<Rightarrow> string list \<Rightarrow> cell list list" where
  "ShowDatabases fmt c ks =
     map (\<lambda>db. [StrCell (fmt (db_CreatedAt db)), StrCell (db_Name db), StrCell ''N'', StrCell ''N'',
                StrCell (db_Owner db), StrCell '''', StrCell '''', IntCell (int (card (dom (db_Schemas db))))])
       (range_values (databases c) ks)"

definition ShowSchemas :: "(time \<Rightarrow> string) \<Rightarrow> Catalog \<Rightarrow> string \<Rightarrow> string list \<Rightarrow> cell list list result" where
  "ShowSchemas fmt c dbName ks =
     (let dbKey = ToUpper dbName
      in case databases c dbKey of
           None \<Rightarrow> Err (DoesNotExist ''database'' dbKey)
         | Some db \<Rightarrow> Ok (map (\<lambda>s. [StrCell (fmt (sch_CreatedAt s)), StrCell (sch_Name s), StrCell ''N'',
             StrCell ''N'', StrCell dbKey, StrCell (sch_Owner s), StrCell '''', StrCell ''''])
             (range_values (db_Schemas db) ks)))"

definition table_kind :: "TableMeta \<Rightarrow> string" where
  "table_kind t = (if tbl_IsTransient t then ''TRANSIENT''
                   else if tbl_IsTemporary t then ''TEMPORARY'' else ''TABLE'')"

definition ShowTables ::
  "(time option \<Rightarrow> string) \<Rightarrow> Catalog \<Rightarrow> string \<Rightarrow> string \<Rightarrow> string list \<Rightarrow> cell list list result" where
  "ShowTables fmt c dbName schemaName ks =
     (case getSchemaRLocked c dbName schemaName of
        Inl err \<Rightarrow> Err err
      | Inr s \<Rightarrow> Ok (map (\<lambda>t. [StrCell (fmt (tbl_CreatedAt t)), StrCell (tbl_Name t),
          StrCell (ToUpper dbName), StrCell (ToUpper schemaName), StrCell (table_kind t),
          StrCell (tbl_Comment t), IntCell (int (length (tbl_Columns t))), StrCell (tbl_Owner t)])
          (range_values (sch_Tables s) ks)))"

definition ShowColumns :: "Catalog \<Rightarrow> string \<Rightarrow> string \<Rightarrow> string \<Rightarrow> cell list list result" where
  "ShowColumns c dbName schemaName tableName =
     (case getSchemaRLocked c dbName schemaName of
        Inl err \<Rightarrow> Err err
      | Inr s \<Rightarrow>
          (let tKey = ToUpper tableName
           in case sch_Tables s tKey of
                None \<Rightarrow> Err (DoesNotExist ''table'' tKey)
              | Some t \<Rightarrow> Ok (map (\<lambda>col. [StrCell (tbl_Name t), StrCell (col_Name col),
                  StrCell (col_Type col), BoolCell (col_Nullable col), StrCell (col_Default col),
                  StrCell (col_Comment col)]) (tbl_Columns t))))"

subsection \<open>Databases keep the registry contract\<close>

definition create_database :: "Catalog \<Rightarrow> string \<Rightarrow> time \<times> string \<Rightarrow> Catalog result" where
  "create_database c name a = CreateDatabase c (fst a) name (snd a)"

interpretation dbs: registry databases create_database DropDatabase ToUpper
    "\<lambda>name a. new_database (fst a) name (snd a)" "\<lambda>_ _. True"
  by unfold_locales
    (auto simp: create_database_def CreateDatabase_def DropDatabase_def Let_def is_ok_def split: if_splits)

interpretation cat_reset: resettable "catalog_Reset now" "catalog_Init catalog_New now"
proof unfold_locales
  fix c
  show "catalog_Reset now c = catalog_Init catalog_New now"
    by (cases c) (simp add: catalog_Reset_def catalog_New_def)
qed

subsection \<open>The path view of schemas and tables\<close>

text \<open>The abstract view the callers have: which schema, and which table, a path of upper-case keys names.\<close>

definition schema_at :: "Catalog \<Rightarrow> string \<times> string \<Rightarrow> Schema option" where
  "schema_at c p = Option.bind (databases c (fst p)) (\<lambda>db. db_Schemas db (snd p))"

definition table_at :: "Catalog \<Rightarrow> string \<times> string \<times> string \<Rightarrow> TableMeta option" where
  "table_at c p = Option.bind (schema_at c (fst p, fst (snd p))) (\<lambda>s. sch_Tables s (snd (snd p)))"

lemma getSchemaLocked_iff:
  "getSchemaLocked c d s = Inr x \<longleftrightarrow> schema_at c (ToUpper d, ToUpper s) = Some x"
  by (auto simp: getSchemaLocked_def schema_at_def Let_def split: option.splits)

lemma getSchemaLocked_Inl:
  "(\<exists>e. getSchemaLocked c d s = Inl e) \<longleftrightarrow> schema_at c (ToUpper d, ToUpper s) = None"
  by (auto simp: getSchemaLocked_def schema_at_def Let_def split: option.splits)

lemma GetSchema_eq: "GetSchema c d s = getSchemaLocked c d s"
  by (simp add: GetSchema_def getSchemaLocked_def)

lemma schema_at_put_schema:
  "schema_at c (ToUpper d, ToUpper s) = Some x \<Longrightarrow>
   schema_at (put_schema c d s y) = (schema_at c)((ToUpper d, ToUpper s) \<mapsto> y)"
  by (auto simp: schema_at_def put_schema_def fun_eq_iff bind_eq_Some_conv)

lemma table_at_put_schema:
  "schema_at c (ToUpper d, ToUpper s) = Some x \<Longrightarrow>
   table_at (put_schema c d s y) (a, b, t) =
     (if (a, b) = (ToUpper d, ToUpper s) then sch_Tables y t else table_at c (a, b, t))"
  by (simp add: table_at_def schema_at_put_schema)

definition registered :: "time \<Rightarrow> TableMeta \<Rightarrow> TableMeta" where
  "registered now t =
     t\<lparr>tbl_Name := ToUpper (tbl_Name t),
       tbl_CreatedAt := (case tbl_CreatedAt t of None \<Rightarrow> Some now | Some x \<Rightarrow> Some x)\<rparr>"

lemma RegisterTable_ok:
  "RegisterTable c now d s t = Inr c' \<Longrightarrow>
   schema_at c (ToUpper d, ToUpper s) \<noteq> None \<and>
   table_at c (ToUpper d, ToUpper s, ToUpper (tbl_Name t)) = None \<and>
   table_at c' = (table_at c)((ToUpper d, ToUpper s, ToUpper (tbl_Name t)) \<mapsto> registered now t)"
  by (auto simp: RegisterTable_def Let_def getSchemaLocked_iff table_at_put_schema registered_def
      table_at_def [of c] fun_eq_iff split: sum.splits if_splits option.splits)

lemma RegisterTable_free:
  "schema_at c (ToUpper d, ToUpper s) \<noteq> None \<Longrightarrow>
   table_at c (ToUpper d, ToUpper s, ToUpper (tbl_Name t)) = None \<Longrightarrow> is_ok (RegisterTable c now d s t)"
  using getSchemaLocked_Inl [of c d s]
  by (auto simp: RegisterTable_def Let_def table_at_def getSchemaLocked_iff is_ok_def split: sum.splits)

lemma DropTable_ok:
  "DropTable c d s t = Inr c' \<Longrightarrow>
   table_at c (ToUpper d, ToUpper s, ToUpper t) \<noteq> None \<and>
   table_at c' = (table_at c)((ToUpper d, ToUpper s, ToUpper t) := None)"
  by (auto simp: DropTable_def Let_def getSchemaLocked_iff table_at_put_schema
      table_at_def [of c] fun_eq_iff split: sum.splits if_splits option.splits)

lemma GetTable_eq:
  "GetTable c d s t = Inr x \<longleftrightarrow> table_at c (ToUpper d, ToUpper s, ToUpper t) = Some x"
  using getSchemaLocked_Inl [of c d s]
  by (auto simp: GetTable_def getSchemaRLocked_def table_at_def Let_def getSchemaLocked_iff
      split: sum.splits option.splits)

subsection \<open>Every object is filed under its own upper-case name\<close>

inductive catalog_step :: "Catalog \<Rightarrow> Catalog \<Rightarrow> bool" where
  create_db: "CreateDatabase c now n ow = Inr c' \<Longrightarrow> catalog_step c c'"
| drop_db: "DropDatabase c n = Inr c' \<Longrightarrow> catalog_step c c'"
| create_schema: "CreateSchema c now d s ow = Inr c' \<Longrightarrow> catalog_step c c'"
| drop_schema: "DropSchema c d s = Inr c' \<Longrightarrow> catalog_step c c'"
| register: "RegisterTable c now d s t = Inr c' \<Longrightarrow> catalog_step c c'"
| drop_table: "DropTable c d s n = Inr c' \<Longrightarrow> catalog_step c c'"
| create_wh: "CreateWarehouse c now n sz a = Inr c' \<Longrightarrow> catalog_step c c'"
| reset: "catalog_step c (catalog_Reset now c)"

inductive catalog_reachable :: "Catalog \<Rightarrow> bool" where
  start: "catalog_reachable (catalog_Init catalog_New now)"
| step: "catalog_reachable c \<Longrightarrow> catalog_step c c' \<Longrightarrow> catalog_reachable c'"

definition filed :: "string \<Rightarrow> string \<Rightarrow> bool" where
  "filed key name \<longleftrightarrow> name = key \<and> ToUpper key = key"

definition schema_ok :: "string \<Rightarrow> Schema \<Rightarrow> bool" where
  "schema_ok k s \<longleftrightarrow> filed k (sch_Name s) \<and> (\<forall>kt t. sch_Tables s kt = Some t \<longrightarrow> filed kt (tbl_Name t))"

definition database_ok :: "string \<Rightarrow> Database \<Rightarrow> bool" where
  "database_ok k db \<longleftrightarrow> filed k (db_Name db) \<and> (\<forall>ks s. db_Schemas db ks = Some s \<longrightarrow> schema_ok ks s)"

definition catalog_inv :: "Catalog \<Rightarrow> bool" where
  "catalog_inv c \<longleftrightarrow> (\<forall>k db. databases c k = Some db \<longrightarrow> database_ok k db) \<and>
                    (\<forall>k w. warehouses c k = Some w \<longrightarrow> filed k (wh_Name w))"

lemma filed_upper [simp]: "filed (ToUpper n) (ToUpper n)"
  by (simp add: filed_def)

lemma upper_literals [simp]:
  "ToUpper ''PUBLIC'' = ''PUBLIC''" "ToUpper ''INFORMATION_SCHEMA'' = ''INFORMATION_SCHEMA''"
  by code_simp+

lemma new_database_ok [simp]: "database_ok (ToUpper n) (new_database now n ow)"
  by (simp add: database_ok_def new_database_def schema_ok_def newSchema_def filed_def)

lemma newSchema_ok [simp]: "schema_ok (ToUpper n) (newSchema now (ToUpper n) ow)"
  by (simp add: schema_ok_def newSchema_def)

lemma catalog_inv_put_schema:
  "catalog_inv c \<Longrightarrow> schema_ok (ToUpper s) x \<Longrightarrow> catalog_inv (put_schema c d s x)"
  by (auto simp: catalog_inv_def put_schema_def database_ok_def split: option.splits)

lemma catalog_inv_schema:
  "catalog_inv c \<Longrightarrow> getSchemaLocked c d s = Inr x \<Longrightarrow> schema_ok (ToUpper s) x"
  by (auto simp: getSchemaLocked_iff schema_at_def catalog_inv_def database_ok_def bind_eq_Some_conv)

lemma catalog_inv_create_db: "catalog_inv c \<Longrightarrow> CreateDatabase c now n ow = Inr c' \<Longrightarrow> catalog_inv c'"
  by (auto simp: CreateDatabase_def Let_def catalog_inv_def split: if_splits)

lemma catalog_inv_drop_db: "catalog_inv c \<Longrightarrow> DropDatabase c n = Inr c' \<Longrightarrow> catalog_inv c'"
  by (auto simp: DropDatabase_def Let_def catalog_inv_def split: if_splits)

lemma catalog_inv_create_schema:
  "catalog_inv c \<Longrightarrow> CreateSchema c now d s ow = Inr c' \<Longrightarrow> catalog_inv c'"
  by (auto simp: CreateSchema_def Let_def catalog_inv_def database_ok_def split: if_splits option.splits)

lemma catalog_inv_drop_schema: "catalog_inv c \<Longrightarrow> DropSchema c d s = Inr c' \<Longrightarrow> catalog_inv c'"
  by (auto simp: DropSchema_def Let_def catalog_inv_def database_ok_def split: if_splits option.splits)

lemma catalog_inv_register: "catalog_inv c \<Longrightarrow> RegisterTable c now d s t = Inr c' \<Longrightarrow> catalog_inv c'"
  by (auto simp: RegisterTable_def Let_def schema_ok_def
      split: sum.splits if_splits intro!: catalog_inv_put_schema dest: catalog_inv_schema)

lemma catalog_inv_drop_table: "catalog_inv c \<Longrightarrow> DropTable c d s n = Inr c' \<Longrightarrow> catalog_inv c'"
  by (auto simp: DropTable_def Let_def schema_ok_def
      split: sum.splits if_splits intro!: catalog_inv_put_schema dest: catalog_inv_schema)

lemma catalog_inv_create_wh: "catalog_inv c \<Longrightarrow> CreateWarehouse c now n sz a = Inr c' \<Longrightarrow> catalog_inv c'"
  by (auto simp: CreateWarehouse_def Let_def catalog_inv_def new_warehouse_def split: if_splits)

lemma catalog_inv_init: "catalog_inv (catalog_Init catalog_New now)"
  by (auto simp: catalog_Init_def catalog_New_def Let_def CreateDatabase_def CreateWarehouse_def
      catalog_inv_def new_warehouse_def)

lemmas catalog_inv_ops = catalog_inv_create_db catalog_inv_drop_db catalog_inv_create_schema
  catalog_inv_drop_schema catalog_inv_register catalog_inv_drop_table catalog_inv_create_wh

lemma catalog_step_inv: "catalog_step c c' \<Longrightarrow> catalog_inv c \<Longrightarrow> catalog_inv c'"
  by (induction rule: catalog_step.induct)
    (auto intro: catalog_inv_ops simp: cat_reset.reset_fresh catalog_inv_init)

subsection \<open>Properties\<close>

text \<open>
  In every catalog state a client can reach, each database, schema, table and warehouse is
  filed under its own name in upper case.
\<close>

theorem catalog_names_match_keys:
  assumes "catalog_reachable c"
  shows "(\<forall>k db. databases c k = Some db \<longrightarrow> db_Name db = k \<and> ToUpper k = k) \<and>
    (\<forall>d s x. schema_at c (d, s) = Some x \<longrightarrow> sch_Name x = s \<and> ToUpper s = s) \<and>
    (\<forall>d s t x. table_at c (d, s, t) = Some x \<longrightarrow> tbl_Name x = t \<and> ToUpper t = t) \<and>
    (\<forall>k w. warehouses c k = Some w \<longrightarrow> wh_Name w = k \<and> ToUpper k = k)"
proof (intro conjI)
  from assms have inv: "catalog_inv c"
    by (induction rule: catalog_reachable.induct) (auto intro: catalog_inv_init catalog_step_inv)
  then show "\<forall>k db. databases c k = Some db \<longrightarrow> db_Name db = k \<and> ToUpper k = k"
    by (simp add: catalog_inv_def database_ok_def filed_def)
  from inv have schemas: "schema_at c (d, s) = Some x \<Longrightarrow> schema_ok s x" for d s x
    by (auto simp: catalog_inv_def database_ok_def schema_at_def bind_eq_Some_conv)
  then show "\<forall>d s x. schema_at c (d, s) = Some x \<longrightarrow> sch_Name x = s \<and> ToUpper s = s"
    by (simp add: schema_ok_def filed_def)
  from schemas show "\<forall>d s t x. table_at c (d, s, t) = Some x \<longrightarrow> tbl_Name x = t \<and> ToUpper t = t"
    by (fastforce simp: table_at_def bind_eq_Some_conv schema_ok_def filed_def)
  from inv show "\<forall>k w. warehouses c k = Some w \<longrightarrow> wh_Name w = k \<and> ToUpper k = k"
    by (simp add: catalog_inv_def filed_def)
qed

definition sample_table :: TableMeta where
  "sample_table = \<lparr>tbl_Name = ''orders'', tbl_Columns = [], tbl_ClusterBy = [], tbl_Comment = '''',
     tbl_IsTemporary = False, tbl_IsTransient = False, tbl_CreatedAt = None, tbl_Owner = ''''\<rparr>"

definition sample_catalog :: Catalog where
  "sample_catalog = ignore_error (catalog_Init catalog_New 0)
     (RegisterTable (catalog_Init catalog_New 0) 5 ''snowflake_sample_data'' ''public'' sample_table)"

lemma init_databases:
  "databases (catalog_Init catalog_New now) =
     [''SNOWFLAKE_SAMPLE_DATA'' \<mapsto> new_database now ''SNOWFLAKE_SAMPLE_DATA'' ''SYSADMIN'']"
proof -
  have "ToUpper ''SNOWFLAKE_SAMPLE_DATA'' = ''SNOWFLAKE_SAMPLE_DATA''" by code_simp
  then show ?thesis
    by (simp add: catalog_Init_def catalog_New_def Let_def CreateDatabase_def CreateWarehouse_def)
qed

lemma sample_register:
  "RegisterTable (catalog_Init catalog_New 0) 5 ''snowflake_sample_data'' ''public'' sample_table =
   Inr sample_catalog"
proof -
  let ?c = "catalog_Init catalog_New 0"
  have up: "ToUpper ''snowflake_sample_data'' = ''SNOWFLAKE_SAMPLE_DATA''" "ToUpper ''public'' = ''PUBLIC''"
    by code_simp+
  have "schema_at ?c (''SNOWFLAKE_SAMPLE_DATA'', ''PUBLIC'') = Some (newSchema 0 ''PUBLIC'' ''SYSADMIN'')"
    by (simp add: schema_at_def init_databases new_database_def)
  moreover from this have "table_at ?c (''SNOWFLAKE_SAMPLE_DATA'', ''PUBLIC'', n) = None" for n
    by (simp add: table_at_def newSchema_def)
  ultimately have "is_ok (RegisterTable ?c 5 ''snowflake_sample_data'' ''public'' sample_table)"
    by (intro RegisterTable_free) (simp_all only: up, simp_all)
  then show ?thesis unfolding sample_catalog_def by (auto simp: is_ok_iff)
qed

theorem catalog_names_match_keys_witness:
  "catalog_reachable sample_catalog \<and>
   \<not> (\<exists>d s t x. table_at sample_catalog (d, s, t) = Some x \<and> (tbl_Name x \<noteq> t \<or> ToUpper t \<noteq> t))"
proof -
  have "catalog_step (catalog_Init catalog_New 0) sample_catalog"
    by (rule catalog_step.register [OF sample_register])
  then have reach: "catalog_reachable sample_catalog"
    by (rule catalog_reachable.step [OF catalog_reachable.start])
  then show ?thesis using catalog_names_match_keys [OF reach] by blast
qed

text \<open>
  A registered table is found again under any spelling of its path that differs only in case,
  with its name in upper case and a creation time, and no other table of the catalog changes.
\<close>

theorem register_then_get:
  assumes "RegisterTable c now d s t = Inr c'"
    and "EqualFold d' d" "EqualFold s' s" "EqualFold n (tbl_Name t)"
  shows "GetTable c' d' s' n = Inr (registered now t) \<and>
    (\<forall>p. p \<noteq> (ToUpper d, ToUpper s, ToUpper (tbl_Name t)) \<longrightarrow> table_at c' p = table_at c p)"
proof
  note reg = RegisterTable_ok [OF assms(1)]
  from assms(2-4) have "ToUpper d' = ToUpper d" "ToUpper s' = ToUpper s" "ToUpper n = ToUpper (tbl_Name t)"
    by (simp_all add: EqualFold_iff_ToUpper)
  with reg show "GetTable c' d' s' n = Inr (registered now t)" by (simp add: GetTable_eq)
  from reg show "\<forall>p. p \<noteq> (ToUpper d, ToUpper s, ToUpper (tbl_Name t)) \<longrightarrow> table_at c' p = table_at c p"
    by simp
qed

theorem register_then_get_witness:
  "GetTable sample_catalog ''Snowflake_Sample_Data'' ''PUBLIC'' ''ORDERS'' =
     Inr (registered 5 sample_table)"
proof -
  have "EqualFold ''Snowflake_Sample_Data'' ''snowflake_sample_data''"
    "EqualFold ''PUBLIC'' ''public''" "EqualFold ''ORDERS'' (tbl_Name sample_table)"
    by (simp_all add: sample_table_def) code_simp+
  then show ?thesis by (rule register_then_get [OF sample_register, THEN conjunct1])
qed

text \<open>
  Databases behave like a map under any history of CREATE DATABASE and DROP DATABASE calls: a
  refused call changes nothing, an accepted one adds or removes exactly the named database, which
  starts with the PUBLIC and INFORMATION_SCHEMA schemas only.
\<close>

theorem databases_refine_map:
  "databases (reg_run create_database DropDatabase c ops) =
     spec_run ToUpper (\<lambda>name a. new_database (fst a) name (snd a)) (\<lambda>_ _. True) (databases c) ops"
  by (rule dbs.run_refines_spec)

text \<open>
  A reset forgets everything: whatever the catalog held, it is the catalog of a fresh process,
  with the sample database and the default warehouse.
\<close>

theorem catalog_reset_fresh:
  "catalog_Reset now c = catalog_Init catalog_New now \<and>
   dom (databases (catalog_Reset now c)) = {''SNOWFLAKE_SAMPLE_DATA''} \<and>
   dom (warehouses (catalog_Reset now c)) = {''COMPUTE_WH''}"
proof -
  have "ToUpper ''COMPUTE_WH'' = ''COMPUTE_WH''"
    by code_simp+
  then show ?thesis
    by (simp add: cat_reset.reset_fresh init_databases)
      (simp add: catalog_Init_def catalog_New_def Let_def CreateDatabase_def CreateWarehouse_def)
qed

end
