(* ===== verification/Sequence.thy ===== *)
theory Sequence
  imports Registry
begin

text \<open>
  \<^verbatim>\<open>internal/sequence/sequence.go\<close>: sequences and their NEXTVAL. The counters are Go's int64, kept as
  64-bit words, so that the wrap-around of \<^verbatim>\<open>seq.Current += seq.Increment\<close> is that of the code.
  Both the manager lock and the lock of one sequence cover the whole of each operation that changes
  a counter, so an operation is one step here.
\<close>

type_synonym int64 = "64 word"

record Sequence =
  seq_Name :: string
  seq_Database :: string
  seq_Schema :: string
  seq_Start :: int64
  seq_Increment :: int64
  seq_Current :: int64
  seq_CreatedAt :: time

text \<open>\<^verbatim>\<open>SequenceInfo\<close> has the fields of \<^verbatim>\<open>Sequence\<close> without the mutex, which the record never had.\<close>

type_synonym SequenceInfo = Sequence

record seq_Manager =
  sequences :: "string \<rightharpoonup> Sequence"

definition qualifiedName :: "string \<Rightarrow> string \<Rightarrow> string \<Rightarrow> string" where
  "qualifiedName db schema name = dotted (ToUpper db) (ToUpper schema) (ToUpper name)"

definition seq_NewManager :: seq_Manager where
  "seq_NewManager = \<lparr>sequences = Map.empty\<rparr>"

definition new_sequence ::
  "time \<Rightarrow> string \<Rightarrow> string \<Rightarrow> string \<Rightarrow> int64 \<Rightarrow> int64 \<Rightarrow> Sequence"
where
  "new_sequence now db schema name start increment =
     \<lparr>seq_Name = ToUpper name, seq_Database = ToUpper db, seq_Schema = ToUpper schema,
      seq_Start = start, seq_Increment = increment, seq_Current = start, seq_CreatedAt = now\<rparr>"

definition CreateSequence ::
  "seq_Manager \<Rightarrow> time \<Rightarrow> string \<Rightarrow> string \<Rightarrow> string \<Rightarrow> int64 \<Rightarrow> int64 \<Rightarrow> seq_Manager result"
where
  "CreateSequence m now db schema name start increment =
     (let key = qualifiedName db schema name
      in if sequences m key \<noteq> None then Err (AlreadyExists ''sequence'' key)
         else Ok (m\<lparr>sequences := (sequences m)(key \<mapsto> new_sequence now db schema name start increment)\<rparr>))"

definition DropSequence :: "seq_Manager \<Rightarrow> string \<Rightarrow> string \<Rightarrow> string \<Rightarrow> seq_Manager result" where
  "DropSequence m db schema name =
     (let key = qualifiedName db schema name
      in if sequences m key = None then Err (DoesNotExist ''sequence'' key)
         else Ok (m\<lparr>sequences := (sequences m)(key := None)\<rparr>))"

definition NextVal :: "seq_Manager \<Rightarrow> string \<Rightarrow> string \<Rightarrow> string \<Rightarrow> (seq_Manager \<times> int64) result" where
  "NextVal m db schema name =
     (let key = qualifiedName db schema name
      in case sequences m key of
           None \<Rightarrow> Err (DoesNotExist ''sequence'' key)
         | Some seq \<Rightarrow>
             (let val = seq_Current seq;
                  seq' = seq\<lparr>seq_Current := seq_Current seq + seq_Increment seq\<rparr>
              in Ok (m\<lparr>sequences := (sequences m)(key \<mapsto> seq')\<rparr>, val)))"

definition CurrentVal :: "seq_Manager \<Rightarrow> string \<Rightarrow> string \<Rightarrow> string \<Rightarrow> int64 result" where
  "CurrentVal m db schema name =
     (let key = qualifiedName db schema name
      in case sequences m key of
           None \<Rightarrow> Err (DoesNotExist ''sequence'' key)
         | Some seq \<Rightarrow> Ok (seq_Current seq))"

definition ShowSequences :: "seq_Manager \<Rightarrow> string \<Rightarrow> string \<Rightarrow> string list \<Rightarrow> SequenceInfo list" where
  "ShowSequences m db schema ks =
     (let pfx = ToUpper db @ ''.'' @ ToUpper schema @ ''.''
      in map snd (filter (\<lambda>(key, seq). HasPrefix key pfx) (range_entries (sequences m) ks)))"

subsection \<open>The registry contract\<close>

text \<open>A sequence's name as the client gives it, and the registry operations on it.\<close>

type_synonym seq_path = "string \<times> string \<times> string"

definition path_key :: "seq_path \<Rightarrow> string" where
  "path_key p = (case p of (db, schema, name) \<Rightarrow> qualifiedName db schema name)"

definition create_sequence :: "seq_Manager \<Rightarrow> seq_path \<Rightarrow> time \<times> int64 \<times> int64 \<Rightarrow> seq_Manager result" where
  "create_sequence m p a = (case p of (db, schema, name) \<Rightarrow>
     case a of (now, start, increment) \<Rightarrow> CreateSequence m now db schema name start increment)"

definition drop_sequence :: "seq_Manager \<Rightarrow> seq_path \<Rightarrow> seq_Manager result" where
  "drop_sequence m p = (case p of (db, schema, name) \<Rightarrow> DropSequence m db schema name)"

definition sequence_entry :: "seq_path \<Rightarrow> time \<times> int64 \<times> int64 \<Rightarrow> Sequence" where
  "sequence_entry p a = (case p of (db, schema, name) \<Rightarrow>
     case a of (now, start, increment) \<Rightarrow> new_sequence now db schema name start increment)"

interpretation seqs: registry sequences create_sequence drop_sequence path_key sequence_entry "\<lambda>_ _. True"
  by unfold_locales
    (auto simp: create_sequence_def drop_sequence_def path_key_def sequence_entry_def
      CreateSequence_def DropSequence_def Let_def split: if_splits)

subsection \<open>Calls on one sequence, and on several interleaved\<close>

text \<open>
  The values that the successful calls of a list of NEXTVAL requests return, in order; a request
  for a sequence that does not exist returns none.
\<close>

fun next_vals :: "seq_Manager \<Rightarrow> seq_path list \<Rightarrow> seq_Manager \<times> (string \<times> int64) list" where
  "next_vals m [] = (m, [])"
| "next_vals m ((db, schema, name) # ps) =
     (case NextVal m db schema name of
        Inl _ \<Rightarrow> next_vals m ps
      | Inr (m', v) \<Rightarrow>
          (let (m'', vs) = next_vals m' ps in (m'', (qualifiedName db schema name, v) # vs)))"

text \<open>The values returned for the sequence filed under one key.\<close>

definition vals_of :: "string \<Rightarrow> (string \<times> int64) list \<Rightarrow> int64 list" where
  "vals_of k vs = map snd (filter (\<lambda>(k', _). k' = k) vs)"

lemma vals_of_simps [simp]:
  "vals_of k [] = []" "vals_of k ((k', v) # vs) = (if k' = k then v # vals_of k vs else vals_of k vs)"
  by (simp_all add: vals_of_def)

text \<open>The arithmetic progression a sequence walks, of a given length.\<close>

definition progression :: "int64 \<Rightarrow> int64 \<Rightarrow> nat \<Rightarrow> int64 list" where
  "progression start increment n = map (\<lambda>i. start + of_nat i * increment) [0..<n]"

lemma progression_0 [simp]: "progression s i 0 = []"
  by (simp add: progression_def)

lemma progression_Suc: "progression s i (Suc n) = s # progression (s + i) i n"
  unfolding progression_def by (rule nth_equalityI) (auto simp: nth_Cons' algebra_simps
      simp del: upt_Suc, (metis Suc_pred distrib_left mult.right_neutral of_nat_Suc)?)

lemma next_vals_progression:
  assumes "sequences m k = Some seq"
  shows "vals_of k (snd (next_vals m ps)) =
      progression (seq_Current seq) (seq_Increment seq) (length (filter (\<lambda>p. path_key p = k) ps))"
  using assms
proof (induction ps arbitrary: m seq)
  case (Cons p ps)
  obtain db schema name where p: "p = (db, schema, name)" by (cases p)
  let ?key = "qualifiedName db schema name"
  show ?case
  proof (cases "sequences m ?key")
    case None
    with Cons.prems have "?key \<noteq> k" by auto
    with Cons None show ?thesis by (simp add: p NextVal_def Let_def path_key_def)
  next
    case (Some s)
    let ?s = "s\<lparr>seq_Current := seq_Current s + seq_Increment s\<rparr>"
    let ?m = "m\<lparr>sequences := (sequences m)(?key \<mapsto> ?s)\<rparr>"
    have step: "NextVal m db schema name = Inr (?m, seq_Current s)"
      using Some by (simp add: NextVal_def Let_def)
    show ?thesis
    proof (cases "?key = k")
      case True
      with Cons.prems Some have [simp]: "s = seq" by simp
      have "sequences ?m k = Some ?s" using True by simp
      from Cons.IH [OF this] True step show ?thesis
        by (simp add: p path_key_def progression_Suc case_prod_beta)
    next
      case False
      with Cons.prems have "sequences ?m k = Some seq" by simp
      from Cons.IH [OF this] False step show ?thesis
        by (simp add: p path_key_def case_prod_beta)
    qed
  qed
qed simp

lemma create_progression:
  assumes "CreateSequence m now db schema name start increment = Inr m'"
  shows "vals_of (qualifiedName db schema name) (snd (next_vals m' ps)) =
      progression start increment (length (filter (\<lambda>p. path_key p = qualifiedName db schema name) ps))"
proof -
  from assms have "create_sequence m (db, schema, name) (now, start, increment) = Inr m'"
    by (simp add: create_sequence_def)
  from seqs.create_then_get [OF this]
  have "sequences m' (qualifiedName db schema name) = Some (new_sequence now db schema name start increment)"
    by (simp add: path_key_def sequence_entry_def)
  from next_vals_progression [OF this] show ?thesis by (simp add: new_sequence_def)
qed

subsection \<open>Properties\<close>

text \<open>
  However the NEXTVAL requests for different sequences interleave, the requests for one sequence
  return exactly its arithmetic progression, in order and starting at START: the n-th value is
  START + n * INCREMENT modulo 2 to the 64.
\<close>

theorem nextval_progression:
  assumes "CreateSequence m now db schema name start increment = Inr m'"
  shows "vals_of (qualifiedName db schema name) (snd (next_vals m' ps)) =
      progression start increment (length (filter (\<lambda>p. path_key p = qualifiedName db schema name) ps))"
  by (rule create_progression [OF assms])

definition sample_sequences :: seq_Manager where
  "sample_sequences = \<lparr>sequences = [''D.S.A'' \<mapsto> new_sequence 0 ''d'' ''s'' ''a'' 10 5]\<rparr>"

lemma sample_key: "qualifiedName ''d'' ''s'' ''a'' = ''D.S.A''" "qualifiedName ''d'' ''s'' ''b'' = ''D.S.B''"
  by code_simp+

lemma sample_create: "CreateSequence seq_NewManager 0 ''d'' ''s'' ''a'' 10 5 = Inr sample_sequences"
  by (simp add: CreateSequence_def seq_NewManager_def sample_sequences_def sample_key)

definition sample_requests :: "seq_path list" where
  "sample_requests = [(''d'', ''s'', ''a''), (''d'', ''s'', ''b''), (''d'', ''s'', ''a'')]"

theorem nextval_progression_witness:
  "vals_of ''D.S.A'' (snd (next_vals sample_sequences sample_requests)) = [10, 15]"
  using nextval_progression [OF sample_create, of sample_requests]
  by (simp add: sample_key path_key_def progression_Suc sample_requests_def del: next_vals.simps)

text \<open>
  C40. As long as the progression stays within the signed 64-bit range, NEXTVAL returns the exact
  integers START + n * INCREMENT, so that a sequence with a positive increment hands out strictly
  increasing values and one with a negative increment strictly decreasing ones: no value twice.
\<close>

lemma sint_progression:
  fixes s i :: int64
  assumes "- (2 ^ 63) \<le> sint s + int n * sint i" "sint s + int n * sint i < 2 ^ 63"
  shows "sint (s + of_nat n * i) = sint s + int n * sint i"
proof -
  have "s + of_nat n * i = of_int (sint s + int n * sint i)" by simp
  then have "sint (s + of_nat n * i) = signed_take_bit 63 (sint s + int n * sint i)"
    by (simp only: sint_sbintrunc') simp
  also have "\<dots> = sint s + int n * sint i"
    using assms by (simp add: signed_take_bit_int_eq_self)
  finally show ?thesis .
qed

lemma progression_in_range:
  fixes s i :: int64
  assumes "- (2 ^ 63) \<le> sint s + int n * sint i" "sint s + int n * sint i < 2 ^ 63" "k \<le> n"
  shows "sint (s + of_nat k * i) = sint s + int k * sint i"
proof (rule sint_progression)
  have s: "- (2 ^ 63) \<le> sint s" "sint s < 2 ^ 63"
    using sint_greater_eq [of s] sint_less [of s] by simp_all
  have k: "int k \<le> int n" using assms(3) by simp
  consider "0 \<le> sint i" | "sint i \<le> 0" by linarith
  then have between: "(sint s \<le> sint s + int k * sint i \<and> sint s + int k * sint i \<le> sint s + int n * sint i) \<or>
      (sint s + int n * sint i \<le> sint s + int k * sint i \<and> sint s + int k * sint i \<le> sint s)"
  proof cases
    case 1
    then show ?thesis using k by (simp add: mult_right_mono)
  next
    case 2
    then show ?thesis using k by (simp add: mult_right_mono_neg mult_nonneg_nonpos)
  qed
  then show "- (2 ^ 63) \<le> sint s + int k * sint i" "sint s + int k * sint i < 2 ^ 63"
    using s assms(1,2) by linarith+
qed

theorem nextval_exact_in_range:
  assumes "CreateSequence m now db schema name start increment = Inr m'"
    and "n = length (filter (\<lambda>p. path_key p = qualifiedName db schema name) ps)"
    and "- (2 ^ 63) \<le> sint start + int n * sint increment" "sint start + int n * sint increment < 2 ^ 63"
  shows "map sint (vals_of (qualifiedName db schema name) (snd (next_vals m' ps))) =
      map (\<lambda>k. sint start + int k * sint increment) [0..<n] \<and>
      (increment \<noteq> 0 \<longrightarrow> distinct (vals_of (qualifiedName db schema name) (snd (next_vals m' ps))))"
proof
  let ?vs = "vals_of (qualifiedName db schema name) (snd (next_vals m' ps))"
  have "?vs = progression start increment n"
    using create_progression [OF assms(1)] assms(2) by simp
  then show exact: "map sint ?vs = map (\<lambda>k. sint start + int k * sint increment) [0..<n]"
    using progression_in_range [OF assms(3,4)] by (simp add: progression_def)
  show "increment \<noteq> 0 \<longrightarrow> distinct ?vs"
  proof
    assume "increment \<noteq> 0"
    then have "sint increment \<noteq> 0" by (simp add: signed_eq_0_iff)
    then have "distinct (map sint ?vs)" unfolding exact by (simp add: distinct_map inj_on_def)
    then show "distinct ?vs" by (simp only: distinct_map)
  qed
qed

theorem nextval_exact_in_range_witness:
  "map sint (vals_of ''D.S.A'' (snd (next_vals sample_sequences sample_requests))) = [10, 15] \<and>
   distinct (vals_of ''D.S.A'' (snd (next_vals sample_sequences sample_requests)))"
proof -
  have two: "2 = length (filter (\<lambda>p. path_key p = qualifiedName ''d'' ''s'' ''a'') sample_requests)"
    by (simp add: sample_requests_def sample_key path_key_def)
  have five: "(5 :: int64) \<noteq> 0" "sint (10 :: int64) = 10" "sint (5 :: int64) = 5" by simp_all
  from nextval_exact_in_range [OF sample_create two] five show ?thesis
    by (simp add: sample_key upt_rec)
qed

text \<open>
  Sequences behave like a map under any history of CREATE SEQUENCE and DROP SEQUENCE calls on
  qualified names, compared without case.
\<close>

theorem sequences_refine_map:
  "sequences (reg_run create_sequence drop_sequence m ops) =
     spec_run path_key sequence_entry (\<lambda>_ _. True) (sequences m) ops"
  by (rule seqs.run_refines_spec)

end
