(* ===== verification/Graph_Search.thy ===== *)
theory Graph_Search
  imports Go_Prelude
begin

text \<open>
  Depth-first search with a \<^verbatim>\<open>visited\<close> map that the recursive calls share, as the access checks run it.
  The search is fuelled: \<open>None\<close> is a call that ran out of fuel. The locale states one visit of a
  node; its lemmas show that the answer is reachability of a goal and that a visit never needs more
  fuel than there are nodes left to visit.
\<close>

text \<open>The loop over successors: the first one that succeeds ends it, \<open>vis\<close> is threaded through.\<close>

fun search_any ::
  "('n \<Rightarrow> 'n set \<Rightarrow> (bool \<times> 'n set) option) \<Rightarrow> 'n list \<Rightarrow> 'n set \<Rightarrow> (bool \<times> 'n set) option"
where
  "search_any visit [] vis = Some (False, vis)"
| "search_any visit (n # ns) vis =
     (case visit n vis of
        None \<Rightarrow> None
      | Some (True, vis') \<Rightarrow> Some (True, vis')
      | Some (False, vis') \<Rightarrow> search_any visit ns vis')"

locale graph_search =
  fixes visit :: "nat \<Rightarrow> 'n \<Rightarrow> 'n set \<Rightarrow> (bool \<times> 'n set) option"
    and succs :: "'n \<Rightarrow> 'n list"
    and goal :: "'n \<Rightarrow> bool"
  assumes visit_0: "visit 0 n vis = None"
    and visit_seen: "n \<in> vis \<Longrightarrow> \<not> goal n \<Longrightarrow> visit (Suc f) n vis = Some (False, vis)"
    and visit_goal: "n \<notin> vis \<Longrightarrow> goal n \<Longrightarrow> \<exists>vis'. visit (Suc f) n vis = Some (True, vis')"
    and visit_new: "n \<notin> vis \<Longrightarrow> \<not> goal n \<Longrightarrow>
      visit (Suc f) n vis = search_any (visit f) (succs n) (insert n vis)"
begin

definition edges :: "('n \<times> 'n) set" where
  "edges = {(a, b). b \<in> set (succs a)}"

text \<open>What a search without success leaves: no goal among the visited, and their successors visited.\<close>

definition explored :: "'n set \<Rightarrow> 'n set \<Rightarrow> bool" where
  "explored vis vis' \<longleftrightarrow> vis \<subseteq> vis' \<and> (\<forall>v \<in> vis'. \<not> goal v) \<and> (\<forall>v \<in> vis' - vis. set (succs v) \<subseteq> vis')"

definition answer_ok :: "'n list \<Rightarrow> 'n set \<Rightarrow> bool \<times> 'n set \<Rightarrow> bool" where
  "answer_ok ns vis r \<longleftrightarrow>
     (if fst r then \<exists>n \<in> set ns. \<exists>m. (n, m) \<in> edges\<^sup>* \<and> goal m
      else set ns \<subseteq> snd r \<and> explored vis (snd r))"

lemma explored_trans: "explored a b \<Longrightarrow> explored b c \<Longrightarrow> explored a c"
  unfolding explored_def by (metis (no_types, lifting) Diff_iff subset_iff)

lemma search_any_ok:
  assumes "\<And>n vis r. \<forall>v \<in> vis. \<not> goal v \<Longrightarrow> visit f n vis = Some r \<Longrightarrow> answer_ok [n] vis r"
  shows "\<forall>v \<in> vis. \<not> goal v \<Longrightarrow> search_any (visit f) ns vis = Some r \<Longrightarrow> answer_ok ns vis r"
proof (induction ns arbitrary: vis)
  case Nil
  then show ?case by (auto simp: answer_ok_def explored_def)
next
  case (Cons n ns)
  from Cons.prems(2) obtain b vis' where step: "visit f n vis = Some (b, vis')"
    by (auto split: option.splits)
  have first: "answer_ok [n] vis (b, vis')" using assms [OF Cons.prems(1) step] .
  show ?case
  proof (cases b)
    case True
    with first step Cons.prems(2) show ?thesis by (auto simp: answer_ok_def)
  next
    case False
    with first have ex: "explored vis vis'" "n \<in> vis'" by (simp_all add: answer_ok_def)
    from False step Cons.prems(2) have rest: "search_any (visit f) ns vis' = Some r" by simp
    from Cons.IH [OF _ rest] ex have "answer_ok ns vis' r" by (simp add: explored_def)
    moreover have "explored vis (snd r)" if "explored vis' (snd r)"
      using explored_trans [OF ex(1) that] .
    ultimately show ?thesis
      using ex(2) by (auto simp: answer_ok_def explored_def [of vis'] split: if_splits)
  qed
qed

lemma visit_ok: "\<forall>v \<in> vis. \<not> goal v \<Longrightarrow> visit f n vis = Some r \<Longrightarrow> answer_ok [n] vis r"
proof (induction f arbitrary: n vis r)
  case 0
  then show ?case by (simp add: visit_0)
next
  case (Suc f)
  consider "n \<in> vis" | "n \<notin> vis" "goal n" | "n \<notin> vis" "\<not> goal n" by blast
  then show ?case
  proof cases
    case 1
    with Suc.prems show ?thesis by (auto simp: visit_seen answer_ok_def explored_def)
  next
    case 2
    with Suc.prems visit_goal [OF 2, of f] show ?thesis by (auto simp: answer_ok_def)
  next
    case 3
    with Suc.prems have loop: "search_any (visit f) (succs n) (insert n vis) = Some r"
      by (simp add: visit_new)
    have ans: "answer_ok (succs n) (insert n vis) r"
      by (rule search_any_ok [OF Suc.IH _ loop]) (use 3 Suc.prems in auto)
    have edge: "(n, s) \<in> edges" if "s \<in> set (succs n)" for s using that by (simp add: edges_def)
    show ?thesis
    proof (cases "fst r")
      case True
      with ans obtain s m where "s \<in> set (succs n)" "(s, m) \<in> edges\<^sup>*" "goal m"
        by (auto simp: answer_ok_def)
      with edge True show ?thesis
        by (auto simp: answer_ok_def intro: converse_rtrancl_into_rtrancl)
    next
      case False
      with ans show ?thesis by (auto simp: answer_ok_def explored_def)
    qed
  qed
qed

lemma visit_iff_reachable:
  assumes "visit f n {} = Some r"
  shows "fst r \<longleftrightarrow> (\<exists>m. (n, m) \<in> edges\<^sup>* \<and> goal m)"
proof -
  from visit_ok [OF _ assms] have ans: "answer_ok [n] {} r" by simp
  show ?thesis
  proof (cases "fst r")
    case True
    with ans show ?thesis by (auto simp: answer_ok_def)
  next
    case False
    with ans have ex: "n \<in> snd r" "\<forall>v \<in> snd r. \<not> goal v" "\<forall>v \<in> snd r. set (succs v) \<subseteq> snd r"
      by (simp_all add: answer_ok_def explored_def)
    have "m \<in> snd r" if "(n, m) \<in> edges\<^sup>*" for m
      using that by (induction rule: rtrancl_induct) (use ex in \<open>auto simp: edges_def\<close>)
    with False ex show ?thesis by blast
  qed
qed

text \<open>Enough fuel: one more than the nodes of a finite closed region that are still to visit.\<close>

lemma search_any_returns:
  assumes "\<And>n vis. n \<in> N \<Longrightarrow> card (N - vis) < f \<Longrightarrow> \<forall>v \<in> vis. \<not> goal v \<Longrightarrow> visit f n vis \<noteq> None"
    and "finite N"
  shows "set ns \<subseteq> N \<Longrightarrow> card (N - vis) < f \<Longrightarrow> \<forall>v \<in> vis. \<not> goal v \<Longrightarrow> search_any (visit f) ns vis \<noteq> None"
proof (induction ns arbitrary: vis)
  case (Cons n ns)
  then obtain b vis' where step: "visit f n vis = Some (b, vis')"
    using assms(1) [of n vis] by auto
  show ?case
  proof (cases b)
    case False
    with visit_ok [OF Cons.prems(3) step] have ex: "explored vis vis'" by (simp add: answer_ok_def)
    then have "card (N - vis') \<le> card (N - vis)"
      by (intro card_mono) (use assms(2) in \<open>auto simp: explored_def\<close>)
    then have "card (N - vis') < f" using Cons.prems(2) by simp
    with Cons.IH [of vis'] Cons.prems(1) ex step False show ?thesis by (simp add: explored_def)
  qed (use step in simp)
qed simp

lemma visit_returns_aux:
  assumes "finite N" "\<And>v. v \<in> N \<Longrightarrow> set (succs v) \<subseteq> N"
  shows "n \<in> N \<Longrightarrow> card (N - vis) < f \<Longrightarrow> \<forall>v \<in> vis. \<not> goal v \<Longrightarrow> visit f n vis \<noteq> None"
proof (induction f arbitrary: n vis)
  case (Suc f)
  consider "n \<in> vis" | "n \<notin> vis" "goal n" | "n \<notin> vis" "\<not> goal n" by blast
  then show ?case
  proof cases
    case 1
    with Suc.prems show ?thesis by (simp add: visit_seen)
  next
    case 2
    with visit_goal [OF 2, of f] show ?thesis by auto
  next
    case 3
    have "card (N - insert n vis) < card (N - vis)"
      by (rule psubset_card_mono) (use assms(1) 3(1) Suc.prems(1) in auto)
    with Suc.prems have "card (N - insert n vis) < f" by simp
    then have "search_any (visit f) (succs n) (insert n vis) \<noteq> None"
      by (intro search_any_returns [OF Suc.IH assms(1)]) (use assms(2) 3 Suc.prems in auto)
    with 3 show ?thesis by (simp add: visit_new)
  qed
qed simp

lemma visit_returns:
  assumes "finite N" "\<And>v. v \<in> N \<Longrightarrow> set (succs v) \<subseteq> N" "n \<in> N" "card N < f"
  shows "\<exists>vis. visit f n {} = Some (\<exists>m. (n, m) \<in> edges\<^sup>* \<and> goal m, vis)"
proof -
  from visit_returns_aux [OF assms(1,2,3), of "{}" f] assms(4)
  obtain b vis where r: "visit f n {} = Some (b, vis)" by auto
  with visit_iff_reachable [OF r] show ?thesis by simp
qed

end

subsection \<open>Forests\<close>

text \<open>
  A dependency relation in which every node has at most one predecessor, as the AFTER clause of
  tasks gives. Below a node without a predecessor it is a tree: no cycle, and the subtrees of two
  siblings share nothing.
\<close>

locale forest =
  fixes D :: "('n \<times> 'n) set"
  assumes unique_pred: "(p, c) \<in> D \<Longrightarrow> (p', c) \<in> D \<Longrightarrow> p = p'"
begin

lemma no_cycle_below_root:
  assumes "root \<notin> Range D" "(root, n) \<in> D\<^sup>*"
  shows "(n, n) \<notin> D\<^sup>+"
  using assms(2)
proof (induction rule: rtrancl_induct)
  case base
  show ?case using assms(1) by (meson Range.intros tranclE)
next
  case (step m n)
  show ?case
  proof
    assume "(n, n) \<in> D\<^sup>+"
    then obtain y where y: "(n, y) \<in> D\<^sup>*" "(y, n) \<in> D" by (meson tranclD2)
    with step(2) unique_pred have "y = m" by blast
    with y step(2) have "(m, m) \<in> D\<^sup>+" by (meson rtrancl_into_trancl2)
    with step(3) show False ..
  qed
qed

lemma ancestors_chain:
  assumes "(a, x) \<in> D\<^sup>*" "(b, x) \<in> D\<^sup>*"
  shows "(a, b) \<in> D\<^sup>* \<or> (b, a) \<in> D\<^sup>*"
  using assms
proof (induction rule: rtrancl_induct)
  case (step y z)
  from step.prems show ?case
  proof (cases rule: rtranclE)
    case base
    with step.hyps show ?thesis by (metis rtrancl.rtrancl_into_rtrancl)
  next
    case (step w)
    with \<open>(y, z) \<in> D\<close> unique_pred have "w = y" by blast
    with step(1) show ?thesis by (rule_tac step.IH) simp
  qed
qed simp

lemma child_not_ancestor:
  assumes "root \<notin> Range D" "(root, n) \<in> D\<^sup>*" "(n, c) \<in> D" "(n, d) \<in> D" "(c, d) \<in> D\<^sup>*"
  shows "c = d"
proof (rule ccontr)
  assume "c \<noteq> d"
  with assms(5) obtain y where "(c, y) \<in> D\<^sup>*" "(y, d) \<in> D" by (meson rtranclE)
  with assms(4) unique_pred have "(c, n) \<in> D\<^sup>*" by blast
  with assms(3) have "(n, n) \<in> D\<^sup>+" by (meson rtrancl_into_trancl2)
  with no_cycle_below_root [OF assms(1,2)] show False ..
qed

lemma siblings_disjoint:
  assumes "root \<notin> Range D" "(root, n) \<in> D\<^sup>*" "(n, c) \<in> D" "(n, d) \<in> D" "c \<noteq> d"
    and "(c, x) \<in> D\<^sup>*" "(d, x) \<in> D\<^sup>*"
  shows False
  using ancestors_chain [OF assms(6,7)] child_not_ancestor [OF assms(1,2,3,4)]
    child_not_ancestor [OF assms(1,2,4,3)] assms(5) by blast

text \<open>The number of descendants, which shrinks on the way down.\<close>

lemma descendants_shrink:
  assumes "root \<notin> Range D" "(root, n) \<in> D\<^sup>*" "(n, c) \<in> D" "finite (D\<^sup>+ `` {n})"
  shows "card (D\<^sup>+ `` {c}) < card (D\<^sup>+ `` {n})"
proof (rule psubset_card_mono [OF assms(4)])
  have "(root, c) \<in> D\<^sup>*" using assms(2,3) by (rule rtrancl_into_rtrancl)
  then have "c \<notin> D\<^sup>+ `` {c}" using no_cycle_below_root [OF assms(1)] by blast
  moreover have "c \<in> D\<^sup>+ `` {n}" using assms(3) by blast
  moreover have "D\<^sup>+ `` {c} \<subseteq> D\<^sup>+ `` {n}" using assms(3) by (auto intro: trancl_into_trancl2)
  ultimately show "D\<^sup>+ `` {c} \<subset> D\<^sup>+ `` {n}" by blast
qed

end

end
