(* ===== verification/Rbac.thy ===== *)
theory Rbac
  imports Registry Graph_Search
begin

text \<open>
  \<^verbatim>\<open>internal/rbac/rbac.go\<close>: roles, grants, the role hierarchy and the access check. The two recursive
  walks of the hierarchy share a \<^verbatim>\<open>visited\<close> map; they are fuelled here, and the properties show that
  more fuel than there are roles always gives an answer. The order in which \<^verbatim>\<open>range e.roles\<close> visits
  the roles while it expands a role is the argument \<open>ord\<close>, one order for each expanded role.
\<close>

type_synonym Privilege = string
type_synonym ObjectType = string

definition PrivAll :: Privilege where "PrivAll = ''ALL''"

record Grant =
  g_Privilege :: Privilege
  g_ObjectType :: ObjectType
  g_ObjectName :: string
  g_GrantedTo :: string
  g_GrantedBy :: string
  g_GrantedAt :: time
  g_WithGrant :: bool

record Role =
  r_Name :: string
  r_Grants :: "Grant list"
  r_ParentRoles :: "string list"
  r_CreatedAt :: time

record rbac_Engine =
  roles :: "string \<rightharpoonup> Role"
  userRoles :: "string \<rightharpoonup> string list"

definition NewEngine :: rbac_Engine where
  "NewEngine = \<lparr>roles = Map.empty, userRoles = Map.empty\<rparr>"

text \<open>Reading a missing key of \<^verbatim>\<open>userRoles\<close> gives the nil slice.\<close>

definition user_roles :: "rbac_Engine \<Rightarrow> string \<Rightarrow> string list" where
  "user_roles e user = (case userRoles e user of None \<Rightarrow> [] | Some rs \<Rightarrow> rs)"

definition new_role :: "time \<Rightarrow> string \<Rightarrow> Role" where
  "new_role now key = \<lparr>r_Name = key, r_Grants = [], r_ParentRoles = [], r_CreatedAt = now\<rparr>"

definition CreateRole :: "rbac_Engine \<Rightarrow> time \<Rightarrow> string \<Rightarrow> rbac_Engine result" where
  "CreateRole e now name =
     (let key = ToUpper name
      in if roles e key \<noteq> None then Err (AlreadyExists ''role'' key)
         else Ok (e\<lparr>roles := (roles e)(key \<mapsto> new_role now key)\<rparr>))"

definition DropRole :: "rbac_Engine \<Rightarrow> string \<Rightarrow> rbac_Engine result" where
  "DropRole e name =
     (let key = ToUpper name
      in if roles e key = None then Err (DoesNotExist ''role'' key)
         else
           let rs = (roles e)(key := None);
               rs = map_values (\<lambda>r. r\<lparr>r_ParentRoles := filter (\<lambda>p. p \<noteq> key) (r_ParentRoles r)\<rparr>) rs;
               us = map_values (filter (\<lambda>r. r \<noteq> key)) (userRoles e)
           in Ok (e\<lparr>roles := rs, userRoles := us\<rparr>))"

text \<open>The test the grant and revoke loops make on each grant.\<close>

definition same_grant :: "Privilege \<Rightarrow> ObjectType \<Rightarrow> string \<Rightarrow> Grant \<Rightarrow> bool" where
  "same_grant privilege objType objKey g \<longleftrightarrow>
     g_Privilege g = privilege \<and> g_ObjectType g = objType \<and> g_ObjectName g = objKey"

definition new_grant ::
  "time \<Rightarrow> Privilege \<Rightarrow> ObjectType \<Rightarrow> string \<Rightarrow> string \<Rightarrow> bool \<Rightarrow> Grant"
where
  "new_grant now privilege objType objKey roleKey withGrant =
     \<lparr>g_Privilege = privilege, g_ObjectType = objType, g_ObjectName = objKey,
      g_GrantedTo = roleKey, g_GrantedBy = '''', g_GrantedAt = now, g_WithGrant = withGrant\<rparr>"

definition GrantPrivilege ::
  "rbac_Engine \<Rightarrow> time \<Rightarrow> Privilege \<Rightarrow> ObjectType \<Rightarrow> string \<Rightarrow> string \<Rightarrow> bool \<Rightarrow> rbac_Engine result"
where
  "GrantPrivilege e now privilege objType objName roleName withGrant =
     (let roleKey = ToUpper roleName
      in case roles e roleKey of
           None \<Rightarrow> Err (DoesNotExist ''role'' roleKey)
         | Some role \<Rightarrow>
             (let objKey = ToUpper objName
              in if list_ex (same_grant privilege objType objKey) (r_Grants role) then Ok e
                 else
                   let g = new_grant now privilege objType objKey roleKey withGrant
                   in Ok (e\<lparr>roles := (roles e)(roleKey \<mapsto> role\<lparr>r_Grants := r_Grants role @ [g]\<rparr>)\<rparr>)))"

definition RevokePrivilege ::
  "rbac_Engine \<Rightarrow> Privilege \<Rightarrow> ObjectType \<Rightarrow> string \<Rightarrow> string \<Rightarrow> rbac_Engine result"
where
  "RevokePrivilege e privilege objType objName roleName =
     (let roleKey = ToUpper roleName
      in case roles e roleKey of
           None \<Rightarrow> Err (DoesNotExist ''role'' roleKey)
         | Some role \<Rightarrow>
             (let objKey = ToUpper objName;
                  found = list_ex (same_grant privilege objType objKey) (r_Grants role);
                  filtered = filter (\<lambda>g. \<not> same_grant privilege objType objKey g) (r_Grants role)
              in if \<not> found then Err (DoesNotExist ''grant'' roleKey)
                 else Ok (e\<lparr>roles := (roles e)(roleKey \<mapsto> role\<lparr>r_Grants := filtered\<rparr>)\<rparr>)))"

definition GrantRoleToUser :: "rbac_Engine \<Rightarrow> string \<Rightarrow> string \<Rightarrow> rbac_Engine result" where
  "GrantRoleToUser e roleName userName =
     (let roleKey = ToUpper roleName
      in if roles e roleKey = None then Err (DoesNotExist ''role'' roleKey)
         else
           let userKey = ToUpper userName
           in if roleKey \<in> set (user_roles e userKey) then Ok e
              else Ok (e\<lparr>userRoles := (userRoles e)(userKey \<mapsto> user_roles e userKey @ [roleKey])\<rparr>))"

definition GrantRoleToRole :: "rbac_Engine \<Rightarrow> string \<Rightarrow> string \<Rightarrow> rbac_Engine result" where
  "GrantRoleToRole e childRole parentRole =
     (let childKey = ToUpper childRole; parentKey = ToUpper parentRole
      in case roles e childKey of
           None \<Rightarrow> Err (DoesNotExist ''child role'' childKey)
         | Some child \<Rightarrow>
             if roles e parentKey = None then Err (DoesNotExist ''parent role'' parentKey)
             else if parentKey \<in> set (r_ParentRoles child) then Ok e
             else Ok (e\<lparr>roles := (roles e)
                    (childKey \<mapsto> child\<lparr>r_ParentRoles := r_ParentRoles child @ [parentKey]\<rparr>)\<rparr>))"

definition default_roles :: "string list" where
  "default_roles = [''ACCOUNTADMIN'', ''SYSADMIN'', ''SECURITYADMIN'', ''USERADMIN'', ''PUBLIC'']"

definition rbac_Init :: "rbac_Engine \<Rightarrow> time \<Rightarrow> rbac_Engine" where
  "rbac_Init e now =
     (let e = foldl (\<lambda>e name. ignore_error e (CreateRole e now name)) e default_roles;
          e = ignore_error e (GrantRoleToRole e ''SYSADMIN'' ''ACCOUNTADMIN'');
          e = ignore_error e (GrantRoleToRole e ''SECURITYADMIN'' ''ACCOUNTADMIN'')
      in ignore_error e (GrantRoleToRole e ''USERADMIN'' ''SECURITYADMIN''))"

definition rbac_Reset :: "time \<Rightarrow> rbac_Engine \<Rightarrow> rbac_Engine" where
  "rbac_Reset now e = rbac_Init (e\<lparr>roles := Map.empty, userRoles := Map.empty\<rparr>) now"

subsection \<open>The access check\<close>

fun roleInheritsLocked ::
  "rbac_Engine \<Rightarrow> string \<Rightarrow> nat \<Rightarrow> string \<Rightarrow> string set \<Rightarrow> (bool \<times> string set) option"
where
  "roleInheritsLocked e targetRole 0 currentRole visited = None"
| "roleInheritsLocked e targetRole (Suc fuel) currentRole visited =
     (if currentRole = targetRole then Some (True, visited)
      else if currentRole \<in> visited then Some (False, visited)
      else
        let visited = insert currentRole visited
        in case roles e currentRole of
             None \<Rightarrow> Some (False, visited)
           | Some role \<Rightarrow>
               search_any (roleInheritsLocked e targetRole fuel) (r_ParentRoles role) visited)"

fun userHasRoleLoop :: "rbac_Engine \<Rightarrow> nat \<Rightarrow> string \<Rightarrow> string list \<Rightarrow> bool option" where
  "userHasRoleLoop e fuel roleKey [] = Some False"
| "userHasRoleLoop e fuel roleKey (r # rs) =
     (if r = roleKey then Some True
      else case roleInheritsLocked e roleKey fuel r {} of
             None \<Rightarrow> None
           | Some (b, _) \<Rightarrow> if b then Some True else userHasRoleLoop e fuel roleKey rs)"

definition userHasRoleLocked :: "rbac_Engine \<Rightarrow> nat \<Rightarrow> string \<Rightarrow> string \<Rightarrow> bool option" where
  "userHasRoleLocked e fuel userKey roleKey = userHasRoleLoop e fuel roleKey (user_roles e userKey)"

definition grant_matches :: "Privilege \<Rightarrow> ObjectType \<Rightarrow> string \<Rightarrow> Grant \<Rightarrow> bool" where
  "grant_matches privilege objType objName g \<longleftrightarrow>
     (g_Privilege g = privilege \<or> g_Privilege g = PrivAll) \<and>
     g_ObjectType g = objType \<and> g_ObjectName g = objName"

text \<open>
  The names the inner loops of \<^verbatim>\<open>roleHasPrivilegeLocked\<close> recurse on: for each role of the map, in
  range order, its name once for each of its parents that is the expanded role.
\<close>

definition child_names :: "rbac_Engine \<Rightarrow> (string \<Rightarrow> string list) \<Rightarrow> string \<Rightarrow> string list" where
  "child_names e ord roleKey =
     concat (map (\<lambda>r. map (\<lambda>_. r_Name r) (filter (\<lambda>p. p = roleKey) (r_ParentRoles r)))
                 (range_values (roles e) (ord roleKey)))"

fun roleHasPrivilegeLocked ::
  "rbac_Engine \<Rightarrow> (string \<Rightarrow> string list) \<Rightarrow> Privilege \<Rightarrow> ObjectType \<Rightarrow> string \<Rightarrow> nat \<Rightarrow> string \<Rightarrow> string set
     \<Rightarrow> (bool \<times> string set) option"
where
  "roleHasPrivilegeLocked e ord privilege objType objName 0 roleKey visited = None"
| "roleHasPrivilegeLocked e ord privilege objType objName (Suc fuel) roleKey visited =
     (if roleKey \<in> visited then Some (False, visited)
      else
        let visited = insert roleKey visited
        in case roles e roleKey of
             None \<Rightarrow> Some (False, visited)
           | Some role \<Rightarrow>
               if list_ex (grant_matches privilege objType objName) (r_Grants role)
               then Some (True, visited)
               else search_any (roleHasPrivilegeLocked e ord privilege objType objName fuel)
                      (child_names e ord roleKey) visited)"

definition CheckAccess ::
  "rbac_Engine \<Rightarrow> (string \<Rightarrow> string list) \<Rightarrow> nat \<Rightarrow> string \<Rightarrow> string \<Rightarrow> Privilege \<Rightarrow> ObjectType \<Rightarrow> string
     \<Rightarrow> bool option"
where
  "CheckAccess e ord fuel userName roleName privilege objType objName =
     (let roleKey = ToUpper roleName; userKey = ToUpper userName; objKey = ToUpper objName
      in case userHasRoleLocked e fuel userKey roleKey of
           None \<Rightarrow> None
         | Some has \<Rightarrow>
             if \<not> has then Some False
             else map_option fst
                    (roleHasPrivilegeLocked e ord privilege objType objKey fuel roleKey {}))"

definition ShowGrants :: "rbac_Engine \<Rightarrow> string \<Rightarrow> Grant list" where
  "ShowGrants e roleName =
     (case roles e (ToUpper roleName) of None \<Rightarrow> [] | Some role \<Rightarrow> r_Grants role)"

definition ShowRoles :: "rbac_Engine \<Rightarrow> string list \<Rightarrow> Role list" where
  "ShowRoles e ks = range_values (roles e) ks"

subsection \<open>Invariant\<close>

text \<open>
  Roles are filed under their upper-case name; no role lists a parent and no user a role that does
  not exist, or one twice; and no role holds two grants of one privilege on one object.
\<close>

definition grant_key :: "Grant \<Rightarrow> Privilege \<times> ObjectType \<times> string" where
  "grant_key g = (g_Privilege g, g_ObjectType g, g_ObjectName g)"

definition role_ok :: "string set \<Rightarrow> string \<Rightarrow> Role \<Rightarrow> bool" where
  "role_ok ks k r \<longleftrightarrow> r_Name r = k \<and> ToUpper k = k \<and>
     distinct (r_ParentRoles r) \<and> set (r_ParentRoles r) \<subseteq> ks \<and>
     distinct (map grant_key (r_Grants r)) \<and> (\<forall>g \<in> set (r_Grants r). g_GrantedTo g = k)"

definition rbac_inv :: "rbac_Engine \<Rightarrow> bool" where
  "rbac_inv e \<longleftrightarrow> finite (dom (roles e)) \<and>
     (\<forall>k r. roles e k = Some r \<longrightarrow> role_ok (dom (roles e)) k r) \<and>
     (\<forall>u rs. userRoles e u = Some rs \<longrightarrow> distinct rs \<and> set rs \<subseteq> dom (roles e))"

inductive rbac_step :: "rbac_Engine \<Rightarrow> rbac_Engine \<Rightarrow> bool" where
  create: "CreateRole e now n = Inr e' \<Longrightarrow> rbac_step e e'"
| remove: "DropRole e n = Inr e' \<Longrightarrow> rbac_step e e'"
| grant: "GrantPrivilege e now p ot obj r wg = Inr e' \<Longrightarrow> rbac_step e e'"
| revoke: "RevokePrivilege e p ot obj r = Inr e' \<Longrightarrow> rbac_step e e'"
| to_user: "GrantRoleToUser e r u = Inr e' \<Longrightarrow> rbac_step e e'"
| to_role: "GrantRoleToRole e c p = Inr e' \<Longrightarrow> rbac_step e e'"
| reset: "rbac_step e (rbac_Reset now e)"

inductive rbac_reachable :: "rbac_Engine \<Rightarrow> bool" where
  start: "rbac_reachable (rbac_Init NewEngine now)"
| step: "rbac_reachable e \<Longrightarrow> rbac_step e e' \<Longrightarrow> rbac_reachable e'"

lemma rbac_inv_new: "rbac_inv NewEngine"
  by (simp add: rbac_inv_def NewEngine_def)

lemma role_ok_mono: "role_ok ks k r \<Longrightarrow> ks \<subseteq> ks' \<Longrightarrow> role_ok ks' k r"
  by (auto simp: role_ok_def)

lemma rbac_inv_create:
  assumes "rbac_inv e" "CreateRole e now n = Inr e'"
  shows "rbac_inv e'"
proof -
  have "role_ok ks (ToUpper n) (new_role now (ToUpper n))" for ks
    by (simp add: role_ok_def new_role_def)
  with assms show ?thesis
    by (fastforce simp: CreateRole_def Let_def rbac_inv_def split: if_splits intro: role_ok_mono)
qed

text \<open>Replacing one role by a well-formed one.\<close>

lemma rbac_inv_update:
  assumes "rbac_inv e" "roles e k = Some r" "role_ok (dom (roles e)) k r'"
  shows "rbac_inv (e\<lparr>roles := (roles e)(k \<mapsto> r')\<rparr>)"
proof -
  have "insert k (dom (roles e)) = dom (roles e)" using assms(2) by blast
  with assms show ?thesis by (simp add: rbac_inv_def)
qed

lemma rbac_inv_drop:
  assumes "rbac_inv e" "DropRole e n = Inr e'"
  shows "rbac_inv e'"
proof -
  let ?k = "ToUpper n"
  have dom: "dom (roles e') = dom (roles e) - {?k}"
    using assms(2) by (auto simp: DropRole_def Let_def dom_def split: if_splits)
  have "role_ok (dom (roles e')) k r" if "roles e' k = Some r" for k r
  proof -
    from that assms(2) obtain r0 where "roles e k = Some r0" "k \<noteq> ?k"
        "r = r0\<lparr>r_ParentRoles := filter (\<lambda>p. p \<noteq> ?k) (r_ParentRoles r0)\<rparr>"
      by (auto simp: DropRole_def Let_def split: if_splits)
    moreover from this(1) assms(1) have "role_ok (dom (roles e)) k r0" by (simp add: rbac_inv_def)
    ultimately show ?thesis by (auto simp: role_ok_def dom)
  qed
  moreover have "distinct rs \<and> set rs \<subseteq> dom (roles e')" if "userRoles e' u = Some rs" for u rs
  proof -
    from that assms(2) obtain rs0 where "userRoles e u = Some rs0" "rs = filter (\<lambda>r. r \<noteq> ?k) rs0"
      by (auto simp: DropRole_def Let_def split: if_splits)
    moreover from this(1) assms(1) have "distinct rs0" "set rs0 \<subseteq> dom (roles e)"
      by (simp_all add: rbac_inv_def)
    ultimately show ?thesis by (auto simp: dom)
  qed
  ultimately show ?thesis using assms(1) dom by (simp add: rbac_inv_def)
qed

lemma grant_key_same: "same_grant p ot obj g \<longleftrightarrow> grant_key g = (p, ot, obj)"
  by (auto simp: same_grant_def grant_key_def)

lemma new_grant_simps [simp]:
  "grant_key (new_grant now p ot obj r wg) = (p, ot, obj)"
  "g_GrantedTo (new_grant now p ot obj r wg) = r"
  by (simp_all add: grant_key_def new_grant_def)

lemma rbac_inv_grant:
  assumes "rbac_inv e" "GrantPrivilege e now p ot obj r wg = Inr e'"
  shows "rbac_inv e'"
proof -
  from assms(2) obtain role where role: "roles e (ToUpper r) = Some role"
    by (auto simp: GrantPrivilege_def Let_def split: option.splits)
  with assms(1) have ok: "role_ok (dom (roles e)) (ToUpper r) role" by (simp add: rbac_inv_def)
  show ?thesis
  proof (cases "list_ex (same_grant p ot (ToUpper obj)) (r_Grants role)")
    case True
    with assms role show ?thesis by (simp add: GrantPrivilege_def)
  next
    case False
    then have "(p, ot, ToUpper obj) \<notin> grant_key ` set (r_Grants role)"
      by (force simp: list_ex_iff grant_key_same)
    with ok False assms(2) role show ?thesis
      by (auto simp: GrantPrivilege_def Let_def role_ok_def intro!: rbac_inv_update [OF assms(1) role])
  qed
qed

lemma rbac_inv_revoke:
  assumes "rbac_inv e" "RevokePrivilege e p ot obj r = Inr e'"
  shows "rbac_inv e'"
proof -
  from assms(2) obtain role where role: "roles e (ToUpper r) = Some role"
    by (auto simp: RevokePrivilege_def Let_def split: option.splits)
  with assms(1) have "role_ok (dom (roles e)) (ToUpper r) role" by (simp add: rbac_inv_def)
  with assms role show ?thesis
    by (auto simp: RevokePrivilege_def Let_def role_ok_def distinct_map_filter
        split: if_splits intro!: rbac_inv_update [OF assms(1) role])
qed

lemma rbac_inv_to_user:
  "rbac_inv e \<Longrightarrow> GrantRoleToUser e r u = Inr e' \<Longrightarrow> rbac_inv e'"
  by (fastforce simp: GrantRoleToUser_def Let_def rbac_inv_def user_roles_def
      split: if_splits option.splits)

lemma rbac_inv_to_role:
  assumes "rbac_inv e" "GrantRoleToRole e c p = Inr e'"
  shows "rbac_inv e'"
proof -
  from assms(2) obtain child where child: "roles e (ToUpper c) = Some child"
    by (auto simp: GrantRoleToRole_def Let_def split: option.splits)
  with assms(1) have "role_ok (dom (roles e)) (ToUpper c) child" by (simp add: rbac_inv_def)
  with assms child show ?thesis
    by (auto simp: GrantRoleToRole_def Let_def role_ok_def
        split: if_splits intro!: rbac_inv_update [OF assms(1) child])
qed

lemma rbac_inv_ignore:
  "rbac_inv e \<Longrightarrow> (\<And>e'. r = Inr e' \<Longrightarrow> rbac_inv e') \<Longrightarrow> rbac_inv (ignore_error e r)"
  by (cases r) auto

lemma rbac_inv_try_create: "rbac_inv e \<Longrightarrow> rbac_inv (ignore_error e (CreateRole e now n))"
  by (auto intro: rbac_inv_ignore rbac_inv_create)

lemma rbac_inv_try_to_role: "rbac_inv e \<Longrightarrow> rbac_inv (ignore_error e (GrantRoleToRole e c p))"
  by (auto intro: rbac_inv_ignore rbac_inv_to_role)

lemma rbac_inv_init: "rbac_inv e \<Longrightarrow> rbac_inv (rbac_Init e now)"
  unfolding rbac_Init_def default_roles_def Let_def foldl.simps
  by (intro rbac_inv_try_create rbac_inv_try_to_role)

lemma rbac_step_inv: "rbac_step e e' \<Longrightarrow> rbac_inv e \<Longrightarrow> rbac_inv e'"
proof (induction rule: rbac_step.induct)
  case (reset e now)
  have "rbac_inv (e\<lparr>roles := Map.empty, userRoles := Map.empty\<rparr>)" by (simp add: rbac_inv_def)
  then show ?case by (simp add: rbac_Reset_def rbac_inv_init)
qed (blast intro: rbac_inv_create rbac_inv_drop rbac_inv_grant rbac_inv_revoke rbac_inv_to_user
    rbac_inv_to_role)+

lemma rbac_reachable_inv: "rbac_reachable e \<Longrightarrow> rbac_inv e"
  by (induction rule: rbac_reachable.induct) (auto intro: rbac_inv_init rbac_inv_new rbac_step_inv)

interpretation rbac_reset: resettable "rbac_Reset now" "rbac_Init NewEngine now"
proof unfold_locales
  fix e :: rbac_Engine
  show "rbac_Reset now e = rbac_Init NewEngine now"
    by (cases e) (simp add: rbac_Reset_def NewEngine_def)
qed

lemma inv_user_roles:
  "rbac_inv e \<Longrightarrow> distinct (user_roles e u) \<and> set (user_roles e u) \<subseteq> dom (roles e)"
  by (cases "userRoles e u") (simp_all add: rbac_inv_def user_roles_def)

lemma inv_parents: "rbac_inv e \<Longrightarrow> roles e k = Some r \<Longrightarrow> set (r_ParentRoles r) \<subseteq> dom (roles e)"
  by (simp add: rbac_inv_def role_ok_def)

subsection \<open>The walks as searches\<close>

definition parents_of :: "rbac_Engine \<Rightarrow> string \<Rightarrow> string list" where
  "parents_of e k = (case roles e k of None \<Rightarrow> [] | Some r \<Rightarrow> r_ParentRoles r)"

definition children_of :: "rbac_Engine \<Rightarrow> (string \<Rightarrow> string list) \<Rightarrow> string \<Rightarrow> string list" where
  "children_of e ord k = (case roles e k of None \<Rightarrow> [] | Some _ \<Rightarrow> child_names e ord k)"

definition holds_grant :: "rbac_Engine \<Rightarrow> Privilege \<Rightarrow> ObjectType \<Rightarrow> string \<Rightarrow> string \<Rightarrow> bool" where
  "holds_grant e p ot obj k \<longleftrightarrow>
     (\<exists>r. roles e k = Some r \<and> (\<exists>g \<in> set (r_Grants r). grant_matches p ot obj g))"

interpretation up: graph_search "roleInheritsLocked e target" "parents_of e" "\<lambda>k. k = target"
  by unfold_locales (auto simp: parents_of_def Let_def split: option.split)

interpretation down: graph_search "roleHasPrivilegeLocked e ord p ot obj" "children_of e ord" "holds_grant e p ot obj"
  by unfold_locales
    (auto simp: children_of_def holds_grant_def Let_def list_ex_iff split: option.split)

text \<open>The hierarchy itself: \<open>(c, p)\<close> when role \<open>c\<close> is granted to role \<open>p\<close>.\<close>

definition granted_to :: "rbac_Engine \<Rightarrow> (string \<times> string) set" where
  "granted_to e = {(c, p). \<exists>r. roles e c = Some r \<and> p \<in> set (r_ParentRoles r)}"

lemma up_edges: "up.edges e = granted_to e"
  by (auto simp: up.edges_def granted_to_def parents_of_def) (force split: option.splits)

definition range_orders :: "rbac_Engine \<Rightarrow> (string \<Rightarrow> string list) \<Rightarrow> bool" where
  "range_orders e ord \<longleftrightarrow> (\<forall>k. range_order (roles e) (ord k))"

lemma granted_to_dom: "rbac_inv e \<Longrightarrow> (c, p) \<in> granted_to e \<Longrightarrow> c \<in> dom (roles e) \<and> p \<in> dom (roles e)"
  by (fastforce simp: rbac_inv_def granted_to_def role_ok_def)

lemma set_child_names:
  assumes "rbac_inv e" "range_orders e ord"
  shows "set (child_names e ord k) = {c. (c, k) \<in> granted_to e}"
proof -
  have "c \<in> set (child_names e ord k) \<longleftrightarrow> (c, k) \<in> granted_to e" for c
  proof -
    have ran: "set (range_values (roles e) (ord k)) = ran (roles e)"
      using assms(2) by (simp add: range_orders_def set_range_values_order)
    have name: "roles e c = Some r \<Longrightarrow> r_Name r = c" for c r
      using assms(1) by (simp add: rbac_inv_def role_ok_def)
    show ?thesis
      by (auto simp: child_names_def ran ran_def granted_to_def dest: name)
  qed
  then show ?thesis by blast
qed

lemma down_edges:
  assumes "rbac_inv e" "range_orders e ord"
  shows "down.edges e ord = (granted_to e)\<inverse>"
  using granted_to_dom [OF assms(1)]
  by (fastforce simp: down.edges_def children_of_def set_child_names [OF assms] split: option.splits)

lemma roleInherits_returns:
  assumes "rbac_inv e" "card (dom (roles e)) < fuel" "r \<in> dom (roles e)"
  shows "\<exists>vis. roleInheritsLocked e target fuel r {} = Some ((r, target) \<in> (granted_to e)\<^sup>*, vis)"
proof -
  have "set (parents_of e v) \<subseteq> dom (roles e)" if "v \<in> dom (roles e)" for v
    using inv_parents [OF assms(1)] that by (fastforce simp: parents_of_def)
  from up.visit_returns [OF _ this assms(3,2), of target] assms(1) show ?thesis
    by (simp add: up_edges rbac_inv_def)
qed

lemma userHasRoleLoop_returns:
  assumes "rbac_inv e" "card (dom (roles e)) < fuel" "set rs \<subseteq> dom (roles e)"
  shows "userHasRoleLoop e fuel k rs = Some (\<exists>r \<in> set rs. (r, k) \<in> (granted_to e)\<^sup>*)"
  using assms(3)
proof (induction rs)
  case (Cons r rs)
  from Cons.prems roleInherits_returns [OF assms(1,2), of r k]
  obtain vis where "roleInheritsLocked e k fuel r {} = Some ((r, k) \<in> (granted_to e)\<^sup>*, vis)" by auto
  with Cons show ?case by auto
qed simp

lemma userHasRole_returns:
  assumes "rbac_inv e" "card (dom (roles e)) < fuel"
  shows "userHasRoleLocked e fuel u k = Some (\<exists>r \<in> set (user_roles e u). (r, k) \<in> (granted_to e)\<^sup>*)"
  unfolding userHasRoleLocked_def
  by (rule userHasRoleLoop_returns [OF assms]) (simp add: inv_user_roles [OF assms(1)])

lemma granted_to_reach_dom:
  assumes "rbac_inv e" "(c, p) \<in> (granted_to e)\<^sup>*" "c \<in> dom (roles e)"
  shows "p \<in> dom (roles e)"
  using assms(2,3) by (induction rule: rtrancl_induct) (use granted_to_dom [OF assms(1)] in blast)+

lemma roleHasPrivilege_returns:
  assumes "rbac_inv e" "range_orders e ord" "card (dom (roles e)) < fuel" "k \<in> dom (roles e)"
  shows "map_option fst (roleHasPrivilegeLocked e ord p ot obj fuel k {}) =
    Some (\<exists>c. (c, k) \<in> (granted_to e)\<^sup>* \<and> holds_grant e p ot obj c)"
proof -
  have "set (children_of e ord v) \<subseteq> dom (roles e)" for v
    using granted_to_dom [OF assms(1)]
    by (auto simp: children_of_def set_child_names [OF assms(1,2)] split: option.splits)
  from down.visit_returns [OF _ this assms(4,3), of p ot obj] assms(1) show ?thesis
    by (auto simp: down_edges [OF assms(1,2)] rtrancl_converse rbac_inv_def)
qed

subsection \<open>Properties\<close>

text \<open>
  C39. In every state the RBAC engine can reach, no role names a missing parent, no user a missing
  role, each name is listed once, and no role holds the same privilege on the same object twice:
  dropping a role leaves no dangling reference behind.
\<close>

theorem rbac_no_dangling:
  assumes "rbac_reachable e"
  shows "(\<forall>k r. roles e k = Some r \<longrightarrow> r_Name r = k \<and> distinct (r_ParentRoles r) \<and>
            set (r_ParentRoles r) \<subseteq> dom (roles e) \<and> distinct (map grant_key (r_Grants r))) \<and>
         (\<forall>u. distinct (user_roles e u) \<and> set (user_roles e u) \<subseteq> dom (roles e))"
  using rbac_reachable_inv [OF assms] inv_user_roles by (simp add: rbac_inv_def role_ok_def)

text \<open>
  C1. The access check decides the hierarchy: for every order in which the map is ranged over and
  any fuel above the number of roles, it returns, cycles in the hierarchy included, and it answers
  yes exactly when some role of the user is, or is granted directly or indirectly to, the role
  acted in, and the role acted in is, or was granted directly or indirectly, a role that holds the
  privilege or ALL on the object.
\<close>

theorem CheckAccess_decides:
  assumes "rbac_reachable e" "range_orders e ord" "card (dom (roles e)) < fuel"
  shows "CheckAccess e ord fuel user role p ot obj =
    Some ((\<exists>r \<in> set (user_roles e (ToUpper user)). (r, ToUpper role) \<in> (granted_to e)\<^sup>*) \<and>
          (\<exists>c. (c, ToUpper role) \<in> (granted_to e)\<^sup>* \<and> holds_grant e p ot (ToUpper obj) c))"
proof -
  note inv = rbac_reachable_inv [OF assms(1)]
  let ?has = "\<exists>r \<in> set (user_roles e (ToUpper user)). (r, ToUpper role) \<in> (granted_to e)\<^sup>*"
  have user: "userHasRoleLocked e fuel (ToUpper user) (ToUpper role) = Some ?has"
    by (rule userHasRole_returns [OF inv assms(3)])
  have "ToUpper role \<in> dom (roles e)" if ?has
    using that granted_to_reach_dom [OF inv] inv_user_roles [OF inv, of "ToUpper user"] by blast
  from roleHasPrivilege_returns [OF inv assms(2,3) this] show ?thesis
    unfolding CheckAccess_def Let_def user by (cases ?has) simp_all
qed

text \<open>A small organisation: the default roles, a grant to ACCOUNTADMIN and a user with SYSADMIN.\<close>

definition sample_engine :: rbac_Engine where
  "sample_engine =
     (let e = rbac_Init NewEngine 0;
          e = ignore_error e (GrantPrivilege e 1 ''SELECT'' ''TABLE'' ''db.s.t'' ''accountadmin'' False)
      in ignore_error e (GrantRoleToUser e ''sysadmin'' ''bob''))"

definition sample_order :: "string \<Rightarrow> string list" where
  "sample_order _ = default_roles"

lemma dom_try_create [simp]:
  "dom (roles (ignore_error e (CreateRole e now n))) = insert (ToUpper n) (dom (roles e))"
  by (auto simp: CreateRole_def Let_def)

lemma dom_try_to_role [simp]: "dom (roles (ignore_error e (GrantRoleToRole e c p))) = dom (roles e)"
  by (auto simp: GrantRoleToRole_def Let_def split: option.split)

lemma dom_try_grant [simp]:
  "dom (roles (ignore_error e (GrantPrivilege e now p ot obj r wg))) = dom (roles e)"
  by (auto simp: GrantPrivilege_def Let_def split: option.split)

lemma dom_try_to_user [simp]: "dom (roles (ignore_error e (GrantRoleToUser e r u))) = dom (roles e)"
  by (auto simp: GrantRoleToUser_def Let_def)

lemma dom_init: "dom (roles (rbac_Init NewEngine now)) = set default_roles"
proof -
  have "map ToUpper default_roles = default_roles" by code_simp
  then have "ToUpper ` set default_roles = set default_roles" by (metis list.set_map)
  moreover have "dom (roles (rbac_Init NewEngine now)) = ToUpper ` set default_roles"
    unfolding rbac_Init_def default_roles_def Let_def foldl.simps dom_try_to_role dom_try_create
    by (simp add: NewEngine_def insert_commute)
  ultimately show ?thesis by simp
qed

lemma sample_orders: "range_orders sample_engine sample_order"
proof -
  have "dom (roles sample_engine) = set default_roles"
    unfolding sample_engine_def Let_def dom_try_to_user dom_try_grant by (rule dom_init)
  moreover have "distinct default_roles" by code_simp
  ultimately show ?thesis by (simp add: range_orders_def range_order_def sample_order_def)
qed

lemma sample_fuel: "card (dom (roles sample_engine)) < 6"
proof -
  have "card (dom (roles sample_engine)) = length default_roles"
    using sample_orders unfolding range_orders_def sample_order_def by (metis range_order_length)
  then show ?thesis by (simp add: default_roles_def)
qed

lemma rbac_reachable_ignore:
  "rbac_reachable e \<Longrightarrow> (\<And>e'. r = Inr e' \<Longrightarrow> rbac_step e e') \<Longrightarrow> rbac_reachable (ignore_error e r)"
  by (cases r) (auto intro: rbac_reachable.step)

lemma sample_reachable: "rbac_reachable sample_engine"
  unfolding sample_engine_def Let_def
  by (intro rbac_reachable_ignore rbac_reachable.start) (auto intro: rbac_step.intros)

theorem rbac_no_dangling_witness:
  "rbac_reachable sample_engine \<and> set (user_roles sample_engine ''BOB'') \<subseteq> dom (roles sample_engine)"
  using rbac_no_dangling [OF sample_reachable] sample_reachable by blast

theorem CheckAccess_decides_witness:
  "CheckAccess sample_engine sample_order 6 ''bob'' ''sysadmin'' ''SELECT'' ''TABLE'' ''db.s.t'' =
    Some ((\<exists>r \<in> set (user_roles sample_engine (ToUpper ''bob'')).
            (r, ToUpper ''sysadmin'') \<in> (granted_to sample_engine)\<^sup>*) \<and>
          (\<exists>c. (c, ToUpper ''sysadmin'') \<in> (granted_to sample_engine)\<^sup>* \<and>
            holds_grant sample_engine ''SELECT'' ''TABLE'' (ToUpper ''db.s.t'') c)) \<and>
   CheckAccess sample_engine sample_order 6 ''bob'' ''sysadmin'' ''SELECT'' ''TABLE'' ''db.s.t'' = Some False"
proof
  show "CheckAccess sample_engine sample_order 6 ''bob'' ''sysadmin'' ''SELECT'' ''TABLE'' ''db.s.t'' = Some False"
    by code_simp
qed (rule CheckAccess_decides [OF sample_reachable sample_orders sample_fuel])

text \<open>
  The check lets a user act upward: a user who holds only a child role passes the check for a
  role the child is granted to, and with it for every privilege that only the parent holds. (A
  user with SYSADMIN passes as ACCOUNTADMIN.)
\<close>

theorem child_acts_as_parent:
  assumes "rbac_reachable e" "range_orders e ord" "card (dom (roles e)) < fuel"
    and "r \<in> set (user_roles e (ToUpper user))" "(r, ToUpper parent) \<in> (granted_to e)\<^sup>+"
    and "holds_grant e p ot (ToUpper obj) (ToUpper parent)"
  shows "CheckAccess e ord fuel user parent p ot obj = Some True"
proof -
  note inv = rbac_reachable_inv [OF assms(1)]
  have up: "(r, ToUpper parent) \<in> (granted_to e)\<^sup>*" using assms(5) by (rule trancl_into_rtrancl)
  then have "ToUpper parent \<in> dom (roles e)"
    using granted_to_reach_dom [OF inv] inv_user_roles [OF inv] assms(4) by blast
  note down = roleHasPrivilege_returns [OF inv assms(2,3) this, of p ot "ToUpper obj"]
  from assms(6) have "\<exists>c. (c, ToUpper parent) \<in> (granted_to e)\<^sup>* \<and> holds_grant e p ot (ToUpper obj) c"
    by blast
  with down have "map_option fst
      (roleHasPrivilegeLocked e ord p ot (ToUpper obj) fuel (ToUpper parent) {}) = Some True"
    by (simp only: simp_thms)
  moreover have "userHasRoleLocked e fuel (ToUpper user) (ToUpper parent) = Some True"
    using userHasRole_returns [OF inv assms(3)] up assms(4) by auto
  ultimately show ?thesis by (simp add: CheckAccess_def)
qed

lemma holds_grant_ToUpper:
  "holds_grant e p ot obj (ToUpper r) \<longleftrightarrow> list_ex (grant_matches p ot obj) (ShowGrants e r)"
  by (cases "roles e (ToUpper r)") (auto simp: holds_grant_def ShowGrants_def list_ex_iff)

theorem child_acts_as_parent_witness:
  "CheckAccess sample_engine sample_order 6 ''bob'' ''accountadmin'' ''SELECT'' ''TABLE'' ''db.s.t'' = Some True"
proof (rule child_acts_as_parent [OF sample_reachable sample_orders sample_fuel])
  have "''SYSADMIN'' \<in> set (user_roles sample_engine (ToUpper ''bob''))" by code_simp
  then show "''SYSADMIN'' \<in> set (user_roles sample_engine (ToUpper ''bob''))" .
  have "list_ex (\<lambda>p. p = ToUpper ''accountadmin'') (parents_of sample_engine ''SYSADMIN'')" by code_simp
  then have "(''SYSADMIN'', ToUpper ''accountadmin'') \<in> granted_to sample_engine"
    unfolding up_edges [symmetric] by (simp add: up.edges_def list_ex_iff)
  then show "(''SYSADMIN'', ToUpper ''accountadmin'') \<in> (granted_to sample_engine)\<^sup>+" by blast
  have "list_ex (grant_matches ''SELECT'' ''TABLE'' (ToUpper ''db.s.t'')) (ShowGrants sample_engine ''accountadmin'')"
    by code_simp
  then show "holds_grant sample_engine ''SELECT'' ''TABLE'' (ToUpper ''db.s.t'') (ToUpper ''accountadmin'')"
    by (simp add: holds_grant_ToUpper)
qed

text \<open>
  Revoking a privilege undoes granting it: when the role did not hold the privilege before, a
  grant followed by a revoke gives back the very state there was, and when it did, the grant
  changes nothing.
\<close>

theorem revoke_undoes_grant:
  assumes "GrantPrivilege e now p ot obj r wg = Inr e'"
  shows "if list_ex (same_grant p ot (ToUpper obj)) (ShowGrants e r) then e' = e
         else RevokePrivilege e' p ot obj r = Inr e"
proof -
  from assms obtain role where role: "roles e (ToUpper r) = Some role"
    by (auto simp: GrantPrivilege_def Let_def split: option.splits)
  then have gs: "ShowGrants e r = r_Grants role" by (simp add: ShowGrants_def)
  show ?thesis
  proof (cases "list_ex (same_grant p ot (ToUpper obj)) (r_Grants role)")
    case True
    with assms role gs show ?thesis by (simp add: GrantPrivilege_def)
  next
    case False
    then have "filter (\<lambda>g. \<not> same_grant p ot (ToUpper obj) g) (r_Grants role) = r_Grants role"
      by (auto simp: list_ex_iff intro: filter_True)
    with False assms role gs show ?thesis
      by (auto simp: GrantPrivilege_def RevokePrivilege_def Let_def grant_key_same map_upd_triv)
  qed
qed

theorem revoke_undoes_grant_witness:
  "\<exists>e'. GrantPrivilege sample_engine 3 ''SELECT'' ''TABLE'' ''u'' ''public'' True = Inr e' \<and>
     RevokePrivilege e' ''SELECT'' ''TABLE'' ''u'' ''public'' = Inr sample_engine"
proof -
  have "is_ok (GrantPrivilege sample_engine 3 ''SELECT'' ''TABLE'' ''u'' ''public'' True)"
    "\<not> list_ex (same_grant ''SELECT'' ''TABLE'' (ToUpper ''u'')) (ShowGrants sample_engine ''public'')"
    by code_simp+
  then show ?thesis using revoke_undoes_grant [of sample_engine 3 "''SELECT''" "''TABLE''" "''u''" "''public''" True]
    by (auto simp: is_ok_iff)
qed

end
