(* ===== verification/Cron.thy ===== *)
theory Cron
  imports Go_Strings
begin

text \<open>
  \<^verbatim>\<open>internal/task/cron.go\<close>: cron expressions and the search for the next matching minute, on a model
  of the parts of Go's \<^verbatim>\<open>time\<close> package it uses. A location is its name and its offset from UTC in
  seconds at each instant; the time zone database behind \<^verbatim>\<open>time.LoadLocation\<close> is the argument \<open>load\<close>.
\<close>

subsection \<open>Calendar and clock\<close>

record Location =
  loc_String :: string
  loc_offset :: "time \<Rightarrow> int"

definition UTC :: Location where
  "UTC = \<lparr>loc_String = ''UTC'', loc_offset = (\<lambda>_. 0)\<rparr>"

text \<open>Seconds on the wall clock of a location, counted from 1970-01-01 00:00 there.\<close>

definition local_secs :: "Location \<Rightarrow> time \<Rightarrow> int" where
  "local_secs loc t = t div second + loc_offset loc t"

definition local_day :: "Location \<Rightarrow> time \<Rightarrow> int" where
  "local_day loc t = local_secs loc t div 86400"

definition Minute :: "Location \<Rightarrow> time \<Rightarrow> int" where
  "Minute loc t = local_secs loc t mod 3600 div 60"

definition Hour :: "Location \<Rightarrow> time \<Rightarrow> int" where
  "Hour loc t = local_secs loc t mod 86400 div 3600"

definition Weekday :: "Location \<Rightarrow> time \<Rightarrow> int" where
  "Weekday loc t = (local_day loc t + 4) mod 7"

text \<open>
  Month and day of the proleptic Gregorian calendar, from the days since the epoch: the days are
  counted from 1 March of the year 0 in cycles of 400 years, so that the leap day ends the year.
\<close>

definition month_day :: "int \<Rightarrow> int \<times> int" where
  "month_day days =
     (let doe = (days + 719468) mod 146097;
          yoe = (doe - doe div 1460 + doe div 36524 - doe div 146096) div 365;
          doy = doe - (365 * yoe + yoe div 4 - yoe div 100);
          mp = (5 * doy + 2) div 153;
          d = doy - (153 * mp + 2) div 5 + 1
      in (if mp < 10 then mp + 3 else mp - 9, d))"

definition Month :: "Location \<Rightarrow> time \<Rightarrow> int" where
  "Month loc t = fst (month_day (local_day loc t))"

definition Day :: "Location \<Rightarrow> time \<Rightarrow> int" where
  "Day loc t = snd (month_day (local_day loc t))"

text \<open>
  \<^verbatim>\<open>t.Truncate(time.Minute)\<close> rounds down on the absolute time line; the zero time is a whole minute
  away from the Unix epoch.
\<close>

definition truncate_minute :: "time \<Rightarrow> time" where
  "truncate_minute t = t - t mod minute"

subsection \<open>Parsing\<close>

record cronFields =
  cron_minute :: "int list option"
  cron_hour :: "int list option"
  cron_dayOfMonth :: "int list option"
  cron_month :: "int list option"
  cron_dayOfWeek :: "int list option"

text \<open>One part of a comma-separated field: its start, end and step, checked.\<close>

definition cron_step :: "string \<Rightarrow> string \<Rightarrow> (int \<times> string) result" where
  "cron_step field p =
     (case Index p ''/'' of
        None \<Rightarrow> Ok (1, p)
      | Some idx \<Rightarrow>
          (let stepStr = drop (idx + 1) p
           in case Atoi stepStr of
                None \<Rightarrow> Err (Invalid ''step'' field)
              | Some n \<Rightarrow> if n \<le> 0 then Err (Invalid ''step'' field) else Ok (n, take idx p)))"

definition cron_bounds :: "string \<Rightarrow> int \<Rightarrow> int \<Rightarrow> string \<Rightarrow> (int \<times> int) result" where
  "cron_bounds field minVal maxVal p =
     (if p = ''*'' then Ok (minVal, maxVal)
      else if Contains p ''-'' then
        (let rng = SplitN2 p (CHR ''-'')
         in case (Atoi (rng ! 0), Atoi (rng ! 1)) of
              (Some a, Some b) \<Rightarrow> Ok (a, b)
            | _ \<Rightarrow> Err (Invalid ''range'' field))
      else case Atoi p of
             None \<Rightarrow> Err (Invalid ''value'' field)
           | Some n \<Rightarrow> Ok (n, n))"

definition parseCronPart :: "string \<Rightarrow> int \<Rightarrow> int \<Rightarrow> string \<Rightarrow> (int \<times> int \<times> int) result" where
  "parseCronPart field minVal maxVal p =
     (case cron_step field p of
        Inl err \<Rightarrow> Err err
      | Inr (step, p) \<Rightarrow>
          (case cron_bounds field minVal maxVal p of
             Inl err \<Rightarrow> Err err
           | Inr (start, end) \<Rightarrow>
               if start < minVal \<or> end > maxVal \<or> start > end
               then Err (Invalid ''out-of-range'' field)
               else Ok (start, end, step)))"

text \<open>
  The loop \<^verbatim>\<open>for v := start; v <= end; v += step\<close>; the map \<^verbatim>\<open>seen\<close> has the values of \<open>out\<close> as keys.
  The addition wraps at 64 bits. The loop is fuelled; \<open>cron_loop_returns\<close> shows that 64 rounds are
  always enough for the arguments that pass the checks.
\<close>

fun cron_loop :: "nat \<Rightarrow> int \<Rightarrow> int \<Rightarrow> int \<Rightarrow> int list \<Rightarrow> int list option" where
  "cron_loop 0 step end v out = None"
| "cron_loop (Suc fuel) step end v out =
     (if v \<le> end
      then cron_loop fuel step end (wrap64 (v + step)) (if v \<in> set out then out else out @ [v])
      else Some out)"

definition cron_expand :: "int \<Rightarrow> int \<Rightarrow> int \<Rightarrow> int list \<Rightarrow> int list" where
  "cron_expand start end step out =
     (case cron_loop 64 step end start out of None \<Rightarrow> out | Some out' \<Rightarrow> out')"

fun cron_parts :: "string \<Rightarrow> int \<Rightarrow> int \<Rightarrow> string list \<Rightarrow> int list \<Rightarrow> int list result" where
  "cron_parts field minVal maxVal [] out = Ok out"
| "cron_parts field minVal maxVal (p # ps) out =
     (case parseCronPart field minVal maxVal p of
        Inl err \<Rightarrow> Err err
      | Inr (start, end, step) \<Rightarrow> cron_parts field minVal maxVal ps (cron_expand start end step out))"

definition parseCronField :: "string \<Rightarrow> int \<Rightarrow> int \<Rightarrow> int list option result" where
  "parseCronField field minVal maxVal =
     (if field = ''*'' then Ok None
      else case cron_parts field minVal maxVal (Split field (CHR '','')) [] of
             Inl err \<Rightarrow> Err err
           | Inr out \<Rightarrow> Ok (Some out))"

fun parse_specs :: "(string \<times> int \<times> int) list \<Rightarrow> int list option list result" where
  "parse_specs [] = Ok []"
| "parse_specs ((field, minVal, maxVal) # specs) =
     (case parseCronField field minVal maxVal of
        Inl err \<Rightarrow> Err err
      | Inr vals \<Rightarrow>
          (case parse_specs specs of Inl err \<Rightarrow> Err err | Inr parsed \<Rightarrow> Ok (vals # parsed)))"

definition parseCronExpr ::
  "(string \<Rightarrow> Location result) \<Rightarrow> string \<Rightarrow> (cronFields \<times> Location) result"
where
  "parseCronExpr load expr =
     (let parts = Fields (TrimSpace expr)
      in if length parts < 5 then Err (Invalid ''cron'' expr)
         else
           case (if length parts > 5
                 then (case load (parts ! 5) of
                         Inl err \<Rightarrow> Err (Wrap ''unknown timezone'' err)
                       | Inr z \<Rightarrow> Ok z)
                 else Ok UTC) of
             Inl err \<Rightarrow> Err err
           | Inr loc \<Rightarrow>
               (case parse_specs [(parts ! 0, 0, 59), (parts ! 1, 0, 23), (parts ! 2, 1, 31),
                                  (parts ! 3, 1, 12), (parts ! 4, 0, 6)] of
                  Inl err \<Rightarrow> Err err
                | Inr parsed \<Rightarrow>
                    Ok (\<lparr>cron_minute = parsed ! 0, cron_hour = parsed ! 1, cron_dayOfMonth = parsed ! 2,
                         cron_month = parsed ! 3, cron_dayOfWeek = parsed ! 4\<rparr>, loc)))"

subsection \<open>Matching and searching\<close>

definition cron_contains :: "int list option \<Rightarrow> int \<Rightarrow> bool" where
  "cron_contains vals x = (case vals of None \<Rightarrow> True | Some vs \<Rightarrow> x \<in> set vs)"

definition cronMatches :: "cronFields \<Rightarrow> Location \<Rightarrow> time \<Rightarrow> bool" where
  "cronMatches f loc t =
     (if \<not> cron_contains (cron_minute f) (Minute loc t) then False
      else if \<not> cron_contains (cron_hour f) (Hour loc t) then False
      else if \<not> cron_contains (cron_month f) (Month loc t) then False
      else
        let domConstrained = cron_dayOfMonth f \<noteq> None;
            dowConstrained = cron_dayOfWeek f \<noteq> None;
            domHit = (\<not> domConstrained \<or> cron_contains (cron_dayOfMonth f) (Day loc t));
            dowHit = (\<not> dowConstrained \<or> cron_contains (cron_dayOfWeek f) (Weekday loc t))
        in if domConstrained \<and> dowConstrained then domHit \<or> dowHit else domHit \<and> dowHit)"

function cron_search :: "cronFields \<Rightarrow> Location \<Rightarrow> time \<Rightarrow> time \<Rightarrow> time option" where
  "cron_search f loc limit t =
     (if t > limit then None
      else if cronMatches f loc t then Some t
      else cron_search f loc limit (t + minute))"
  by pat_completeness auto
termination
  by (relation "measure (\<lambda>(f, loc, limit, t). nat (limit - t + 1))") (auto simp: duration_defs)

declare cron_search.simps [simp del]

definition four_years :: duration where
  "four_years = 4 * 365 * 24 * hour"

definition nextCronTime :: "(string \<Rightarrow> Location result) \<Rightarrow> string \<Rightarrow> time \<Rightarrow> time result" where
  "nextCronTime load expr after =
     (case parseCronExpr load expr of
        Inl err \<Rightarrow> Err err
      | Inr (cf, loc) \<Rightarrow>
          (case cron_search cf loc (after + four_years) (truncate_minute after + minute) of
             None \<Rightarrow> Err (Invalid ''no match'' expr)
           | Some t \<Rightarrow> Ok t))"

subsection \<open>The expansion loop\<close>

lemma cron_loop_plain:
  assumes "0 < step" "step \<le> max_int64 - end" "0 \<le> v" "end + 1 - v < int fuel" "0 < fuel"
  shows "\<exists>out'. cron_loop fuel step end v out = Some out' \<and>
    set out' = set out \<union> {w. \<exists>k::nat. w = v + int k * step \<and> w \<le> end} \<and>
    (distinct out \<longrightarrow> distinct out')"
  using assms(3-5)
proof (induction fuel arbitrary: v out)
  case (Suc fuel)
  show ?case
  proof (cases "v \<le> end")
    case False
    have "\<not> v + int k * step \<le> end" for k :: nat
      using False assms(1) mult_nonneg_nonneg [of "int k" step] by linarith
    then have "{w. \<exists>k::nat. w = v + int k * step \<and> w \<le> end} = {}" by blast
    with False show ?thesis by (metis cron_loop.simps(2) sup_bot.right_neutral)
  next
    case True
    let ?out = "if v \<in> set out then out else out @ [v]"
    have w: "wrap64 (v + step) = v + step"
      using True assms(1,2) Suc.prems(1) by (intro wrap64_id) (simp_all add: min_int64_def)
    have fuel: "end + 1 - (v + step) < int fuel" "0 < fuel" using Suc.prems True assms(1) by linarith+
    from Suc.IH [OF _ fuel, of ?out] Suc.prems(1) assms(1) obtain out' where
      out': "cron_loop fuel step end (v + step) ?out = Some out'"
      "set out' = set ?out \<union> {w. \<exists>k::nat. w = v + step + int k * step \<and> w \<le> end}"
      "distinct ?out \<longrightarrow> distinct out'" by auto
    have "{w. \<exists>k::nat. w = v + int k * step \<and> w \<le> end} =
        insert v {w. \<exists>k::nat. w = v + step + int k * step \<and> w \<le> end}" (is "?L = insert v ?R")
    proof -
      have "w \<in> ?L \<longleftrightarrow> w \<in> insert v ?R" for w
      proof
        assume "w \<in> ?L"
        then obtain k where k: "w = v + int k * step" "w \<le> end" by blast
        then show "w \<in> insert v ?R"
        proof (cases k)
          case (Suc j)
          with k have "w = v + step + int j * step" by (simp add: algebra_simps)
          with k show ?thesis by blast
        qed simp
      next
        assume "w \<in> insert v ?R"
        then consider "w = v" | j where "w = v + step + int j * step" "w \<le> end" by blast
        then show "w \<in> ?L"
        proof cases
          case 1
          then have "w = v + int 0 * step" by simp
          with 1 True show ?thesis by blast
        next
          case 2
          then have "w = v + int (Suc j) * step" by (simp add: algebra_simps)
          with 2 show ?thesis by blast
        qed
      qed
      then show ?thesis by blast
    qed
    with True out' w show ?thesis by auto
  qed
qed simp

text \<open>With a step so large that the addition wraps, the loop still ends, within a few rounds.\<close>

lemma cron_loop_round:
  "v \<le> end \<Longrightarrow> \<exists>out'. cron_loop (Suc f) step end v out = cron_loop f step end (wrap64 (v + step)) out'"
  by auto

lemma cron_loop_wrapping:
  assumes "max_int64 - end < step" "step \<le> max_int64" "0 \<le> end" "end \<le> 59" "0 \<le> v" "v + 4 \<le> int fuel"
  shows "cron_loop fuel step end v out \<noteq> None"
  using assms(5,6)
proof (induction "nat v" arbitrary: v out fuel rule: less_induct)
  case less
  note bnds = assms(1-4) less.prems
  have "4 \<le> fuel" using less.prems by linarith
  then obtain f where "fuel = 4 + f" using le_Suc_ex by blast
  then have f: "fuel = Suc (Suc (Suc (Suc f)))" by simp
  show ?case
  proof (cases "v \<le> end \<and> max_int64 < v + step")
    case False
    then have "v \<le> end \<Longrightarrow> wrap64 (v + step) = v + step"
      using bnds by (intro wrap64_id) (auto simp: min_int64_def max_int64_def)
    moreover have "\<not> v + step \<le> end" using bnds by (simp add: max_int64_def)
    ultimately show ?thesis by (simp add: f)
  next
    case True
    let ?v1 = "v + step - 18446744073709551616"
    let ?v2 = "?v1 + step"
    have w1: "wrap64 (v + step) = ?v1"
      using True bnds by (intro wrap64_over) (simp_all add: max_int64_def)
    have le1: "?v1 \<le> end" using True bnds by (simp add: max_int64_def)
    have w2: "wrap64 ?v2 = ?v2"
      using True bnds by (intro wrap64_id) (simp_all add: min_int64_def max_int64_def)
    have le2: "?v2 \<le> v - 2" using bnds by (simp add: max_int64_def)
    have two: "\<exists>o1. cron_loop fuel step end v out = cron_loop (Suc (Suc f)) step end ?v2 o1"
      using cron_loop_round [of v "end" "Suc (Suc (Suc f))" step out] True
        cron_loop_round [OF le1, of "Suc (Suc f)" step] unfolding f w1 w2 by metis
    show ?thesis
    proof (cases "0 \<le> ?v2")
      case True
      have "cron_loop (Suc (Suc f)) step end ?v2 o1 \<noteq> None" for o1
        by (rule less.hyps) (use True le2 less.prems f in auto)
      with two show ?thesis by auto
    next
      case False
      have "wrap64 (?v2 + step) = ?v2 + step"
        using False bnds by (intro wrap64_id) (simp_all add: min_int64_def max_int64_def)
      moreover have "\<not> ?v2 + step \<le> end" using bnds by (simp add: max_int64_def)
      ultimately have "cron_loop (Suc (Suc f)) step end ?v2 o1 \<noteq> None" for o1 by simp
      with two show ?thesis by auto
    qed
  qed
qed

lemma cron_loop_returns:
  assumes "0 < step" "step \<le> max_int64" "0 \<le> v" "v \<le> end" "end \<le> 59"
  shows "cron_loop 64 step end v out \<noteq> None"
proof (cases "step \<le> max_int64 - end")
  case True
  from cron_loop_plain [OF assms(1) True assms(3), of 64 out] assms show ?thesis by auto
next
  case False
  then show ?thesis by (intro cron_loop_wrapping) (use assms in auto)
qed

lemma cron_expand_plain:
  assumes "0 < step" "step \<le> max_int64 - end" "0 \<le> start" "end \<le> 59"
  shows "set (cron_expand start end step out) =
      set out \<union> {w. \<exists>k::nat. w = start + int k * step \<and> w \<le> end}"
    and "distinct out \<Longrightarrow> distinct (cron_expand start end step out)"
  using cron_loop_plain [OF assms(1,2,3), of 64 out] assms(4,3)
  by (auto simp: cron_expand_def)

subsection \<open>The search\<close>

lemma cron_search_Some:
  "cron_search f loc limit t = Some u \<Longrightarrow>
   u \<le> limit \<and> cronMatches f loc u \<and>
   (\<exists>k::nat. u = t + int k * minute \<and> (\<forall>j<k. \<not> cronMatches f loc (t + int j * minute)))"
proof (induction f loc limit t rule: cron_search.induct)
  case (1 f loc limit t)
  show ?case
  proof (cases "cronMatches f loc t")
    case True
    with "1.prems" have "u = t + int 0 * minute" "u \<le> limit"
      by (auto simp: cron_search.simps [of f loc limit t] split: if_splits)
    with True show ?thesis by (intro conjI exI [of _ "0 :: nat"]) auto
  next
    case False
    with "1.prems" have "\<not> limit < t" "cron_search f loc limit (t + minute) = Some u"
      by (auto simp: cron_search.simps [of f loc limit t] split: if_splits)
    from "1.IH" [OF this(1) False this(2)] obtain k where
      k: "u \<le> limit" "cronMatches f loc u" "u = t + minute + int k * minute"
      "\<forall>j<k. \<not> cronMatches f loc (t + minute + int j * minute)" by blast
    have "\<not> cronMatches f loc (t + int j * minute)" if "j < Suc k" for j
    proof (cases j)
      case (Suc i)
      with k(4) that show ?thesis by (auto simp: algebra_simps)
    qed (use False in simp)
    moreover have "u = t + int (Suc k) * minute" using k(3) by (simp add: algebra_simps)
    ultimately show ?thesis using k(1,2) by blast
  qed
qed

lemma cron_search_None:
  "cron_search f loc limit t = None \<Longrightarrow> t + int k * minute \<le> limit \<Longrightarrow>
   \<not> cronMatches f loc (t + int k * minute)"
proof (induction f loc limit t arbitrary: k rule: cron_search.induct)
  case (1 f loc limit t)
  have "t \<le> limit" using "1.prems"(2) duration_pos(2) mult_nonneg_nonneg [of "int k" minute] by linarith
  then have no: "\<not> cronMatches f loc t" "cron_search f loc limit (t + minute) = None"
    using "1.prems"(1) by (auto simp: cron_search.simps [of f loc limit t] split: if_splits)
  show ?case
  proof (cases k)
    case (Suc i)
    have "\<not> cronMatches f loc (t + minute + int i * minute)"
      by (rule "1.IH") (use no \<open>t \<le> limit\<close> "1.prems"(2) Suc in \<open>auto simp: algebra_simps\<close>)
    with Suc show ?thesis by (simp add: algebra_simps)
  qed (use no in simp)
qed

text \<open>The times the search tries: every whole minute after the given time.\<close>

lemma first_minute: "after < truncate_minute after + minute" "(truncate_minute after + minute) mod minute = 0"
  by (auto simp: truncate_minute_def minute_def second_def mod_simps
      pos_mod_bound [THEN order.strict_trans2] algebra_simps)

lemma whole_minute_reached:
  assumes "after < u" "u mod minute = 0"
  shows "\<exists>k::nat. u = truncate_minute after + minute + int k * minute"
proof -
  let ?t = "truncate_minute after + minute"
  have "minute dvd u" "minute dvd ?t" using assms(2) first_minute(2) by (auto simp: dvd_eq_mod_eq_0)
  then obtain a b where ab: "u = minute * a" "?t = minute * b" by (auto simp: dvd_def)
  have "?t \<le> after + minute" by (simp add: truncate_minute_def)
  with assms(1) have "minute * b < minute * (a + 1)" using ab by (simp add: algebra_simps)
  then have "b \<le> a" by simp
  then have "u = ?t + int (nat (a - b)) * minute" using ab by (simp add: algebra_simps)
  then show ?thesis by blast
qed

lemma nextCronTime_future: "nextCronTime load expr after = Inr t \<Longrightarrow> after < t"
proof -
  assume "nextCronTime load expr after = Inr t"
  then obtain cf loc where
    "cron_search cf loc (after + four_years) (truncate_minute after + minute) = Some t"
    by (auto simp: nextCronTime_def split: sum.splits option.splits prod.splits)
  from cron_search_Some [OF this] obtain k :: nat where "t = truncate_minute after + minute + int k * minute"
    by blast
  moreover have "0 \<le> int k * minute" by (simp add: duration_defs)
  ultimately show "after < t" using first_minute(1) [of after] by linarith
qed

subsection \<open>Properties\<close>

text \<open>
  The result is the earliest matching whole minute strictly after the given time, within four years. Where the given
  time is itself a matching minute this is not what the comment of the function says (at or after).
\<close>

lemma nextCronTime_strictly_after:
  assumes "parseCronExpr load expr = Inr (cf, loc)"
  shows "case nextCronTime load expr after of
      Inr t \<Rightarrow> after < t \<and> t \<le> after + four_years \<and> t mod minute = 0 \<and> cronMatches cf loc t \<and>
        (\<forall>u. after < u \<and> u < t \<and> u mod minute = 0 \<longrightarrow> \<not> cronMatches cf loc u)
    | Inl _ \<Rightarrow> (\<forall>u. after < u \<and> u \<le> after + four_years \<and> u mod minute = 0 \<longrightarrow> \<not> cronMatches cf loc u)"
proof (cases "cron_search cf loc (after + four_years) (truncate_minute after + minute)")
  case None
  then have "\<not> cronMatches cf loc u"
    if "after < u" "u \<le> after + four_years" "u mod minute = 0" for u
    using whole_minute_reached [OF that(1,3)] cron_search_None [OF None] that(2) by auto
  with None assms show ?thesis by (simp add: nextCronTime_def)
next
  case (Some t)
  let ?t0 = "truncate_minute after + minute"
  from cron_search_Some [OF Some] obtain k where k: "t \<le> after + four_years" "cronMatches cf loc t"
    "t = ?t0 + int k * minute" "\<forall>j<k. \<not> cronMatches cf loc (?t0 + int j * minute)" by blast
  have "0 \<le> int k * minute" by (simp add: duration_defs)
  then have after: "after < t" using k(3) first_minute(1) [of after] by linarith
  have whole: "t mod minute = 0" using k(3) first_minute(2) [of after] by (simp add: mod_add_eq [symmetric])
  have "\<not> cronMatches cf loc u" if u: "after < u" "u < t" "u mod minute = 0" for u
  proof -
    obtain j where j: "u = ?t0 + int j * minute" using whole_minute_reached [OF u(1,3)] by blast
    then have "int j * minute < int k * minute" using u(2) k(3) by simp
    then have "j < k" by (simp add: duration_defs)
    with k(4) j show ?thesis by blast
  qed
  with k(1,2) after whole Some assms show ?thesis by (auto simp: nextCronTime_def)
qed

text \<open>
  C4. The next run time of a cron schedule, asked for at a time that is not itself a matching minute, is the
  earliest whole minute at or after that time at which the expression matches in its location, looked for over four
  years: the search always ends, returns no time that does not match and skips none that does, and
  reports an error only when no minute of the four years matches.
\<close>

theorem nextCronTime_earliest:
  assumes "parseCronExpr load expr = Inr (cf, loc)" "\<not> (after mod minute = 0 \<and> cronMatches cf loc after)"
  shows "case nextCronTime load expr after of
      Inr t \<Rightarrow> after \<le> t \<and> t \<le> after + four_years \<and> t mod minute = 0 \<and> cronMatches cf loc t \<and>
        (\<forall>u. after \<le> u \<and> u < t \<and> u mod minute = 0 \<longrightarrow> \<not> cronMatches cf loc u)
    | Inl _ \<Rightarrow> (\<forall>u. after \<le> u \<and> u \<le> after + four_years \<and> u mod minute = 0 \<longrightarrow> \<not> cronMatches cf loc u)"
proof -
  have here: "\<not> cronMatches cf loc u" if "after \<le> u" "u mod minute = 0" "\<not> after < u" for u
    using that assms(2) by (metis order.order_iff_strict)
  show ?thesis
  proof (cases "nextCronTime load expr after")
    case (Inl e)
    with nextCronTime_strictly_after [OF assms(1), of after] have "\<forall>u. after < u \<and> u \<le> after + four_years \<and> u mod minute = 0 \<longrightarrow>
      \<not> cronMatches cf loc u" by simp
    with here have "\<forall>u. after \<le> u \<and> u \<le> after + four_years \<and> u mod minute = 0 \<longrightarrow> \<not> cronMatches cf loc u" by metis
    with Inl show ?thesis by simp
  next
    case (Inr t)
    with nextCronTime_strictly_after [OF assms(1), of after] have t: "after < t" "t \<le> after + four_years" "t mod minute = 0"
      "cronMatches cf loc t" "\<forall>u. after < u \<and> u < t \<and> u mod minute = 0 \<longrightarrow> \<not> cronMatches cf loc u" by simp_all
    with here have "\<forall>u. after \<le> u \<and> u < t \<and> u mod minute = 0 \<longrightarrow> \<not> cronMatches cf loc u" by metis
    with t Inr show ?thesis by simp
  qed
qed

definition no_zones :: "string \<Rightarrow> Location result" where
  "no_zones name = Err (Invalid ''time zone'' name)"

definition office_hours :: "cronFields \<times> Location" where
  "office_hours = projr (parseCronExpr no_zones ''*/15 9-17 * * 1-5'')"

lemma parse_office_hours:
  "parseCronExpr no_zones ''*/15 9-17 * * 1-5'' = Inr (fst office_hours, snd office_hours)"
proof -
  have "is_ok (parseCronExpr no_zones ''*/15 9-17 * * 1-5'')" by code_simp
  then show ?thesis by (auto simp: is_ok_iff office_hours_def)
qed

text \<open>Friday 5 January 2024, 09:32 UTC: the next quarter of an hour is 09:45.\<close>

theorem nextCronTime_earliest_witness:
  "nextCronTime no_zones ''*/15 9-17 * * 1-5'' 1704447120000000000 = Inr 1704447900000000000 \<and>
   cronMatches (fst office_hours) (snd office_hours) 1704447900000000000 \<and>
   \<not> (\<exists>u. 1704447120000000000 \<le> u \<and> u < 1704447900000000000 \<and> u mod minute = 0 \<and>
      cronMatches (fst office_hours) (snd office_hours) u)"
proof -
  have "nextCronTime no_zones ''*/15 9-17 * * 1-5'' 1704447120000000000 = Inr 1704447900000000000"
    by code_simp
  moreover have "\<not> cronMatches (fst office_hours) (snd office_hours) 1704447120000000000" by code_simp
  ultimately show ?thesis
    using nextCronTime_earliest [OF parse_office_hours, of 1704447120000000000] by auto
qed

text \<open>
  A cron field expands to exactly the values its parts describe: every part a-b/s contributes
  a, a + s, a + 2s and so on up to b, values repeated between parts are listed once, and every
  value lies within the bounds of the field. The steps are below the size at which adding one
  to a value would wrap.
\<close>

lemma parseCronPart_ok:
  "parseCronPart field lo hi p = Inr (a, b, s) \<Longrightarrow> lo \<le> a \<and> a \<le> b \<and> b \<le> hi \<and> 0 < s \<and> s \<le> max_int64"
  by (auto simp: parseCronPart_def cron_step_def Let_def max_int64_def
      split: sum.splits if_splits option.splits prod.splits dest!: Atoi_range)

definition part_values :: "string \<Rightarrow> int \<Rightarrow> int \<Rightarrow> string \<Rightarrow> int set" where
  "part_values field lo hi p =
     {w. \<exists>a b s. parseCronPart field lo hi p = Inr (a, b, s) \<and> (\<exists>k::nat. w = a + int k * s \<and> w \<le> b)}"

definition plain_steps :: "string \<Rightarrow> int \<Rightarrow> int \<Rightarrow> string list \<Rightarrow> bool" where
  "plain_steps field lo hi ps \<longleftrightarrow>
     (\<forall>p \<in> set ps. \<forall>a b s. parseCronPart field lo hi p = Inr (a, b, s) \<longrightarrow> s \<le> max_int64 - hi)"

lemma cron_parts_exact:
  assumes "0 \<le> lo" "hi \<le> 59"
  shows "cron_parts field lo hi ps out = Inr vs \<Longrightarrow> plain_steps field lo hi ps \<Longrightarrow>
    set vs = set out \<union> (\<Union>p \<in> set ps. part_values field lo hi p) \<and> (distinct out \<longrightarrow> distinct vs)"
proof (induction ps arbitrary: out)
  case (Cons p ps)
  from Cons.prems(1) obtain a b s where part: "parseCronPart field lo hi p = Inr (a, b, s)"
    and rest: "cron_parts field lo hi ps (cron_expand a b s out) = Inr vs"
    by (auto split: sum.splits prod.splits)
  have "s \<le> max_int64 - b" "0 \<le> a" "0 < s" "b \<le> 59"
    using parseCronPart_ok [OF part] Cons.prems(2) part assms by (auto simp: plain_steps_def)
  note exp = cron_expand_plain [OF this(3,1,2,4), of out]
  have "part_values field lo hi p = {w. \<exists>k::nat. w = a + int k * s \<and> w \<le> b}"
    by (simp add: part_values_def part)
  with exp Cons.IH [OF rest] Cons.prems(2) show ?case by (auto simp: plain_steps_def)
qed simp

lemma part_values_bounds: "w \<in> part_values field lo hi p \<Longrightarrow> lo \<le> w \<and> w \<le> hi"
proof -
  assume "w \<in> part_values field lo hi p"
  then obtain a b s k where part: "parseCronPart field lo hi p = Inr (a, b, s)"
    and w: "w = a + int k * s" "w \<le> b" by (auto simp: part_values_def)
  from parseCronPart_ok [OF part] have "lo \<le> a" "b \<le> hi" "0 \<le> int k * s" by simp_all
  with w show ?thesis by linarith
qed

theorem parseCronField_exact:
  assumes "parseCronField field lo hi = Inr (Some vs)" "0 \<le> lo" "hi \<le> 59"
    and "plain_steps field lo hi (Split field (CHR '',''))"
  shows "set vs = (\<Union>p \<in> set (Split field (CHR '','')). part_values field lo hi p) \<and>
    distinct vs \<and> set vs \<subseteq> {lo..hi}"
proof -
  from assms(1) have "cron_parts field lo hi (Split field (CHR '','')) [] = Inr vs"
    by (auto simp: parseCronField_def split: if_splits sum.splits)
  from cron_parts_exact [OF assms(2,3) this assms(4)]
  have "set vs = (\<Union>p \<in> set (Split field (CHR '','')). part_values field lo hi p)" "distinct vs" by auto
  with part_values_bounds show ?thesis by (metis UN_E atLeastAtMost_iff subsetI)
qed

lemma sample_field:
  "parseCronField ''0-10/5,7,5-8'' 0 59 = Inr (Some [0, 5, 10, 7, 6, 8])"
  "Split ''0-10/5,7,5-8'' (CHR '','') = [''0-10/5'', ''7'', ''5-8'']"
  "parseCronPart ''0-10/5,7,5-8'' 0 59 ''0-10/5'' = Inr (0, 10, 5)"
  "parseCronPart ''0-10/5,7,5-8'' 0 59 ''7'' = Inr (7, 7, 1)"
  "parseCronPart ''0-10/5,7,5-8'' 0 59 ''5-8'' = Inr (5, 8, 1)"
  by code_simp+

theorem parseCronField_exact_witness:
  "{0, 5, 10, 7, 6, 8} =
     (\<Union>p \<in> set [''0-10/5'', ''7'', ''5-8'']. part_values ''0-10/5,7,5-8'' 0 59 p)"
proof -
  have "plain_steps ''0-10/5,7,5-8'' 0 59 (Split ''0-10/5,7,5-8'' (CHR '',''))"
    by (auto simp: plain_steps_def sample_field max_int64_def)
  from parseCronField_exact [OF sample_field(1) _ _ this] show ?thesis
    by (simp only: sample_field(2) list.set)
qed

text \<open>
  Expanding a cron field always ends: for every start and end within 0 to 59 and every positive
  64-bit step, also one whose addition wraps around, the loop is over after at most 64 rounds.
\<close>

theorem cron_loop_terminates:
  assumes "parseCronPart field lo hi p = Inr (start, end, step)" "0 \<le> lo" "hi \<le> 59"
  shows "\<exists>out'. cron_loop 64 step end start out = Some out' \<and> cron_expand start end step out = out'"
proof -
  have "cron_loop 64 step end start out \<noteq> None"
    by (rule cron_loop_returns) (use parseCronPart_ok [OF assms(1)] assms(2,3) in auto)
  then show ?thesis by (auto simp: cron_expand_def)
qed

theorem cron_loop_terminates_witness:
  "\<exists>out'. cron_loop 64 5 10 0 [] = Some out' \<and> cron_expand 0 10 5 [] = out'"
  by (rule cron_loop_terminates [OF sample_field(3)]) simp_all

text \<open>
  With a step close to 2 to the 63 the addition wraps and the field lists values it does not
  describe, zero among them: minute 2/9223372036854775807 also fires at minute 0.
\<close>

lemma cron_step_wraps:
  "parseCronField ''2/9223372036854775807'' 0 59 = Inr (Some [2, - 9223372036854775807, 0])"
  by code_simp

end
