(* ===== verification/Task.thy ===== *)
theory Task
  imports Cron Registry Graph_Search
begin

text \<open>
  \<^verbatim>\<open>internal/task/task.go\<close>: the task scheduler. One tick of the loop is a function on the scheduler and
  on the world the tasks act on: \<open>exec\<close> is the callback that runs a task's SQL and \<open>has\<close> the optional
  callback behind SYSTEM$STREAM_HAS_DATA; both are arguments. The callback the program installs runs
  the statement on the SQL engine and never calls the scheduler, so it changes the world only.
  The code releases its mutex while a task's SQL runs; here a tick is not interleaved with other calls of the
  scheduler, so that a task created, altered or dropped during a tick is outside the model. Each run also returns the keys of the
  tasks it ran, in order: a record for the statements of the theorems, which the code does not keep; that it
  accounts for everything a tick does to the world is \<open>tick_replayed\<close> in \<open>Stream_Tasks\<close>.

  The regular expressions are written out as scanners on ASCII text.
\<close>

datatype TaskState = TaskStarted | TaskSuspended

record Task =
  t_Name :: string
  t_DatabaseName :: string
  t_SchemaName :: string
  t_SQLText :: string
  t_Schedule :: string
  t_Warehouse :: string
  t_State :: TaskState
  t_Predecessor :: string
  t_When :: string
  t_CreatedAt :: time
  t_LastRunAt :: "time option"
  t_NextRunAt :: "time option"

record TaskInfo =
  ti_Name :: string
  ti_DatabaseName :: string
  ti_SchemaName :: string
  ti_Schedule :: string
  ti_State :: TaskState
  ti_Warehouse :: string
  ti_Predecessor :: string
  ti_CreatedAt :: time
  ti_LastRunAt :: "time option"
  ti_NextRunAt :: "time option"

type_synonym 'w has_data = "string \<Rightarrow> string \<Rightarrow> string \<Rightarrow> 'w \<Rightarrow> bool"

record 'w Scheduler =
  tasks :: "string \<rightharpoonup> Task"
  execFn :: "string \<Rightarrow> 'w \<Rightarrow> 'w"
  streamHasDataFn :: "'w has_data option"

definition NewScheduler :: "(string \<Rightarrow> 'w \<Rightarrow> 'w) \<Rightarrow> 'w Scheduler" where
  "NewScheduler exec = \<lparr>tasks = Map.empty, execFn = exec, streamHasDataFn = None\<rparr>"

definition SetStreamHasDataFn :: "'w Scheduler \<Rightarrow> 'w has_data option \<Rightarrow> 'w Scheduler" where
  "SetStreamHasDataFn s fn = s\<lparr>streamHasDataFn := fn\<rparr>"

definition taskKey :: "string \<Rightarrow> string \<Rightarrow> string \<Rightarrow> string" where
  "taskKey db schema name = ToLower (dotted db schema name)"

subsection \<open>Schedules\<close>

text \<open>The white space class of a regular expression: tab, newline, form feed, return and blank.\<close>

definition re_space :: "char \<Rightarrow> bool" where
  "re_space c = (let n = (of_char c :: nat) in n = 9 \<or> n = 10 \<or> n = 12 \<or> n = 13 \<or> n = 32)"

record ScheduleInterval =
  si_Minutes :: int
  si_Cron :: string
  si_Timezone :: string

text \<open>\<^verbatim>\<open>(?i)^(\d+)\s+MINUTES?$\<close>: the digits, if the text matches.\<close>

definition minuteRe :: "string \<Rightarrow> string option" where
  "minuteRe s =
     (let ds = takeWhile is_digit s;
          r = dropWhile is_digit s;
          kw = dropWhile re_space r
      in if ds \<noteq> [] \<and> kw \<noteq> r \<and> (EqualFold kw ''MINUTE'' \<or> EqualFold kw ''MINUTES'')
         then Some ds else None)"

text \<open>\<^verbatim>\<open>(?i)^USING\s+CRON\s+(.+)$\<close> on a trimmed text: the part after CRON, which has no newline.\<close>

definition usingCronRe :: "string \<Rightarrow> string option" where
  "usingCronRe s =
     (let r1 = drop 5 s; k1 = dropWhile re_space r1;
          r2 = drop 4 k1; k2 = dropWhile re_space r2
      in if EqualFold (take 5 s) ''USING'' \<and> k1 \<noteq> r1 \<and> EqualFold (take 4 k1) ''CRON'' \<and> k2 \<noteq> r2 \<and>
            k2 \<noteq> [] \<and> CHR 0x0A \<notin> set k2
         then Some k2 else None)"

definition ParseSchedule :: "(string \<Rightarrow> Location result) \<Rightarrow> string \<Rightarrow> ScheduleInterval result" where
  "ParseSchedule load schedule0 =
     (let schedule = TrimSpace schedule0
      in case minuteRe schedule of
           Some m \<Rightarrow>
             (case Atoi m of
                None \<Rightarrow> Err (Invalid ''minute interval'' schedule)
              | Some n \<Rightarrow>
                  if n \<le> 0 then Err (Invalid ''minute interval'' schedule)
                  else Ok \<lparr>si_Minutes = n, si_Cron = '''', si_Timezone = ''''\<rparr>)
         | None \<Rightarrow>
             (case usingCronRe schedule of
                Some m \<Rightarrow>
                  (let cronPart = TrimSpace m
                   in if cronPart = '''' then Err (Invalid ''empty cron expression'' '''')
                      else case parseCronExpr load cronPart of
                             Inl err \<Rightarrow> Err (Wrap ''invalid cron schedule'' err)
                           | Inr (_, loc) \<Rightarrow>
                               Ok \<lparr>si_Minutes = 0, si_Cron = cronPart, si_Timezone = loc_String loc\<rparr>)
              | None \<Rightarrow> Err (Invalid ''schedule format'' schedule)))"

text \<open>\<^verbatim>\<open>time.Duration(si.Minutes) * time.Minute\<close> is a 64-bit product.\<close>

definition nextRunTime :: "(string \<Rightarrow> Location result) \<Rightarrow> string \<Rightarrow> time \<Rightarrow> time" where
  "nextRunTime load schedule now =
     (case ParseSchedule load schedule of
        Inl _ \<Rightarrow> now + minute
      | Inr si \<Rightarrow>
          if si_Minutes si > 0 then now + wrap64 (si_Minutes si * minute)
          else if si_Cron si \<noteq> '''' then
            (case nextCronTime load (si_Cron si) now of
               Inl _ \<Rightarrow> now + minute
             | Inr next_t \<Rightarrow> next_t)
          else now + minute)"

subsection \<open>Creating, dropping, altering\<close>

definition new_task ::
  "time \<Rightarrow> string \<Rightarrow> string \<Rightarrow> string \<Rightarrow> string \<Rightarrow> string \<Rightarrow> string \<Rightarrow> string \<Rightarrow> string \<Rightarrow> Task"
where
  "new_task now db schema name sql schedule warehouse predecessor whenCond =
     \<lparr>t_Name = name, t_DatabaseName = db, t_SchemaName = schema, t_SQLText = sql,
      t_Schedule = schedule, t_Warehouse = warehouse, t_State = TaskSuspended,
      t_Predecessor = predecessor, t_When = whenCond, t_CreatedAt = now,
      t_LastRunAt = None, t_NextRunAt = None\<rparr>"

definition CreateTask ::
  "(string \<Rightarrow> Location result) \<Rightarrow> 'w Scheduler \<Rightarrow> time \<Rightarrow> string \<Rightarrow> string \<Rightarrow> string \<Rightarrow> string \<Rightarrow> string \<Rightarrow>
     string \<Rightarrow> string \<Rightarrow> string \<Rightarrow> 'w Scheduler result"
where
  "CreateTask load s now db schema name sql schedule warehouse predecessor whenCond =
     (let key = taskKey db schema name
      in if tasks s key \<noteq> None then Err (AlreadyExists ''task'' name)
         else
           case (if schedule \<noteq> '''' \<and> predecessor = '''' then map_sum id (\<lambda>_. ()) (ParseSchedule load schedule)
                 else Ok ()) of
             Inl err \<Rightarrow> Err (Wrap ''invalid schedule'' err)
           | Inr _ \<Rightarrow>
               Ok (s\<lparr>tasks := (tasks s)
                   (key \<mapsto> new_task now db schema name sql schedule warehouse predecessor whenCond)\<rparr>))"

text \<open>The code also closes the stop channel of a dropped task; no code receives from it.\<close>

definition DropTask :: "'w Scheduler \<Rightarrow> string \<Rightarrow> string \<Rightarrow> string \<Rightarrow> 'w Scheduler result" where
  "DropTask s db schema name =
     (let key = taskKey db schema name
      in case tasks s key of
           None \<Rightarrow> Err (DoesNotExist ''task'' name)
         | Some t \<Rightarrow> Ok (s\<lparr>tasks := (tasks s)(key := None)\<rparr>))"

definition AlterTask :: "'w Scheduler \<Rightarrow> string \<Rightarrow> string \<Rightarrow> string \<Rightarrow> TaskState \<Rightarrow> 'w Scheduler result" where
  "AlterTask s db schema name state =
     (let key = taskKey db schema name
      in case tasks s key of
           None \<Rightarrow> Err (DoesNotExist ''task'' name)
         | Some t \<Rightarrow> Ok (s\<lparr>tasks := (tasks s)(key \<mapsto> t\<lparr>t_State := state\<rparr>)\<rparr>))"

definition GetTask :: "'w Scheduler \<Rightarrow> string \<Rightarrow> string \<Rightarrow> string \<Rightarrow> Task result" where
  "GetTask s db schema name =
     (case tasks s (taskKey db schema name) of
        None \<Rightarrow> Err (DoesNotExist ''task'' name)
      | Some t \<Rightarrow> Ok t)"

definition task_info :: "Task \<Rightarrow> TaskInfo" where
  "task_info t =
     \<lparr>ti_Name = t_Name t, ti_DatabaseName = t_DatabaseName t, ti_SchemaName = t_SchemaName t,
      ti_Schedule = t_Schedule t, ti_State = t_State t, ti_Warehouse = t_Warehouse t,
      ti_Predecessor = t_Predecessor t, ti_CreatedAt = t_CreatedAt t,
      ti_LastRunAt = t_LastRunAt t, ti_NextRunAt = t_NextRunAt t\<rparr>"

definition ShowTasks :: "'w Scheduler \<Rightarrow> string \<Rightarrow> string \<Rightarrow> string list \<Rightarrow> TaskInfo list" where
  "ShowTasks s db schema ks =
     map task_info
       (filter (\<lambda>t. ToLower (t_DatabaseName t) = ToLower db \<and> ToLower (t_SchemaName t) = ToLower schema)
               (range_values (tasks s) ks))"

definition task_Reset :: "'w Scheduler \<Rightarrow> 'w Scheduler" where
  "task_Reset s = s\<lparr>tasks := Map.empty\<rparr>"

subsection \<open>Conditions\<close>

text \<open>
  \<^verbatim>\<open>(?i)SYSTEM\$STREAM_HAS_DATA\(\s*'([^']+)'\s*\)\<close> at the head of a text, and its leftmost match: the
  quoted stream name.
\<close>

definition when_at :: "string \<Rightarrow> string option" where
  "when_at s =
     (let q = CHR 0x27;
          r1 = dropWhile re_space (drop 23 s);
          name = takeWhile (\<lambda>c. c \<noteq> q) (tl r1);
          r2 = dropWhile (\<lambda>c. c \<noteq> q) (tl r1);
          r3 = dropWhile re_space (tl r2)
      in if EqualFold (take 23 s) ''SYSTEM$STREAM_HAS_DATA('' \<and> r1 \<noteq> [] \<and> hd r1 = q \<and> name \<noteq> [] \<and>
            r2 \<noteq> [] \<and> r3 \<noteq> [] \<and> hd r3 = CHR '')''
         then Some name else None)"

fun when_stream :: "string \<Rightarrow> string option" where
  "when_stream [] = None"
| "when_stream (c # s) = (case when_at (c # s) of Some name \<Rightarrow> Some name | None \<Rightarrow> when_stream s)"

definition evaluateWhen :: "'w has_data option \<Rightarrow> 'w \<Rightarrow> Task \<Rightarrow> bool" where
  "evaluateWhen fn w t =
     (if t_When t = '''' then True
      else case when_stream (t_When t) of
             Some streamName \<Rightarrow>
               (case fn of
                  Some fn \<Rightarrow> fn (t_DatabaseName t) (t_SchemaName t) streamName w
                | None \<Rightarrow> False)
           | None \<Rightarrow> True)"

subsection \<open>Running\<close>

text \<open>
  The state a tick threads through: the tasks by key, the world, and the keys of the tasks run so
  far. \<open>ord\<close> is the order in which \<^verbatim>\<open>range s.tasks\<close> visits the map while the successors of the task
  with a given key are collected.
\<close>

type_synonym 'w run = "(string \<rightharpoonup> Task) \<times> 'w \<times> string list"

definition runTask ::
  "(string \<Rightarrow> Location result) \<Rightarrow> (string \<Rightarrow> 'w \<Rightarrow> 'w) \<Rightarrow> time \<Rightarrow> string \<Rightarrow> Task \<Rightarrow> 'w run \<Rightarrow> 'w run"
where
  "runTask load exec now key t r =
     (case r of (ts, w, log) \<Rightarrow>
        let w = exec (t_SQLText t) w;
            t = t\<lparr>t_LastRunAt := Some now\<rparr>;
            t = (if t_Schedule t \<noteq> '''' then t\<lparr>t_NextRunAt := Some (nextRunTime load (t_Schedule t) now)\<rparr> else t)
        in (ts(key \<mapsto> t), w, log @ [key]))"

definition is_successor :: "string \<Rightarrow> string \<Rightarrow> string \<Rightarrow> Task \<Rightarrow> bool" where
  "is_successor db schema predecessorName t \<longleftrightarrow>
     t_State t = TaskStarted \<and> EqualFold (t_DatabaseName t) db \<and> EqualFold (t_SchemaName t) schema \<and>
     ToLower (t_Predecessor t) = ToLower predecessorName"

definition successors ::
  "(string \<rightharpoonup> Task) \<Rightarrow> string list \<Rightarrow> string \<Rightarrow> string \<Rightarrow> string \<Rightarrow> string list"
where
  "successors ts ks db schema predecessorName =
     map fst (filter (\<lambda>(_, t). is_successor db schema predecessorName t) (range_entries ts ks))"

text \<open>
  \<^verbatim>\<open>runSuccessors\<close> and its loop. The recursion is fuelled, \<open>None\<close> is a run that has not ended; the
  keys of \<open>successors\<close> stay in the map during a tick, so the loop finds every one of them.
\<close>

fun runSuccessors ::
  "(string \<Rightarrow> Location result) \<Rightarrow> 'w Scheduler \<Rightarrow> (string \<Rightarrow> string list) \<Rightarrow> time \<Rightarrow> string \<Rightarrow> string \<Rightarrow>
     nat \<Rightarrow> string \<Rightarrow> 'w run \<Rightarrow> 'w run option"
and run_each ::
  "(string \<Rightarrow> Location result) \<Rightarrow> 'w Scheduler \<Rightarrow> (string \<Rightarrow> string list) \<Rightarrow> time \<Rightarrow> string \<Rightarrow> string \<Rightarrow>
     nat \<Rightarrow> string list \<Rightarrow> 'w run \<Rightarrow> 'w run option"
where
  "runSuccessors load s ord now db schema 0 predecessorName r = None"
| "runSuccessors load s ord now db schema (Suc fuel) predecessorName r =
     run_each load s ord now db schema fuel
       (successors (fst r) (ord (taskKey db schema predecessorName)) db schema predecessorName) r"
| "run_each load s ord now db schema fuel [] r = Some r"
| "run_each load s ord now db schema fuel (key # keys) r =
     (case fst r key of
        None \<Rightarrow> run_each load s ord now db schema fuel keys r
      | Some t \<Rightarrow>
          if \<not> evaluateWhen (streamHasDataFn s) (fst (snd r)) t
          then run_each load s ord now db schema fuel keys r
          else
            case runSuccessors load s ord now db schema fuel (t_Name t)
                   (runTask load (execFn s) now key t r) of
              None \<Rightarrow> None
            | Some r' \<Rightarrow> run_each load s ord now db schema fuel keys r')"

definition executeDAG ::
  "(string \<Rightarrow> Location result) \<Rightarrow> 'w Scheduler \<Rightarrow> (string \<Rightarrow> string list) \<Rightarrow> time \<Rightarrow> nat \<Rightarrow> string \<Rightarrow> Task \<Rightarrow>
     'w run \<Rightarrow> 'w run option"
where
  "executeDAG load s ord now fuel key root r =
     (if \<not> evaluateWhen (streamHasDataFn s) (fst (snd r)) root
      then Some ((fst r)(key \<mapsto> root\<lparr>t_NextRunAt := Some (nextRunTime load (t_Schedule root) now)\<rparr>), snd r)
      else runSuccessors load s ord now (t_DatabaseName root) (t_SchemaName root) fuel (t_Name root)
             (runTask load (execFn s) now key root r))"

definition is_root :: "Task \<Rightarrow> bool" where
  "is_root t \<longleftrightarrow> t_State t = TaskStarted \<and> t_Schedule t \<noteq> '''' \<and> t_Predecessor t = ''''"

fun tick_roots ::
  "(string \<Rightarrow> Location result) \<Rightarrow> 'w Scheduler \<Rightarrow> (string \<Rightarrow> string list) \<Rightarrow> nat \<Rightarrow> time \<Rightarrow> string list \<Rightarrow>
     'w run \<Rightarrow> 'w run option"
where
  "tick_roots load s ord fuel now [] r = Some r"
| "tick_roots load s ord fuel now (key # keys) r =
     (case fst r key of
        None \<Rightarrow> tick_roots load s ord fuel now keys r
      | Some t \<Rightarrow>
          (case t_NextRunAt t of
             None \<Rightarrow>
               tick_roots load s ord fuel now keys
                 ((fst r)(key \<mapsto> t\<lparr>t_NextRunAt := Some (nextRunTime load (t_Schedule t) now)\<rparr>), snd r)
           | Some at \<Rightarrow>
               if now < at then tick_roots load s ord fuel now keys r
               else
                 case executeDAG load s ord now fuel key t r of
                   None \<Rightarrow> None
                 | Some r' \<Rightarrow> tick_roots load s ord fuel now keys r'))"

definition tick ::
  "(string \<Rightarrow> Location result) \<Rightarrow> 'w Scheduler \<Rightarrow> string list \<Rightarrow> (string \<Rightarrow> string list) \<Rightarrow> nat \<Rightarrow> time \<Rightarrow> 'w \<Rightarrow>
     ('w Scheduler \<times> 'w \<times> string list) option"
where
  "tick load s ks ord fuel now w =
     (let roots = map fst (filter (\<lambda>(_, t). is_root t) (range_entries (tasks s) ks))
      in map_option (\<lambda>(ts, w, log). (s\<lparr>tasks := ts\<rparr>, w, log))
           (tick_roots load s ord fuel now roots (tasks s, w, [])))"

subsection \<open>The dependency forest\<close>

text \<open>What a tick leaves alone: everything of a task but its run times.\<close>

definition static :: "Task \<Rightarrow> Task" where
  "static t = t\<lparr>t_LastRunAt := None, t_NextRunAt := None\<rparr>"

definition same_static :: "(string \<rightharpoonup> Task) \<Rightarrow> (string \<rightharpoonup> Task) \<Rightarrow> bool" where
  "same_static ts ts' \<longleftrightarrow> map_values static ts = map_values static ts'"

definition after_run :: "(string \<Rightarrow> Location result) \<Rightarrow> time \<Rightarrow> Task \<Rightarrow> Task" where
  "after_run load now t =
     (let t = t\<lparr>t_LastRunAt := Some now\<rparr>
      in if t_Schedule t \<noteq> '''' then t\<lparr>t_NextRunAt := Some (nextRunTime load (t_Schedule t) now)\<rparr> else t)"

lemma static_simps [simp]:
  "t_Name (static t) = t_Name t" "t_DatabaseName (static t) = t_DatabaseName t"
  "t_SchemaName (static t) = t_SchemaName t" "t_State (static t) = t_State t"
  "t_Predecessor (static t) = t_Predecessor t" "t_When (static t) = t_When t"
  "t_Schedule (static t) = t_Schedule t"
  "static (after_run load now t) = static t" "static (t\<lparr>t_NextRunAt := x\<rparr>) = static t"
  by (simp_all add: static_def after_run_def Let_def)

lemma static_eqD:
  "static t = static t' \<Longrightarrow>
     t_Name t = t_Name t' \<and> t_DatabaseName t = t_DatabaseName t' \<and> t_SchemaName t = t_SchemaName t' \<and>
     t_State t = t_State t' \<and> t_Predecessor t = t_Predecessor t' \<and> t_When t = t_When t' \<and>
     t_Schedule t = t_Schedule t'"
  by (metis static_simps(1-7))

lemma same_staticD:
  "same_static ts ts' \<Longrightarrow> ts' k = Some t' \<Longrightarrow> \<exists>t. ts k = Some t \<and> static t = static t'"
  "same_static ts ts' \<Longrightarrow> ts k = Some t \<Longrightarrow> \<exists>t'. ts' k = Some t' \<and> static t = static t'"
  unfolding same_static_def fun_eq_iff map_values_apply
  by (metis (no_types, lifting) map_option_eq_Some option.inject)+

lemma same_static_refl [simp]: "same_static ts ts"
  by (simp add: same_static_def)

lemma same_static_trans: "same_static a b \<Longrightarrow> same_static b c \<Longrightarrow> same_static a c"
  by (simp add: same_static_def)

lemma same_static_dom: "same_static ts ts' \<Longrightarrow> dom ts' = dom ts"
  by (metis dom_map_values same_static_def)

lemma same_static_upd: "ts k = Some t \<Longrightarrow> static t' = static t \<Longrightarrow> same_static ts (ts(k \<mapsto> t'))"
  by (auto simp: same_static_def fun_eq_iff)

lemma runTask_eq: "runTask load exec now key t (ts, w, log) = (ts(key \<mapsto> after_run load now t), exec (t_SQLText t) w, log @ [key])"
  by (simp add: runTask_def after_run_def Let_def)

lemma evaluateWhen_trivial: "t_When t = '''' \<Longrightarrow> evaluateWhen fn w t"
  by (simp add: evaluateWhen_def)

lemma taskKey_name: "taskKey db schema n = taskKey db schema n' \<longleftrightarrow> ToLower n = ToLower n'"
  unfolding taskKey_def ToLower_dotted by (simp add: dotted_def)

lemma is_successor_static: "static t = static t' \<Longrightarrow> is_successor db schema n t = is_successor db schema n t'"
  by (drule static_eqD) (simp add: is_successor_def)

text \<open>\<open>(p, c)\<close> when the started task filed under \<open>c\<close> runs after the one filed under \<open>p\<close>, in one schema.\<close>

definition depends :: "(string \<rightharpoonup> Task) \<Rightarrow> string \<Rightarrow> string \<Rightarrow> (string \<times> string) set" where
  "depends ts db schema =
     {(p, c). \<exists>t. ts c = Some t \<and> is_successor db schema (t_Predecessor t) t \<and> t_Predecessor t \<noteq> '''' \<and>
        p = taskKey db schema (t_Predecessor t)}"

interpretation deps: forest "depends ts db schema"
  by unfold_locales (auto simp: depends_def)

definition tasks_inv :: "(string \<rightharpoonup> Task) \<Rightarrow> bool" where
  "tasks_inv ts \<longleftrightarrow> finite (dom ts) \<and>
     (\<forall>k t. ts k = Some t \<longrightarrow> k = taskKey (t_DatabaseName t) (t_SchemaName t) (t_Name t) \<and> t_Name t \<noteq> '''')"

lemma descendants_dom:
  "(depends ts db schema)\<^sup>+ `` S \<subseteq> Range (depends ts db schema)" "Range (depends ts db schema) \<subseteq> dom ts"
proof -
  show "(depends ts db schema)\<^sup>+ `` S \<subseteq> Range (depends ts db schema)" by (auto elim: tranclE)
  show "Range (depends ts db schema) \<subseteq> dom ts" by (auto simp: depends_def)
qed

lemma depends_key:
  assumes "tasks_inv ts" "(p, c) \<in> depends ts db schema" "ts c = Some t"
  shows "taskKey db schema (t_Name t) = c"
proof -
  have "EqualFold (t_DatabaseName t) db" "EqualFold (t_SchemaName t) schema"
    using assms(2,3) by (auto simp: depends_def is_successor_def)
  moreover have "c = taskKey (t_DatabaseName t) (t_SchemaName t) (t_Name t)"
    using assms(1,3) by (simp add: tasks_inv_def)
  ultimately show ?thesis by (simp add: taskKey_def key_simps EqualFold_def)
qed

lemma set_successors:
  assumes "same_static ts ts'" "range_order ts ks" "n \<noteq> ''''"
  shows "set (successors ts' ks db schema n) = depends ts db schema `` {taskKey db schema n}"
    and "distinct (successors ts' ks db schema n)"
proof -
  have order: "range_order ts' ks" using assms(1,2) by (simp add: range_order_def same_static_dom)
  then have mem: "c \<in> set (successors ts' ks db schema n) \<longleftrightarrow>
      (\<exists>t'. ts' c = Some t' \<and> is_successor db schema n t')" for c
    by (force simp: successors_def set_range_entries_order)
  have "(\<exists>t'. ts' c = Some t' \<and> is_successor db schema n t') \<longleftrightarrow>
      (\<exists>t. ts c = Some t \<and> is_successor db schema n t)" for c
    using same_staticD [OF assms(1), of c] is_successor_static by blast
  moreover have "is_successor db schema n t \<longleftrightarrow> is_successor db schema (t_Predecessor t) t \<and>
      t_Predecessor t \<noteq> '''' \<and> taskKey db schema n = taskKey db schema (t_Predecessor t)" for t
    using assms(3) by (auto simp: is_successor_def taskKey_name) (metis ToLower_Nil)+
  ultimately show "set (successors ts' ks db schema n) = depends ts db schema `` {taskKey db schema n}"
    using mem unfolding depends_def by auto
  have "map fst (range_entries ts' ks) = ks"
    using order by (intro map_fst_range_entries) (simp add: range_order_def)
  then have "distinct (map fst (range_entries ts' ks))" using order by (simp add: range_order_def)
  then show "distinct (successors ts' ks db schema n)"
    by (simp add: successors_def distinct_map_filter)
qed

text \<open>Each task of a run comes after a task of \<open>S\<close> or of the run itself that it depends on.\<close>

fun runs_after :: "(string \<times> string) set \<Rightarrow> string set \<Rightarrow> string list \<Rightarrow> bool" where
  "runs_after D S [] \<longleftrightarrow> True"
| "runs_after D S (k # ks) \<longleftrightarrow> (\<exists>p \<in> S. (p, k) \<in> D) \<and> runs_after D (insert k S) ks"

lemma runs_after_append: "runs_after D S (xs @ ys) \<longleftrightarrow> runs_after D S xs \<and> runs_after D (S \<union> set xs) ys"
  by (induction xs arbitrary: S) auto

lemma runs_after_mono: "runs_after D S xs \<Longrightarrow> S \<subseteq> S' \<Longrightarrow> runs_after D S' xs"
  by (induction xs arbitrary: S S') (auto, blast)

text \<open>The effect of running the tasks \<open>new\<close>, each once.\<close>

definition run_effect ::
  "(string \<Rightarrow> Location result) \<Rightarrow> time \<Rightarrow> string list \<Rightarrow> 'w run \<Rightarrow> 'w run \<Rightarrow> bool"
where
  "run_effect load now new r r' \<longleftrightarrow>
     fst r' = (\<lambda>k. if k \<in> set new then map_option (after_run load now) (fst r k) else fst r k) \<and>
     snd (snd r') = snd (snd r) @ new"

lemma run_effect_static: "run_effect load now new r r' \<Longrightarrow> same_static (fst r) (fst r')"
  by (auto simp: run_effect_def same_static_def fun_eq_iff option.map_comp o_def)

lemma run_effect_Nil [simp]: "run_effect load now [] r r"
  by (simp add: run_effect_def)

lemma run_effect_append:
  "run_effect load now a r r' \<Longrightarrow> run_effect load now b r' r'' \<Longrightarrow> set a \<inter> set b = {} \<Longrightarrow>
   run_effect load now (a @ b) r r''"
  by (auto simp: run_effect_def fun_eq_iff)

lemma run_effect_task: "fst r k = Some t \<Longrightarrow> run_effect load now [k] r (runTask load exec now k t r)"
  by (cases r) (auto simp: run_effect_def runTask_eq)

text \<open>
  What a run below the task \<open>k\<close> promises: it runs descendants of \<open>k\<close> only, each once and after its
  predecessor, and all of them when no task has a WHEN condition.
\<close>

definition unconditional :: "(string \<rightharpoonup> Task) \<Rightarrow> bool" where
  "unconditional ts \<longleftrightarrow> (\<forall>k t. ts k = Some t \<longrightarrow> t_When t = '''')"

definition subtree_run ::
  "(string \<times> string) set \<Rightarrow> bool \<Rightarrow> string \<Rightarrow> string set \<Rightarrow> string list \<Rightarrow> bool"
where
  "subtree_run D always k below new \<longleftrightarrow>
     distinct new \<and> set new \<subseteq> below \<and> runs_after D {k} new \<and> (always \<longrightarrow> below \<subseteq> set new)"

lemma subtree_run_skip:
  "subtree_run D always k B new \<Longrightarrow> \<not> always \<Longrightarrow> subtree_run D always k (A \<union> B) new"
  by (auto simp: subtree_run_def)

lemma subtree_run_cons:
  assumes "subtree_run D always c (D\<^sup>+ `` {c}) new1" "subtree_run D always k B new2"
    and "(k, c) \<in> D" "(c, c) \<notin> D\<^sup>+" "D\<^sup>* `` {c} \<inter> B = {}"
  shows "subtree_run D always k (D\<^sup>* `` {c} \<union> B) (c # new1 @ new2)"
proof -
  have star: "D\<^sup>* `` {c} = insert c (D\<^sup>+ `` {c})" by (auto simp: rtrancl_eq_or_trancl)
  have "runs_after D (insert c {k}) new1"
    using assms(1) by (auto simp: subtree_run_def elim!: runs_after_mono)
  moreover have "runs_after D (insert c {k} \<union> set new1) new2"
    using assms(2) by (auto simp: subtree_run_def elim!: runs_after_mono)
  moreover have "distinct (c # new1 @ new2)"
    using assms(1,2,4,5) by (auto simp: subtree_run_def star)
  ultimately show ?thesis
    using assms(1,2,3) by (auto simp: subtree_run_def star runs_after_append)
qed

lemma run_each_below:
  assumes inv: "tasks_inv ts" and root: "root \<notin> Range (depends ts db schema)"
    and k: "(root, k) \<in> (depends ts db schema)\<^sup>*"
    and below: "\<And>n r. same_static ts (fst r) \<Longrightarrow> n \<noteq> '''' \<Longrightarrow> (k, taskKey db schema n) \<in> depends ts db schema \<Longrightarrow>
      \<exists>r' new. runSuccessors load s ord now db schema fuel n r = Some r' \<and> run_effect load now new r r' \<and>
        subtree_run (depends ts db schema) (unconditional ts) (taskKey db schema n)
          ((depends ts db schema)\<^sup>+ `` {taskKey db schema n}) new"
  shows "same_static ts (fst r) \<Longrightarrow> distinct keys \<Longrightarrow> set keys \<subseteq> depends ts db schema `` {k} \<Longrightarrow>
    \<exists>r' new. run_each load s ord now db schema fuel keys r = Some r' \<and> run_effect load now new r r' \<and>
      subtree_run (depends ts db schema) (unconditional ts) k ((depends ts db schema)\<^sup>* `` set keys) new"
proof (induction keys arbitrary: r)
  case Nil
  show ?case by (auto simp: subtree_run_def intro!: exI [of _ "[]"])
next
  case (Cons c keys)
  let ?D = "depends ts db schema"
  from Cons.prems(3) have kc: "(k, c) \<in> ?D" and keys: "set keys \<subseteq> ?D `` {k}" by auto
  then obtain t0 where t0: "ts c = Some t0" by (auto simp: depends_def)
  with same_staticD(2) [OF Cons.prems(1)] obtain t where t: "fst r c = Some t" "static t0 = static t" by blast
  note eq = static_eqD [OF t(2)]
  have name: "taskKey db schema (t_Name t) = c" "t_Name t \<noteq> ''''"
    using depends_key [OF inv kc t0] inv t0 eq by (auto simp: tasks_inv_def)
  have Un: "?D\<^sup>* `` set (c # keys) = ?D\<^sup>* `` {c} \<union> ?D\<^sup>* `` set keys" by auto
  show ?case
  proof (cases "evaluateWhen (streamHasDataFn s) (fst (snd r)) t")
    case False
    then have "\<not> unconditional ts"
      using t0 eq evaluateWhen_trivial [of t] by (metis unconditional_def)
    moreover from Cons.IH [OF Cons.prems(1) _ keys] Cons.prems(2) obtain r' new where
      "run_each load s ord now db schema fuel keys r = Some r'" "run_effect load now new r r'"
      "subtree_run ?D (unconditional ts) k (?D\<^sup>* `` set keys) new" by auto
    ultimately show ?thesis
      using False t(1) unfolding Un by (auto intro: subtree_run_skip)
  next
    case True
    let ?r1 = "runTask load (execFn s) now c t r"
    have e1: "run_effect load now [c] r ?r1" by (rule run_effect_task [OF t(1)])
    have s1: "same_static ts (fst ?r1)"
      using Cons.prems(1) run_effect_static [OF e1] by (rule same_static_trans)
    from below [OF s1 name(2)] kc obtain r2 new1 where
      r2: "runSuccessors load s ord now db schema fuel (t_Name t) ?r1 = Some r2"
      "run_effect load now new1 ?r1 r2" "subtree_run ?D (unconditional ts) c (?D\<^sup>+ `` {c}) new1"
      unfolding name(1) by blast
    have s2: "same_static ts (fst r2)" using s1 run_effect_static [OF r2(2)] by (rule same_static_trans)
    from Cons.IH [OF s2 _ keys] Cons.prems(2) obtain r3 new2 where
      r3: "run_each load s ord now db schema fuel keys r2 = Some r3" "run_effect load now new2 r2 r3"
      "subtree_run ?D (unconditional ts) k (?D\<^sup>* `` set keys) new2" by auto
    have c: "(c, c) \<notin> ?D\<^sup>+" using deps.no_cycle_below_root [OF root] k kc by (meson rtrancl.rtrancl_into_rtrancl)
    have "?D\<^sup>* `` {c} \<inter> ?D\<^sup>* `` set keys = {}"
      using deps.siblings_disjoint [OF root k kc] keys Cons.prems(2) by fastforce
    from subtree_run_cons [OF r2(3) r3(3) kc c this]
    have sub: "subtree_run ?D (unconditional ts) k (?D\<^sup>* `` set (c # keys)) (c # new1 @ new2)"
      unfolding Un .
    then have "distinct ([c] @ new1 @ new2)" by (simp add: subtree_run_def)
    then have "run_effect load now ([c] @ new1 @ new2) r r3"
      by (intro run_effect_append [OF e1] run_effect_append [OF r2(2) r3(2)]) auto
    moreover have "run_each load s ord now db schema fuel (c # keys) r = Some r3"
      using True t(1) r2(1) r3(1) by simp
    ultimately show ?thesis using sub by auto
  qed
qed

lemma runSuccessors_below:
  assumes inv: "tasks_inv ts" and root: "root \<notin> Range (depends ts db schema)"
    and ord: "\<And>k. range_order ts (ord k)"
  shows "same_static ts (fst r) \<Longrightarrow> n \<noteq> '''' \<Longrightarrow> (root, taskKey db schema n) \<in> (depends ts db schema)\<^sup>* \<Longrightarrow>
    card ((depends ts db schema)\<^sup>+ `` {taskKey db schema n}) < fuel \<Longrightarrow>
    \<exists>r' new. runSuccessors load s ord now db schema fuel n r = Some r' \<and> run_effect load now new r r' \<and>
      subtree_run (depends ts db schema) (unconditional ts) (taskKey db schema n)
        ((depends ts db schema)\<^sup>+ `` {taskKey db schema n}) new"
proof (induction fuel arbitrary: n r)
  case (Suc fuel)
  let ?D = "depends ts db schema"
  let ?k = "taskKey db schema n"
  let ?keys = "successors (fst r) (ord ?k) db schema n"
  note succ = set_successors [OF Suc.prems(1) ord Suc.prems(2), of ?k db schema]
  have fin: "finite (?D\<^sup>+ `` {?k})"
    using inv descendants_dom by (meson finite_subset tasks_inv_def subset_trans)
  have "\<exists>r' new. run_each load s ord now db schema fuel ?keys r = Some r' \<and> run_effect load now new r r' \<and>
      subtree_run ?D (unconditional ts) ?k (?D\<^sup>* `` set ?keys) new"
  proof (rule run_each_below [OF inv root Suc.prems(3) _ Suc.prems(1) succ(2)])
    fix m and r :: "'a run"
    assume "same_static ts (fst r)" "m \<noteq> ''''" and km: "(?k, taskKey db schema m) \<in> ?D"
    moreover have "(root, taskKey db schema m) \<in> ?D\<^sup>*" using Suc.prems(3) km by (rule rtrancl_into_rtrancl)
    moreover have "card (?D\<^sup>+ `` {taskKey db schema m}) < fuel"
      using deps.descendants_shrink [OF root Suc.prems(3) km fin] Suc.prems(4) by simp
    ultimately show "\<exists>r' new. runSuccessors load s ord now db schema fuel m r = Some r' \<and>
        run_effect load now new r r' \<and>
        subtree_run ?D (unconditional ts) (taskKey db schema m) (?D\<^sup>+ `` {taskKey db schema m}) new"
      using Suc.IH [of r m] by blast
  qed (simp add: succ(1))
  moreover have "?D\<^sup>* `` set ?keys = ?D\<^sup>+ `` {?k}"
    unfolding succ(1) by (auto simp: trancl_unfold_left)
  ultimately show ?case by simp
qed simp

lemma executeDAG_tree:
  assumes inv: "tasks_inv ts" and root: "ts key = Some root" "is_root root"
    and ord: "\<And>k. range_order ts (ord k)" and fuel: "card (dom ts) \<le> fuel"
    and cond: "evaluateWhen (streamHasDataFn s) w root"
  shows "\<exists>r' new. executeDAG load s ord now fuel key root (ts, w, log) = Some r' \<and>
    run_effect load now (key # new) (ts, w, log) r' \<and> key \<notin> set new \<and>
    subtree_run (depends ts (t_DatabaseName root) (t_SchemaName root)) (unconditional ts) key
      ((depends ts (t_DatabaseName root) (t_SchemaName root))\<^sup>+ `` {key}) new"
proof -
  let ?D = "depends ts (t_DatabaseName root) (t_SchemaName root)"
  let ?r1 = "runTask load (execFn s) now key root (ts, w, log)"
  from inv root(1) have key: "taskKey (t_DatabaseName root) (t_SchemaName root) (t_Name root) = key"
    and name: "t_Name root \<noteq> ''''" by (auto simp: tasks_inv_def)
  have nr: "key \<notin> Range ?D" using root by (auto simp: depends_def is_root_def)
  have e1: "run_effect load now [key] (ts, w, log) ?r1" by (rule run_effect_task) (simp add: root)
  have below: "?D\<^sup>+ `` {key} \<subseteq> dom ts - {key}"
    using nr descendants_dom(1) [of ts "t_DatabaseName root" "t_SchemaName root" "{key}"]
      descendants_dom(2) [of ts "t_DatabaseName root" "t_SchemaName root"] by blast
  then have "card (?D\<^sup>+ `` {key}) \<le> card (dom ts - {key})"
    using inv by (intro card_mono) (auto simp: tasks_inv_def)
  also have "\<dots> < card (dom ts)"
    using inv root(1) by (intro psubset_card_mono) (auto simp: tasks_inv_def)
  finally have card: "card (?D\<^sup>+ `` {key}) < fuel" using fuel by simp
  have s1: "same_static ts (fst ?r1)" using run_effect_static [OF e1] by simp
  from runSuccessors_below [where ord = ord and load = load and s = s and now = now,
      OF inv nr ord s1 name, unfolded key, OF rtrancl_refl card]
  obtain r' new where r': "runSuccessors load s ord now (t_DatabaseName root) (t_SchemaName root) fuel
      (t_Name root) ?r1 = Some r'" "run_effect load now new ?r1 r'"
    "subtree_run ?D (unconditional ts) key (?D\<^sup>+ `` {key}) new" by blast
  have "key \<notin> set new"
    using r'(3) below by (auto simp: subtree_run_def)
  moreover from this have "run_effect load now ([key] @ new) (ts, w, log) r'"
    by (intro run_effect_append [OF e1 r'(2)]) simp
  ultimately show ?thesis using r' cond by (auto simp: executeDAG_def)
qed

subsection \<open>Reachable schedulers\<close>

lemma run_static:
  "runSuccessors load s ord now db schema fuel n r = Some r' \<Longrightarrow> same_static (fst r) (fst r')"
  "run_each load s ord now db schema fuel keys r = Some r' \<Longrightarrow> same_static (fst r) (fst r')"
proof (induction load s ord now db schema fuel n r and load s ord now db schema fuel keys r
    arbitrary: r' and r' rule: runSuccessors_run_each.induct)
  case (4 load s ord now db schema fuel key keys r)
  show ?case
  proof (cases "fst r key")
    case None
    with 4 show ?thesis by simp
  next
    case (Some t)
    let ?r1 = "runTask load (execFn s) now key t r"
    show ?thesis
    proof (cases "evaluateWhen (streamHasDataFn s) (fst (snd r)) t")
      case False
      with 4 Some show ?thesis by simp
    next
      case True
      with Some "4.prems" obtain r2 where r2:
        "runSuccessors load s ord now db schema fuel (t_Name t) ?r1 = Some r2"
        "run_each load s ord now db schema fuel keys r2 = Some r'"
        by (cases "runSuccessors load s ord now db schema fuel (t_Name t) ?r1") simp_all
      have "same_static (fst r) (fst ?r1)"
        by (rule run_effect_static [OF run_effect_task [OF Some]])
      moreover have "same_static (fst ?r1) (fst r2)" using "4.IH"(3) Some True r2(1) by simp
      moreover have "same_static (fst r2) (fst r')" using "4.IH"(4) Some True r2 by simp
      ultimately show ?thesis by (meson same_static_trans)
    qed
  qed
qed auto

lemma executeDAG_static:
  assumes "executeDAG load s ord now fuel key root r = Some r'" "fst r key = Some root"
  shows "same_static (fst r) (fst r')"
proof (cases "evaluateWhen (streamHasDataFn s) (fst (snd r)) root")
  case True
  let ?r1 = "runTask load (execFn s) now key root r"
  have "same_static (fst r) (fst ?r1)" by (rule run_effect_static [OF run_effect_task [OF assms(2)]])
  moreover have "same_static (fst ?r1) (fst r')"
    by (rule run_static(1)) (use True assms(1) in \<open>simp add: executeDAG_def\<close>)
  ultimately show ?thesis by (rule same_static_trans)
qed (use assms in \<open>auto simp: executeDAG_def same_static_upd\<close>)

lemma tasks_inv_static: "tasks_inv ts \<Longrightarrow> same_static ts ts' \<Longrightarrow> tasks_inv ts'"
  by (auto simp: tasks_inv_def same_static_dom dest!: same_staticD(1) static_eqD) metis+

lemma is_root_static: "static t = static t' \<Longrightarrow> is_root t = is_root t'"
  by (drule static_eqD) (simp add: is_root_def)

lemma tick_roots_static:
  "tick_roots load s ord fuel now keys r = Some r' \<Longrightarrow> same_static (fst r) (fst r')"
proof (induction keys arbitrary: r)
  case (Cons key keys)
  show ?case
  proof (cases "fst r key")
    case (Some t)
    show ?thesis
    proof (cases "t_NextRunAt t")
      case None
      let ?ts = "(fst r)(key \<mapsto> t\<lparr>t_NextRunAt := Some (nextRunTime load (t_Schedule t) now)\<rparr>)"
      have "same_static (fst r) ?ts" using Some by (simp add: same_static_upd)
      moreover from Cons.prems Some None have "tick_roots load s ord fuel now keys (?ts, snd r) = Some r'"
        by simp
      from Cons.IH [OF this] have "same_static ?ts (fst r')" by (simp only: fst_conv)
      ultimately show ?thesis by (rule same_static_trans)
    next
      case (Some at)
      with Cons \<open>fst r key = Some t\<close> show ?thesis
        by (auto split: if_splits option.splits intro: same_static_trans executeDAG_static)
    qed
  qed (use Cons in auto)
qed simp

lemma tick_roots_returns:
  assumes "tasks_inv ts" "\<And>k. range_order ts (ord k)" "card (dom ts) \<le> fuel"
  shows "same_static ts (fst r) \<Longrightarrow> (\<And>k t. k \<in> set keys \<Longrightarrow> ts k = Some t \<Longrightarrow> is_root t) \<Longrightarrow>
    tick_roots load s ord fuel now keys r \<noteq> None"
proof (induction keys arbitrary: r)
  case (Cons key keys)
  note st = Cons.prems(1)
  have rest: "tick_roots load s ord fuel now keys r' \<noteq> None" if "same_static (fst r) (fst r')" for r'
    by (rule Cons.IH [OF same_static_trans [OF st that]]) (use Cons.prems(2) in auto)
  show ?case
  proof (cases "fst r key")
    case (Some t)
    obtain t0 where "ts key = Some t0" "static t0 = static t" using same_staticD(1) [OF st Some] by blast
    moreover from this(1) have "is_root t0" by (intro Cons.prems(2) [of key]) simp_all
    ultimately have root: "is_root t" using is_root_static by blast
    have ord: "range_order (fst r) (ord k)" for k
      using assms(2) by (simp add: range_order_def same_static_dom [OF st])
    have fuel: "card (dom (fst r)) \<le> fuel" using assms(3) by (simp add: same_static_dom [OF st])
    have "executeDAG load s ord now fuel key t r \<noteq> None"
    proof (cases "evaluateWhen (streamHasDataFn s) (fst (snd r)) t")
      case True
      obtain w log where r: "r = (fst r, w, log)" by (cases r) auto
      with True have "evaluateWhen (streamHasDataFn s) w t" by (metis fst_conv snd_conv)
      from executeDAG_tree [where load = load and now = now and log = log and ord = ord,
          OF tasks_inv_static [OF assms(1) st] Some root ord fuel this]
      have "executeDAG load s ord now fuel key t (fst r, w, log) \<noteq> None" by blast
      with r show ?thesis by metis
    qed (simp add: executeDAG_def)
    then obtain r' where r': "executeDAG load s ord now fuel key t r = Some r'" by auto
    show ?thesis
    proof (cases "t_NextRunAt t")
      case None
      have "same_static (fst r) ((fst r)(key \<mapsto> t\<lparr>t_NextRunAt := Some (nextRunTime load (t_Schedule t) now)\<rparr>))"
        using Some by (simp add: same_static_upd)
      with rest [of "(_, snd r)"] Some None show ?thesis by simp
    next
      case (Some at)
      with rest [OF executeDAG_static [OF r' \<open>fst r key = Some t\<close>]] rest [of r] r' \<open>fst r key = Some t\<close>
      show ?thesis by simp
    qed
  qed (use rest [of r] in simp)
qed simp

text \<open>
  The states the scheduler reaches when tasks are created with non-empty names, the loop ticking at any
  time. An empty name is taken up below.
\<close>

inductive task_step :: "(string \<Rightarrow> Location result) \<Rightarrow> 'w Scheduler \<Rightarrow> 'w Scheduler \<Rightarrow> bool"
  for load :: "string \<Rightarrow> Location result"
where
  create: "CreateTask load s now db schema name sql sch wh p c = Inr s' \<Longrightarrow> name \<noteq> '''' \<Longrightarrow> task_step load s s'"
| remove: "DropTask s db schema name = Inr s' \<Longrightarrow> task_step load s s'"
| alter: "AlterTask s db schema name st = Inr s' \<Longrightarrow> task_step load s s'"
| tick: "tick load s ks ord fuel now w = Some (s', w', log) \<Longrightarrow> task_step load s s'"
| reset: "task_step load s (task_Reset s)"

inductive task_reachable :: "(string \<Rightarrow> Location result) \<Rightarrow> 'w Scheduler \<Rightarrow> bool"
  for load :: "string \<Rightarrow> Location result"
where
  start: "task_reachable load (SetStreamHasDataFn (NewScheduler exec) fn)"
| step: "task_reachable load s \<Longrightarrow> task_step load s s' \<Longrightarrow> task_reachable load s'"

lemma tasks_inv_alter:
  "tasks_inv ts \<Longrightarrow> ts k = Some t \<Longrightarrow> tasks_inv (ts(k \<mapsto> t\<lparr>t_State := st\<rparr>))"
  by (auto simp: tasks_inv_def)

lemma task_step_inv: "task_step load s s' \<Longrightarrow> tasks_inv (tasks s) \<Longrightarrow> tasks_inv (tasks s')"
proof (induction rule: task_step.induct)
  case (create s now db schema name sql sch wh p c s')
  then show ?case
    by (auto simp: CreateTask_def Let_def tasks_inv_def new_task_def split: if_splits sum.splits)
next
  case (remove s db schema name s')
  then show ?case by (auto simp: DropTask_def Let_def tasks_inv_def split: option.splits if_splits)
next
  case (alter s db schema name st s')
  then obtain t where "tasks s (taskKey db schema name) = Some t"
    "tasks s' = (tasks s)(taskKey db schema name \<mapsto> t\<lparr>t_State := st\<rparr>)"
    by (auto simp: AlterTask_def Let_def split: option.splits)
  with alter(2) tasks_inv_alter show ?case by metis
next
  case (tick s ks ord fuel now w s' w' log)
  let ?roots = "map fst (filter (\<lambda>(_, t). is_root t) (range_entries (tasks s) ks))"
  from tick obtain ts where ts: "tick_roots load s ord fuel now ?roots (tasks s, w, []) = Some (ts, w', log)"
    "s' = s\<lparr>tasks := ts\<rparr>" by (auto simp: tick_def Let_def)
  from tick_roots_static [OF ts(1)] tick(2) ts(2) show ?case by (auto intro: tasks_inv_static)
next
  case (reset s)
  then show ?case by (simp add: task_Reset_def tasks_inv_def)
qed

lemma task_reachable_inv: "task_reachable load s \<Longrightarrow> tasks_inv (tasks s)"
proof (induction rule: task_reachable.induct)
  case (start exec fn)
  show ?case by (simp add: NewScheduler_def SetStreamHasDataFn_def tasks_inv_def)
qed (rule task_step_inv)

subsection \<open>Properties\<close>

text \<open>
  C2. A due task tree runs to its end. In every scheduler that is reached with tasks of non-empty names, for every
  order in which the task map is ranged over, running a root whose condition holds returns; it runs the root first,
  then only started tasks that depend on it, each exactly once in a tick and after the task it
  names in its AFTER clause; when no task has a WHEN condition it runs every one of them. The run
  times of the tasks that after_run are set, and nothing else of the scheduler changes.
\<close>

theorem executeDAG_runs_tree:
  assumes "task_reachable load s" "tasks s key = Some root" "is_root root"
    and "\<And>k. range_order (tasks s) (ord k)" "card (dom (tasks s)) \<le> fuel"
    and "evaluateWhen (streamHasDataFn s) w root"
    and "D = depends (tasks s) (t_DatabaseName root) (t_SchemaName root)"
  shows "\<exists>ts' w' new. executeDAG load s ord now fuel key root (tasks s, w, log) = Some (ts', w', log @ key # new) \<and>
    distinct (key # new) \<and> runs_after D {key} new \<and> set new \<subseteq> D\<^sup>+ `` {key} \<and>
    (unconditional (tasks s) \<longrightarrow> set new = D\<^sup>+ `` {key}) \<and>
    ts' = (\<lambda>k. if k \<in> set (key # new) then map_option (after_run load now) (tasks s k) else tasks s k)"
proof -
  from executeDAG_tree [where load = load and now = now and log = log and ord = ord,
      OF task_reachable_inv [OF assms(1)] assms(2,3,4,5,6)]
  obtain r' new where r': "executeDAG load s ord now fuel key root (tasks s, w, log) = Some r'"
    "run_effect load now (key # new) (tasks s, w, log) r'" "key \<notin> set new"
    "subtree_run D (unconditional (tasks s)) key (D\<^sup>+ `` {key}) new" unfolding assms(7) by blast
  obtain ts' w' log' where "r' = (ts', w', log')" by (cases r')
  with r' show ?thesis by (auto simp: run_effect_def subtree_run_def)
qed

text \<open>A root and a task after it, resumed; the world is the list of the statements executed.\<close>

definition sample_scheduler :: "string list Scheduler" where
  "sample_scheduler =
     (let s = SetStreamHasDataFn (NewScheduler (\<lambda>sql w. w @ [sql])) None;
          s = ignore_error s (CreateTask no_zones s 0 ''D'' ''S'' ''A'' ''SELECT 1'' ''5 MINUTE'' ''WH'' '''' '''');
          s = ignore_error s (CreateTask no_zones s 0 ''D'' ''S'' ''B'' ''SELECT 2'' '''' ''WH'' ''a'' '''');
          s = ignore_error s (AlterTask s ''d'' ''s'' ''a'' TaskStarted)
      in ignore_error s (AlterTask s ''d'' ''s'' ''b'' TaskStarted))"

definition sample_root :: Task where
  "sample_root = (new_task 0 ''D'' ''S'' ''A'' ''SELECT 1'' ''5 MINUTE'' ''WH'' '''' '''')\<lparr>t_State := TaskStarted\<rparr>"

definition sample_child :: Task where
  "sample_child = (new_task 0 ''D'' ''S'' ''B'' ''SELECT 2'' '''' ''WH'' ''a'' '''')\<lparr>t_State := TaskStarted\<rparr>"

lemma sample_tasks: "tasks sample_scheduler = [''d.s.a'' \<mapsto> sample_root, ''d.s.b'' \<mapsto> sample_child]"
proof -
  have keys: "taskKey ''D'' ''S'' ''A'' = ''d.s.a''" "taskKey ''D'' ''S'' ''B'' = ''d.s.b''"
    "taskKey ''d'' ''s'' ''a'' = ''d.s.a''" "taskKey ''d'' ''s'' ''b'' = ''d.s.b''" by code_simp+
  have parse: "ParseSchedule no_zones ''5 MINUTE'' = Inr \<lparr>si_Minutes = 5, si_Cron = '''', si_Timezone = ''''\<rparr>"
    by code_simp
  show ?thesis
    by (simp add: sample_scheduler_def Let_def SetStreamHasDataFn_def NewScheduler_def CreateTask_def
        AlterTask_def keys parse sample_root_def sample_child_def fun_upd_twist)
qed

lemma task_reachable_ignore:
  "task_reachable load s \<Longrightarrow> (\<And>s'. r = Inr s' \<Longrightarrow> task_step load s s') \<Longrightarrow> task_reachable load (ignore_error s r)"
  by (cases r) (auto intro: task_reachable.step)

lemma sample_scheduler_reachable: "task_reachable no_zones sample_scheduler"
  unfolding sample_scheduler_def Let_def
  by (intro task_reachable_ignore task_reachable.start)
    (auto intro: task_step.create task_step.alter)

lemma sample_tasks_order: "range_order (tasks sample_scheduler) [''d.s.a'', ''d.s.b'']"
  by (auto simp: sample_tasks range_order_def)

lemma sample_tasks_card: "card (dom (tasks sample_scheduler)) \<le> 2"
  by (simp add: sample_tasks card_insert_if)

theorem executeDAG_runs_tree_witness:
  "\<exists>ts' w' new. executeDAG no_zones sample_scheduler (\<lambda>_. [''d.s.a'', ''d.s.b'']) 7 2 ''d.s.a'' sample_root
      (tasks sample_scheduler, [], []) = Some (ts', w', ''d.s.a'' # new) \<and> distinct (''d.s.a'' # new) \<and>
      runs_after (depends (tasks sample_scheduler) ''D'' ''S'') {''d.s.a''} new"
proof -
  have root: "tasks sample_scheduler ''d.s.a'' = Some sample_root" "is_root sample_root"
    "evaluateWhen (streamHasDataFn sample_scheduler) [] sample_root"
    "t_DatabaseName sample_root = ''D''" "t_SchemaName sample_root = ''S''"
    by (simp_all add: sample_tasks is_root_def sample_root_def new_task_def evaluateWhen_def)
  from executeDAG_runs_tree [where log = "[]" and now = 7 and ord = "\<lambda>_. [''d.s.a'', ''d.s.b'']",
      OF sample_scheduler_reachable root(1,2) sample_tasks_order sample_tasks_card root(3) refl]
  show ?thesis unfolding root(4,5) by auto
qed

text \<open>
  The scheduler loop never hangs: in every reachable scheduler a tick returns, whatever the
  dependencies between tasks are, cycles among the tasks that no root reaches included.
\<close>

theorem tick_returns:
  assumes "tasks_inv (tasks s)" "range_order (tasks s) ks" "\<And>k. range_order (tasks s) (ord k)"
    and "card (dom (tasks s)) \<le> fuel"
  shows "tick load s ks ord fuel now w \<noteq> None"
proof -
  let ?roots = "map fst (filter (\<lambda>(_, t). is_root t) (range_entries (tasks s) ks))"
  have "is_root t" if "k \<in> set ?roots" "tasks s k = Some t" for k t
    using that by (auto simp: set_range_entries_order [OF assms(2)])
  then have "tick_roots load s ord fuel now ?roots (tasks s, w, []) \<noteq> None"
    by (intro tick_roots_returns [OF assms(1,3,4)]) simp_all
  then show ?thesis by (simp add: tick_def Let_def)
qed

theorem tick_returns_witness:
  "tick no_zones sample_scheduler [''d.s.a'', ''d.s.b''] (\<lambda>_. [''d.s.a'', ''d.s.b'']) 2 7 [] \<noteq> None"
  by (rule tick_returns [OF task_reachable_inv [OF sample_scheduler_reachable] sample_tasks_order sample_tasks_order
        sample_tasks_card])

text \<open>
  The name matters. A task with the empty name is its own successor, because the name it is looked for by is the
  AFTER clause of every root: a started task of this kind is run again and again and the tick does not return,
  whatever the fuel. CREATE TASK accepts a quoted empty name; ALTER TASK can only start such a task under the key of another
  name, which exists because keys do not separate names that contain dots.
\<close>

definition nameless :: "Task \<Rightarrow> bool" where
  "nameless t \<longleftrightarrow> t_State t = TaskStarted \<and> t_Name t = '''' \<and> t_Predecessor t = '''' \<and> t_When t = ''''"

lemma nameless_successors:
  assumes "nameless t" "\<And>k. ord k = [key]"
  shows "runSuccessors load s ord now (t_DatabaseName t) (t_SchemaName t) fuel '''' ([key \<mapsto> t], w, log) = None"
  using assms(1)
proof (induction fuel arbitrary: t w log)
  case (Suc fuel)
  let ?t = "t\<lparr>t_LastRunAt := Some now,
    t_NextRunAt := (if t_Schedule t = '''' then t_NextRunAt t else Some (nextRunTime load (t_Schedule t) now))\<rparr>"
  have "runTask load (execFn s) now key t ([key \<mapsto> t], w, log) = ([key \<mapsto> ?t], execFn s (t_SQLText t) w, log @ [key])"
    by (simp add: runTask_def Let_def)
  moreover have "nameless ?t" using Suc.prems by (simp add: nameless_def)
  note Suc.IH [OF this]
  moreover have "t_DatabaseName ?t = t_DatabaseName t" "t_SchemaName ?t = t_SchemaName t" by simp_all
  moreover have "successors [key \<mapsto> t] [key] (t_DatabaseName t) (t_SchemaName t) '''' = [key]"
    using Suc.prems by (simp add: successors_def range_entries_def is_successor_def nameless_def EqualFold_def)
  moreover have "evaluateWhen (streamHasDataFn s) w t" "t_Name t = ''''"
    using Suc.prems by (simp_all add: nameless_def evaluateWhen_def)
  ultimately show ?case
    by (simp only: runSuccessors.simps run_each.simps assms(2) fst_conv snd_conv fun_upd_same option.case not_True_eq_False if_False)
qed simp

lemma nameless_task_never_returns:
  assumes "nameless t" "t_Schedule t \<noteq> ''''" "t_NextRunAt t = Some due" "due \<le> now" "tasks s = [key \<mapsto> t]" "\<And>k. ord k = [key]"
  shows "tick load s [key] ord fuel now w = None"
proof -
  have "executeDAG load s ord now fuel key t ([key \<mapsto> t], w, []) = None"
    using nameless_successors [of "t\<lparr>t_LastRunAt := Some now, t_NextRunAt := Some (nextRunTime load (t_Schedule t) now)\<rparr>" ord key]
      assms(1,2,6) by (simp add: executeDAG_def nameless_def evaluateWhen_def runTask_def Let_def)
  with assms(1-5) show ?thesis by (simp add: tick_def range_entries_def is_root_def nameless_def)
qed

lemma nameless_task_key: "taskKey ''a.b'' ''c'' '''' = taskKey ''a'' ''b'' ''c.''"
  by code_simp

text \<open>
  The next run is always in the future, for every schedule whose interval is at most 153722867
  minutes, so that a task never fires twice in one tick or on every tick; an unparsable schedule
  retries after a minute.
\<close>

theorem nextRunTime_future:
  assumes "\<And>si. ParseSchedule load schedule = Inr si \<Longrightarrow> si_Minutes si \<le> 153722867"
  shows "now < nextRunTime load schedule now"
proof (cases "ParseSchedule load schedule")
  case (Inl err)
  then show ?thesis by (simp add: nextRunTime_def)
next
  case (Inr si)
  have "wrap64 (si_Minutes si * minute) = si_Minutes si * minute" if "0 < si_Minutes si"
    using that assms [OF Inr] by (intro wrap64_id) (simp_all add: min_int64_def max_int64_def duration_defs)
  with Inr show ?thesis
    by (auto simp: nextRunTime_def nextCronTime_future split: sum.split intro: mult_pos_pos)
qed

theorem nextRunTime_future_witness:
  "nextRunTime no_zones ''5 MINUTE'' 1000 = 1000 + 5 * minute \<and> 1000 < nextRunTime no_zones ''5 MINUTE'' 1000"
proof -
  have parse: "ParseSchedule no_zones ''5 MINUTE'' = Inr \<lparr>si_Minutes = 5, si_Cron = '''', si_Timezone = ''''\<rparr>"
    by code_simp
  then have "1000 < nextRunTime no_zones ''5 MINUTE'' 1000"
    by (intro nextRunTime_future) auto
  moreover have "nextRunTime no_zones ''5 MINUTE'' 1000 = 1000 + 5 * minute" by code_simp
  ultimately show ?thesis by simp
qed

text \<open>Beyond that the product wraps and the next run lies in the past, so that every tick runs the task.\<close>

lemma nextRunTime_past: "nextRunTime no_zones ''153722868 MINUTE'' 0 < 0"
  by code_simp

end
