(* ===== verification/Task_Order.thy ===== *)
theory Task_Order
  imports Task
begin

text \<open>
  \<^verbatim>\<open>GetDependencyOrder\<close> of \<^verbatim>\<open>internal/task/task.go\<close>: Kahn's algorithm on the tasks of one schema. The
  queue loop is fuelled; as many rounds as there are names are enough.
\<close>

type_synonym dep_graph = "(string \<rightharpoonup> string list) \<times> (string \<rightharpoonup> int)"

definition adj_get :: "(string \<rightharpoonup> string list) \<Rightarrow> string \<Rightarrow> string list" where
  "adj_get adj k = (case adj k of None \<Rightarrow> [] | Some xs \<Rightarrow> xs)"

text \<open>Reading a missing counter gives 0.\<close>

definition deg_get :: "(string \<rightharpoonup> int) \<Rightarrow> string \<Rightarrow> int" where
  "deg_get deg k = (case deg k of None \<Rightarrow> 0 | Some n \<Rightarrow> n)"

definition touch :: "(string \<rightharpoonup> int) \<Rightarrow> string \<Rightarrow> (string \<rightharpoonup> int)" where
  "touch deg k = (if deg k = None then deg(k \<mapsto> 0) else deg)"

text \<open>One round of the loop over the tasks, for a task of the schema: its predecessor and its name, in lower case.\<close>

definition add_task :: "dep_graph \<Rightarrow> string \<times> string \<Rightarrow> dep_graph" where
  "add_task g e =
     (case g of (adj, deg) \<Rightarrow> case e of (predLower, nameLower) \<Rightarrow>
        let deg = touch deg nameLower
        in if predLower \<noteq> '''' then
             let adj = adj(predLower \<mapsto> adj_get adj predLower @ [nameLower]);
                 deg = deg(nameLower \<mapsto> deg_get deg nameLower + 1);
                 deg = touch deg predLower
             in (adj, deg)
           else (adj, deg))"

definition schema_tasks :: "'w Scheduler \<Rightarrow> string \<Rightarrow> string \<Rightarrow> string list \<Rightarrow> Task list" where
  "schema_tasks s db schema ks =
     filter (\<lambda>t. ToLower (t_DatabaseName t) = ToLower db \<and> ToLower (t_SchemaName t) = ToLower schema)
       (range_values (tasks s) ks)"

definition task_edge :: "Task \<Rightarrow> string \<times> string" where
  "task_edge t = (ToLower (t_Predecessor t), ToLower (t_Name t))"

definition dependency_graph :: "'w Scheduler \<Rightarrow> string \<Rightarrow> string \<Rightarrow> string list \<Rightarrow> dep_graph" where
  "dependency_graph s db schema ks =
     foldl add_task (Map.empty, Map.empty) (map task_edge (schema_tasks s db schema ks))"

fun kahn_succs :: "string list \<Rightarrow> (string \<rightharpoonup> int) \<Rightarrow> string list \<Rightarrow> (string \<rightharpoonup> int) \<times> string list" where
  "kahn_succs [] deg queue = (deg, queue)"
| "kahn_succs (succ # succs) deg queue =
     (let deg = deg(succ \<mapsto> deg_get deg succ - 1)
      in kahn_succs succs deg (if deg_get deg succ = 0 then queue @ [succ] else queue))"

fun kahn :: "(string \<rightharpoonup> string list) \<Rightarrow> nat \<Rightarrow> (string \<rightharpoonup> int) \<Rightarrow> string list \<Rightarrow> string list \<Rightarrow> string list option" where
  "kahn adj fuel deg [] order = Some order"
| "kahn adj 0 deg (cur # queue) order = None"
| "kahn adj (Suc fuel) deg (cur # queue) order =
     (let (deg, queue) = kahn_succs (adj_get adj cur) deg queue
      in kahn adj fuel deg queue (order @ [cur]))"

definition GetDependencyOrder ::
  "'w Scheduler \<Rightarrow> string \<Rightarrow> string \<Rightarrow> string list \<Rightarrow> string list \<Rightarrow> nat \<Rightarrow> string list option"
where
  "GetDependencyOrder s db schema ks names fuel =
     (let (adj, deg) = dependency_graph s db schema ks;
          queue = map fst (filter (\<lambda>(_, d). d = 0) (range_entries deg names))
      in kahn adj fuel deg queue [])"

subsection \<open>The graph that is built\<close>

definition dep_edges :: "(string \<times> string) list \<Rightarrow> (string \<times> string) set" where
  "dep_edges es = {(p, n). (p, n) \<in> set es \<and> p \<noteq> ''''}"

definition dep_names :: "(string \<times> string) list \<Rightarrow> string set" where
  "dep_names es = snd ` set es \<union> (fst ` set es - {''''})"

definition in_edges :: "(string \<times> string) list \<Rightarrow> string \<Rightarrow> (string \<times> string) list" where
  "in_edges es n = filter (\<lambda>(p, m). p \<noteq> '''' \<and> m = n) es"

definition out_names :: "(string \<times> string) list \<Rightarrow> string \<Rightarrow> string list" where
  "out_names es p = map snd (filter (\<lambda>(q, m). q \<noteq> '''' \<and> q = p) es)"

lemma add_task_fold:
  "foldl add_task (Map.empty, Map.empty) es = (adj, deg) \<Longrightarrow>
   adj_get adj = out_names es \<and>
   deg = (\<lambda>n. if n \<in> dep_names es then Some (int (length (in_edges es n))) else None)"
proof (induction es arbitrary: adj deg rule: rev_induct)
  case Nil
  then show ?case by (auto simp: adj_get_def out_names_def dep_names_def)
next
  case (snoc e es)
  obtain adj0 deg0 where g: "foldl add_task (Map.empty, Map.empty) es = (adj0, deg0)" by fastforce
  from snoc.IH [OF g] have IH: "adj_get adj0 = out_names es"
    "deg0 = (\<lambda>n. if n \<in> dep_names es then Some (int (length (in_edges es n))) else None)" by simp_all
  have none: "in_edges es n = []" if "n \<notin> dep_names es" for n
    using that by (force simp: in_edges_def dep_names_def filter_empty_conv)
  obtain p n where e: "e = (p, n)" by (cases e)
  have names: "dep_names (es @ [e]) = insert n (dep_names es \<union> (if p = '''' then {} else {p}))"
    by (auto simp: dep_names_def e)
  from snoc.prems g have last: "add_task (adj0, deg0) (p, n) = (adj, deg)" by (simp add: e)
  show ?case
  proof (cases "p = ''''")
    case True
    with last have "adj = adj0" "deg = touch deg0 n" by (auto simp: add_task_def Let_def)
    moreover have "out_names (es @ [e]) = out_names es" "in_edges (es @ [e]) = in_edges es"
      using True by (auto simp: out_names_def in_edges_def e fun_eq_iff)
    ultimately show ?thesis using IH none True
      by (auto simp: touch_def names fun_eq_iff)
  next
    case False
    with last have adj: "adj = adj0(p \<mapsto> adj_get adj0 p @ [n])"
      and deg: "deg = touch ((touch deg0 n)(n \<mapsto> deg_get (touch deg0 n) n + 1)) p"
      by (auto simp: add_task_def Let_def)
    have "adj_get adj = out_names (es @ [e])"
      using IH(1) False by (auto simp: adj adj_get_def out_names_def e fun_eq_iff)
    moreover have "in_edges (es @ [e]) m = (if m = n then in_edges es n @ [e] else in_edges es m)" for m
      using False by (auto simp: in_edges_def e)
    ultimately show ?thesis using IH(2) none False
      by (auto simp: deg touch_def deg_get_def names fun_eq_iff)
  qed
qed

lemma set_out_names: "set (out_names es p) = dep_edges es `` {p}"
  by (force simp: out_names_def dep_edges_def)

lemma dep_names_finite: "finite (dep_names es)"
  by (simp add: dep_names_def)

lemma dep_names_range: "Range (dep_edges es) \<subseteq> dep_names es"
  by (force simp: dep_names_def dep_edges_def)

lemma in_edges_count:
  assumes "distinct (map snd es)"
  shows "length (in_edges es n) = (if n \<in> Range {(p, n). (p, n) \<in> set es \<and> p \<noteq> ''''} then 1 else 0)"
  using assms
proof (induction es)
  case (Cons e es)
  obtain p m where e: "e = (p, m)" by (cases e)
  have "in_edges es m = []"
    using Cons.prems by (force simp: in_edges_def e filter_empty_conv)
  moreover have "m \<notin> Range {(p, n). (p, n) \<in> set es \<and> p \<noteq> ''''}"
    using Cons.prems by (force simp: e)
  ultimately show ?case using Cons by (auto simp: in_edges_def e split: if_splits)
qed (simp add: in_edges_def)

subsection \<open>The queue loop\<close>

lemma kahn_succs_all:
  assumes "distinct succs" "\<And>x. x \<in> set succs \<Longrightarrow> deg x = Some 1"
  shows "kahn_succs succs deg queue = (\<lambda>x. if x \<in> set succs then Some 0 else deg x, queue @ succs)"
  using assms
proof (induction succs arbitrary: deg queue)
  case (Cons x xs)
  have "kahn_succs xs (deg(x \<mapsto> 0)) (queue @ [x]) =
      (\<lambda>y. if y \<in> set xs then Some 0 else (deg(x \<mapsto> 0)) y, (queue @ [x]) @ xs)"
    by (rule Cons.IH) (use Cons.prems in auto)
  moreover have "deg x = Some 1" using Cons.prems(2) by simp
  ultimately show ?case by (auto simp: deg_get_def fun_eq_iff)
qed simp

text \<open>In a list, a name comes after the name it depends on.\<close>

definition preds_first :: "(string \<times> string) set \<Rightarrow> string list \<Rightarrow> bool" where
  "preds_first E xs \<longleftrightarrow> (\<forall>ys n zs p. xs = ys @ n # zs \<and> (p, n) \<in> E \<longrightarrow> p \<in> set ys)"

lemma preds_first_append:
  assumes "preds_first E xs" "\<And>n p. n \<in> set ns \<Longrightarrow> (p, n) \<in> E \<Longrightarrow> p \<in> set xs"
  shows "preds_first E (xs @ ns)"
  unfolding preds_first_def
proof (intro allI impI, elim conjE)
  fix ys n zs p
  assume split: "xs @ ns = ys @ n # zs" and e: "(p, n) \<in> E"
  then consider us where "xs = ys @ n # us" | us vs where "ys = xs @ us" "ns = us @ n # vs"
    by (auto simp: append_eq_append_conv2 Cons_eq_append_conv append_eq_Cons_conv)
  then show "p \<in> set ys"
  proof cases
    case 1
    with assms(1) e show ?thesis by (auto simp: preds_first_def)
  next
    case 2
    with assms(2) [OF _ e] show ?thesis by auto
  qed
qed

text \<open>The loop invariant: what is ordered or queued, and the counters.\<close>

definition kahn_inv ::
  "(string \<times> string) set \<Rightarrow> string set \<Rightarrow> (string \<rightharpoonup> int) \<Rightarrow> string list \<Rightarrow> string list \<Rightarrow> bool"
where
  "kahn_inv E N deg queue order \<longleftrightarrow>
     distinct (order @ queue) \<and> set (order @ queue) = (N - Range E) \<union> E `` set order \<and>
     preds_first E (order @ queue) \<and> set (order @ queue) \<subseteq> E\<^sup>* `` (N - Range E) \<and>
     (\<forall>p n. (p, n) \<in> E \<and> p \<notin> set order \<longrightarrow> deg n = Some 1)"

lemma kahn_inv_step:
  assumes inv: "kahn_inv E N deg (cur # queue) order"
    and single: "single_valued (E\<inverse>)"
    and adj: "distinct succs" "set succs = E `` {cur}"
  shows "\<exists>deg'. kahn_succs succs deg queue = (deg', queue @ succs) \<and>
    kahn_inv E N deg' (queue @ succs) (order @ [cur])"
proof -
  have uniq: "p = p'" if "(p, n) \<in> E" "(p', n) \<in> E" for p p' n
    using single that by (meson converseI single_valuedD)
  have cur: "cur \<notin> set order" using inv by (simp add: kahn_inv_def)
  have seen: "set (order @ cur # queue) = (N - Range E) \<union> E `` set order"
    using inv unfolding kahn_inv_def by blast
  let ?deg = "\<lambda>x. if x \<in> set succs then Some 0 else deg x"
  have "deg x = Some 1" if "x \<in> set succs" for x
    using that inv cur adj(2) by (auto simp: kahn_inv_def)
  then have run: "kahn_succs succs deg queue = (?deg, queue @ succs)"
    by (rule kahn_succs_all [OF adj(1)])
  have new: "x \<notin> set (order @ cur # queue)" if "x \<in> set succs" for x
  proof
    assume "x \<in> set (order @ cur # queue)"
    then have "x \<in> (N - Range E) \<union> E `` set order" unfolding seen .
    moreover have "(cur, x) \<in> E" using that adj(2) by blast
    ultimately obtain p where "(p, x) \<in> E" "p \<in> set order" by auto
    with \<open>(cur, x) \<in> E\<close> uniq cur show False by blast
  qed
  have list: "(order @ [cur]) @ (queue @ succs) = (order @ cur # queue) @ succs" by simp
  have "preds_first E ((order @ cur # queue) @ succs)"
  proof (rule preds_first_append)
    fix n p
    assume "n \<in> set succs" "(p, n) \<in> E"
    with adj(2) uniq show "p \<in> set (order @ cur # queue)" by auto
  qed (use inv in \<open>simp add: kahn_inv_def\<close>)
  moreover have "distinct ((order @ cur # queue) @ succs)"
  proof -
    have "distinct (order @ cur # queue)" using inv unfolding kahn_inv_def by blast
    moreover have "set (order @ cur # queue) \<inter> set succs = {}" using new by blast
    ultimately show ?thesis using adj(1) by (simp only: distinct_append simp_thms)
  qed
  moreover have "set ((order @ cur # queue) @ succs) = (N - Range E) \<union> E `` set (order @ [cur])"
    using inv adj(2) by (auto simp: kahn_inv_def)
  moreover have "set ((order @ cur # queue) @ succs) \<subseteq> E\<^sup>* `` (N - Range E)"
  proof -
    have old: "set (order @ cur # queue) \<subseteq> E\<^sup>* `` (N - Range E)"
      using inv unfolding kahn_inv_def by blast
    moreover have "set succs \<subseteq> E\<^sup>* `` (N - Range E)"
      using old adj(2) by (auto intro: rtrancl_into_rtrancl)
    ultimately show ?thesis by auto
  qed
  moreover have "\<forall>p n. (p, n) \<in> E \<and> p \<notin> set (order @ [cur]) \<longrightarrow> ?deg n = Some 1"
    using inv adj(2) uniq by (auto simp: kahn_inv_def)
  ultimately have "kahn_inv E N ?deg (queue @ succs) (order @ [cur])"
    unfolding kahn_inv_def list by blast
  with run show ?thesis by blast
qed

lemma kahn_returns:
  assumes single: "single_valued (E\<inverse>)"
    and adj: "\<And>p. distinct (adj_get adj p)" "\<And>p. set (adj_get adj p) = E `` {p}"
    and fin: "finite N" "Range E \<subseteq> N"
  shows "kahn_inv E N deg queue order \<Longrightarrow> card N \<le> fuel + length order \<Longrightarrow>
    \<exists>deg' order'. kahn adj fuel deg queue order = Some order' \<and> kahn_inv E N deg' [] order'"
proof (induction fuel arbitrary: deg queue order)
  case 0
  show ?case
  proof (cases queue)
    case (Cons cur rest)
    have "set (order @ queue) \<subseteq> N" using 0(1) fin(2) by (auto simp: kahn_inv_def)
    then have "card (set (order @ queue)) \<le> card N" by (rule card_mono [OF fin(1)])
    moreover have "distinct (order @ queue)" using 0(1) by (simp only: kahn_inv_def)
    ultimately have "length (order @ queue) \<le> card N" by (metis distinct_card)
    with 0(2) Cons show ?thesis by simp
  qed (use 0 in auto)
next
  case (Suc fuel)
  show ?case
  proof (cases queue)
    case (Cons cur rest)
    with Suc.prems(1) have "kahn_inv E N deg (cur # rest) order" by simp
    from kahn_inv_step [OF this single adj] obtain deg' where
      step: "kahn_succs (adj_get adj cur) deg rest = (deg', rest @ adj_get adj cur)"
      "kahn_inv E N deg' (rest @ adj_get adj cur) (order @ [cur])" by blast
    from Suc.IH [OF step(2)] Suc.prems(2) show ?thesis by (simp add: Cons step(1))
  qed (use Suc.prems in auto)
qed

lemma kahn_done:
  assumes "kahn_inv E N deg [] order"
  shows "distinct order \<and> preds_first E order \<and> set order = E\<^sup>* `` (N - Range E)"
proof -
  have order: "set order = (N - Range E) \<union> E `` set order" "set order \<subseteq> E\<^sup>* `` (N - Range E)"
    using assms by (simp_all add: kahn_inv_def)
  have "x \<in> set order" if "(r, x) \<in> E\<^sup>*" "r \<in> N - Range E" for r x
    using that by (induction rule: rtrancl_induct) (use order(1) in blast)+
  with order(2) assms show ?thesis by (auto simp: kahn_inv_def)
qed

subsection \<open>The tasks of a schema\<close>

text \<open>\<open>(p, n)\<close> when a task of the schema named \<open>n\<close> has AFTER \<open>p\<close>, in lower case.\<close>

definition after_edges :: "'w Scheduler \<Rightarrow> string \<Rightarrow> string \<Rightarrow> (string \<times> string) set" where
  "after_edges s db schema =
     {(p, n). \<exists>k t. tasks s k = Some t \<and> EqualFold (t_DatabaseName t) db \<and> EqualFold (t_SchemaName t) schema \<and>
        t_Predecessor t \<noteq> '''' \<and> p = ToLower (t_Predecessor t) \<and> n = ToLower (t_Name t)}"

definition task_names :: "'w Scheduler \<Rightarrow> string \<Rightarrow> string \<Rightarrow> string set" where
  "task_names s db schema =
     {ToLower (t_Name t) |t. \<exists>k. tasks s k = Some t \<and> EqualFold (t_DatabaseName t) db \<and>
        EqualFold (t_SchemaName t) schema} \<union> Domain (after_edges s db schema)"

lemma set_schema_tasks:
  "range_order (tasks s) ks \<Longrightarrow> t \<in> set (schema_tasks s db schema ks) \<longleftrightarrow>
     (\<exists>k. tasks s k = Some t) \<and> EqualFold (t_DatabaseName t) db \<and> EqualFold (t_SchemaName t) schema"
  by (auto simp: schema_tasks_def set_range_values_order ran_def EqualFold_def)

lemma dep_edges_tasks:
  assumes "range_order (tasks s) ks"
  shows "dep_edges (map task_edge (schema_tasks s db schema ks)) = after_edges s db schema"
  by (auto simp: dep_edges_def after_edges_def task_edge_def image_iff set_schema_tasks [OF assms])
    (metis set_schema_tasks [OF assms])+

lemma dep_names_tasks:
  assumes "range_order (tasks s) ks"
  shows "dep_names (map task_edge (schema_tasks s db schema ks)) = task_names s db schema"
proof -
  have "fst ` set es - {''''} = Domain (dep_edges es)" for es by (force simp: dep_edges_def)
  then have "fst ` set (map task_edge (schema_tasks s db schema ks)) - {''''} = Domain (after_edges s db schema)"
    by (simp only: dep_edges_tasks [OF assms])
  moreover have "snd ` set (map task_edge (schema_tasks s db schema ks)) =
      {ToLower (t_Name t) |t. \<exists>k. tasks s k = Some t \<and> EqualFold (t_DatabaseName t) db \<and>
        EqualFold (t_SchemaName t) schema}"
    by (auto simp: task_edge_def image_iff Bex_def set_schema_tasks [OF assms]) blast
  ultimately show ?thesis
    unfolding dep_names_def task_names_def by (simp only:)
qed

lemma names_distinct:
  assumes "tasks_inv (tasks s)" "range_order (tasks s) ks"
  shows "distinct (map snd (map task_edge (schema_tasks s db schema ks)))"
proof -
  let ?key = "\<lambda>t. taskKey (t_DatabaseName t) (t_SchemaName t) (t_Name t)"
  have "map ?key (range_values (tasks s) l) = l" if "set l \<subseteq> dom (tasks s)" for l
    using that assms(1) by (induction l) (auto simp: tasks_inv_def)
  then have "distinct (map ?key (range_values (tasks s) ks))"
    using assms(2) by (simp add: range_order_def)
  then have "distinct (map ?key (schema_tasks s db schema ks))"
    by (simp add: schema_tasks_def distinct_map_filter)
  moreover have "?key t = taskKey db schema (ToLower (t_Name t))" if "t \<in> set (schema_tasks s db schema ks)" for t
    using that by (auto simp: set_schema_tasks [OF assms(2)] taskKey_def key_simps EqualFold_def)
  ultimately show ?thesis
    by (auto simp: distinct_map inj_on_def task_edge_def)
qed

lemma after_unique:
  assumes "tasks_inv (tasks s)"
  shows "single_valued ((after_edges s db schema)\<inverse>)"
proof (rule single_valuedI)
  fix n p p'
  assume "(n, p) \<in> (after_edges s db schema)\<inverse>" "(n, p') \<in> (after_edges s db schema)\<inverse>"
  then obtain k t k' t' where t: "tasks s k = Some t" "EqualFold (t_DatabaseName t) db"
      "EqualFold (t_SchemaName t) schema" "p = ToLower (t_Predecessor t)" "n = ToLower (t_Name t)"
    and t': "tasks s k' = Some t'" "EqualFold (t_DatabaseName t') db"
      "EqualFold (t_SchemaName t') schema" "p' = ToLower (t_Predecessor t')" "n = ToLower (t_Name t')"
    unfolding after_edges_def by auto
  have "k = taskKey (t_DatabaseName t) (t_SchemaName t) (t_Name t)"
    "k' = taskKey (t_DatabaseName t') (t_SchemaName t') (t_Name t')"
    using assms(1) t(1) t'(1) by (auto simp: tasks_inv_def)
  then have "k = k'" using t(2,3,5) t'(2,3,5) by (simp add: taskKey_def key_simps EqualFold_def)
  with t t' show "p = p'" by simp
qed

subsection \<open>Properties\<close>

text \<open>
  C7. GetDependencyOrder is a topological sort: for every order in which the two maps are ranged
  over it returns; no name is listed twice, each task comes after the task it depends on, and
  exactly the names that a name without a predecessor leads to are listed (all but those on a
  cycle or behind one).
\<close>

theorem GetDependencyOrder_topological:
  assumes "task_reachable load s" "range_order (tasks s) ks"
    and "range_order (snd (dependency_graph s db schema ks)) names"
    and "card (task_names s db schema) \<le> fuel"
  shows "\<exists>order. GetDependencyOrder s db schema ks names fuel = Some order \<and> distinct order \<and>
    preds_first (after_edges s db schema) order \<and>
    set order = (after_edges s db schema)\<^sup>* `` (task_names s db schema - Range (after_edges s db schema))"
proof -
  note inv = task_reachable_inv [OF assms(1)]
  let ?es = "map task_edge (schema_tasks s db schema ks)"
  let ?E = "after_edges s db schema"
  let ?N = "task_names s db schema"
  obtain adj deg where g: "dependency_graph s db schema ks = (adj, deg)" by fastforce
  from add_task_fold [OF g [unfolded dependency_graph_def]]
  have adj: "adj_get adj = out_names ?es"
    and deg: "deg = (\<lambda>n. if n \<in> ?N then Some (int (length (in_edges ?es n))) else None)"
    by (simp_all add: dep_names_tasks [OF assms(2)])
  have E: "?E = {(p, n). (p, n) \<in> set ?es \<and> p \<noteq> ''''}"
    using dep_edges_tasks [OF assms(2)] by (simp add: dep_edges_def)
  have dist: "distinct (map snd ?es)" by (rule names_distinct [OF inv assms(2)])
  have adj1: "distinct (adj_get adj p)" for p
    using dist unfolding adj out_names_def by (rule distinct_map_filter)
  have adj2: "set (adj_get adj p) = ?E `` {p}" for p
    unfolding adj set_out_names dep_edges_tasks [OF assms(2)] by (rule refl)
  have count: "length (in_edges ?es n) = (if n \<in> Range ?E then 1 else 0)" for n
    unfolding E by (rule in_edges_count [OF dist])
  have fin: "finite ?N" "Range ?E \<subseteq> ?N"
    unfolding dep_names_tasks [OF assms(2), symmetric] dep_edges_tasks [OF assms(2), symmetric]
    by (rule dep_names_finite dep_names_range)+
  let ?queue = "map fst (filter (\<lambda>(_, d). d = 0) (range_entries deg names))"
  have names: "range_order deg names" using assms(3) g by simp
  have queue: "set ?queue = ?N - Range ?E"
  proof (rule set_eqI)
    fix n
    have "n \<in> set ?queue \<longleftrightarrow> deg n = Some 0"
      using set_range_entries_order [OF names] by force
    then show "n \<in> set ?queue \<longleftrightarrow> n \<in> ?N - Range ?E" by (simp add: deg count)
  qed
  have "map fst (range_entries deg names) = names"
    using names by (intro map_fst_range_entries) (simp add: range_order_def)
  then have "distinct ?queue" using names by (intro distinct_map_filter) (simp add: range_order_def)
  moreover have "preds_first ?E ?queue"
    unfolding preds_first_def
  proof (intro allI impI, elim conjE)
    fix ys n zs p
    assume "?queue = ys @ n # zs" "(p, n) \<in> ?E"
    then have "n \<in> set ?queue" "n \<in> Range ?E" by auto
    with queue show "p \<in> set ys" by blast
  qed
  moreover have "deg n = Some 1" if "(p, n) \<in> ?E" for p n
    using that fin(2) by (auto simp: deg count)
  ultimately have "kahn_inv ?E ?N deg ?queue []"
    unfolding kahn_inv_def using queue by auto
  note kahn = kahn_returns [OF after_unique [OF inv] adj1 adj2 fin this]
  from kahn [of fuel] assms(4) obtain deg' order where
    "kahn adj fuel deg ?queue [] = Some order" "kahn_inv ?E ?N deg' [] order" by auto
  with kahn_done show ?thesis by (auto simp: GetDependencyOrder_def g Let_def)
qed

lemma sample_graph:
  "dependency_graph sample_scheduler ''d'' ''s'' [''d.s.a'', ''d.s.b''] =
     ([''a'' \<mapsto> [''b'']], [''a'' \<mapsto> 0, ''b'' \<mapsto> 1])"
proof -
  have low: "ToLower ''D'' = ''d''" "ToLower ''S'' = ''s''" "ToLower ''A'' = ''a''" "ToLower ''B'' = ''b''"
    "ToLower ''a'' = ''a''" "ToLower ''d'' = ''d''" "ToLower ''s'' = ''s''" by code_simp+
  show ?thesis
    by (simp add: dependency_graph_def schema_tasks_def sample_tasks sample_root_def sample_child_def
        new_task_def task_edge_def add_task_def touch_def adj_get_def deg_get_def low)
qed

theorem GetDependencyOrder_topological_witness:
  "\<exists>order. GetDependencyOrder sample_scheduler ''d'' ''s'' [''d.s.a'', ''d.s.b''] [''b'', ''a''] 2 = Some order \<and>
     distinct order \<and> preds_first (after_edges sample_scheduler ''d'' ''s'') order"
proof -
  have names: "range_order (snd (dependency_graph sample_scheduler ''d'' ''s'' [''d.s.a'', ''d.s.b''])) [''b'', ''a'']"
    by (auto simp: sample_graph range_order_def)
  have "task_names sample_scheduler ''d'' ''s'' = dom (snd (dependency_graph sample_scheduler ''d'' ''s'' [''d.s.a'', ''d.s.b'']))"
    using add_task_fold [OF sample_graph [unfolded dependency_graph_def]] dep_names_tasks [OF sample_tasks_order]
    by (auto simp: dependency_graph_def [symmetric] sample_graph split: if_splits)
  then have "card (task_names sample_scheduler ''d'' ''s'') \<le> 2"
    using range_order_length [OF names] by simp
  from GetDependencyOrder_topological [OF sample_scheduler_reachable sample_tasks_order names this] show ?thesis
    by blast
qed

end
