(* ===== verification/Streams.thy ===== *)
theory Streams
  imports Registry
begin

text \<open>
  \<^verbatim>\<open>internal/stream/stream.go\<close>: streams that collect the changes of a table until they are consumed.
  The row data of a change is a type parameter. The interface a client relies on, pending changes
  that a consumer takes all at once, is the locale \<open>change_source\<close>; the engine is an instance.
\<close>

datatype ChangeType = ChangeInsert | ChangeDelete | ChangeUpdate

text \<open>A zero \<^verbatim>\<open>Timestamp\<close> is \<open>None\<close>.\<close>

record 'd ChangeRecord =
  cr_Action :: ChangeType
  cr_IsUpdate :: bool
  cr_RowID :: string
  cr_Data :: "string \<rightharpoonup> 'd"
  cr_Timestamp :: "time option"

record 'd Stream =
  st_Name :: string
  st_DatabaseName :: string
  st_SchemaName :: string
  st_TableName :: string
  st_Type :: string
  st_Stale :: bool
  st_StaleAfter :: time
  st_Offset :: int
  st_CreatedAt :: time
  st_changes :: "'d ChangeRecord list"

record StreamInfo =
  sti_Name :: string
  sti_DatabaseName :: string
  sti_SchemaName :: string
  sti_TableName :: string
  sti_Type :: string
  sti_Stale :: bool
  sti_CreatedAt :: time

record 'd stream_Engine =
  streams :: "string \<rightharpoonup> 'd Stream"

definition stream_NewEngine :: "'d stream_Engine" where
  "stream_NewEngine = \<lparr>streams = Map.empty\<rparr>"

definition stream_Reset :: "'d stream_Engine \<Rightarrow> 'd stream_Engine" where
  "stream_Reset e = e\<lparr>streams := Map.empty\<rparr>"

definition streamKey :: "string \<Rightarrow> string \<Rightarrow> string \<Rightarrow> string" where
  "streamKey db schema name = ToLower (dotted db schema name)"

definition tableKey :: "string \<Rightarrow> string \<Rightarrow> string \<Rightarrow> string" where
  "tableKey db schema table = ToLower (dotted db schema table)"

definition stream_type :: "string \<Rightarrow> string" where
  "stream_type streamType = ToUpper (if streamType = '''' then ''STANDARD'' else streamType)"

definition new_stream :: "time \<Rightarrow> string \<Rightarrow> string \<Rightarrow> string \<Rightarrow> string \<Rightarrow> string \<Rightarrow> 'd Stream" where
  "new_stream now db schema name tableName streamType =
     \<lparr>st_Name = name, st_DatabaseName = db, st_SchemaName = schema, st_TableName = tableName,
      st_Type = streamType, st_Stale = False, st_StaleAfter = now + 14 * 24 * hour, st_Offset = 0,
      st_CreatedAt = now, st_changes = []\<rparr>"

definition CreateStream ::
  "'d stream_Engine \<Rightarrow> time \<Rightarrow> string \<Rightarrow> string \<Rightarrow> string \<Rightarrow> string \<Rightarrow> string \<Rightarrow> 'd stream_Engine result"
where
  "CreateStream e now db schema name tableName streamType =
     (let key = streamKey db schema name;
          streamType = stream_type streamType
      in if streamType \<noteq> ''STANDARD'' \<and> streamType \<noteq> ''APPEND_ONLY'' then Err (Invalid ''stream type'' streamType)
         else if streams e key \<noteq> None then Err (AlreadyExists ''stream'' name)
         else Ok (e\<lparr>streams := (streams e)(key \<mapsto> new_stream now db schema name tableName streamType)\<rparr>))"

definition DropStream :: "'d stream_Engine \<Rightarrow> string \<Rightarrow> string \<Rightarrow> string \<Rightarrow> 'd stream_Engine result" where
  "DropStream e db schema name =
     (let key = streamKey db schema name
      in if streams e key = None then Err (DoesNotExist ''stream'' name)
         else Ok (e\<lparr>streams := (streams e)(key := None)\<rparr>))"

definition GetStream :: "'d stream_Engine \<Rightarrow> string \<Rightarrow> string \<Rightarrow> string \<Rightarrow> 'd Stream result" where
  "GetStream e db schema name =
     (case streams e (streamKey db schema name) of
        None \<Rightarrow> Err (DoesNotExist ''stream'' name)
      | Some s \<Rightarrow> Ok s)"

text \<open>The loop body of \<^verbatim>\<open>RecordChange\<close> for one stream.\<close>

definition record_in :: "string \<Rightarrow> 'd ChangeRecord \<Rightarrow> 'd Stream \<Rightarrow> 'd Stream" where
  "record_in tKey change s =
     (if tableKey (st_DatabaseName s) (st_SchemaName s) (st_TableName s) \<noteq> tKey then s
      else if st_Type s = ''APPEND_ONLY'' \<and> cr_Action change \<noteq> ChangeInsert then s
      else s\<lparr>st_changes := st_changes s @ [change]\<rparr>)"

definition stamp :: "time \<Rightarrow> 'd ChangeRecord \<Rightarrow> 'd ChangeRecord" where
  "stamp now change =
     (if cr_Timestamp change = None then change\<lparr>cr_Timestamp := Some now\<rparr> else change)"

definition RecordChange ::
  "'d stream_Engine \<Rightarrow> time \<Rightarrow> string \<Rightarrow> string \<Rightarrow> string \<Rightarrow> 'd ChangeRecord \<Rightarrow> 'd stream_Engine"
where
  "RecordChange e now db schema tableName change =
     e\<lparr>streams := map_values (record_in (tableKey db schema tableName) (stamp now change)) (streams e)\<rparr>"

definition ConsumeStream ::
  "'d stream_Engine \<Rightarrow> string \<Rightarrow> string \<Rightarrow> string \<Rightarrow> ('d stream_Engine \<times> 'd ChangeRecord list) result"
where
  "ConsumeStream e db schema name =
     (let key = streamKey db schema name
      in case streams e key of
           None \<Rightarrow> Err (DoesNotExist ''stream'' name)
         | Some s \<Rightarrow>
             (let offset = st_Offset s
              in if offset \<ge> int (length (st_changes s)) then Ok (e, [])
                 else
                   let records = drop (nat offset) (st_changes s);
                       s' = s\<lparr>st_Offset := int (length (st_changes s))\<rparr>
                   in Ok (e\<lparr>streams := (streams e)(key \<mapsto> s')\<rparr>, records)))"

definition HasData :: "'d stream_Engine \<Rightarrow> string \<Rightarrow> string \<Rightarrow> string \<Rightarrow> bool" where
  "HasData e db schema name =
     (case streams e (streamKey db schema name) of
        None \<Rightarrow> False
      | Some s \<Rightarrow> st_Offset s < int (length (st_changes s)))"

definition stream_info :: "'d Stream \<Rightarrow> StreamInfo" where
  "stream_info s =
     \<lparr>sti_Name = st_Name s, sti_DatabaseName = st_DatabaseName s, sti_SchemaName = st_SchemaName s,
      sti_TableName = st_TableName s, sti_Type = st_Type s, sti_Stale = st_Stale s,
      sti_CreatedAt = st_CreatedAt s\<rparr>"

definition ShowStreams :: "'d stream_Engine \<Rightarrow> string \<Rightarrow> string \<Rightarrow> string list \<Rightarrow> StreamInfo list" where
  "ShowStreams e db schema ks =
     map stream_info
       (filter (\<lambda>s. ToLower (st_DatabaseName s) = ToLower db \<and> ToLower (st_SchemaName s) = ToLower schema)
               (range_values (streams e) ks))"

subsection \<open>The interface of a change source\<close>

text \<open>
  What a consumer relies on: consuming a stream returns what was pending and leaves nothing pending
  there, without touching other streams; recording an event adds what each stream captures of it at
  the end of its pending changes; and \<open>has_data\<close> tells whether anything is pending.
\<close>

datatype ('p, 'e) source_op = Consume 'p | Record 'e

text \<open>A history of calls, with what each consumption returned, by key.\<close>

fun source_run ::
  "('p \<Rightarrow> 'k) \<Rightarrow> ('s \<Rightarrow> 'p \<Rightarrow> 's \<times> 'c list) \<Rightarrow> ('s \<Rightarrow> 'e \<Rightarrow> 's) \<Rightarrow> 's \<Rightarrow> ('p, 'e) source_op list \<Rightarrow>
     's \<times> ('k \<times> 'c list) list"
where
  "source_run key consume recrd s [] = (s, [])"
| "source_run key consume recrd s (Consume p # ops) =
     (let (s', cs) = consume s p; (s'', outs) = source_run key consume recrd s' ops
      in (s'', (key p, cs) # outs))"
| "source_run key consume recrd s (Record e # ops) = source_run key consume recrd (recrd s e) ops"

definition consumed :: "'k \<Rightarrow> ('k \<times> 'c list) list \<Rightarrow> 'c list" where
  "consumed k outs = concat (map snd (filter (\<lambda>(k', _). k' = k) outs))"

fun recorded :: "('p, 'e) source_op list \<Rightarrow> 'e list" where
  "recorded [] = []"
| "recorded (Consume p # ops) = recorded ops"
| "recorded (Record e # ops) = e # recorded ops"

locale change_source =
  fixes key :: "'p \<Rightarrow> 'k"
    and pending :: "'s \<Rightarrow> 'k \<Rightarrow> 'c list"
    and captured :: "'s \<Rightarrow> 'k \<Rightarrow> 'e \<Rightarrow> 'c list"
    and consume :: "'s \<Rightarrow> 'p \<Rightarrow> 's \<times> 'c list"
    and recrd :: "'s \<Rightarrow> 'e \<Rightarrow> 's"
    and has_data :: "'s \<Rightarrow> 'p \<Rightarrow> bool"
    and ok :: "'s \<Rightarrow> bool"
  assumes consume_law: "ok s \<Longrightarrow> consume s p = (s', cs) \<Longrightarrow>
      cs = pending s (key p) \<and> pending s' = (pending s)(key p := []) \<and> captured s' = captured s \<and> ok s'"
    and record_law: "ok s \<Longrightarrow> pending (recrd s e) = (\<lambda>k. pending s k @ captured s k e) \<and>
      captured (recrd s e) = captured s \<and> ok (recrd s e)"
    and has_data_iff: "ok s \<Longrightarrow> has_data s p \<longleftrightarrow> pending s (key p) \<noteq> []"
begin

lemma consumed_is_empty: "ok s \<Longrightarrow> consume s p = (s', cs) \<Longrightarrow> key p' = key p \<Longrightarrow> \<not> has_data s' p'"
  by (metis consume_law fun_upd_same has_data_iff)

lemma consume_keeps_others:
  "ok s \<Longrightarrow> consume s p = (s', cs) \<Longrightarrow> key p' \<noteq> key p \<Longrightarrow> has_data s' p' = has_data s p'"
  by (metis consume_law fun_upd_other has_data_iff)

text \<open>Nothing is lost, repeated or reordered between recording and consuming.\<close>

lemma exactly_once:
  assumes "ok s" "source_run key consume recrd s ops = (s', outs)"
  shows "consumed k outs @ pending s' k = pending s k @ concat (map (captured s k) (recorded ops)) \<and> ok s'"
  using assms
proof (induction ops arbitrary: s outs)
  case Nil
  then show ?case by (simp add: consumed_def)
next
  case (Cons op ops)
  show ?case
  proof (cases op)
    case (Consume p)
    obtain s1 cs where s1: "consume s p = (s1, cs)" by fastforce
    note law = consume_law [OF Cons.prems(1) s1]
    from Cons.prems(2) obtain outs' where rest: "source_run key consume recrd s1 ops = (s', outs')"
      "outs = (key p, cs) # outs'" by (auto simp: Consume s1 Let_def split: prod.splits)
    from Cons.IH [OF _ rest(1)] law show ?thesis
      by (auto simp: Consume rest(2) consumed_def)
  next
    case (Record e)
    note law = record_law [OF Cons.prems(1), of e]
    from Cons.prems(2) have "source_run key consume recrd (recrd s e) ops = (s', outs)" by (simp add: Record)
    from Cons.IH [OF _ this] law show ?thesis by (simp add: Record)
  qed
qed

end

text \<open>The engine's pending changes by key, and consuming where an error returns nothing.\<close>

definition pending_changes :: "'d stream_Engine \<Rightarrow> string \<Rightarrow> 'd ChangeRecord list" where
  "pending_changes e key =
     (case streams e key of None \<Rightarrow> [] | Some s \<Rightarrow> drop (nat (st_Offset s)) (st_changes s))"

definition stream_ok :: "string \<Rightarrow> 'd Stream \<Rightarrow> bool" where
  "stream_ok k s \<longleftrightarrow> 0 \<le> st_Offset s \<and> st_Offset s \<le> int (length (st_changes s)) \<and>
     k = streamKey (st_DatabaseName s) (st_SchemaName s) (st_Name s) \<and>
     (st_Type s = ''STANDARD'' \<or> st_Type s = ''APPEND_ONLY'')"

definition stream_inv :: "'d stream_Engine \<Rightarrow> bool" where
  "stream_inv e \<longleftrightarrow> (\<forall>k s. streams e k = Some s \<longrightarrow> stream_ok k s)"

type_synonym stream_path = "string \<times> string \<times> string"

definition stream_path_key :: "stream_path \<Rightarrow> string" where
  "stream_path_key p = (case p of (db, schema, name) \<Rightarrow> streamKey db schema name)"

definition consume_path :: "'d stream_Engine \<Rightarrow> stream_path \<Rightarrow> 'd stream_Engine \<times> 'd ChangeRecord list" where
  "consume_path e p = (case p of (db, schema, name) \<Rightarrow>
     case ConsumeStream e db schema name of Inl _ \<Rightarrow> (e, []) | Inr r \<Rightarrow> r)"

lemma pending_consume:
  assumes "stream_inv e" "ConsumeStream e db schema name = Inr (e', cs)"
  shows "cs = pending_changes e (streamKey db schema name) \<and> stream_inv e' \<and>
    pending_changes e' = (pending_changes e)(streamKey db schema name := [])"
proof -
  let ?k = "streamKey db schema name"
  from assms(2) obtain s where s: "streams e ?k = Some s"
    by (auto simp: ConsumeStream_def Let_def split: option.splits)
  with assms(1) have ok: "stream_ok ?k s" by (simp add: stream_inv_def)
  let ?s = "s\<lparr>st_Offset := int (length (st_changes s))\<rparr>"
  have "stream_ok ?k ?s" using ok by (simp add: stream_ok_def)
  then have "stream_inv (e\<lparr>streams := (streams e)(?k \<mapsto> ?s)\<rparr>)" using assms(1) by (simp add: stream_inv_def)
  moreover have "0 \<le> st_Offset s" "st_Offset s \<le> int (length (st_changes s))"
    using ok by (simp_all add: stream_ok_def)
  ultimately show ?thesis using assms s
    by (auto simp: ConsumeStream_def Let_def pending_changes_def fun_eq_iff split: if_splits)
qed

lemma HasData_iff: "stream_inv e \<Longrightarrow> HasData e db schema name \<longleftrightarrow> pending_changes e (streamKey db schema name) \<noteq> []"
  by (force simp: HasData_def pending_changes_def stream_inv_def stream_ok_def split: option.splits)

lemma consume_missing: "ConsumeStream e db schema name = Inl err \<Longrightarrow> pending_changes e (streamKey db schema name) = []"
  by (auto simp: ConsumeStream_def Let_def pending_changes_def split: option.splits if_splits)

type_synonym 'd event = "time \<times> string \<times> string \<times> string \<times> 'd ChangeRecord"

definition record_event :: "'d stream_Engine \<Rightarrow> 'd event \<Rightarrow> 'd stream_Engine" where
  "record_event e ev = (case ev of (now, db, schema, table, change) \<Rightarrow> RecordChange e now db schema table change)"

definition has_data_path :: "'d stream_Engine \<Rightarrow> stream_path \<Rightarrow> bool" where
  "has_data_path e p = (case p of (db, schema, name) \<Rightarrow> HasData e db schema name)"

text \<open>What a stream captures of a change: all changes of its table, or only the inserts.\<close>

definition captures :: "'d Stream \<Rightarrow> 'd event \<Rightarrow> bool" where
  "captures s ev = (case ev of (now, db, schema, table, change) \<Rightarrow>
     tableKey (st_DatabaseName s) (st_SchemaName s) (st_TableName s) = tableKey db schema table \<and>
     (st_Type s = ''STANDARD'' \<or> cr_Action change = ChangeInsert))"

definition captured_by :: "'d stream_Engine \<Rightarrow> string \<Rightarrow> 'd event \<Rightarrow> 'd ChangeRecord list" where
  "captured_by e k ev = (case ev of (now, db, schema, table, change) \<Rightarrow>
     case streams e k of None \<Rightarrow> [] | Some s \<Rightarrow> if captures s ev then [stamp now change] else [])"

lemma stamp_action [simp]: "cr_Action (stamp now change) = cr_Action change"
  by (simp add: stamp_def)

lemma record_in_ok:
  "stream_ok k s \<Longrightarrow> stream_ok k (record_in tKey change s)"
  by (auto simp: stream_ok_def record_in_def)

lemma record_in_pending:
  assumes "stream_ok k s"
  shows "drop (nat (st_Offset (record_in (tableKey db schema table) (stamp now change) s)))
      (st_changes (record_in (tableKey db schema table) (stamp now change) s)) =
    drop (nat (st_Offset s)) (st_changes s) @
      (if captures s (now, db, schema, table, change) then [stamp now change] else [])"
  using assms by (auto simp: stream_ok_def record_in_def captures_def)

lemma record_captures: "captures (record_in tKey change s) ev = captures s ev"
  by (simp add: captures_def record_in_def split: prod.split)

lemma record_event_law:
  assumes "stream_inv e"
  shows "pending_changes (record_event e ev) = (\<lambda>k. pending_changes e k @ captured_by e k ev) \<and>
    captured_by (record_event e ev) = captured_by e \<and> stream_inv (record_event e ev)"
proof (intro conjI ext)
  obtain now db schema table change where ev: "ev = (now, db, schema, table, change)" by (cases ev) auto
  show "stream_inv (record_event e ev)"
    using assms by (auto simp: stream_inv_def ev record_event_def RecordChange_def intro: record_in_ok)
  show "pending_changes (record_event e ev) k = pending_changes e k @ captured_by e k ev" for k
  proof (cases "streams e k")
    case (Some s)
    with assms have "stream_ok k s" by (simp add: stream_inv_def)
    from record_in_pending [OF this] Some show ?thesis
      by (simp add: pending_changes_def captured_by_def ev record_event_def RecordChange_def)
  qed (simp add: pending_changes_def captured_by_def ev record_event_def RecordChange_def)
  show "captured_by (record_event e ev) k ev' = captured_by e k ev'" for k ev'
    by (cases "streams e k")
      (auto simp: captured_by_def ev record_event_def RecordChange_def record_captures split: prod.split)
qed

lemma consume_captured:
  "ConsumeStream e db schema name = Inr (e', cs) \<Longrightarrow> captured_by e' = captured_by e"
  by (auto simp: ConsumeStream_def Let_def captured_by_def captures_def fun_eq_iff
      split: option.splits if_splits prod.split)

interpretation changes: change_source stream_path_key pending_changes captured_by consume_path record_event
    has_data_path stream_inv
proof unfold_locales
  fix e e' :: "'d stream_Engine" and p cs
  assume inv: "stream_inv e" and run: "consume_path e p = (e', cs)"
  obtain db schema name where p: "p = (db, schema, name)" by (cases p)
  show "cs = pending_changes e (stream_path_key p) \<and>
      pending_changes e' = (pending_changes e)(stream_path_key p := []) \<and>
      captured_by e' = captured_by e \<and> stream_inv e'"
  proof (cases "ConsumeStream e db schema name")
    case (Inl err)
    with run consume_missing [OF Inl] inv show ?thesis
      by (auto simp: consume_path_def p stream_path_key_def fun_eq_iff)
  next
    case (Inr r)
    with run have "ConsumeStream e db schema name = Inr (e', cs)" by (simp add: consume_path_def p)
    with pending_consume [OF inv this] consume_captured [OF this] show ?thesis
      by (simp add: p stream_path_key_def)
  qed
next
  fix e :: "'d stream_Engine" and ev
  assume "stream_inv e"
  then show "pending_changes (record_event e ev) = (\<lambda>k. pending_changes e k @ captured_by e k ev) \<and>
      captured_by (record_event e ev) = captured_by e \<and> stream_inv (record_event e ev)"
    by (rule record_event_law)
next
  fix e :: "'d stream_Engine" and p
  assume "stream_inv e"
  then show "has_data_path e p \<longleftrightarrow> pending_changes e (stream_path_key p) \<noteq> []"
    by (cases p) (simp add: has_data_path_def stream_path_key_def HasData_iff)
qed

subsection \<open>Creating, dropping, resetting\<close>

definition create_stream :: "'d stream_Engine \<Rightarrow> stream_path \<Rightarrow> time \<times> string \<times> string \<Rightarrow> 'd stream_Engine result" where
  "create_stream e p a = (case p of (db, schema, name) \<Rightarrow> case a of (now, table, ty) \<Rightarrow>
     CreateStream e now db schema name table ty)"

definition drop_stream :: "'d stream_Engine \<Rightarrow> stream_path \<Rightarrow> 'd stream_Engine result" where
  "drop_stream e p = (case p of (db, schema, name) \<Rightarrow> DropStream e db schema name)"

definition stream_entry :: "stream_path \<Rightarrow> time \<times> string \<times> string \<Rightarrow> 'd Stream" where
  "stream_entry p a = (case p of (db, schema, name) \<Rightarrow> case a of (now, table, ty) \<Rightarrow>
     new_stream now db schema name table (stream_type ty))"

definition stream_valid :: "stream_path \<Rightarrow> time \<times> string \<times> string \<Rightarrow> bool" where
  "stream_valid p a = (case a of (now, table, ty) \<Rightarrow>
     stream_type ty = ''STANDARD'' \<or> stream_type ty = ''APPEND_ONLY'')"

interpretation streams_reg: registry streams create_stream drop_stream stream_path_key stream_entry stream_valid
  by unfold_locales
    (auto simp: create_stream_def drop_stream_def stream_path_key_def stream_entry_def stream_valid_def
      CreateStream_def DropStream_def Let_def split: if_splits)

interpretation streams_reset: resettable stream_Reset stream_NewEngine
proof unfold_locales
  fix e :: "'d stream_Engine"
  show "stream_Reset e = stream_NewEngine" by (cases e) (simp add: stream_Reset_def stream_NewEngine_def)
qed

inductive stream_step :: "'d stream_Engine \<Rightarrow> 'd stream_Engine \<Rightarrow> bool" where
  create: "CreateStream e now db schema name table ty = Inr e' \<Longrightarrow> stream_step e e'"
| remove: "DropStream e db schema name = Inr e' \<Longrightarrow> stream_step e e'"
| recrd: "stream_step e (RecordChange e now db schema table change)"
| consume: "ConsumeStream e db schema name = Inr (e', cs) \<Longrightarrow> stream_step e e'"
| reset: "stream_step e (stream_Reset e)"

inductive stream_reachable :: "'d stream_Engine \<Rightarrow> bool" where
  start: "stream_reachable stream_NewEngine"
| step: "stream_reachable e \<Longrightarrow> stream_step e e' \<Longrightarrow> stream_reachable e'"

lemma stream_inv_create: "stream_inv e \<Longrightarrow> CreateStream e now db schema name table ty = Inr e' \<Longrightarrow> stream_inv e'"
proof -
  assume inv: "stream_inv e" and run: "CreateStream e now db schema name table ty = Inr e'"
  from run have "stream_type ty = ''STANDARD'' \<or> stream_type ty = ''APPEND_ONLY''"
    and e': "e' = e\<lparr>streams := (streams e)
      (streamKey db schema name \<mapsto> new_stream now db schema name table (stream_type ty))\<rparr>"
    by (auto simp: CreateStream_def Let_def split: if_splits)
  then have "stream_ok (streamKey db schema name) (new_stream now db schema name table (stream_type ty))"
    by (simp add: stream_ok_def new_stream_def)
  with inv show "stream_inv e'" unfolding e' by (simp add: stream_inv_def)
qed

lemma stream_inv_record: "stream_inv e \<Longrightarrow> stream_inv (RecordChange e now db schema table change)"
  by (auto simp: stream_inv_def RecordChange_def intro: record_in_ok)

lemma stream_reachable_inv: "stream_reachable e \<Longrightarrow> stream_inv e"
proof (induction rule: stream_reachable.induct)
  case start
  show ?case by (simp add: stream_inv_def stream_NewEngine_def)
next
  case (step e e')
  from step(2) step(3) show ?case
  proof (induction rule: stream_step.induct)
    case (remove e db schema name e')
    then show ?case by (auto simp: DropStream_def Let_def stream_inv_def split: if_splits)
  next
    case (reset e)
    show ?case by (simp add: stream_Reset_def stream_inv_def)
  qed (auto intro: stream_inv_create stream_inv_record dest: pending_consume)
qed

subsection \<open>Properties\<close>

text \<open>
  C3. Streams deliver exactly once: from any reachable state and under any interleaving of recorded
  changes and consumptions of streams, what the consumptions of one stream returned, in order,
  followed by what is still pending, is what was pending at first followed by the captured
  changes in the order in which they were recorded; an append-only stream captures the inserts,
  a standard stream every change of its table.
\<close>

theorem stream_exactly_once:
  assumes "stream_reachable e" "source_run stream_path_key consume_path record_event e ops = (e', outs)"
  shows "consumed k outs @ pending_changes e' k =
    pending_changes e k @ concat (map (captured_by e k) (recorded ops))"
  using changes.exactly_once [OF stream_reachable_inv [OF assms(1)] assms(2)] by blast

definition sample_change :: "nat ChangeRecord" where
  "sample_change = \<lparr>cr_Action = ChangeInsert, cr_IsUpdate = False, cr_RowID = ''1'', cr_Data = Map.empty,
     cr_Timestamp = Some 9\<rparr>"

definition sample_streams :: "nat stream_Engine" where
  "sample_streams = ignore_error stream_NewEngine (CreateStream stream_NewEngine 1 ''d'' ''s'' ''x'' ''t'' '''')"

definition sample_ops :: "(stream_path, nat event) source_op list" where
  "sample_ops = [Record (2, ''D'', ''S'', ''T'', sample_change), Consume (''d'', ''s'', ''X''), Consume (''d'', ''s'', ''x'')]"

lemma sample_streams_reachable: "stream_reachable sample_streams"
  unfolding sample_streams_def
  by (cases "CreateStream stream_NewEngine 1 ''d'' ''s'' ''x'' ''t'' '''' :: nat stream_Engine result")
    (auto intro: stream_reachable.intros stream_step.create)

lemma sample_capture:
  "pending_changes sample_streams ''d.s.x'' = []"
  "captured_by sample_streams ''d.s.x'' (2, ''D'', ''S'', ''T'', sample_change) = [sample_change]"
proof -
  have lits: "streamKey ''d'' ''s'' ''x'' = ''d.s.x''" "ToUpper ''STANDARD'' = ''STANDARD''"
    "tableKey ''d'' ''s'' ''t'' = ''d.s.t''" "tableKey ''D'' ''S'' ''T'' = ''d.s.t''" by code_simp+
  then show "pending_changes sample_streams ''d.s.x'' = []"
    "captured_by sample_streams ''d.s.x'' (2, ''D'', ''S'', ''T'', sample_change) = [sample_change]"
    by (simp_all add: sample_streams_def CreateStream_def stream_type_def new_stream_def stream_NewEngine_def
        pending_changes_def captured_by_def captures_def stamp_def sample_change_def)
qed

theorem stream_exactly_once_witness:
  "consumed ''d.s.x'' (snd (source_run stream_path_key consume_path record_event sample_streams sample_ops)) @
     pending_changes (fst (source_run stream_path_key consume_path record_event sample_streams sample_ops)) ''d.s.x'' =
   [sample_change]"
proof -
  have recs: "recorded sample_ops = [(2, ''D'', ''S'', ''T'', sample_change)]" by (simp add: sample_ops_def)
  obtain e' outs where run: "source_run stream_path_key consume_path record_event sample_streams sample_ops = (e', outs)"
    by fastforce
  from stream_exactly_once [OF sample_streams_reachable run, of "''d.s.x''"] show ?thesis
    unfolding run recs by (simp add: sample_capture)
qed

text \<open>
  SYSTEM$STREAM_HAS_DATA is exact: in every reachable state HasData holds exactly when a
  consumption would return something, and right after a consumption it is false, under any
  spelling of the stream's name.
\<close>

theorem HasData_exact:
  assumes "stream_reachable e" "ConsumeStream e db schema name = Inr (e', cs)"
  shows "(HasData e db schema name \<longleftrightarrow> cs \<noteq> []) \<and>
    (streamKey db' schema' name' = streamKey db schema name \<longrightarrow> \<not> HasData e' db' schema' name')"
proof -
  note inv = stream_reachable_inv [OF assms(1)]
  from assms(2) have "consume_path e (db, schema, name) = (e', cs)" by (simp add: consume_path_def)
  from changes.consumed_is_empty [OF inv this, of "(db', schema', name')"]
    pending_consume [OF inv assms(2)] HasData_iff [OF inv] show ?thesis
    by (auto simp: stream_path_key_def has_data_path_def)
qed

theorem HasData_exact_witness:
  "\<exists>e' cs. ConsumeStream sample_streams ''d'' ''s'' ''x'' = Inr (e', cs) \<and>
     HasData sample_streams ''d'' ''s'' ''x'' = (cs \<noteq> [])"
proof -
  have "is_ok (ConsumeStream sample_streams ''d'' ''s'' ''x'')" by code_simp
  then obtain e' cs where run: "ConsumeStream sample_streams ''d'' ''s'' ''x'' = Inr (e', cs)"
    by (auto simp: is_ok_iff)
  with HasData_exact [OF sample_streams_reachable run] show ?thesis by blast
qed

text \<open>
  Streams behave like a map under any history of CREATE STREAM and DROP STREAM calls; a stream
  of an unknown type is refused, and a new stream starts without changes.
\<close>

theorem streams_refine_map:
  "streams (reg_run create_stream drop_stream e ops) =
     spec_run stream_path_key stream_entry stream_valid (streams e) ops"
  by (rule streams_reg.run_refines_spec)

end
