(* ===== verification/Go_Paths.thy ===== *)
theory Go_Paths
  imports Go_Strings
begin

text \<open>
  The parts of Go's \<^verbatim>\<open>path/filepath\<close> package on Unix that the code uses, and the printing of integers.
  \<^verbatim>\<open>Clean\<close> is written as a pass over the elements of the path with the cleaned elements on a stack.
\<close>

subsection \<open>Cleaning paths\<close>

fun clean_elems :: "bool \<Rightarrow> string list \<Rightarrow> string list \<Rightarrow> string list" where
  "clean_elems rooted [] st = rev st"
| "clean_elems rooted (c # cs) st =
     (if c = '''' \<or> c = ''.'' then clean_elems rooted cs st
      else if c = ''..'' then
        (case st of
           [] \<Rightarrow> clean_elems rooted cs (if rooted then [] else [''..''])
         | d # st' \<Rightarrow> if d = ''..'' then clean_elems rooted cs (''..'' # st) else clean_elems rooted cs st')
      else clean_elems rooted cs (c # st))"

definition IsAbs :: "string \<Rightarrow> bool" where
  "IsAbs p = HasPrefix p ''/''"

definition path_elems :: "string \<Rightarrow> string list" where
  "path_elems p = clean_elems (IsAbs p) (Split p (CHR ''/'')) []"

definition Clean :: "string \<Rightarrow> string" where
  "Clean p =
     (if IsAbs p then ''/'' @ Join (path_elems p) ''/''
      else if path_elems p = [] then ''.'' else Join (path_elems p) ''/'')"

text \<open>\<^verbatim>\<open>filepath.Join\<close>: leading empty elements are dropped, the rest is joined and cleaned.\<close>

definition path_Join :: "string list \<Rightarrow> string" where
  "path_Join elems =
     (case dropWhile (\<lambda>e. e = '''') elems of [] \<Rightarrow> '''' | es \<Rightarrow> Clean (Join es ''/''))"

definition path_Base :: "string \<Rightarrow> string" where
  "path_Base p =
     (if p = '''' then ''.''
      else let p' = TrimRight p ''/''
           in if p' = '''' then ''/'' else last (Split p' (CHR ''/'')))"

definition path_Dir :: "string \<Rightarrow> string" where
  "path_Dir p = Clean (rev (dropWhile (\<lambda>c. c \<noteq> CHR ''/'') (rev p)))"

subsection \<open>Printing integers\<close>

function nat_digits :: "nat \<Rightarrow> string" where
  "nat_digits n =
     (if n < 10 then [char_of (48 + n)] else nat_digits (n div 10) @ [char_of (48 + n mod 10)])"
  by pat_completeness auto
termination by (relation "measure id") auto

declare nat_digits.simps [simp del]

definition Itoa :: "int \<Rightarrow> string" where
  "Itoa i = (if i < 0 then ''-'' @ nat_digits (nat (- i)) else nat_digits (nat i))"

lemma digits_val_append: "digits_val acc (s @ t) = (case digits_val acc s of None \<Rightarrow> None | Some a \<Rightarrow> digits_val a t)"
  by (induction s arbitrary: acc) auto

lemma char_digit:
  assumes "n < 10"
  shows "is_digit (char_of (48 + n))" "digit_val (char_of (48 + n)) = int n"
proof -
  have "(of_char (char_of (48 + n) :: char) :: nat) = 48 + n" using assms by simp
  with assms show "is_digit (char_of (48 + n))" by (simp add: is_digit_def)
  note \<open>(of_char (char_of (48 + n) :: char) :: nat) = 48 + n\<close>
  then have "(of_char (char_of (48 + n) :: char) :: int) = 48 + int n"
    by (metis of_nat_add of_nat_numeral of_nat_of_char)
  then show "digit_val (char_of (48 + n)) = int n" by (simp add: digit_val_def)
qed

lemma digits_val_nat_digits: "digits_val 0 (nat_digits n) = Some (int n)"
proof (induction n rule: nat_digits.induct)
  case (1 n)
  show ?case
  proof (cases "n < 10")
    case True
    then show ?thesis by (simp add: nat_digits.simps [of n] char_digit)
  next
    case False
    have "10 * int (n div 10) + int (n mod 10) = int n"
      by (metis mult_div_mod_eq of_nat_add of_nat_mult of_nat_numeral)
    with 1 False show ?thesis
      by (simp add: nat_digits.simps [of n] digits_val_append char_digit)
  qed
qed

lemma nat_digits_nonempty: "nat_digits n \<noteq> []"
  by (subst nat_digits.simps) simp

lemma nat_digits_all: "c \<in> set (nat_digits n) \<Longrightarrow> is_digit c"
proof (induction n rule: nat_digits.induct)
  case (1 n)
  then show ?case
    by (cases "n < 10") (auto simp: nat_digits.simps [of n] char_digit)
qed

lemma nat_digits_inj: "nat_digits a = nat_digits b \<Longrightarrow> a = b"
  by (metis digits_val_nat_digits of_nat_eq_iff option.inject)

text \<open>Reading back a printed integer of 64 bits.\<close>

lemma Atoi_Itoa:
  assumes "min_int64 \<le> i" "i \<le> max_int64"
  shows "Atoi (Itoa i) = Some i"
proof (cases "i < 0")
  case True
  then show ?thesis
    using assms by (simp add: Atoi_def Itoa_def Let_def nat_digits_nonempty digits_val_nat_digits)
next
  case False
  obtain c cs where ds: "nat_digits (nat i) = c # cs" using nat_digits_nonempty by (metis neq_Nil_conv)
  then have "is_digit c" using nat_digits_all [of c "nat i"] by simp
  then have "c \<noteq> CHR ''-''" "c \<noteq> CHR ''+''" by (auto simp: is_digit_def)
  with ds digits_val_nat_digits [of "nat i"] False assms show ?thesis
    by (simp add: Atoi_def Itoa_def Let_def HasPrefix_def)
qed

end
