(* ===== verification/Timetravel.thy ===== *)
theory Timetravel
  imports Registry Go_Paths
begin

text \<open>
  \<^verbatim>\<open>internal/timetravel/timetravel.go\<close>: snapshots of tables and the choice of one for a point in time.
  The file system and the query engine are a world \<open>'w\<close> with the operations the code calls as
  arguments, collected in \<open>tt_os\<close>; each may fail. \<^verbatim>\<open>time.Now()\<close> is the argument \<open>now\<close>.
\<close>

record Snapshot =
  sn_ID :: int
  sn_TableName :: string
  sn_Timestamp :: time
  sn_DataFile :: string

record tt_Engine =
  snapshots :: "string \<rightharpoonup> Snapshot list"
  dataDir :: string
  maxAge :: duration
  nextID :: int

record 'w tt_os =
  MkdirAll :: "string \<Rightarrow> 'w \<Rightarrow> 'w \<times> go_error option"
  RemoveAll :: "string \<Rightarrow> 'w \<Rightarrow> 'w \<times> go_error option"
  os_Remove :: "string \<Rightarrow> 'w \<Rightarrow> 'w"
  Querier_Execute :: "string \<Rightarrow> 'w \<Rightarrow> 'w \<times> go_error option"

definition tt_NewEngine :: "string \<Rightarrow> duration \<Rightarrow> tt_Engine" where
  "tt_NewEngine dir age =
     \<lparr>snapshots = Map.empty, dataDir = dir, maxAge = (if age \<le> 0 then 24 * hour else age), nextID = 1\<rparr>"

text \<open>Resetting clears the metadata first; an error of the file system is reported after that.\<close>

definition tt_Reset :: "'w tt_os \<Rightarrow> tt_Engine \<Rightarrow> 'w \<Rightarrow> tt_Engine \<times> 'w \<times> go_error option" where
  "tt_Reset os e w =
     (let e = e\<lparr>snapshots := Map.empty, nextID := 1\<rparr>
      in if dataDir e = '''' then (e, w, None)
         else
           case RemoveAll os (dataDir e) w of
             (w, Some err) \<Rightarrow> (e, w, Some (Wrap ''reset remove'' err))
           | (w, None) \<Rightarrow>
               (case MkdirAll os (dataDir e) w of
                  (w, Some err) \<Rightarrow> (e, w, Some (Wrap ''reset mkdir'' err))
                | (w, None) \<Rightarrow> (e, w, None)))"

definition fqTableName :: "string \<Rightarrow> string \<Rightarrow> string \<Rightarrow> string" where
  "fqTableName db schema table = ToLower (dotted db schema table)"

definition snapshotDir :: "tt_Engine \<Rightarrow> string \<Rightarrow> string \<Rightarrow> string \<Rightarrow> string" where
  "snapshotDir e db schema table = path_Join [dataDir e, ''snapshots'', db, schema, table]"

definition snapshot_file :: "tt_Engine \<Rightarrow> time \<Rightarrow> string \<Rightarrow> string \<Rightarrow> string \<Rightarrow> string" where
  "snapshot_file e now db schema table =
     path_Join [snapshotDir e db schema table, Itoa now @ ''.parquet'']"

text \<open>Reading a missing key of the map gives the nil slice.\<close>

definition snaps_of :: "tt_Engine \<Rightarrow> string \<Rightarrow> Snapshot list" where
  "snaps_of e fqn = (case snapshots e fqn of None \<Rightarrow> [] | Some ss \<Rightarrow> ss)"

text \<open>
  \<^verbatim>\<open>CaptureSnapshot\<close> reads the clock and exports the table without holding the lock, and takes it to
  file the snapshot. The two parts are \<open>export_snapshot\<close>, which gives the file, and \<open>store_snapshot\<close>; other calls may
  come between them.
\<close>

definition export_snapshot ::
  "'w tt_os \<Rightarrow> tt_Engine \<Rightarrow> time \<Rightarrow> string \<Rightarrow> string \<Rightarrow> string \<Rightarrow> 'w \<Rightarrow> 'w \<times> string result"
where
  "export_snapshot os e now db schema table w =
     (let dir = snapshotDir e db schema table
      in case MkdirAll os dir w of
           (w, Some err) \<Rightarrow> (w, Err (Wrap ''create snapshot dir'' err))
         | (w, None) \<Rightarrow>
             (let filePath = snapshot_file e now db schema table;
                  query = ''COPY \"'' @ table @ ''\" TO '' @ [CHR 0x27] @ filePath @ [CHR 0x27] @ '' (FORMAT PARQUET)''
              in case Querier_Execute os query w of
                   (w, Some err) \<Rightarrow> (w, Err (Wrap ''export snapshot'' err))
                 | (w, None) \<Rightarrow> (w, Ok filePath)))"

definition store_snapshot :: "tt_Engine \<Rightarrow> time \<Rightarrow> string \<Rightarrow> string \<Rightarrow> tt_Engine" where
  "store_snapshot e now fqn filePath =
     (let snap = \<lparr>sn_ID = nextID e, sn_TableName = fqn, sn_Timestamp = now, sn_DataFile = filePath\<rparr>
      in e\<lparr>nextID := nextID e + 1, snapshots := (snapshots e)(fqn \<mapsto> snaps_of e fqn @ [snap])\<rparr>)"

definition CaptureSnapshot ::
  "'w tt_os \<Rightarrow> tt_Engine \<Rightarrow> time \<Rightarrow> string \<Rightarrow> string \<Rightarrow> string \<Rightarrow> 'w \<Rightarrow> 'w \<times> tt_Engine result"
where
  "CaptureSnapshot os e now db schema table w =
     (case export_snapshot os e now db schema table w of
        (w, Inl err) \<Rightarrow> (w, Err err)
      | (w, Inr filePath) \<Rightarrow> (w, Ok (store_snapshot e now (fqTableName db schema table) filePath)))"

definition QueryAtTimestamp :: "tt_Engine \<Rightarrow> string \<Rightarrow> string \<Rightarrow> string \<Rightarrow> time \<Rightarrow> string result" where
  "QueryAtTimestamp e db schema table ts =
     (let fqn = fqTableName db schema table;
          snaps = snaps_of e fqn
      in if snaps = [] then Err (DoesNotExist ''snapshots'' fqn)
         else
           case find_last (\<lambda>s. \<not> sn_Timestamp s > ts) snaps of
             None \<Rightarrow> Err (DoesNotExist ''snapshot at or before'' fqn)
           | Some best \<Rightarrow> Ok (sn_DataFile best))"

definition QueryAtOffset :: "tt_Engine \<Rightarrow> time \<Rightarrow> string \<Rightarrow> string \<Rightarrow> string \<Rightarrow> int \<Rightarrow> string result" where
  "QueryAtOffset e now db schema table seconds =
     QueryAtTimestamp e db schema table (now + wrap64 (wrap64 (- seconds) * second))"

definition Undrop :: "tt_Engine \<Rightarrow> string \<Rightarrow> string \<Rightarrow> string \<Rightarrow> string result" where
  "Undrop e db schema table =
     (let fqn = fqTableName db schema table;
          snaps = snaps_of e fqn
      in if snaps = [] then Err (DoesNotExist ''snapshots'' fqn)
         else Ok (sn_DataFile (last snaps)))"

text \<open>The loop body of \<^verbatim>\<open>Cleanup\<close> for one table: expired files are removed one by one.\<close>

definition cleanup_table :: "'w tt_os \<Rightarrow> time \<Rightarrow> tt_Engine \<times> 'w \<Rightarrow> string \<Rightarrow> tt_Engine \<times> 'w" where
  "cleanup_table os cutoff st fqn =
     (case st of (e, w) \<Rightarrow>
        let snaps = snaps_of e fqn;
            kept = filter (\<lambda>s. \<not> sn_Timestamp s < cutoff) snaps;
            w = foldl (\<lambda>w s. os_Remove os (sn_DataFile s) w) w (filter (\<lambda>s. sn_Timestamp s < cutoff) snaps)
        in (e\<lparr>snapshots := (if kept = [] then (snapshots e)(fqn := None) else (snapshots e)(fqn \<mapsto> kept))\<rparr>, w))"

definition Cleanup :: "'w tt_os \<Rightarrow> tt_Engine \<Rightarrow> string list \<Rightarrow> time \<Rightarrow> 'w \<Rightarrow> tt_Engine \<times> 'w" where
  "Cleanup os e ks now w = foldl (cleanup_table os (now - maxAge e)) (e, w) ks"

text \<open>\<^verbatim>\<open>sort.Slice\<close> leaves the order of equal elements open; the order it picks is the argument.\<close>

definition ListSnapshots :: "(Snapshot list \<Rightarrow> Snapshot list) \<Rightarrow> tt_Engine \<Rightarrow> string \<Rightarrow> string \<Rightarrow> string \<Rightarrow> Snapshot list" where
  "ListSnapshots sort_by_time e db schema table = sort_by_time (snaps_of e (fqTableName db schema table))"

subsection \<open>Invariant\<close>

text \<open>
  The snapshots of a table are in the order in which they were filed: their ids grow. Where captures of the table
  never overlapped (\<open>alone\<close>) their times do not fall, the clock not going backwards.
\<close>

definition snaps_ok :: "bool \<Rightarrow> int \<Rightarrow> string \<Rightarrow> Snapshot list \<Rightarrow> bool" where
  "snaps_ok alone next_id k ss \<longleftrightarrow>
     sorted_wrt (\<lambda>s s'. sn_ID s < sn_ID s' \<and> (alone \<longrightarrow> sn_Timestamp s \<le> sn_Timestamp s')) ss \<and>
     (\<forall>s \<in> set ss. sn_TableName s = k \<and> 0 < sn_ID s \<and> sn_ID s < next_id)"

text \<open>
  The engine with the captures that are under way, each between its export and its filing: the key of the table, the
  time it read from the clock, and its file.
\<close>

record tt_run =
  tr_engine :: tt_Engine
  tr_clock :: time
  tr_captures :: "(string \<times> time \<times> string) list"

text \<open>
  Any number of callers at once, in any order of their critical sections. \<open>V\<close> are the tables whose captures may
  overlap; a capture of another table begins when no other capture of it is under way.
\<close>

inductive tt_step :: "'w tt_os \<Rightarrow> string set \<Rightarrow> tt_run \<Rightarrow> tt_run \<Rightarrow> bool" for os :: "'w tt_os" and V :: "string set" where
  export: "tr_clock r \<le> now \<Longrightarrow> fqTableName db schema table \<in> V \<or> fqTableName db schema table \<notin> fst ` set (tr_captures r) \<Longrightarrow>
    export_snapshot os (tr_engine r) now db schema table w = (w', Inr filePath) \<Longrightarrow>
    tt_step os V r (r\<lparr>tr_clock := now, tr_captures := tr_captures r @ [(fqTableName db schema table, now, filePath)]\<rparr>)"
| store: "tr_captures r = us @ (fqn, at, filePath) # vs \<Longrightarrow>
    tt_step os V r (r\<lparr>tr_engine := store_snapshot (tr_engine r) at fqn filePath, tr_captures := us @ vs\<rparr>)"
| cleanup: "range_order (snapshots (tr_engine r)) ks \<Longrightarrow> Cleanup os (tr_engine r) ks now w = (e', w') \<Longrightarrow>
    tt_step os V r (r\<lparr>tr_engine := e'\<rparr>)"
| reset: "tt_Reset os (tr_engine r) w = (e', w', err) \<Longrightarrow> tt_step os V r (r\<lparr>tr_engine := e'\<rparr>)"

inductive tt_reachable :: "'w tt_os \<Rightarrow> string set \<Rightarrow> tt_run \<Rightarrow> bool" for os :: "'w tt_os" and V :: "string set" where
  start: "tt_reachable os V \<lparr>tr_engine = tt_NewEngine dir age, tr_clock = clock, tr_captures = []\<rparr>"
| step: "tt_reachable os V r \<Longrightarrow> tt_step os V r r' \<Longrightarrow> tt_reachable os V r'"

text \<open>
  Times are not ahead of the clock. A table outside \<open>V\<close> has at most one capture under way, which read the clock not before
  any of its filed snapshots.
\<close>

definition table_ok :: "time \<Rightarrow> (string \<times> time \<times> string) list \<Rightarrow> string \<Rightarrow> Snapshot list \<Rightarrow> bool" where
  "table_ok clock cs k ss \<longleftrightarrow> length (filter (\<lambda>c. fst c = k) cs) \<le> 1 \<and>
     (\<forall>s \<in> set ss. sn_Timestamp s \<le> clock \<and> (\<forall>c \<in> set cs. fst c = k \<longrightarrow> sn_Timestamp s \<le> fst (snd c)))"

definition captures_ok :: "string set \<Rightarrow> tt_run \<Rightarrow> bool" where
  "captures_ok V r \<longleftrightarrow> (\<forall>c \<in> set (tr_captures r). fst (snd c) \<le> tr_clock r) \<and>
     (\<forall>k. k \<notin> V \<longrightarrow> table_ok (tr_clock r) (tr_captures r) k (snaps_of (tr_engine r) k))"

definition tt_inv :: "string set \<Rightarrow> tt_run \<Rightarrow> bool" where
  "tt_inv V r \<longleftrightarrow> 0 < nextID (tr_engine r) \<and> captures_ok V r \<and>
     (\<forall>k. snapshots (tr_engine r) k \<noteq> Some [] \<and> snaps_ok (k \<notin> V) (nextID (tr_engine r)) k (snaps_of (tr_engine r) k))"

lemma CaptureSnapshot_ok:
  assumes "CaptureSnapshot os e now db schema table w = (w', Inr e')"
  shows "e' = e\<lparr>nextID := nextID e + 1, snapshots := (snapshots e)(fqTableName db schema table \<mapsto>
      snaps_of e (fqTableName db schema table) @
      [\<lparr>sn_ID = nextID e, sn_TableName = fqTableName db schema table, sn_Timestamp = now,
        sn_DataFile = snapshot_file e now db schema table\<rparr>])\<rparr>"
  using assms by (auto simp: CaptureSnapshot_def export_snapshot_def store_snapshot_def Let_def
      split: prod.splits option.splits sum.splits)

text \<open>The snapshots a cleanup keeps and the files it removes.\<close>

definition kept_snaps :: "time \<Rightarrow> Snapshot list \<Rightarrow> Snapshot list" where
  "kept_snaps cutoff ss = filter (\<lambda>s. cutoff \<le> sn_Timestamp s) ss"

definition expired_files :: "time \<Rightarrow> tt_Engine \<Rightarrow> string \<Rightarrow> string list" where
  "expired_files cutoff e k = map sn_DataFile (filter (\<lambda>s. sn_Timestamp s < cutoff) (snaps_of e k))"

lemma cleanup_table_eq:
  "cleanup_table os cutoff (e, w) k =
     (e\<lparr>snapshots := (snapshots e)(k := (if kept_snaps cutoff (snaps_of e k) = [] then None
         else Some (kept_snaps cutoff (snaps_of e k))))\<rparr>,
      fold (os_Remove os) (expired_files cutoff e k) w)"
  by (simp add: cleanup_table_def Let_def kept_snaps_def expired_files_def foldl_conv_fold fold_map
      not_less o_def)

lemma cleanup_fold:
  assumes "distinct ks"
  shows "foldl (cleanup_table os cutoff) (e, w) ks =
     (e\<lparr>snapshots := (\<lambda>k. if k \<in> set ks then
          (if kept_snaps cutoff (snaps_of e k) = [] then None else Some (kept_snaps cutoff (snaps_of e k)))
        else snapshots e k)\<rparr>,
      fold (os_Remove os) (concat (map (expired_files cutoff e) ks)) w)"
  using assms
proof (induction ks rule: rev_induct)
  case (snoc k ks)
  let ?e = "e\<lparr>snapshots := (\<lambda>k. if k \<in> set ks then
      (if kept_snaps cutoff (snaps_of e k) = [] then None else Some (kept_snaps cutoff (snaps_of e k)))
    else snapshots e k)\<rparr>"
  have "snaps_of ?e k = snaps_of e k" using snoc.prems by (simp add: snaps_of_def)
  then show ?case
    using snoc by (simp add: cleanup_table_eq expired_files_def fun_eq_iff)
qed simp

lemma Cleanup_eq:
  assumes "range_order (snapshots e) ks"
  shows "Cleanup os e ks now w =
     (e\<lparr>snapshots := (\<lambda>k. if kept_snaps (now - maxAge e) (snaps_of e k) = [] then None
          else Some (kept_snaps (now - maxAge e) (snaps_of e k)))\<rparr>,
      fold (os_Remove os) (concat (map (expired_files (now - maxAge e) e) ks)) w)"
proof -
  have "snaps_of e k = []" "snapshots e k = None" if "k \<notin> set ks" for k
    using that assms by (auto simp: range_order_def snaps_of_def domIff split: option.split)
  then show ?thesis
    unfolding Cleanup_def cleanup_fold [OF range_order_distinct [OF assms]]
    by (auto simp: fun_eq_iff kept_snaps_def)
qed

lemma snaps_ok_Nil [simp]: "snaps_ok a n k []"
  by (simp add: snaps_ok_def)

lemma snaps_ok_filter: "snaps_ok a n k ss \<Longrightarrow> snaps_ok a n k (kept_snaps cutoff ss)"
  by (simp add: snaps_ok_def kept_snaps_def sorted_wrt_filter)

lemma snaps_ok_append:
  assumes "snaps_ok a n k ss" "0 < n" "a \<longrightarrow> (\<forall>s \<in> set ss. sn_Timestamp s \<le> at)"
  shows "snaps_ok a (n + 1) k (ss @ [\<lparr>sn_ID = n, sn_TableName = k, sn_Timestamp = at, sn_DataFile = f\<rparr>])"
  using assms by (fastforce simp: snaps_ok_def sorted_wrt_append)

lemma snaps_ok_next: "snaps_ok a n k ss \<Longrightarrow> snaps_ok a (n + 1) k ss"
  by (fastforce simp: snaps_ok_def)

lemma snaps_of_store:
  "snaps_of (store_snapshot e at fqn f) k = (if k = fqn then
     snaps_of e fqn @ [\<lparr>sn_ID = nextID e, sn_TableName = fqn, sn_Timestamp = at, sn_DataFile = f\<rparr>] else snaps_of e k)"
  by (simp add: store_snapshot_def snaps_of_def [of "_\<lparr>snapshots := _\<rparr>"] Let_def) (simp add: snaps_of_def)

lemma table_ok_subset: "table_ok clock cs k ss \<Longrightarrow> set ss' \<subseteq> set ss \<Longrightarrow> table_ok clock cs k ss'"
  by (auto simp: table_ok_def)

lemma table_ok_kept: "table_ok clock cs k ss \<Longrightarrow> table_ok clock cs k (kept_snaps cutoff ss)"
  by (rule table_ok_subset) (auto simp: kept_snaps_def)

lemma table_ok_export:
  assumes "table_ok clock cs k ss" "clock \<le> now" "fqn = k \<Longrightarrow> k \<notin> fst ` set cs"
  shows "table_ok now (cs @ [(fqn, now, f)]) k ss"
proof -
  have "filter (\<lambda>c. fst c = k) cs = []" if "fqn = k" using assms(3) [OF that] by (auto simp: filter_empty_conv)
  with assms(1,2) show ?thesis by (fastforce simp: table_ok_def)
qed

lemma table_ok_store:
  assumes "table_ok clock (us @ (fqn, at, f) # vs) k ss" "at \<le> clock" "set ss' \<subseteq> set ss \<or> k = fqn \<and> ss' = ss @ [s]"
    and "sn_Timestamp s = at"
  shows "table_ok clock (us @ vs) k ss'"
proof (cases "k = fqn")
  case True
  with assms(1) have none: "filter (\<lambda>c. fst c = k) us = []" "filter (\<lambda>c. fst c = k) vs = []" by (simp_all add: table_ok_def)
  then have "fst c \<noteq> k" if "c \<in> set us \<union> set vs" for c using that by (auto simp: filter_empty_conv)
  with none assms show ?thesis by (auto simp: table_ok_def)
next
  case False
  with assms(1,3) show ?thesis by (auto simp: table_ok_def)
qed

lemma tt_inv_store:
  assumes "tt_inv V r" "tr_captures r = us @ (fqn, at, f) # vs"
  shows "tt_inv V (r\<lparr>tr_engine := store_snapshot (tr_engine r) at fqn f, tr_captures := us @ vs\<rparr>)"
proof -
  let ?e = "tr_engine r" and ?s = "\<lparr>sn_ID = nextID (tr_engine r), sn_TableName = fqn, sn_Timestamp = at, sn_DataFile = f\<rparr>"
  from assms have old: "snaps_ok (k \<notin> V) (nextID ?e) k (snaps_of ?e k)" "0 < nextID ?e" "at \<le> tr_clock r"
    "\<forall>c \<in> set (us @ vs). fst (snd c) \<le> tr_clock r"
    "k \<notin> V \<Longrightarrow> table_ok (tr_clock r) (us @ (fqn, at, f) # vs) k (snaps_of ?e k)" for k
    by (simp_all add: tt_inv_def captures_ok_def)
  have before: "fqn \<notin> V \<longrightarrow> (\<forall>s \<in> set (snaps_of ?e fqn). sn_Timestamp s \<le> at)" using old(5) [of fqn] by (simp add: table_ok_def)
  have "snaps_ok (k \<notin> V) (nextID ?e + 1) k (snaps_of (store_snapshot ?e at fqn f) k)" for k
    using snaps_ok_append [OF old(1) [of fqn] old(2) before] snaps_ok_next [OF old(1) [of k]] by (simp add: snaps_of_store)
  moreover have "table_ok (tr_clock r) (us @ vs) k (snaps_of (store_snapshot ?e at fqn f) k)" if "k \<notin> V" for k
    by (rule table_ok_store [OF old(5) [OF that] old(3), where s = ?s]) (simp_all add: snaps_of_store)
  moreover have "snapshots (store_snapshot ?e at fqn f) k \<noteq> Some []" for k
    using assms(1) by (simp add: store_snapshot_def tt_inv_def Let_def)
  moreover have "nextID (store_snapshot ?e at fqn f) = nextID ?e + 1" by (simp add: store_snapshot_def Let_def)
  ultimately show ?thesis using old(2,4) by (simp add: tt_inv_def captures_ok_def)
qed

lemma tt_inv_export:
  assumes "tt_inv V r" "tr_clock r \<le> now" "fqn \<in> V \<or> fqn \<notin> fst ` set (tr_captures r)"
  shows "tt_inv V (r\<lparr>tr_clock := now, tr_captures := tr_captures r @ [(fqn, now, f)]\<rparr>)"
proof -
  from assms(1) have old: "captures_ok V r" by (simp add: tt_inv_def)
  have "table_ok now (tr_captures r @ [(fqn, now, f)]) k (snaps_of (tr_engine r) k)" if "k \<notin> V" for k
    by (rule table_ok_export) (use old assms(2,3) that in \<open>auto simp: captures_ok_def\<close>)
  moreover have "\<forall>c \<in> set (tr_captures r). fst (snd c) \<le> now" using old assms(2) by (force simp: captures_ok_def)
  ultimately show ?thesis using assms(1) by (simp add: tt_inv_def captures_ok_def)
qed

lemma tt_inv_cleanup:
  assumes "tt_inv V r" "range_order (snapshots (tr_engine r)) ks" "Cleanup os (tr_engine r) ks now w = (e', w')"
  shows "tt_inv V (r\<lparr>tr_engine := e'\<rparr>)"
proof -
  let ?kept = "\<lambda>k. kept_snaps (now - maxAge (tr_engine r)) (snaps_of (tr_engine r) k)"
  have e': "nextID e' = nextID (tr_engine r)" "snapshots e' = (\<lambda>k. if ?kept k = [] then None else Some (?kept k))"
    using assms(3) unfolding Cleanup_eq [OF assms(2)] by auto
  have "snaps_of e' k = ?kept k" for k by (simp add: snaps_of_def [of e'] e')
  moreover have "captures_ok V (r\<lparr>tr_engine := e'\<rparr>)"
    using assms(1) calculation by (simp add: tt_inv_def captures_ok_def table_ok_kept)
  ultimately show ?thesis using assms(1) by (simp add: tt_inv_def e' snaps_ok_filter)
qed

lemma tt_inv_reset:
  assumes "tt_inv V r" "tt_Reset os (tr_engine r) w = (e', w', err)"
  shows "tt_inv V (r\<lparr>tr_engine := e'\<rparr>)"
proof -
  have "snapshots e' = Map.empty" "nextID e' = 1"
    using assms(2) by (auto simp: tt_Reset_def Let_def split: if_splits prod.splits option.splits)
  with assms(1) show ?thesis by (auto simp: tt_inv_def snaps_of_def captures_ok_def table_ok_def)
qed

lemma tt_inv_step: "tt_step os V r r' \<Longrightarrow> tt_inv V r \<Longrightarrow> tt_inv V r'"
  by (induction rule: tt_step.induct) (blast intro: tt_inv_export tt_inv_store tt_inv_cleanup tt_inv_reset)+

lemma tt_reachable_inv: "tt_reachable os V r \<Longrightarrow> tt_inv V r"
proof (induction rule: tt_reachable.induct)
  case (start dir age clock)
  show ?case by (simp add: tt_NewEngine_def tt_inv_def snaps_of_def captures_ok_def table_ok_def)
qed (rule tt_inv_step)

lemma last_at_latest:
  assumes "snaps_ok a n k ss" "find_last (\<lambda>s. \<not> ts < sn_Timestamp s) ss = Some best"
  shows "best \<in> set ss \<and> sn_Timestamp best \<le> ts \<and>
    (\<forall>s \<in> set ss. sn_Timestamp s \<le> ts \<longrightarrow> sn_ID s \<le> sn_ID best \<and> (a \<longrightarrow> sn_Timestamp s \<le> sn_Timestamp best))"
proof -
  from find_last_SomeD [OF assms(2)] obtain ys zs where "ss = ys @ best # zs" "sn_Timestamp best \<le> ts"
    "\<forall>z \<in> set zs. ts < sn_Timestamp z" by auto
  with assms(1) show ?thesis by (fastforce simp: snaps_ok_def sorted_wrt_append)
qed

subsection \<open>Properties\<close>

text \<open>
  C6. A time-travel query reads the right snapshot. However captures, cleanups and resets of several callers are
  interleaved, it returns the file of a snapshot of the table taken at or before the requested time, the one filed last
  of these, and it fails exactly when there is none. When captures of the table did not overlap, this is the latest snapshot
  taken at or before that time.
\<close>

theorem QueryAtTimestamp_latest:
  assumes "tt_reachable os V r"
  shows "case QueryAtTimestamp (tr_engine r) db schema table ts of
      Inr file \<Rightarrow> \<exists>best \<in> set (snaps_of (tr_engine r) (fqTableName db schema table)).
        sn_DataFile best = file \<and> sn_Timestamp best \<le> ts \<and>
        (\<forall>s \<in> set (snaps_of (tr_engine r) (fqTableName db schema table)). sn_Timestamp s \<le> ts \<longrightarrow> sn_ID s \<le> sn_ID best \<and>
           (fqTableName db schema table \<notin> V \<longrightarrow> sn_Timestamp s \<le> sn_Timestamp best))
    | Inl _ \<Rightarrow> \<forall>s \<in> set (snaps_of (tr_engine r) (fqTableName db schema table)). ts < sn_Timestamp s"
proof -
  let ?k = "fqTableName db schema table"
  let ?ss = "snaps_of (tr_engine r) ?k"
  have ok: "snaps_ok (?k \<notin> V) (nextID (tr_engine r)) ?k ?ss"
    using tt_reachable_inv [OF assms] by (simp add: tt_inv_def)
  show ?thesis
  proof (cases "find_last (\<lambda>s. \<not> ts < sn_Timestamp s) ?ss")
    case None
    moreover from this have "\<forall>s \<in> set ?ss. ts < sn_Timestamp s" by (simp add: find_last_None)
    ultimately show ?thesis by (simp add: QueryAtTimestamp_def Let_def)
  next
    case (Some best)
    then have "?ss \<noteq> []" by (auto simp: find_last_def)
    with Some last_at_latest [OF ok Some] show ?thesis by (auto simp: QueryAtTimestamp_def Let_def)
  qed
qed

text \<open>A world of existing files, and an engine with one snapshot.\<close>

definition sample_os :: "string list tt_os" where
  "sample_os = \<lparr>MkdirAll = (\<lambda>d w. (w, None)), RemoveAll = (\<lambda>d w. ([], None)),
     os_Remove = (\<lambda>f w. filter (\<lambda>g. g \<noteq> f) w), Querier_Execute = (\<lambda>q w. (w, None))\<rparr>"

definition sample_tt :: tt_Engine where
  "sample_tt = (tt_NewEngine ''/data'' 0)\<lparr>nextID := 2, snapshots := [''d.s.t'' \<mapsto>
     [\<lparr>sn_ID = 1, sn_TableName = ''d.s.t'', sn_Timestamp = 100,
       sn_DataFile = snapshot_file (tt_NewEngine ''/data'' 0) 100 ''D'' ''S'' ''T''\<rparr>]]\<rparr>"

lemma sample_capture_tt:
  "CaptureSnapshot sample_os (tt_NewEngine ''/data'' 0) 100 ''D'' ''S'' ''T'' [] = ([], Inr sample_tt)"
proof -
  have "fqTableName ''D'' ''S'' ''T'' = ''d.s.t''" by code_simp
  then show ?thesis
    by (simp add: CaptureSnapshot_def export_snapshot_def store_snapshot_def sample_os_def sample_tt_def tt_NewEngine_def
        snaps_of_def Let_def)
qed

lemma sample_export:
  "export_snapshot sample_os e now ''D'' ''S'' ''T'' w = (w, Ok (snapshot_file e now ''D'' ''S'' ''T''))"
  by (simp add: export_snapshot_def sample_os_def Let_def)

lemma sample_fqn: "fqTableName ''D'' ''S'' ''T'' = ''d.s.t''"
  by code_simp

definition sample_run :: tt_run where
  "sample_run = \<lparr>tr_engine = sample_tt, tr_clock = 100, tr_captures = []\<rparr>"

lemma sample_run_reachable: "tt_reachable sample_os {} sample_run"
proof -
  let ?e = "tt_NewEngine ''/data'' 0"
  let ?r0 = "\<lparr>tr_engine = ?e, tr_clock = 0, tr_captures = []\<rparr>"
  let ?f = "snapshot_file ?e 100 ''D'' ''S'' ''T''"
  have run: "export_snapshot sample_os (tr_engine ?r0) 100 ''D'' ''S'' ''T'' [] = ([], Inr ?f)" by (simp add: sample_export)
  have "tt_step sample_os {} ?r0 (?r0\<lparr>tr_clock := 100, tr_captures := tr_captures ?r0 @ [(fqTableName ''D'' ''S'' ''T'', 100, ?f)]\<rparr>)"
    by (rule tt_step.export [OF _ _ run]) simp_all
  then have one: "tt_reachable sample_os {} \<lparr>tr_engine = ?e, tr_clock = 100, tr_captures = [(''d.s.t'', 100, ?f)]\<rparr>"
    using tt_reachable.step [OF tt_reachable.start] by (simp add: sample_fqn)
  moreover have "sample_run = \<lparr>tr_engine = ?e, tr_clock = 100, tr_captures = [(''d.s.t'', 100, ?f)]\<rparr>
      \<lparr>tr_engine := store_snapshot ?e 100 ''d.s.t'' ?f, tr_captures := [] @ []\<rparr>"
    by (simp add: sample_run_def sample_tt_def store_snapshot_def tt_NewEngine_def snaps_of_def)
  ultimately show ?thesis
    using tt_step.store [of "\<lparr>tr_engine = ?e, tr_clock = 100, tr_captures = [(''d.s.t'', 100, ?f)]\<rparr>" "[]" _ _ _ "[]" sample_os "{}"]
    by (auto intro: tt_reachable.step)
qed

theorem QueryAtTimestamp_latest_witness:
  "QueryAtTimestamp (tr_engine sample_run) ''d'' ''s'' ''t'' 150 = Inr ''/data/snapshots/D/S/T/100.parquet'' \<and>
   (\<exists>best \<in> set (snaps_of (tr_engine sample_run) (fqTableName ''d'' ''s'' ''t'')).
      sn_DataFile best = ''/data/snapshots/D/S/T/100.parquet'' \<and> sn_Timestamp best \<le> 150)"
proof -
  have run: "QueryAtTimestamp (tr_engine sample_run) ''d'' ''s'' ''t'' 150 = Inr ''/data/snapshots/D/S/T/100.parquet''"
    by code_simp
  with QueryAtTimestamp_latest [OF sample_run_reachable, of "''d''" "''s''" "''t''" 150] show ?thesis by auto
qed

text \<open>
  Overlapping captures can be filed in the wrong order: the capture that read the clock at 100 is filed after the
  one of 200, and a query at 300 reads the file of 100.
\<close>

definition crossed_captures :: tt_Engine where
  "crossed_captures = store_snapshot (store_snapshot (tt_NewEngine ''/data'' 0) 200 ''d.s.t'' ''200.parquet'') 100 ''d.s.t'' ''100.parquet''"

lemma crossed_captures_misread: "QueryAtTimestamp crossed_captures ''D'' ''S'' ''T'' 300 = Inr ''100.parquet''"
  by code_simp

text \<open>
  A snapshot that was just taken is the one UNDROP restores and the one a query at the current
  time reads; the snapshots of other tables are untouched.
\<close>

theorem capture_then_undrop:
  assumes "CaptureSnapshot os e now db schema table w = (w', Inr e')"
  shows "Undrop e' db schema table = Inr (snapshot_file e now db schema table) \<and>
    QueryAtTimestamp e' db schema table now = Inr (snapshot_file e now db schema table) \<and>
    (\<forall>k. k \<noteq> fqTableName db schema table \<longrightarrow> snaps_of e' k = snaps_of e k)"
  using CaptureSnapshot_ok [OF assms]
  by (simp add: Undrop_def QueryAtTimestamp_def snaps_of_def find_last_def)

theorem capture_then_undrop_witness:
  "Undrop sample_tt ''D'' ''S'' ''T'' = Inr (snapshot_file (tt_NewEngine ''/data'' 0) 100 ''D'' ''S'' ''T'')"
  using capture_then_undrop [OF sample_capture_tt] by simp

text \<open>
  A cleanup removes exactly the snapshots older than the retention period, in every order in
  which the tables are visited: the others stay, in order, and the files removed are those of the
  expired snapshots, each once.
\<close>

theorem Cleanup_exact:
  assumes "range_order (snapshots e) ks"
  shows "(\<forall>k. snaps_of (fst (Cleanup os e ks now w)) k =
            filter (\<lambda>s. now - maxAge e \<le> sn_Timestamp s) (snaps_of e k)) \<and>
    snd (Cleanup os e ks now w) = fold (os_Remove os) (concat (map (expired_files (now - maxAge e) e) ks)) w"
  unfolding Cleanup_eq [OF assms] by (simp add: snaps_of_def [of "_\<lparr>snapshots := _\<rparr>"] kept_snaps_def)

theorem Cleanup_exact_witness:
  "snaps_of (fst (Cleanup sample_os sample_tt [''d.s.t''] (100 + 25 * hour) [])) ''d.s.t'' = []"
proof -
  have "range_order (snapshots sample_tt) [''d.s.t'']"
    by (simp add: range_order_def sample_tt_def tt_NewEngine_def)
  from Cleanup_exact [OF this, of sample_os "100 + 25 * hour" "[]"] show ?thesis
    by (simp add: sample_tt_def tt_NewEngine_def snaps_of_def duration_defs)
qed

end
