(* ===== verification/Snowpipe.thy ===== *)
theory Snowpipe
  imports Registry
begin

text \<open>
  \<^verbatim>\<open>internal/snowpipe/snowpipe.go\<close>: pipes, the loading of files through their COPY statement and the
  load history. The engine's \<^verbatim>\<open>execFn\<close> is the argument \<open>exec\<close>, a step of the world that may return an
  error message; \<open>clock\<close> gives the successive readings of \<^verbatim>\<open>time.Now()\<close> while files are loaded.
\<close>

datatype PipeState = PipeRunning | PipePaused | PipeStopped

record Pipe =
  p_Name :: string
  p_Database :: string
  p_Schema :: string
  p_CopyStmt :: string
  p_AutoIngest :: bool
  p_State :: PipeState
  p_CreatedAt :: time

record FileStatus =
  fs_Path :: string
  fs_Status :: string
  fs_RowsInserted :: int
  fs_ErrorMessage :: string
  fs_FirstErrorRow :: int
  fs_LoadedAt :: "time option"

record PipeInfo =
  pi_Name :: string
  pi_Database :: string
  pi_Schema :: string
  pi_Definition :: string
  pi_State :: PipeState
  pi_CreatedAt :: time

record pipe_Engine =
  pipes :: "string \<rightharpoonup> Pipe"
  history :: "string \<rightharpoonup> FileStatus list"

definition pipe_NewEngine :: pipe_Engine where
  "pipe_NewEngine = \<lparr>pipes = Map.empty, history = Map.empty\<rparr>"

definition pipe_Reset :: "pipe_Engine \<Rightarrow> pipe_Engine" where
  "pipe_Reset e = e\<lparr>pipes := Map.empty, history := Map.empty\<rparr>"

definition pipeKey :: "string \<Rightarrow> string \<Rightarrow> string \<Rightarrow> string" where
  "pipeKey db schema name = dotted (ToUpper db) (ToUpper schema) (ToUpper name)"

definition new_pipe :: "time \<Rightarrow> string \<Rightarrow> string \<Rightarrow> string \<Rightarrow> string \<Rightarrow> bool \<Rightarrow> Pipe" where
  "new_pipe now db schema name copyStmt autoIngest =
     \<lparr>p_Name = ToUpper name, p_Database = ToUpper db, p_Schema = ToUpper schema, p_CopyStmt = copyStmt,
      p_AutoIngest = autoIngest, p_State = PipeRunning, p_CreatedAt = now\<rparr>"

definition CreatePipe ::
  "pipe_Engine \<Rightarrow> time \<Rightarrow> string \<Rightarrow> string \<Rightarrow> string \<Rightarrow> string \<Rightarrow> bool \<Rightarrow> pipe_Engine result"
where
  "CreatePipe e now db schema name copyStmt autoIngest =
     (let key = pipeKey db schema name
      in if pipes e key \<noteq> None then Err (AlreadyExists ''pipe'' key)
         else Ok (e\<lparr>pipes := (pipes e)(key \<mapsto> new_pipe now db schema name copyStmt autoIngest),
                    history := (history e)(key \<mapsto> [])\<rparr>))"

definition DropPipe :: "pipe_Engine \<Rightarrow> string \<Rightarrow> string \<Rightarrow> string \<Rightarrow> pipe_Engine result" where
  "DropPipe e db schema name =
     (let key = pipeKey db schema name
      in if pipes e key = None then Err (DoesNotExist ''pipe'' key)
         else Ok (e\<lparr>pipes := (pipes e)(key := None), history := (history e)(key := None)\<rparr>))"

definition GetPipe :: "pipe_Engine \<Rightarrow> string \<Rightarrow> string \<Rightarrow> string \<Rightarrow> Pipe result" where
  "GetPipe e db schema name =
     (let key = pipeKey db schema name
      in case pipes e key of None \<Rightarrow> Err (DoesNotExist ''pipe'' key) | Some p \<Rightarrow> Ok p)"

definition AlterPipe :: "pipe_Engine \<Rightarrow> string \<Rightarrow> string \<Rightarrow> string \<Rightarrow> PipeState \<Rightarrow> pipe_Engine result" where
  "AlterPipe e db schema name state =
     (let key = pipeKey db schema name
      in case pipes e key of
           None \<Rightarrow> Err (DoesNotExist ''pipe'' key)
         | Some p \<Rightarrow> Ok (e\<lparr>pipes := (pipes e)(key \<mapsto> p\<lparr>p_State := state\<rparr>)\<rparr>))"

text \<open>The history of a key; reading a missing key gives the nil slice.\<close>

definition history_of :: "pipe_Engine \<Rightarrow> string \<Rightarrow> FileStatus list" where
  "history_of e key = (case history e key of None \<Rightarrow> [] | Some h \<Rightarrow> h)"

type_synonym 'w exec = "string \<Rightarrow> 'w \<Rightarrow> 'w \<times> string option"

definition file_status :: "string \<Rightarrow> string option \<Rightarrow> time \<Rightarrow> FileStatus" where
  "file_status file err now =
     (let status = \<lparr>fs_Path = file, fs_Status = ''LOAD_IN_PROGRESS'', fs_RowsInserted = 0,
                    fs_ErrorMessage = '''', fs_FirstErrorRow = 0, fs_LoadedAt = None\<rparr>
      in case err of
           Some msg \<Rightarrow> status\<lparr>fs_Status := ''LOAD_FAILED'', fs_ErrorMessage := msg\<rparr>
         | None \<Rightarrow> status\<lparr>fs_Status := ''LOADED'', fs_LoadedAt := Some now\<rparr>)"

text \<open>The loop over the files: the world is threaded, the statuses are collected in order.\<close>

fun load_files :: "'w exec \<Rightarrow> (nat \<Rightarrow> time) \<Rightarrow> string \<Rightarrow> nat \<Rightarrow> string list \<Rightarrow> 'w \<Rightarrow> 'w \<times> FileStatus list" where
  "load_files exec clock copyStmt i [] w = (w, [])"
| "load_files exec clock copyStmt i (file # files) w =
     (let sql = ReplaceAll copyStmt ''{FILE}'' file;
          (w, err) = exec sql w;
          (w, rest) = load_files exec clock copyStmt (Suc i) files w
      in (w, file_status file err (clock i) # rest))"

text \<open>
  \<^verbatim>\<open>InsertFiles\<close> reads the pipe under the lock, loads the files without it and takes the lock again to
  append to the history: the two critical sections are \<open>insert_begin\<close> and \<open>insert_commit\<close>.
\<close>

definition insert_begin :: "pipe_Engine \<Rightarrow> string \<Rightarrow> string result" where
  "insert_begin e key =
     (case pipes e key of
        None \<Rightarrow> Err (DoesNotExist ''pipe'' key)
      | Some p \<Rightarrow> if p_State p \<noteq> PipeRunning then Err (NotAllowed ''pipe'' key) else Ok (p_CopyStmt p))"

definition insert_commit :: "pipe_Engine \<Rightarrow> string \<Rightarrow> FileStatus list \<Rightarrow> pipe_Engine" where
  "insert_commit e key statuses = e\<lparr>history := (history e)(key \<mapsto> history_of e key @ statuses)\<rparr>"

definition InsertFiles ::
  "'w exec \<Rightarrow> (nat \<Rightarrow> time) \<Rightarrow> pipe_Engine \<Rightarrow> string \<Rightarrow> string \<Rightarrow> string \<Rightarrow> string list \<Rightarrow> 'w \<Rightarrow>
     'w \<times> pipe_Engine result"
where
  "InsertFiles exec clock e db schema pipeName files w =
     (let key = pipeKey db schema pipeName
      in case insert_begin e key of
           Inl err \<Rightarrow> (w, Err err)
         | Inr copyStmt \<Rightarrow>
             (let (w, statuses) = load_files exec clock copyStmt 0 files w
              in (w, Ok (insert_commit e key statuses))))"

definition GetStatus :: "pipe_Engine \<Rightarrow> string \<Rightarrow> string \<Rightarrow> string \<Rightarrow> FileStatus list" where
  "GetStatus e db schema pipeName = history_of e (pipeKey db schema pipeName)"

definition pipe_info :: "Pipe \<Rightarrow> PipeInfo" where
  "pipe_info p =
     \<lparr>pi_Name = p_Name p, pi_Database = p_Database p, pi_Schema = p_Schema p, pi_Definition = p_CopyStmt p,
      pi_State = p_State p, pi_CreatedAt = p_CreatedAt p\<rparr>"

definition ShowPipes :: "pipe_Engine \<Rightarrow> string \<Rightarrow> string \<Rightarrow> string list \<Rightarrow> PipeInfo list" where
  "ShowPipes e db schema ks =
     (let pfx = ToUpper db @ ''.'' @ ToUpper schema @ ''.''
      in map (pipe_info \<circ> snd) (filter (\<lambda>(key, p). HasPrefix key pfx) (range_entries (pipes e) ks)))"

subsection \<open>The registry contract\<close>

type_synonym pipe_path = "string \<times> string \<times> string"

definition pipe_path_key :: "pipe_path \<Rightarrow> string" where
  "pipe_path_key p = (case p of (db, schema, name) \<Rightarrow> pipeKey db schema name)"

definition create_pipe :: "pipe_Engine \<Rightarrow> pipe_path \<Rightarrow> time \<times> string \<times> bool \<Rightarrow> pipe_Engine result" where
  "create_pipe e p a = (case p of (db, schema, name) \<Rightarrow> case a of (now, stmt, auto) \<Rightarrow>
     CreatePipe e now db schema name stmt auto)"

definition drop_pipe :: "pipe_Engine \<Rightarrow> pipe_path \<Rightarrow> pipe_Engine result" where
  "drop_pipe e p = (case p of (db, schema, name) \<Rightarrow> DropPipe e db schema name)"

definition pipe_entry :: "pipe_path \<Rightarrow> time \<times> string \<times> bool \<Rightarrow> Pipe" where
  "pipe_entry p a = (case p of (db, schema, name) \<Rightarrow> case a of (now, stmt, auto) \<Rightarrow>
     new_pipe now db schema name stmt auto)"

interpretation pipes_reg: registry pipes create_pipe drop_pipe pipe_path_key pipe_entry "\<lambda>_ _. True"
  by unfold_locales
    (auto simp: create_pipe_def drop_pipe_def pipe_path_key_def pipe_entry_def CreatePipe_def DropPipe_def
      Let_def split: if_splits)

interpretation pipes_reset: resettable pipe_Reset pipe_NewEngine
proof unfold_locales
  fix e
  show "pipe_Reset e = pipe_NewEngine" by (cases e) (simp add: pipe_Reset_def pipe_NewEngine_def)
qed

subsection \<open>Invariant\<close>

text \<open>Every pipe has a history, and only finished loads are in a history.\<close>

definition finished :: "FileStatus \<Rightarrow> bool" where
  "finished s \<longleftrightarrow>
     (fs_Status s = ''LOADED'' \<and> fs_LoadedAt s \<noteq> None \<and> fs_ErrorMessage s = '''') \<or>
     (fs_Status s = ''LOAD_FAILED'' \<and> fs_LoadedAt s = None)"

definition pipe_inv :: "pipe_Engine \<Rightarrow> bool" where
  "pipe_inv e \<longleftrightarrow> dom (pipes e) \<subseteq> dom (history e) \<and> (\<forall>k. \<forall>s \<in> set (history_of e k). finished s)"

text \<open>
  The steps are the critical sections that change the engine. A load reads its pipe in one section and files its
  statuses in a later one, with any steps of other callers between: so the commit does not depend on what the
  pipes are at that time.
\<close>

inductive pipe_step :: "'w exec \<Rightarrow> pipe_Engine \<Rightarrow> pipe_Engine \<Rightarrow> bool" for exec :: "'w exec" where
  create: "CreatePipe e now db schema name stmt auto = Inr e' \<Longrightarrow> pipe_step exec e e'"
| remove: "DropPipe e db schema name = Inr e' \<Longrightarrow> pipe_step exec e e'"
| alter: "AlterPipe e db schema name st = Inr e' \<Longrightarrow> pipe_step exec e e'"
| commit: "pipe_step exec e (insert_commit e key (snd (load_files exec clock copyStmt i files w)))"
| reset: "pipe_step exec e (pipe_Reset e)"

inductive pipe_reachable :: "'w exec \<Rightarrow> pipe_Engine \<Rightarrow> bool" for exec :: "'w exec" where
  start: "pipe_reachable exec pipe_NewEngine"
| step: "pipe_reachable exec e \<Longrightarrow> pipe_step exec e e' \<Longrightarrow> pipe_reachable exec e'"

lemma file_status_simps [simp]: "fs_Path (file_status f err t) = f" "finished (file_status f err t)"
  by (cases err; simp add: file_status_def finished_def)+

lemma load_files_paths: "map fs_Path (snd (load_files exec clock stmt i files w)) = files"
  by (induction files arbitrary: i w) (simp_all add: Let_def case_prod_beta)

lemma load_files_finished: "\<forall>s \<in> set (snd (load_files exec clock stmt i files w)). finished s"
  by (induction files arbitrary: i w) (simp_all add: Let_def case_prod_beta)

lemma InsertFiles_ok:
  assumes "InsertFiles exec clock e db schema name files w = (w', Inr e')"
  shows "\<exists>p. pipes e (pipeKey db schema name) = Some p \<and> p_State p = PipeRunning \<and>
    (let (w1, statuses) = load_files exec clock (p_CopyStmt p) 0 files w
     in w' = w1 \<and> e' = insert_commit e (pipeKey db schema name) statuses)"
  using assms by (auto simp: InsertFiles_def insert_begin_def Let_def case_prod_beta
      split: option.splits if_splits sum.splits)

text \<open>A load that no other call interrupts is one of these steps.\<close>

lemma InsertFiles_step: "InsertFiles exec clock e db schema name files w = (w', Inr e') \<Longrightarrow> pipe_step exec e e'"
  using pipe_step.commit by (fastforce simp: Let_def case_prod_beta dest!: InsertFiles_ok)

lemma pipe_inv_commit: "pipe_inv e \<Longrightarrow> \<forall>s \<in> set statuses. finished s \<Longrightarrow> pipe_inv (insert_commit e k statuses)"
  by (auto simp: pipe_inv_def insert_commit_def history_of_def split: option.splits)

lemma pipe_inv_step: "pipe_step exec e e' \<Longrightarrow> pipe_inv e \<Longrightarrow> pipe_inv e'"
proof (induction rule: pipe_step.induct)
  case (create e now db schema name stmt auto e')
  then have "e' = e\<lparr>pipes := (pipes e)(pipeKey db schema name \<mapsto> new_pipe now db schema name stmt auto),
      history := (history e)(pipeKey db schema name \<mapsto> [])\<rparr>"
    by (simp add: CreatePipe_def Let_def split: if_splits)
  with create(2) show ?case by (auto simp: pipe_inv_def history_of_def)
next
  case (remove e db schema name e')
  then have "e' = e\<lparr>pipes := (pipes e)(pipeKey db schema name := None),
      history := (history e)(pipeKey db schema name := None)\<rparr>"
    by (simp add: DropPipe_def Let_def split: if_splits)
  with remove(2) show ?case by (auto simp: pipe_inv_def history_of_def)
next
  case (alter e db schema name st e')
  then obtain p where "pipes e (pipeKey db schema name) = Some p"
    "e' = e\<lparr>pipes := (pipes e)(pipeKey db schema name \<mapsto> p\<lparr>p_State := st\<rparr>)\<rparr>"
    by (auto simp: AlterPipe_def Let_def split: option.splits)
  with alter(2) show ?case by (auto simp: pipe_inv_def history_of_def)
next
  case (commit e key clock copyStmt i files w)
  then show ?case by (intro pipe_inv_commit load_files_finished)
next
  case (reset e)
  show ?case by (simp add: pipe_Reset_def pipe_inv_def history_of_def)
qed

lemma pipe_reachable_inv: "pipe_reachable exec e \<Longrightarrow> pipe_inv e"
proof (induction rule: pipe_reachable.induct)
  case start
  show ?case by (simp add: pipe_inv_def pipe_NewEngine_def history_of_def)
qed (rule pipe_inv_step)

subsection \<open>Properties\<close>

text \<open>
  Loading files through a pipe records one finished status for each file, in the order of the
  files, after the statuses already there, and changes nothing else; a pipe that is missing or not
  running is refused before anything is executed.
\<close>

theorem InsertFiles_records:
  "case InsertFiles exec clock e db schema name files w of
     (w', Inr e') \<Rightarrow> \<exists>statuses. GetStatus e' db schema name = GetStatus e db schema name @ statuses \<and>
        map fs_Path statuses = files \<and> (\<forall>s \<in> set statuses. finished s) \<and> pipes e' = pipes e \<and>
        (\<forall>k. k \<noteq> pipeKey db schema name \<longrightarrow> history_of e' k = history_of e k)
   | (w', Inl _) \<Rightarrow> w' = w \<and> (\<forall>p. GetPipe e db schema name = Inr p \<longrightarrow> p_State p \<noteq> PipeRunning)"
proof (cases "insert_begin e (pipeKey db schema name)")
  case (Inl err)
  then show ?thesis
    by (auto simp: InsertFiles_def insert_begin_def GetPipe_def Let_def split: option.splits if_splits)
next
  case (Inr stmt)
  let ?run = "load_files exec clock stmt 0 files w"
  have "InsertFiles exec clock e db schema name files w =
      (fst ?run, Inr (insert_commit e (pipeKey db schema name) (snd ?run)))"
    using Inr by (simp add: InsertFiles_def case_prod_beta)
  then show ?thesis
    using load_files_paths [of exec clock stmt 0 files w] load_files_finished [of exec clock stmt 0 files w]
    by (auto simp: GetStatus_def insert_commit_def history_of_def)
qed

definition sample_exec :: "string list exec" where
  "sample_exec sql w = (w @ [sql], None)"

definition sample_pipes :: pipe_Engine where
  "sample_pipes = ignore_error pipe_NewEngine (CreatePipe pipe_NewEngine 3 ''d'' ''s'' ''p'' ''COPY {FILE}'' True)"

theorem InsertFiles_records_witness:
  "\<exists>w' e' statuses. InsertFiles sample_exec (\<lambda>_. 7) sample_pipes ''D'' ''S'' ''P'' [''a'', ''b''] [] = (w', Inr e') \<and>
     GetStatus e' ''D'' ''S'' ''P'' = GetStatus sample_pipes ''D'' ''S'' ''P'' @ statuses \<and>
     map fs_Path statuses = [''a'', ''b'']"
proof -
  have "is_ok (snd (InsertFiles sample_exec (\<lambda>_. 7) sample_pipes ''D'' ''S'' ''P'' [''a'', ''b''] []))" by code_simp
  then obtain w' e' where run:
    "InsertFiles sample_exec (\<lambda>_. 7) sample_pipes ''D'' ''S'' ''P'' [''a'', ''b''] [] = (w', Inr e')"
    by (cases "InsertFiles sample_exec (\<lambda>_. 7) sample_pipes ''D'' ''S'' ''P'' [''a'', ''b''] []")
      (auto simp: is_ok_iff)
  from InsertFiles_records [where exec = sample_exec and clock = "\<lambda>_. 7" and e = sample_pipes and
      db = "''D''" and schema = "''S''" and name = "''P''" and files = "[''a'', ''b'']" and w = "[]"] run
  show ?thesis by auto
qed

text \<open>
  However loads and other calls are interleaved, every pipe has a load history, and every recorded load is
  finished: loaded with a time and no error, or failed.
\<close>

theorem pipe_history_owned:
  assumes "pipe_reachable exec e"
  shows "dom (pipes e) \<subseteq> dom (history e) \<and> (\<forall>k. \<forall>s \<in> set (history_of e k). finished s)"
  using pipe_reachable_inv [OF assms] by (simp add: pipe_inv_def)

theorem pipe_history_owned_witness:
  "pipe_reachable sample_exec sample_pipes \<and> dom (pipes sample_pipes) \<subseteq> dom (history sample_pipes)"
proof -
  have "pipe_reachable sample_exec sample_pipes"
    unfolding sample_pipes_def
    by (cases "CreatePipe pipe_NewEngine 3 ''d'' ''s'' ''p'' ''COPY {FILE}'' True")
      (auto intro: pipe_reachable.intros pipe_step.create)
  with pipe_history_owned [OF this] show ?thesis by blast
qed

text \<open>
  Between its two critical sections a load does not hold the lock. When the pipe is dropped in
  between, the commit files the statuses under the dropped key: the history is back, without a pipe.
\<close>

lemma drop_during_load:
  assumes "insert_begin e (pipeKey db schema name) = Inr stmt" "DropPipe e db schema name = Inr e'"
  shows "GetStatus (insert_commit e' (pipeKey db schema name) statuses) db schema name = statuses \<and>
    \<not> is_ok (GetPipe (insert_commit e' (pipeKey db schema name) statuses) db schema name)"
  using assms
  by (auto simp: DropPipe_def Let_def GetStatus_def GetPipe_def insert_commit_def history_of_def split: if_splits)

end
