(* ===== verification/Tag.thy ===== *)
theory Tag
  imports Registry
begin

text \<open>
  \<^verbatim>\<open>internal/tag/tag.go\<close>: tag definitions and their assignment to objects. An object keeps a list of
  assignments, in the order in which they were set; an object without assignments has no entry.
\<close>

record Tag =
  tg_Name :: string
  tg_Database :: string
  tg_Schema :: string
  tg_AllowedValues :: "string list"
  tg_Comment :: string
  tg_CreatedAt :: time

record TagAssignment =
  ta_TagName :: string
  ta_TagValue :: string
  ta_ObjectType :: string
  ta_ObjectName :: string
  ta_ColumnName :: string

text \<open>\<^verbatim>\<open>TagInfo\<close> has the fields of \<^verbatim>\<open>Tag\<close>.\<close>

type_synonym TagInfo = Tag

record tag_Manager =
  tags :: "string \<rightharpoonup> Tag"
  assignments :: "string \<rightharpoonup> TagAssignment list"

definition tagKey :: "string \<Rightarrow> string \<Rightarrow> string \<Rightarrow> string" where
  "tagKey db schema name = dotted (ToUpper db) (ToUpper schema) (ToUpper name)"

definition objectKey :: "string \<Rightarrow> string \<Rightarrow> string \<Rightarrow> string" where
  "objectKey objectType objectName columnName =
     (let k = ToUpper objectType @ '':'' @ ToUpper objectName
      in if columnName \<noteq> '''' then k @ ''.'' @ ToUpper columnName else k)"

definition tag_NewManager :: tag_Manager where
  "tag_NewManager = \<lparr>tags = Map.empty, assignments = Map.empty\<rparr>"

definition new_tag :: "time \<Rightarrow> string \<Rightarrow> string \<Rightarrow> string \<Rightarrow> string list \<Rightarrow> string \<Rightarrow> Tag" where
  "new_tag now db schema name allowedValues comment =
     \<lparr>tg_Name = ToUpper name, tg_Database = ToUpper db, tg_Schema = ToUpper schema,
      tg_AllowedValues = allowedValues, tg_Comment = comment, tg_CreatedAt = now\<rparr>"

definition CreateTag ::
  "tag_Manager \<Rightarrow> time \<Rightarrow> string \<Rightarrow> string \<Rightarrow> string \<Rightarrow> string list \<Rightarrow> string \<Rightarrow> tag_Manager result"
where
  "CreateTag m now db schema name allowedValues comment =
     (let key = tagKey db schema name
      in if tags m key \<noteq> None then Err (AlreadyExists ''tag'' key)
         else Ok (m\<lparr>tags := (tags m)(key \<mapsto> new_tag now db schema name allowedValues comment)\<rparr>))"

text \<open>Reading a missing key gives the nil slice; a list that becomes empty is deleted.\<close>

definition assigned :: "tag_Manager \<Rightarrow> string \<Rightarrow> TagAssignment list" where
  "assigned m oKey = (case assignments m oKey of None \<Rightarrow> [] | Some as \<Rightarrow> as)"

definition drop_assignments :: "string \<Rightarrow> TagAssignment list \<Rightarrow> TagAssignment list option" where
  "drop_assignments upperName as =
     (let filtered = filter (\<lambda>a. ta_TagName a \<noteq> upperName) as
      in if filtered = [] then None else Some filtered)"

definition DropTag :: "tag_Manager \<Rightarrow> string \<Rightarrow> string \<Rightarrow> string \<Rightarrow> tag_Manager result" where
  "DropTag m db schema name =
     (let key = tagKey db schema name; upperName = ToUpper name
      in if tags m key = None then Err (DoesNotExist ''tag'' key)
         else Ok (m\<lparr>tags := (tags m)(key := None),
                    assignments := (\<lambda>k. Option.bind (assignments m k) (drop_assignments upperName))\<rparr>))"

definition new_assignment :: "string \<Rightarrow> string \<Rightarrow> string \<Rightarrow> string \<Rightarrow> string \<Rightarrow> TagAssignment" where
  "new_assignment tagName objectType objectName columnName value =
     \<lparr>ta_TagName = ToUpper tagName, ta_TagValue = value, ta_ObjectType = ToUpper objectType,
      ta_ObjectName = ToUpper objectName, ta_ColumnName = ToUpper columnName\<rparr>"

definition SetTag ::
  "tag_Manager \<Rightarrow> string \<Rightarrow> string \<Rightarrow> string \<Rightarrow> string \<Rightarrow> string \<Rightarrow> string \<Rightarrow> string \<Rightarrow> tag_Manager result"
where
  "SetTag m tagDB tagSchema tagName objectType objectName columnName value =
     (let tKey = tagKey tagDB tagSchema tagName;
          oKey = objectKey objectType objectName columnName
      in case tags m tKey of
           None \<Rightarrow> Err (DoesNotExist ''tag'' tKey)
         | Some tag \<Rightarrow>
             if tg_AllowedValues tag \<noteq> [] \<and> \<not> list_ex (\<lambda>av. EqualFold av value) (tg_AllowedValues tag)
             then Err (Invalid value tKey)
             else
               let upperTagName = ToUpper tagName;
                   existing = remove_first (\<lambda>a. ta_TagName a = upperTagName) (assigned m oKey)
               in Ok (m\<lparr>assignments := (assignments m)(oKey \<mapsto>
                      existing @ [new_assignment tagName objectType objectName columnName value])\<rparr>))"

definition UnsetTag ::
  "tag_Manager \<Rightarrow> string \<Rightarrow> string \<Rightarrow> string \<Rightarrow> string \<Rightarrow> string \<Rightarrow> string \<Rightarrow> tag_Manager result"
where
  "UnsetTag m tagDB tagSchema tagName objectType objectName columnName =
     (let tKey = tagKey tagDB tagSchema tagName;
          oKey = objectKey objectType objectName columnName
      in if tags m tKey = None then Err (DoesNotExist ''tag'' tKey)
         else
           let upperTagName = ToUpper tagName;
               existing = assigned m oKey
           in if list_ex (\<lambda>a. ta_TagName a = upperTagName) existing then
                let rest = remove_first (\<lambda>a. ta_TagName a = upperTagName) existing
                in Ok (m\<lparr>assignments :=
                       (if rest = [] then (assignments m)(oKey := None) else (assignments m)(oKey \<mapsto> rest))\<rparr>)
              else Err (NotAllowed tKey oKey))"

definition GetTagValue :: "tag_Manager \<Rightarrow> string \<Rightarrow> string \<Rightarrow> string \<Rightarrow> string \<Rightarrow> string result" where
  "GetTagValue m objectType objectName columnName tagName =
     (let oKey = objectKey objectType objectName columnName; upperTagName = ToUpper tagName
      in case List.find (\<lambda>a. ta_TagName a = upperTagName) (assigned m oKey) of
           Some a \<Rightarrow> Ok (ta_TagValue a)
         | None \<Rightarrow> Err (DoesNotExist upperTagName oKey))"

definition GetAllTags :: "tag_Manager \<Rightarrow> string \<Rightarrow> string \<Rightarrow> TagAssignment list" where
  "GetAllTags m objectType objectName = assigned m (objectKey objectType objectName '''')"

definition ShowTags :: "tag_Manager \<Rightarrow> string \<Rightarrow> string \<Rightarrow> string list \<Rightarrow> TagInfo list" where
  "ShowTags m db schema ks =
     (let pfx = ToUpper db @ ''.'' @ ToUpper schema @ ''.''
      in map snd (filter (\<lambda>(key, t). HasPrefix key pfx) (range_entries (tags m) ks)))"

subsection \<open>The registry contract\<close>

type_synonym tag_path = "string \<times> string \<times> string"

definition tag_path_key :: "tag_path \<Rightarrow> string" where
  "tag_path_key p = (case p of (db, schema, name) \<Rightarrow> tagKey db schema name)"

definition create_tag :: "tag_Manager \<Rightarrow> tag_path \<Rightarrow> time \<times> string list \<times> string \<Rightarrow> tag_Manager result" where
  "create_tag m p a = (case p of (db, schema, name) \<Rightarrow> case a of (now, allowed, comment) \<Rightarrow>
     CreateTag m now db schema name allowed comment)"

definition drop_tag :: "tag_Manager \<Rightarrow> tag_path \<Rightarrow> tag_Manager result" where
  "drop_tag m p = (case p of (db, schema, name) \<Rightarrow> DropTag m db schema name)"

definition tag_entry :: "tag_path \<Rightarrow> time \<times> string list \<times> string \<Rightarrow> Tag" where
  "tag_entry p a = (case p of (db, schema, name) \<Rightarrow> case a of (now, allowed, comment) \<Rightarrow>
     new_tag now db schema name allowed comment)"

interpretation tags_reg: registry tags create_tag drop_tag tag_path_key tag_entry "\<lambda>_ _. True"
  by unfold_locales
    (auto simp: create_tag_def drop_tag_def tag_path_key_def tag_entry_def CreateTag_def DropTag_def
      Let_def split: if_splits)

subsection \<open>Invariant\<close>

text \<open>No object has two values for one tag name, and none an empty list.\<close>

definition tag_inv :: "tag_Manager \<Rightarrow> bool" where
  "tag_inv m \<longleftrightarrow> (\<forall>k. assignments m k \<noteq> Some [] \<and> distinct (map ta_TagName (assigned m k)))"

inductive tag_step :: "tag_Manager \<Rightarrow> tag_Manager \<Rightarrow> bool" where
  create: "CreateTag m now db schema name allowed comment = Inr m' \<Longrightarrow> tag_step m m'"
| remove: "DropTag m db schema name = Inr m' \<Longrightarrow> tag_step m m'"
| set: "SetTag m db schema name ot obj col v = Inr m' \<Longrightarrow> tag_step m m'"
| unset: "UnsetTag m db schema name ot obj col = Inr m' \<Longrightarrow> tag_step m m'"

inductive tag_reachable :: "tag_Manager \<Rightarrow> bool" where
  start: "tag_reachable tag_NewManager"
| step: "tag_reachable m \<Longrightarrow> tag_step m m' \<Longrightarrow> tag_reachable m'"

lemma SetTag_ok:
  assumes "SetTag m db schema name ot obj col v = Inr m'"
  shows "tags m' = tags m \<and> assigned m' = (assigned m)(objectKey ot obj col :=
      remove_first (\<lambda>a. ta_TagName a = ToUpper name) (assigned m (objectKey ot obj col)) @
      [new_assignment name ot obj col v])"
    and "assignments m' (objectKey ot obj col) \<noteq> Some []"
    and "k \<noteq> objectKey ot obj col \<Longrightarrow> assignments m' k = assignments m k"
  using assms
  by (auto simp: SetTag_def Let_def assigned_def fun_eq_iff split: option.splits if_splits)

lemma new_assignment_name [simp]: "ta_TagName (new_assignment name ot obj col v) = ToUpper name"
  "ta_TagValue (new_assignment name ot obj col v) = v"
  by (simp_all add: new_assignment_def)

lemma tag_step_inv: "tag_step m m' \<Longrightarrow> tag_inv m \<Longrightarrow> tag_inv m'"
proof (induction rule: tag_step.induct)
  case (create m now db schema name allowed comment m')
  then show ?case by (auto simp: CreateTag_def Let_def tag_inv_def assigned_def split: if_splits)
next
  case (remove m db schema name m')
  then have eq: "assignments m' = (\<lambda>k. Option.bind (assignments m k) (drop_assignments (ToUpper name)))"
    by (auto simp: DropTag_def Let_def split: if_splits)
  have "assigned m' k = filter (\<lambda>a. ta_TagName a \<noteq> ToUpper name) (assigned m k)" for k
    by (cases "assignments m k") (simp_all add: assigned_def eq drop_assignments_def Let_def)
  moreover have "assignments m' k \<noteq> Some []" for k
    by (cases "assignments m k") (simp_all add: eq drop_assignments_def Let_def)
  ultimately show ?case using remove(2) by (simp add: tag_inv_def distinct_map_filter)
next
  case (set m db schema name ot obj col v m')
  note ok = SetTag_ok [OF set(1)]
  show ?case
    unfolding tag_inv_def
  proof (intro allI conjI)
    fix k
    show "assignments m' k \<noteq> Some []"
      using ok(2) ok(3) [of k] set(2) by (cases "k = objectKey ot obj col") (auto simp: tag_inv_def)
    have dist: "distinct (map ta_TagName (assigned m k))" using set(2) by (simp add: tag_inv_def)
    have "ToUpper name \<notin> ta_TagName ` set (remove_first (\<lambda>a. ta_TagName a = ToUpper name) (assigned m k))"
    proof
      assume "ToUpper name \<in> ta_TagName ` set (remove_first (\<lambda>a. ta_TagName a = ToUpper name) (assigned m k))"
      then obtain a where a: "a \<in> set (remove_first (\<lambda>a. ta_TagName a = ToUpper name) (assigned m k))"
        "ta_TagName a = ToUpper name" by auto
      from remove_first_none_left [OF dist a(1)] a(2) show False ..
    qed
    then show "distinct (map ta_TagName (assigned m' k))"
      using ok(1) dist by (auto simp: distinct_map_remove_first)
  qed
next
  case (unset m db schema name ot obj col m')
  then show ?case
    by (auto simp: UnsetTag_def Let_def tag_inv_def assigned_def distinct_map_remove_first split: if_splits)
qed

lemma tag_reachable_inv: "tag_reachable m \<Longrightarrow> tag_inv m"
proof (induction rule: tag_reachable.induct)
  case start
  show ?case by (simp add: tag_inv_def tag_NewManager_def assigned_def)
qed (rule tag_step_inv)

lemma objectKey_fold: "EqualFold ot ot' \<Longrightarrow> EqualFold obj obj' \<Longrightarrow> EqualFold col col' \<Longrightarrow> objectKey ot obj col = objectKey ot' obj' col'"
  by (auto simp: objectKey_def EqualFold_iff_ToUpper Let_def) (metis ToUpper_Nil(2))

lemma find_remove_first_other:
  "k \<noteq> k' \<Longrightarrow> List.find (\<lambda>x. f x = k') (remove_first (\<lambda>x. f x = k) xs) = List.find (\<lambda>x. f x = k') xs"
  by (induction xs) auto

subsection \<open>Properties\<close>

text \<open>
  A tag that was set is read back, with the last value, under any spelling of the object, the
  column and the tag that differs only in case; every other tag of the object and every other
  object keep their values, and only a value the tag allows is accepted.
\<close>

theorem set_then_get:
  assumes "tag_reachable m" "SetTag m db schema name ot obj col v = Inr m'"
    and "EqualFold ot' ot" "EqualFold obj' obj" "EqualFold col' col" "EqualFold name' name"
  shows "GetTagValue m' ot' obj' col' name' = Inr v \<and>
    (\<forall>ot2 obj2 col2 n2. objectKey ot2 obj2 col2 \<noteq> objectKey ot obj col \<or> ToUpper n2 \<noteq> ToUpper name \<longrightarrow>
       GetTagValue m' ot2 obj2 col2 n2 = GetTagValue m ot2 obj2 col2 n2) \<and>
    (\<exists>tag. tags m (tagKey db schema name) = Some tag \<and>
       (tg_AllowedValues tag = [] \<or> (\<exists>av \<in> set (tg_AllowedValues tag). EqualFold av v)))"
proof (intro conjI)
  let ?k = "objectKey ot obj col"
  let ?rest = "remove_first (\<lambda>a. ta_TagName a = ToUpper name) (assigned m ?k)"
  have m': "assigned m' = (assigned m)(?k := ?rest @ [new_assignment name ot obj col v])"
    using SetTag_ok(1) [OF assms(2)] by blast
  have "distinct (map ta_TagName (assigned m ?k))"
    using tag_reachable_inv [OF assms(1)] by (simp add: tag_inv_def)
  from remove_first_none_left [OF this] have "List.find (\<lambda>a. ta_TagName a = ToUpper name) ?rest = None"
    by (auto simp: find_None_iff)
  then have "List.find (\<lambda>a. ta_TagName a = ToUpper name) (assigned m' ?k) = Some (new_assignment name ot obj col v)"
    by (simp add: m' find_append)
  moreover have "objectKey ot' obj' col' = ?k" "ToUpper name' = ToUpper name"
    using objectKey_fold [OF assms(3,4,5)] assms(6) by (simp_all add: EqualFold_iff_ToUpper)
  ultimately show "GetTagValue m' ot' obj' col' name' = Inr v" by (simp add: GetTagValue_def)
  show "\<forall>ot2 obj2 col2 n2. objectKey ot2 obj2 col2 \<noteq> ?k \<or> ToUpper n2 \<noteq> ToUpper name \<longrightarrow>
       GetTagValue m' ot2 obj2 col2 n2 = GetTagValue m ot2 obj2 col2 n2"
    by (auto simp: GetTagValue_def Let_def m' find_append find_remove_first_other split: option.split)
  show "\<exists>tag. tags m (tagKey db schema name) = Some tag \<and>
       (tg_AllowedValues tag = [] \<or> (\<exists>av \<in> set (tg_AllowedValues tag). EqualFold av v))"
    using assms(2) by (auto simp: SetTag_def Let_def list_ex_iff split: option.splits if_splits)
qed

definition sample_tags :: tag_Manager where
  "sample_tags = ignore_error tag_NewManager
     (CreateTag tag_NewManager 4 ''d'' ''s'' ''cost'' [''low'', ''high''] '''')"

lemma sample_tags_reachable: "tag_reachable sample_tags"
  unfolding sample_tags_def
  by (cases "CreateTag tag_NewManager 4 ''d'' ''s'' ''cost'' [''low'', ''high''] ''''")
    (auto intro: tag_reachable.intros tag_step.create)

theorem set_then_get_witness:
  "\<exists>m'. SetTag sample_tags ''D'' ''S'' ''Cost'' ''table'' ''t'' '''' ''LOW'' = Inr m' \<and>
     GetTagValue m' ''TABLE'' ''T'' '''' ''cost'' = Inr ''LOW''"
proof -
  have "is_ok (SetTag sample_tags ''D'' ''S'' ''Cost'' ''table'' ''t'' '''' ''LOW'')" by code_simp
  then obtain m' where m': "SetTag sample_tags ''D'' ''S'' ''Cost'' ''table'' ''t'' '''' ''LOW'' = Inr m'"
    by (auto simp: is_ok_iff)
  have "EqualFold ''TABLE'' ''table''" "EqualFold ''T'' ''t''" "EqualFold '''' ''''" "EqualFold ''cost'' ''Cost''"
    by code_simp+
  from set_then_get [OF sample_tags_reachable m' this] m' show ?thesis by blast
qed

text \<open>
  No object ever carries two values for one tag name, and after an UNSET the tag is gone from
  the object, so that reading it fails.
\<close>

theorem unset_removes:
  assumes "tag_reachable m" "UnsetTag m db schema name ot obj col = Inr m'"
  shows "distinct (map ta_TagName (assigned m (objectKey ot obj col))) \<and> is_ok (GetTagValue m ot obj col name) \<and>
    \<not> is_ok (GetTagValue m' ot obj col name)"
proof -
  let ?k = "objectKey ot obj col"
  have dist: "distinct (map ta_TagName (assigned m ?k))"
    using tag_reachable_inv [OF assms(1)] by (simp add: tag_inv_def)
  have m': "assigned m' ?k = remove_first (\<lambda>a. ta_TagName a = ToUpper name) (assigned m ?k)"
    "list_ex (\<lambda>a. ta_TagName a = ToUpper name) (assigned m ?k)"
    using assms(2) by (auto simp: UnsetTag_def Let_def assigned_def split: if_splits)
  have "List.find (\<lambda>a. ta_TagName a = ToUpper name) (assigned m' ?k) = None"
    unfolding m'(1) using remove_first_none_left [OF dist] by (auto simp: find_None_iff)
  moreover have "List.find (\<lambda>a. ta_TagName a = ToUpper name) (assigned m ?k) \<noteq> None"
    using m'(2) by (auto simp: find_None_iff list_ex_iff)
  ultimately show ?thesis using dist by (auto simp: GetTagValue_def)
qed

definition sample_tagged :: tag_Manager where
  "sample_tagged = ignore_error sample_tags (SetTag sample_tags ''d'' ''s'' ''cost'' ''table'' ''t'' '''' ''low'')"

lemma sample_tagged_reachable: "tag_reachable sample_tagged"
  unfolding sample_tagged_def
  by (cases "SetTag sample_tags ''d'' ''s'' ''cost'' ''table'' ''t'' '''' ''low''")
    (auto intro: tag_reachable.step [OF sample_tags_reachable] tag_step.set sample_tags_reachable)

theorem unset_removes_witness:
  "\<exists>m'. UnsetTag sample_tagged ''d'' ''s'' ''cost'' ''table'' ''t'' '''' = Inr m' \<and>
     \<not> is_ok (GetTagValue m' ''table'' ''t'' '''' ''cost'')"
proof -
  have "is_ok (UnsetTag sample_tagged ''d'' ''s'' ''cost'' ''table'' ''t'' '''')" by code_simp
  then obtain m' where m': "UnsetTag sample_tagged ''d'' ''s'' ''cost'' ''table'' ''t'' '''' = Inr m'"
    by (auto simp: is_ok_iff)
  with unset_removes [OF sample_tagged_reachable m'] show ?thesis by blast
qed

text \<open>
  Assignments carry the bare tag name, so dropping a tag also removes the assignments of a tag of
  the same name that another schema defines and keeps.
\<close>

lemma drop_removes_namesake:
  assumes "DropTag m db schema name = Inr m'" "tagKey db2 schema2 name \<noteq> tagKey db schema name"
    and "tags m (tagKey db2 schema2 name) = Some tag"
  shows "tags m' (tagKey db2 schema2 name) = Some tag \<and> \<not> is_ok (GetTagValue m' ot obj col name)"
proof -
  from assms(1) have m': "tags m' = (tags m)(tagKey db schema name := None)"
    "assignments m' = (\<lambda>k. Option.bind (assignments m k) (drop_assignments (ToUpper name)))"
    by (auto simp: DropTag_def Let_def split: if_splits)
  have "List.find (\<lambda>a. ta_TagName a = ToUpper name) (assigned m' k) = None" for k
    by (cases "assignments m k")
      (auto simp: assigned_def m'(2) drop_assignments_def Let_def find_None_iff filter_empty_conv)
  with assms(2,3) m'(1) show ?thesis by (simp add: GetTagValue_def)
qed

end
