(* ===== verification/Binding.thy ===== *)
theory Binding
  imports Go_Paths
begin

text \<open>
  \<^verbatim>\<open>internal/binding/binding.go\<close>, with the two renderings at the end of \<^verbatim>\<open>bulk.go\<close>: bound values as SQL
  literals in place of placeholders.
  A position in the text is the rest of the text from there on: \<open>special_len\<close> is the number of bytes
  that \<^verbatim>\<open>skipSpecial\<close> moves past, and the walks keep the byte before the position as \<open>prev\<close>.
  JSON decoding, number and date formatting are the record \<open>bind_lib\<close> of library functions.
\<close>

record Binding =
  b_Type :: string
  b_Value :: string

subsection \<open>Patterns\<close>

definition skip_sign :: "string \<Rightarrow> string" where
  "skip_sign s = (case s of c # t \<Rightarrow> if c = CHR ''+'' \<or> c = CHR ''-'' then t else s | [] \<Rightarrow> [])"

definition all_digits :: "string \<Rightarrow> bool" where
  "all_digits s \<longleftrightarrow> s \<noteq> [] \<and> list_all is_digit s"

text \<open>\<^verbatim>\<open>^[+-]?\d+$\<close>\<close>

definition intRe :: "string \<Rightarrow> bool" where
  "intRe s = all_digits (skip_sign s)"

text \<open>\<^verbatim>\<open>^[+-]?(\d+(\.\d*)?|\.\d+)([eE][+-]?\d+)?$\<close>: sign, mantissa, exponent.\<close>

definition mantissa_rest :: "string \<Rightarrow> string option" where
  "mantissa_rest s =
     (let r = dropWhile is_digit s
      in if r \<noteq> s then
           (case r of c # t \<Rightarrow> if c = CHR ''.'' then Some (dropWhile is_digit t) else Some r | [] \<Rightarrow> Some [])
         else
           (case s of
              c # t \<Rightarrow> if c = CHR ''.'' \<and> dropWhile is_digit t \<noteq> t then Some (dropWhile is_digit t) else None
            | [] \<Rightarrow> None))"

definition decimalRe :: "string \<Rightarrow> bool" where
  "decimalRe s =
     (case mantissa_rest (skip_sign s) of
        None \<Rightarrow> False
      | Some [] \<Rightarrow> True
      | Some (c # t) \<Rightarrow> (c = CHR ''e'' \<or> c = CHR ''E'') \<and> all_digits (skip_sign t))"

definition is_hex :: "char \<Rightarrow> bool" where
  "is_hex c = (let n = (of_char c :: nat)
     in (48 \<le> n \<and> n \<le> 57) \<or> (65 \<le> n \<and> n \<le> 70) \<or> (97 \<le> n \<and> n \<le> 102))"

text \<open>\<^verbatim>\<open>^([0-9a-fA-F]{2})*$\<close>\<close>

definition hexRe :: "string \<Rightarrow> bool" where
  "hexRe s \<longleftrightarrow> even (length s) \<and> list_all is_hex s"

subsection \<open>Skipping literals and comments\<close>

text \<open>Bytes up to just past the closing quote, from just after the opening one.\<close>

fun quoted_len :: "char \<Rightarrow> string \<Rightarrow> nat" where
  "quoted_len q [] = 0"
| "quoted_len q [c] = 1"
| "quoted_len q (c # d # s) =
     (if c \<noteq> q then Suc (quoted_len q (d # s))
      else if d = q then Suc (Suc (quoted_len q s))
      else 1)"

definition skipQuoted :: "string \<Rightarrow> char \<Rightarrow> nat" where
  "skipQuoted s q = Suc (quoted_len q (tl s))"

definition skipUntil :: "string \<Rightarrow> string \<Rightarrow> nat" where
  "skipUntil s end =
     (case Index (drop 2 s) end of Some k \<Rightarrow> 2 + k + length end | None \<Rightarrow> length s)"

definition special_len :: "string \<Rightarrow> nat option" where
  "special_len s =
     (case s of
        [] \<Rightarrow> None
      | c # _ \<Rightarrow>
          if c = CHR 0x27 \<or> c = CHR 0x22 then Some (skipQuoted s c)
          else if HasPrefix s ''$$'' then Some (skipUntil s ''$$'')
          else if HasPrefix s ''/*'' then Some (skipUntil s ''*/'')
          else if HasPrefix s ''--'' \<or> HasPrefix s ''//'' then
            (case Index s [CHR 0x0A] of Some j \<Rightarrow> Some j | None \<Rightarrow> Some (length s))
          else None)"

lemma quoted_len_le: "quoted_len q s \<le> length s"
  by (induction q s rule: quoted_len.induct) auto

lemma special_len_pos: "special_len s = Some n \<Longrightarrow> 0 < n"
proof -
  assume sp: "special_len s = Some n"
  have "0 < j" if "Index s [CHR 0x0A] = Some j" "HasPrefix s ''--'' \<or> HasPrefix s ''//''" for j
    using that by (cases s) (auto split: if_splits)
  with sp show ?thesis
    by (auto simp: special_len_def skipQuoted_def skipUntil_def split: list.splits if_splits option.splits)
qed

lemma special_len_drop [termination_simp]:
  "special_len (c # s) = Some n \<Longrightarrow> length (drop n (c # s)) < Suc (length s)"
  using special_len_pos [of "c # s" n] by (cases n) auto

definition isIdentChar :: "char \<Rightarrow> bool" where
  "isIdentChar c \<longleftrightarrow> c = CHR ''_'' \<or> c = CHR ''$'' \<or> is_digit c \<or> is_alpha c"

subsection \<open>Rendering\<close>

text \<open>
  \<open>lookup\<close> is the closure the code passes; \<open>st\<close> is the state it captures. \<^verbatim>\<open>strconv.Atoi\<close> of a run of
  digits that does not fit gives the largest integer.
\<close>

type_synonym 's lookup = "int \<Rightarrow> 's \<Rightarrow> 's \<times> string result"

definition slot_index :: "string \<Rightarrow> int" where
  "slot_index ds = (case Atoi ds of Some n \<Rightarrow> n | None \<Rightarrow> max_int64)"

definition prepend :: "string \<Rightarrow> 's \<times> string result \<Rightarrow> 's \<times> string result" where
  "prepend p r = (case r of (st, Inl err) \<Rightarrow> (st, Err err) | (st, Inr out) \<Rightarrow> (st, Ok (p @ out)))"

definition is_slot :: "char option \<Rightarrow> string \<Rightarrow> bool" where
  "is_slot prev s \<longleftrightarrow>
     takeWhile is_digit s \<noteq> [] \<and>
     (dropWhile is_digit s = [] \<or> \<not> isIdentChar (hd (dropWhile is_digit s))) \<and>
     (case prev of None \<Rightarrow> True | Some p \<Rightarrow> \<not> isIdentChar p)"

lemma dropWhile_length_less [termination_simp]: "length (dropWhile p s) < Suc (length s)"
  by (simp add: le_imp_less_Suc length_dropWhile_le)

function render :: "'s lookup \<Rightarrow> char option \<Rightarrow> int \<Rightarrow> string \<Rightarrow> 's \<Rightarrow> 's \<times> string result" where
  "render lookup prev next_i [] st = (st, Ok [])"
| "render lookup prev next_i (c # s) st =
     (case special_len (c # s) of
        Some n \<Rightarrow>
          prepend (take n (c # s))
            (render lookup (Some (last (take n (c # s)))) next_i (drop n (c # s)) st)
      | None \<Rightarrow>
          if c = CHR ''?'' then
            (case lookup next_i st of
               (st, Inl err) \<Rightarrow> (st, Err err)
             | (st, Inr lit) \<Rightarrow> prepend lit (render lookup (Some c) (next_i + 1) s st))
          else if c = CHR '':'' then
            (if HasPrefix s '':'' then prepend ''::'' (render lookup (Some (CHR '':'')) next_i (tl s) st)
             else if \<not> is_slot prev s then prepend [c] (render lookup (Some c) next_i s st)
             else
               case lookup (slot_index (takeWhile is_digit s)) st of
                 (st, Inl err) \<Rightarrow> (st, Err err)
               | (st, Inr lit) \<Rightarrow>
                   prepend lit (render lookup (Some (last (takeWhile is_digit s))) next_i (dropWhile is_digit s) st))
          else prepend [c] (render lookup (Some c) next_i s st))"
  by pat_completeness auto
termination
  by (relation "measure (\<lambda>(lookup, prev, next_i, s, st). length s)")
    (auto simp: termination_simp simp del: drop_Cons length_drop)

definition render_sql :: "'s lookup \<Rightarrow> string \<Rightarrow> 's \<Rightarrow> 's \<times> string result" where
  "render_sql lookup sql st = render lookup None 1 sql st"

subsection \<open>Literals\<close>

datatype float_value = NaN | PosInf | NegInf | Finite string

record bind_lib =
  Unmarshal_string :: "string \<Rightarrow> string option"
  Unmarshal_array :: "string \<Rightarrow> string list option"
  ParseFloat :: "string \<Rightarrow> float_value option"
  format_date :: "int \<Rightarrow> string"
  format_time :: "int \<Rightarrow> string"
  format_timestamp :: "int \<Rightarrow> string"
  format_timestamp_tz :: "int \<Rightarrow> string"

definition quote :: "string \<Rightarrow> string" where
  "quote s = [CHR 0x27] @ ReplaceAll s [CHR 0x27] [CHR 0x27, CHR 0x27] @ [CHR 0x27]"

definition parenNegative :: "string \<Rightarrow> string" where
  "parenNegative s = (if HasPrefix s ''-'' then ''('' @ s @ '')'' else TrimPrefix s ''+'')"

text \<open>
  \<^verbatim>\<open>strconv.ParseInt(v, 10, 64)\<close> on a text that matches \<^verbatim>\<open>intRe\<close>: the value, or the bound it exceeds with
  an error.
\<close>

definition ParseInt_clamped :: "string \<Rightarrow> int" where
  "ParseInt_clamped v =
     (case Atoi v of Some n \<Rightarrow> n | None \<Rightarrow> if HasPrefix v ''-'' then min_int64 else max_int64)"

definition epochNanos :: "string \<Rightarrow> int option" where
  "epochNanos v =
     (let field = takeWhile (\<lambda>c. c \<noteq> CHR '' '') v
      in if \<not> intRe field then None else Atoi field)"

definition cast_to :: "string \<Rightarrow> string \<Rightarrow> string" where
  "cast_to v ty = ''CAST('' @ quote v @ '' AS '' @ ty @ '')''"

definition literal :: "bind_lib \<Rightarrow> Binding \<Rightarrow> string result" where
  "literal lib b =
     (let raw = TrimSpace (b_Value b)
      in if raw = '''' \<or> raw = ''null'' then Ok ''NULL''
         else if hd raw = CHR ''['' then Err (NotAllowed ''array bindings'' '''')
         else
           case Unmarshal_string lib (b_Value b) of
             None \<Rightarrow> Err (Invalid ''bind value'' (b_Type b))
           | Some v \<Rightarrow>
               (let typ = ToUpper (b_Type b); bad = Err (Invalid v typ)
                in if typ = ''FIXED'' then (if intRe v \<or> decimalRe v then Ok (parenNegative v) else bad)
                   else if typ = ''REAL'' then
                     (case ParseFloat lib v of
                        None \<Rightarrow> bad
                      | Some NaN \<Rightarrow> Ok (quote ''NaN'' @ ''::DOUBLE'')
                      | Some PosInf \<Rightarrow> Ok (quote ''Infinity'' @ ''::DOUBLE'')
                      | Some NegInf \<Rightarrow> Ok (quote ''-Infinity'' @ ''::DOUBLE'')
                      | Some (Finite f) \<Rightarrow> Ok (parenNegative f @ ''::DOUBLE''))
                   else if typ = ''BOOLEAN'' then
                     (if ToLower v \<in> set [''true'', ''1'', ''t'', ''yes'', ''y'', ''on''] then Ok ''TRUE''
                      else if ToLower v \<in> set [''false'', ''0'', ''f'', ''no'', ''n'', ''off''] then Ok ''FALSE''
                      else bad)
                   else if typ = ''DATE'' then
                     (if intRe v then Ok (cast_to (format_date lib (ParseInt_clamped v)) ''DATE'')
                      else Ok (cast_to v ''DATE''))
                   else if typ = ''TIME'' then
                     (if intRe v then Ok (cast_to (format_time lib (ParseInt_clamped v)) ''TIME'')
                      else Ok (cast_to v ''TIME''))
                   else if typ = ''TIMESTAMP_NTZ'' then
                     (case epochNanos v of
                        Some ts \<Rightarrow> Ok (cast_to (format_timestamp lib ts) ''TIMESTAMP'')
                      | None \<Rightarrow> Ok (cast_to v ''TIMESTAMP''))
                   else if typ = ''TIMESTAMP_LTZ'' \<or> typ = ''TIMESTAMP_TZ'' then
                     (case epochNanos v of
                        Some ts \<Rightarrow> Ok (cast_to (format_timestamp_tz lib ts) ''TIMESTAMPTZ'')
                      | None \<Rightarrow> Ok (cast_to v ''TIMESTAMPTZ''))
                   else if typ = ''BINARY'' then
                     (if \<not> hexRe v then bad else Ok (''from_hex('' @ quote v @ '')''))
                   else Ok (quote v)))"

text \<open>
  The bindings of a statement, keyed "1", "2" and so on: a Go map, as its entries in the order in
  which \<^verbatim>\<open>range\<close> visits them. The closure of \<^verbatim>\<open>Substitute\<close> captures no state.
\<close>

type_synonym bindings = "(string \<times> Binding) list"

definition bind_lookup :: "bind_lib \<Rightarrow> bindings \<Rightarrow> unit lookup" where
  "bind_lookup lib bs idx st =
     ((), case map_of bs (Itoa idx) of
            None \<Rightarrow> Err (DoesNotExist ''bind variable'' (Itoa idx))
          | Some b \<Rightarrow> literal lib b)"

definition Substitute :: "bind_lib \<Rightarrow> string \<Rightarrow> bindings \<Rightarrow> string result" where
  "Substitute lib sql bs =
     (if bs = [] then Ok sql else snd (render_sql (bind_lookup lib bs) sql ()))"

definition hasPlaceholder :: "string \<Rightarrow> bool" where
  "hasPlaceholder sql = fst (render_sql (\<lambda>_ _. (True, Ok [CHR 0x22, CHR 0x22])) sql False)"

definition FillNull :: "string \<Rightarrow> string" where
  "FillNull sql =
     (case snd (render_sql (\<lambda>_ st. (st, Ok ''NULL'')) sql ()) of Inl _ \<Rightarrow> '''' | Inr out \<Rightarrow> out)"

subsection \<open>Self-contained text\<close>

text \<open>
  Text that the walk copies byte by byte: no quote, dollar, slash or question mark, no two dashes in
  a row, and colons in pairs only.
\<close>

fun calm :: "string \<Rightarrow> bool" where
  "calm [] = True"
| "calm (c # s) =
     (if c = CHR '':'' then (case s of [] \<Rightarrow> False | d # s' \<Rightarrow> d = CHR '':'' \<and> calm s')
      else c \<noteq> CHR 0x27 \<and> c \<noteq> CHR 0x22 \<and> c \<noteq> CHR ''$'' \<and> c \<noteq> CHR ''/'' \<and> c \<noteq> CHR ''?'' \<and>
        (c = CHR ''-'' \<longrightarrow> s \<noteq> [] \<and> hd s \<noteq> CHR ''-'') \<and> calm s)"

definition prev_after :: "char option \<Rightarrow> string \<Rightarrow> char option" where
  "prev_after prev s = (if s = [] then prev else Some (last s))"

lemma prepend_Nil [simp]: "prepend [] r = r"
  by (auto simp: prepend_def split: prod.split sum.split)

lemma prepend_prepend [simp]: "prepend a (prepend b r) = prepend (a @ b) r"
  by (auto simp: prepend_def split: prod.split sum.split)

lemma prev_after_append: "prev_after prev (a @ b) = prev_after (prev_after prev a) b"
  by (simp add: prev_after_def)

lemma render_calm:
  "calm a \<Longrightarrow> render lookup prev n (a @ rest) st = prepend a (render lookup (prev_after prev a) n rest st)"
proof (induction a arbitrary: prev rule: calm.induct)
  case 1
  show ?case by (simp add: prev_after_def)
next
  case (2 c s)
  show ?case
  proof (cases "c = CHR '':''")
    case True
    with "2.prems" obtain s' where s: "s = CHR '':'' # s'" "calm s'" by (cases s) auto
    have "special_len (CHR '':'' # CHR '':'' # s' @ rest) = None" by (simp add: special_len_def)
    with "2.IH"(1) [OF True s(1)] s True show ?thesis by (simp add: prev_after_def)
  next
    case False
    with "2.prems" have c: "c \<noteq> CHR 0x27" "c \<noteq> CHR 0x22" "c \<noteq> CHR ''$''" "c \<noteq> CHR ''/''" "c \<noteq> CHR ''?''"
      "c = CHR ''-'' \<longrightarrow> s \<noteq> [] \<and> hd s \<noteq> CHR ''-''" and s: "calm s" by auto
    have "special_len (c # s @ rest) = None"
      using c by (cases s) (auto simp: special_len_def)
    with "2.IH"(2) [OF False s] c False show ?thesis by (simp add: prev_after_def)
  qed
qed

text \<open>A quoted text is skipped as a whole, unless another quote follows at once.\<close>

lemma quoted_len_quote:
  "(rest = [] \<or> hd rest \<noteq> q) \<Longrightarrow>
   quoted_len q (concat (map (\<lambda>c. if c = q then [q, q] else [c]) v) @ q # rest) =
     Suc (length (concat (map (\<lambda>c. if c = q then [q, q] else [c]) v)))"
proof (induction v)
  case Nil
  then show ?case by (cases rest) auto
next
  case (Cons c v)
  show ?case
  proof (cases "c = q")
    case True
    with Cons show ?thesis by simp
  next
    case False
    obtain d t where dt: "concat (map (\<lambda>c. if c = q then [q, q] else [c]) v) @ q # rest = d # t"
      by (cases "concat (map (\<lambda>c. if c = q then [q, q] else [c]) v) @ q # rest") auto
    with False have "quoted_len q (concat (map (\<lambda>c. if c = q then [q, q] else [c]) (c # v)) @ q # rest) =
        Suc (quoted_len q (d # t))" by simp
    with Cons.IH [OF Cons.prems] False dt show ?thesis by simp
  qed
qed

lemma special_quote:
  assumes "rest = [] \<or> hd rest \<noteq> CHR 0x27"
  shows "special_len (quote v @ rest) = Some (length (quote v))"
  using quoted_len_quote [OF assms, of v]
  by (simp add: special_len_def quote_def skipQuoted_def ReplaceAll_double)

lemma quote_nonempty [simp]: "quote v \<noteq> []" "last (quote v) = CHR 0x27"
  by (simp_all add: quote_def)

lemma render_quote:
  assumes "rest = [] \<or> hd rest \<noteq> CHR 0x27"
  shows "render lookup prev n (quote v @ rest) st =
    prepend (quote v) (render lookup (prev_after prev (quote v)) n rest st)"
proof -
  obtain c s where cs: "quote v @ rest = c # s" by (cases "quote v @ rest") auto
  have "special_len (c # s) = Some (length (quote v))"
    using special_quote [OF assms, of v] unfolding cs .
  moreover have "take (length (quote v)) (c # s) = quote v" "drop (length (quote v)) (c # s) = rest"
    using cs by (metis append_eq_conv_conj)+
  ultimately show ?thesis unfolding cs by (simp add: prev_after_def)
qed

text \<open>The shape of every literal: calm text, with at most one quoted value in it.\<close>

definition self_contained :: "string \<Rightarrow> bool" where
  "self_contained lit \<longleftrightarrow> (lit \<noteq> [] \<and> calm lit) \<or>
     (\<exists>a v b. lit = a @ quote v @ b \<and> calm a \<and> calm b)"

lemma calm_hd: "calm b \<Longrightarrow> b = [] \<or> hd b \<noteq> CHR 0x27"
  by (cases b) (auto split: if_splits)

lemma render_self_contained:
  assumes "self_contained lit" "rest = [] \<or> hd rest \<noteq> CHR 0x27"
  shows "render lookup prev n (lit @ rest) st =
    prepend lit (render lookup (prev_after prev lit) n rest st)"
  using assms(1) unfolding self_contained_def
proof
  assume "\<exists>a v b. lit = a @ quote v @ b \<and> calm a \<and> calm b"
  then obtain a v b where lit: "lit = a @ quote v @ b" and calm: "calm a" "calm b" by blast
  have "b @ rest = [] \<or> hd (b @ rest) \<noteq> CHR 0x27" using calm_hd [OF calm(2)] assms(2) by (cases b) auto
  note mid = render_quote [OF this, of lookup _ n v st]
  have "render lookup prev n (lit @ rest) st = render lookup prev n (a @ quote v @ b @ rest) st"
    by (simp add: lit)
  also have "\<dots> = prepend (a @ quote v @ b)
      (render lookup (prev_after (prev_after (prev_after prev a) (quote v)) b) n rest st)"
    unfolding render_calm [OF calm(1)] mid render_calm [OF calm(2)] by simp
  finally show ?thesis by (simp only: lit prev_after_append)
qed (simp add: render_calm)

lemma calm_append: "calm a \<Longrightarrow> calm b \<Longrightarrow> calm (a @ b)"
proof (induction a rule: calm.induct)
  case (2 c s)
  then show ?case by (cases s) (auto split: if_splits)
qed simp

lemma calm_digits: "list_all is_digit s \<Longrightarrow> calm s"
proof (induction s)
  case (Cons c s)
  then have "is_digit c" by simp
  then have "c \<noteq> CHR '':''" "c \<noteq> CHR 0x27" "c \<noteq> CHR 0x22" "c \<noteq> CHR ''$''" "c \<noteq> CHR ''/''" "c \<noteq> CHR ''?''"
    "c \<noteq> CHR ''-''" by (auto simp: is_digit_def)
  with Cons show ?case by simp
qed simp

text \<open>The text of an unsigned number: calm and not starting with a sign.\<close>

definition unsigned_text :: "string \<Rightarrow> bool" where
  "unsigned_text s \<longleftrightarrow> s \<noteq> [] \<and> calm s \<and> hd s \<noteq> CHR ''-'' \<and> hd s \<noteq> CHR ''+''"

lemma digit_no_sign: "is_digit c \<Longrightarrow> c \<noteq> CHR ''-'' \<and> c \<noteq> CHR ''+''"
  by (auto simp: is_digit_def)

lemma unsigned_digits: "all_digits s \<Longrightarrow> unsigned_text s"
  by (cases s) (auto simp: all_digits_def unsigned_text_def calm_digits digit_no_sign simp del: calm.simps
      intro: calm_digits)

lemma signed_calm: "unsigned_text (skip_sign t) \<Longrightarrow> calm t"
  by (cases t) (auto simp: skip_sign_def unsigned_text_def split: if_splits)

lemma paren_calm:
  assumes "unsigned_text (skip_sign v)"
  shows "calm (parenNegative v) \<and> parenNegative v \<noteq> []"
proof (cases v)
  case Nil
  with assms show ?thesis by (simp add: skip_sign_def unsigned_text_def)
next
  case (Cons c t)
  show ?thesis
  proof (cases "c = CHR ''-''")
    case True
    with signed_calm [OF assms] Cons have "calm (v @ '')'')" by (intro calm_append) auto
    with True Cons show ?thesis by (simp add: parenNegative_def)
  next
    case False
    with assms Cons show ?thesis
      by (auto simp: parenNegative_def TrimPrefix_def skip_sign_def unsigned_text_def split: if_splits)
  qed
qed

lemma mantissa_text:
  assumes "mantissa_rest s = Some r"
  shows "\<exists>m. s = m @ r \<and> unsigned_text m"
proof (cases "dropWhile is_digit s = s")
  case True
  with assms obtain t where s: "s = CHR ''.'' # t" "r = dropWhile is_digit t"
    by (cases s) (auto simp: mantissa_rest_def split: if_splits)
  have "s = (CHR ''.'' # takeWhile is_digit t) @ r" by (simp add: s)
  moreover have "unsigned_text (CHR ''.'' # takeWhile is_digit t)"
    using calm_digits [of "takeWhile is_digit t"]
    by (auto simp: unsigned_text_def list_all_iff dest: set_takeWhileD)
  ultimately show ?thesis by blast
next
  case False
  let ?d = "takeWhile is_digit s" and ?r = "dropWhile is_digit s"
  have "?d \<noteq> []" using False by (metis dropWhile_eq_self_iff takeWhile_eq_Nil_iff)
  then have d: "unsigned_text ?d"
    by (intro unsigned_digits) (auto simp: all_digits_def list_all_iff dest: set_takeWhileD)
  show ?thesis
  proof (cases "?r \<noteq> [] \<and> hd ?r = CHR ''.''")
    case True
    then obtain t where t: "?r = CHR ''.'' # t" by (cases ?r) auto
    with assms False have r: "r = dropWhile is_digit t" by (simp add: mantissa_rest_def Let_def)
    have "s = (?d @ CHR ''.'' # takeWhile is_digit t) @ r"
      using takeWhile_dropWhile_id [of is_digit s] t r by simp
    moreover have "calm (CHR ''.'' # takeWhile is_digit t)"
      using calm_digits [of "takeWhile is_digit t"] by (auto simp: list_all_iff dest: set_takeWhileD)
    then have "unsigned_text (?d @ CHR ''.'' # takeWhile is_digit t)"
      using d calm_append [of ?d] by (auto simp: unsigned_text_def)
    ultimately show ?thesis by blast
  next
    case False
    have "mantissa_rest s = (case ?r of c # t \<Rightarrow> if c = CHR ''.'' then Some (dropWhile is_digit t) else Some ?r
        | [] \<Rightarrow> Some [])" using \<open>?r \<noteq> s\<close> by (simp add: mantissa_rest_def Let_def)
    also have "\<dots> = Some ?r"
    proof -
      have "(case x of c # t \<Rightarrow> if c = CHR ''.'' then Some (dropWhile is_digit t) else Some x | [] \<Rightarrow> Some []) = Some x"
        if "\<not> (x \<noteq> [] \<and> hd x = CHR ''.'')" for x using that by (cases x) simp_all
      from this [OF False] show ?thesis .
    qed
    finally have "r = ?r" using assms by simp
    then have "s = ?d @ r" by simp
    with d show ?thesis by blast
  qed
qed

lemma number_text:
  assumes "intRe v \<or> decimalRe v"
  shows "unsigned_text (skip_sign v)"
proof (cases "intRe v")
  case True
  then show ?thesis by (simp add: intRe_def unsigned_digits)
next
  case False
  with assms obtain r where r: "mantissa_rest (skip_sign v) = Some r"
    "r = [] \<or> (\<exists>c t. r = c # t \<and> (c = CHR ''e'' \<or> c = CHR ''E'') \<and> all_digits (skip_sign t))"
    by (auto simp: decimalRe_def split: option.splits list.splits)
  from mantissa_text [OF r(1)] obtain m where m: "skip_sign v = m @ r" "unsigned_text m" by blast
  have "calm r" using r(2) signed_calm [OF unsigned_digits] by auto
  with m show ?thesis using calm_append [of m r] by (auto simp: unsigned_text_def)
qed

lemma self_contained_calm: "calm s \<Longrightarrow> s \<noteq> [] \<Longrightarrow> self_contained s"
  by (simp add: self_contained_def)

lemma self_contained_quote: "calm a \<Longrightarrow> calm b \<Longrightarrow> self_contained (a @ quote v @ b)"
  by (auto simp: self_contained_def)

lemma cast_self_contained:
  "self_contained (cast_to v ''DATE'')" "self_contained (cast_to v ''TIME'')"
  "self_contained (cast_to v ''TIMESTAMP'')" "self_contained (cast_to v ''TIMESTAMPTZ'')"
  unfolding cast_to_def by (rule self_contained_quote; code_simp)+

lemma wrapped_self_contained:
  "self_contained (quote v)" "self_contained (quote v @ ''::DOUBLE'')"
  "self_contained (''from_hex('' @ quote v @ '')'')"
  using self_contained_quote [of "[]" "[]" v] self_contained_quote [of "[]" "''::DOUBLE''" v]
    self_contained_quote [of "''from_hex(''" "'')''" v] by simp_all

lemma literal_self_contained:
  assumes "literal lib b = Inr lit"
    and "\<And>v t. ParseFloat lib v = Some (Finite t) \<Longrightarrow> decimalRe t"
  shows "self_contained lit"
proof -
  have words: "self_contained ''NULL''" "self_contained ''TRUE''" "self_contained ''FALSE''"
    by (rule self_contained_calm; code_simp)+
  have num: "self_contained (parenNegative v)" if "intRe v \<or> decimalRe v" for v
    using paren_calm [OF number_text [OF that]] self_contained_calm by blast
  have float: "self_contained (parenNegative t @ ''::DOUBLE'')" if "ParseFloat lib v = Some (Finite t)" for v t
  proof -
    have "calm ''::DOUBLE''" by code_simp
    with paren_calm [OF number_text, of t] assms(2) [OF that] show ?thesis
      by (auto intro!: self_contained_calm calm_append)
  qed
  show ?thesis
    using assms(1) words num float cast_self_contained wrapped_self_contained
    by (auto simp: literal_def Let_def split: if_splits option.splits float_value.splits)
qed

subsection \<open>Text without placeholders\<close>

definition flag_lookup :: "bool lookup" where
  "flag_lookup idx st = (True, Ok [CHR 0x22, CHR 0x22])"

lemma fst_prepend [simp]: "fst (prepend p r) = fst r"
  by (auto simp: prepend_def split: prod.split sum.split)

lemma flag_lookup_apply: "flag_lookup i st = (True, Inr [CHR 0x22, CHR 0x22])"
  by (simp add: flag_lookup_def)

lemma render_question:
  "special_len (CHR ''?'' # s) = None \<Longrightarrow> lookup n st = (st', Inr lit) \<Longrightarrow>
   render lookup prev n (CHR ''?'' # s) st = prepend lit (render lookup (Some (CHR ''?'')) (n + 1) s st')"
  by simp

lemma render_slot:
  "special_len (CHR '':'' # s) = None \<Longrightarrow> \<not> HasPrefix s '':'' \<Longrightarrow> is_slot prev s \<Longrightarrow>
   lookup (slot_index (takeWhile is_digit s)) st = (st', Inr lit) \<Longrightarrow>
   render lookup prev n (CHR '':'' # s) st =
     prepend lit (render lookup (Some (last (takeWhile is_digit s))) n (dropWhile is_digit s) st')"
  by simp

lemma flag_stays: "fst (render flag_lookup prev n s True)"
proof (induction flag_lookup prev n s True rule: render.induct)
  case (2 prev n c s)
  then show ?case by (auto simp: flag_lookup_apply split: option.split)
qed simp

lemma no_flag_identity:
  "\<not> fst (render flag_lookup prev n s False) \<Longrightarrow> render lookup prev n s st = (st, Ok s)"
proof (induction s arbitrary: prev n rule: length_induct)
  case (1 s)
  have pre: "prepend p (st, Ok t) = (st, Ok (p @ t))" for p t by (simp add: prepend_def)
  show ?case
  proof (cases s)
    case (Cons c t)
    have IH: "render lookup prev' n' t' st = (st, Ok t')"
      if "length t' < length s" "\<not> fst (render flag_lookup prev' n' t' False)" for prev' n' t'
      using 1 that by blast
    show ?thesis
    proof (cases "special_len (c # t)")
      case (Some k)
      with "1.prems" Cons have "\<not> fst (render flag_lookup (Some (last (take k (c # t)))) n (drop k (c # t)) False)"
        by simp
      from IH [OF _ this] special_len_drop [OF Some] Some Cons show ?thesis by (simp add: pre)
    next
      case None
      have q: "c \<noteq> CHR ''?''"
      proof
        assume c: "c = CHR ''?''"
        have sp: "special_len (CHR ''?'' # t) = None" using None c by blast
        have "fst (render flag_lookup prev n (CHR ''?'' # t) False)"
          unfolding render_question [of t flag_lookup n False, OF sp flag_lookup_apply]
          by (simp only: fst_prepend flag_stays)
        with "1.prems" show False unfolding Cons c by blast
      qed
      have slot: "\<not> is_slot prev t" if "c = CHR '':''" "\<not> HasPrefix t '':''"
      proof
        assume sl: "is_slot prev t"
        have sp: "special_len (CHR '':'' # t) = None" using None that(1) by blast
        have "fst (render flag_lookup prev n (CHR '':'' # t) False)"
          unfolding render_slot [of t prev flag_lookup False, OF sp that(2) sl flag_lookup_apply]
          by (simp only: fst_prepend flag_stays)
        with "1.prems" show False unfolding Cons that(1) by blast
      qed
      consider "c = CHR '':''" "HasPrefix t '':''" | "c = CHR '':''" "\<not> HasPrefix t '':''" | "c \<noteq> CHR '':''" by blast
      then show ?thesis
      proof cases
        case 1
        then obtain u where u: "t = CHR '':'' # u" by (cases t) auto
        with "1.prems" None 1 Cons have "\<not> fst (render flag_lookup (Some (CHR '':'')) n u False)" by simp
        from IH [OF _ this] None 1 Cons u show ?thesis by (simp add: pre)
      next
        case 2
        with "1.prems" None slot [OF 2] Cons have "\<not> fst (render flag_lookup (Some c) n t False)" by simp
        from IH [OF _ this] None 2 slot [OF 2] Cons show ?thesis by (simp add: pre)
      next
        case 3
        with "1.prems" None q Cons have "\<not> fst (render flag_lookup (Some c) n t False)" by simp
        from IH [OF _ this] None 3 q Cons show ?thesis by (simp add: pre)
      qed
    qed
  qed simp
qed

lemma hasPlaceholder_eq: "hasPlaceholder sql = fst (render flag_lookup None 1 sql False)"
  unfolding hasPlaceholder_def render_sql_def by (simp add: flag_lookup_def [abs_def])

lemma Substitute_plain: "\<not> hasPlaceholder sql \<Longrightarrow> Substitute lib sql bs = Inr sql"
  by (simp add: hasPlaceholder_eq Substitute_def render_sql_def no_flag_identity)

text \<open>With a lookup that never fails, rendering never fails.\<close>

lemma render_total:
  "(\<And>i st. is_ok (snd (lookup i st))) \<Longrightarrow> is_ok (snd (render lookup prev n s st))"
proof (induction lookup prev n s st rule: render.induct)
  case (2 lookup prev n c s st)
  have pre: "is_ok (snd (prepend p r)) = is_ok (snd r)" for p r
    by (cases r; cases "snd r") (auto simp: prepend_def)
  have lk: "\<exists>st' lit. lookup i st = (st', Inr lit)" for i st
    using "2.prems" [of i st] by (cases "lookup i st") (auto simp: is_ok_iff)
  from "2.IH" "2.prems" show ?case
    using lk [of n st] lk [of "slot_index (takeWhile is_digit s)" st]
    by (auto simp: pre split: option.split)
qed simp

subsection \<open>Properties of rendering\<close>

text \<open>
  C5. The literal of a bound value is a unit of its own, whatever the type and the value of the
  binding. Put in front of any text that does not start
  with a single quote it is copied as it is by the walk that finds string literals, comments and
  placeholders, which goes on in that text as if it started there; no byte of the value starts a
  comment, closes the literal early or is taken for a placeholder. (\<^verbatim>\<open>strconv.FormatFloat\<close> prints a
  decimal number.)
\<close>

theorem literal_is_inert:
  assumes "literal lib b = Inr lit" "\<And>v t. ParseFloat lib v = Some (Finite t) \<Longrightarrow> decimalRe t"
    and "rest = [] \<or> hd rest \<noteq> CHR 0x27"
  shows "lit \<noteq> [] \<and> render lookup prev n (lit @ rest) st = prepend lit (render lookup (Some (last lit)) n rest st)"
proof -
  note self = literal_self_contained [OF assms(1,2)]
  then have "lit \<noteq> []" by (auto simp: self_contained_def)
  with render_self_contained [OF self assms(3)] show ?thesis by (simp add: prev_after_def)
qed

definition sample_lib :: bind_lib where
  "sample_lib = \<lparr>Unmarshal_string = (\<lambda>s. Some (tl (butlast s))), Unmarshal_array = (\<lambda>s. Some (Split (tl (butlast s)) (CHR '',''))),
     ParseFloat = (\<lambda>s. Some (Finite ''-1.5e-3'')), format_date = Itoa, format_time = Itoa,
     format_timestamp = Itoa, format_timestamp_tz = Itoa\<rparr>"

definition sample_binding :: Binding where
  "sample_binding = \<lparr>b_Type = ''TEXT'', b_Value = [CHR 0x22] @ ''x'' @ [CHR 0x27] @ ''); DROP--?'' @ [CHR 0x22]\<rparr>"

theorem literal_is_inert_witness:
  "literal sample_lib sample_binding = Inr (quote (''x'' @ [CHR 0x27] @ ''); DROP--?'')) \<and>
   render (\<lambda>i st. (st, Ok ''1'')) None 1 (quote (''x'' @ [CHR 0x27] @ ''); DROP--?'') @ '' , ?'') () =
     prepend (quote (''x'' @ [CHR 0x27] @ ''); DROP--?''))
       (render (\<lambda>i st. (st, Ok ''1'')) (Some (CHR 0x27)) 1 '' , ?'' ())"
proof -
  let ?lit = "quote (''x'' @ [CHR 0x27] @ ''); DROP--?'')"
  have lit: "literal sample_lib sample_binding = Inr ?lit" by code_simp
  have "decimalRe ''-1.5e-3''" by code_simp
  then have float: "decimalRe t" if "ParseFloat sample_lib v = Some (Finite t)" for v t
    using that by (simp add: sample_lib_def)
  from literal_is_inert [where rest = "'' , ?''" and lookup = "\<lambda>i st. (st, Ok ''1'')" and prev = None and n = 1
      and st = "()", OF lit float] lit show ?thesis by simp
qed

text \<open>
  Directly after a closing quote it is not: a quoted value and the literal before it become one
  literal.
\<close>

lemma literal_after_quote_merges:
  "Substitute sample_lib ([CHR 0x27] @ ''a'' @ [CHR 0x27] @ ''?'') [(''1'', sample_binding\<lparr>b_Value := [CHR 0x22] @ ''b'' @ [CHR 0x22]\<rparr>)] =
     Inr (quote (''a'' @ [CHR 0x27] @ ''b''))"
  by code_simp

text \<open>
  A statement without placeholders is rendered as it is, whatever the bindings are, and so it is
  when placeholders are filled with NULL.
\<close>

theorem no_placeholder_unchanged:
  assumes "\<not> hasPlaceholder sql"
  shows "Substitute lib sql bs = Inr sql \<and> FillNull sql = sql"
  using assms Substitute_plain [OF assms]
  by (simp add: FillNull_def render_sql_def hasPlaceholder_eq no_flag_identity)

theorem no_placeholder_unchanged_witness:
  "Substitute sample_lib ''SELECT a::INT -- ?'' [(''1'', sample_binding)] = Inr ''SELECT a::INT -- ?''"
proof -
  have "\<not> hasPlaceholder ''SELECT a::INT -- ?''" by code_simp
  from no_placeholder_unchanged [OF this] show ?thesis by blast
qed

end
