(* ===== verification/Bulk.thy ===== *)
theory Bulk
  imports Binding "HOL-Library.List_Lexorder" "HOL-Library.Char_ord"
begin

text \<open>
  \<^verbatim>\<open>internal/binding/bulk.go\<close>: array bindings, pivoted into one set of scalar bindings per row, and the
  folding of a bulk \<^verbatim>\<open>INSERT ... VALUES\<close> into one statement. The bindings are the entries of the Go map
  in the order in which \<^verbatim>\<open>range\<close> visits them; that a map has a key only once is \<open>distinct (map fst bs)\<close>.
\<close>

definition isArray :: "string \<Rightarrow> bool" where
  "isArray v = (let t = TrimSpace v in t \<noteq> '''' \<and> hd t = CHR ''['')"

definition IsBulk :: "bindings \<Rightarrow> bool" where
  "IsBulk bs = list_ex (\<lambda>(k, b). isArray (b_Value b)) bs"

subsection \<open>Rows\<close>

text \<open>\<^verbatim>\<open>bindings[k]\<close>, the zero value for a missing key.\<close>

definition bound :: "bindings \<Rightarrow> string \<Rightarrow> Binding" where
  "bound bs k = (case map_of bs k of Some b \<Rightarrow> b | None \<Rightarrow> \<lparr>b_Type = '''', b_Value = ''''\<rparr>)"

text \<open>The loop over the sorted keys; \<open>n\<close> is -1 until the first array is seen.\<close>

fun scan_cols ::
  "bind_lib \<Rightarrow> bindings \<Rightarrow> string list \<Rightarrow> int \<Rightarrow> (string \<rightharpoonup> string list) \<Rightarrow> (int \<times> (string \<rightharpoonup> string list)) result"
where
  "scan_cols lib bs [] n cols = Ok (n, cols)"
| "scan_cols lib bs (k # ks) n cols =
     (let b = bound bs k
      in if \<not> isArray (b_Value b) then scan_cols lib bs ks n cols
         else case Unmarshal_array lib (b_Value b) of
                None \<Rightarrow> Err (Invalid ''bind array'' k)
              | Some vals \<Rightarrow>
                  if 0 \<le> n \<and> int (length vals) \<noteq> n then Err (Invalid ''bind array length'' k)
                  else scan_cols lib bs ks (int (length vals)) (cols(k \<mapsto> vals)))"

definition make_row :: "bindings \<Rightarrow> (string \<rightharpoonup> string list) \<Rightarrow> nat \<Rightarrow> bindings" where
  "make_row bs cols r =
     map (\<lambda>(k, b). (k, case cols k of
                         Some vals \<Rightarrow> \<lparr>b_Type = b_Type b, b_Value = vals ! r\<rparr>
                       | None \<Rightarrow> b)) bs"

text \<open>\<^verbatim>\<open>make\<close> with a negative length panics; the last error branch stands for it.\<close>

definition splitRows :: "bind_lib \<Rightarrow> bindings \<Rightarrow> bindings list result" where
  "splitRows lib bs =
     (case scan_cols lib bs (sort (map fst bs)) (- 1) Map.empty of
        Inl err \<Rightarrow> Err err
      | Inr (n, cols) \<Rightarrow>
          if n = 0 then Err (Invalid ''bind arrays'' ''empty'')
          else if n < 0 then Err (ExecError ''makeslice: len out of range'')
          else Ok (map (make_row bs cols) [0..<nat n]))"

subsection \<open>The INSERT form\<close>

definition values_here :: "char option \<Rightarrow> string \<Rightarrow> bool" where
  "values_here prev s \<longleftrightarrow>
     (hd s = CHR ''v'' \<or> hd s = CHR ''V'') \<and>
     (case prev of None \<Rightarrow> True | Some p \<Rightarrow> \<not> isIdentChar p) \<and>
     6 \<le> length s \<and> EqualFold (take 6 s) ''VALUES'' \<and>
     (length s = 6 \<or> \<not> isIdentChar (s ! 6))"

text \<open>The walk to the keyword: the text before it and the text after it.\<close>

function find_values :: "char option \<Rightarrow> int \<Rightarrow> string \<Rightarrow> (string \<times> string) option" where
  "find_values prev depth [] = None"
| "find_values prev depth (c # s) =
     (case special_len (c # s) of
        Some n \<Rightarrow>
          map_option (apfst (append (take n (c # s))))
            (find_values (Some (last (take n (c # s)))) depth (drop n (c # s)))
      | None \<Rightarrow>
          if c = CHR ''('' then map_option (apfst (Cons c)) (find_values (Some c) (depth + 1) s)
          else if c = CHR '')'' then map_option (apfst (Cons c)) (find_values (Some c) (depth - 1) s)
          else if depth = 0 \<and> values_here prev (c # s) then Some ([], drop 6 (c # s))
          else map_option (apfst (Cons c)) (find_values (Some c) depth s))"
  by pat_completeness auto
termination
  by (relation "measure (\<lambda>(prev, depth, s). length s)")
    (auto simp: termination_simp simp del: drop_Cons length_drop)

text \<open>The parenthesis depth at the end of the tuple, or \<open>None\<close> when the group closes before the end.\<close>

function tuple_depth :: "int \<Rightarrow> string \<Rightarrow> int option" where
  "tuple_depth depth [] = Some depth"
| "tuple_depth depth (c # s) =
     (case special_len (c # s) of
        Some n \<Rightarrow> tuple_depth depth (drop n (c # s))
      | None \<Rightarrow>
          if c = CHR ''('' then tuple_depth (depth + 1) s
          else if c = CHR '')'' then
            (if depth - 1 = 0 \<and> s \<noteq> [] then None else tuple_depth (depth - 1) s)
          else tuple_depth depth s)"
  by pat_completeness auto
termination
  by (relation "measure (\<lambda>(depth, s). length s)")
    (auto simp: termination_simp simp del: drop_Cons length_drop)

definition splitInsertValues :: "string \<Rightarrow> (string \<times> string) option" where
  "splitInsertValues sql0 =
     (let sql = TrimSpace (TrimSuffix (TrimSpace sql0) '';'')
      in if length sql < 6 \<or> \<not> EqualFold (take 6 sql) ''INSERT'' then None
         else case find_values None 0 sql of
                None \<Rightarrow> None
              | Some (before, after) \<Rightarrow>
                  (let prefix = TrimSpace before; tuple = TrimSpace after
                   in if \<not> HasPrefix tuple ''('' \<or> hasPlaceholder prefix then None
                      else case tuple_depth 0 tuple of
                             None \<Rightarrow> None
                           | Some depth \<Rightarrow> if depth \<noteq> 0 then None else Some (prefix, tuple)))"

subsection \<open>Expansion\<close>

fun subst_rows :: "bind_lib \<Rightarrow> string \<Rightarrow> bindings list \<Rightarrow> string list result" where
  "subst_rows lib sql [] = Ok []"
| "subst_rows lib sql (row # rows) =
     (case Substitute lib sql row of
        Inl err \<Rightarrow> Err err
      | Inr t \<Rightarrow> (case subst_rows lib sql rows of Inl err \<Rightarrow> Err err | Inr ts \<Rightarrow> Ok (t # ts)))"

definition Expand :: "bind_lib \<Rightarrow> string \<Rightarrow> bindings \<Rightarrow> string list result" where
  "Expand lib sql bs =
     (if \<not> IsBulk bs then
        (case Substitute lib sql bs of Inl err \<Rightarrow> Err err | Inr out \<Rightarrow> Ok [out])
      else
        case splitRows lib bs of
          Inl err \<Rightarrow> Err err
        | Inr rows \<Rightarrow>
            (case splitInsertValues sql of
               Some (prefix, tuple) \<Rightarrow>
                 (case subst_rows lib tuple rows of
                    Inl err \<Rightarrow> Err err
                  | Inr ts \<Rightarrow> Ok [prefix @ '' VALUES '' @ Join ts '', ''])
             | None \<Rightarrow> subst_rows lib sql rows))"

subsection \<open>Columns\<close>

lemma scan_cols_sound:
  "scan_cols lib bs ks n cols = Inr (n', cols') \<Longrightarrow>
     (0 \<le> n \<longrightarrow> n' = n) \<and>
     (\<forall>k. cols' k = (if k \<in> set ks \<and> isArray (b_Value (bound bs k))
                     then Unmarshal_array lib (b_Value (bound bs k)) else cols k)) \<and>
     (\<forall>k \<in> set ks. isArray (b_Value (bound bs k)) \<longrightarrow>
        (\<exists>vals. Unmarshal_array lib (b_Value (bound bs k)) = Some vals \<and> int (length vals) = n'))"
proof (induction ks arbitrary: n cols)
  case (Cons k ks)
  show ?case
  proof (cases "isArray (b_Value (bound bs k))")
    case False
    with Cons.prems have "scan_cols lib bs ks n cols = Inr (n', cols')" by simp
    from Cons.IH [OF this] False show ?thesis by auto
  next
    case True
    with Cons.prems obtain vals where vals: "Unmarshal_array lib (b_Value (bound bs k)) = Some vals"
        "0 \<le> n \<longrightarrow> int (length vals) = n"
      and rest: "scan_cols lib bs ks (int (length vals)) (cols(k \<mapsto> vals)) = Inr (n', cols')"
      by (auto split: option.splits if_splits)
    from Cons.IH [OF rest] vals True show ?thesis by auto
  qed
qed simp

lemma scan_cols_complete:
  "(\<And>k. k \<in> set ks \<Longrightarrow> isArray (b_Value (bound bs k)) \<Longrightarrow>
      \<exists>vals. Unmarshal_array lib (b_Value (bound bs k)) = Some vals \<and> length vals = m) \<Longrightarrow>
   n < 0 \<or> n = int m \<Longrightarrow> \<exists>r. scan_cols lib bs ks n cols = Inr r"
proof (induction ks arbitrary: n cols)
  case (Cons k ks)
  show ?case
  proof (cases "isArray (b_Value (bound bs k))")
    case False
    with Cons show ?thesis by simp
  next
    case True
    with Cons.prems(1) [of k] obtain vals where "Unmarshal_array lib (b_Value (bound bs k)) = Some vals" "length vals = m"
      by auto
    with True Cons.prems Cons.IH [of "int m"] show ?thesis by auto
  qed
qed simp

lemma bound_mem: "distinct (map fst bs) \<Longrightarrow> (k, b) \<in> set bs \<Longrightarrow> bound bs k = b"
  by (simp add: bound_def)

lemma IsBulk_iff: "IsBulk bs \<longleftrightarrow> (\<exists>(k, b) \<in> set bs. isArray (b_Value b))"
  by (auto simp: IsBulk_def list_ex_iff)

text \<open>What the rows should be: every array binding replaced by its element, the others repeated.\<close>

definition row_binding :: "bind_lib \<Rightarrow> nat \<Rightarrow> Binding \<Rightarrow> Binding" where
  "row_binding lib r b =
     (if isArray (b_Value b) then b\<lparr>b_Value := the (Unmarshal_array lib (b_Value b)) ! r\<rparr> else b)"

definition arrays_of_length :: "bind_lib \<Rightarrow> bindings \<Rightarrow> nat \<Rightarrow> bool" where
  "arrays_of_length lib bs n \<longleftrightarrow>
     (\<forall>(k, b) \<in> set bs. isArray (b_Value b) \<longrightarrow> map_option length (Unmarshal_array lib (b_Value b)) = Some n)"

lemma scan_cols_all:
  assumes "distinct (map fst bs)" "IsBulk bs" "scan_cols lib bs (sort (map fst bs)) (- 1) Map.empty = Inr (n, cols)"
  shows "0 \<le> n \<and> arrays_of_length lib bs (nat n) \<and> make_row bs cols r = map (map_prod id (row_binding lib r)) bs"
proof -
  note sound = scan_cols_sound [OF assms(3)]
  have arr: "\<exists>vals. Unmarshal_array lib (b_Value b) = Some vals \<and> int (length vals) = n"
    if "(k, b) \<in> set bs" "isArray (b_Value b)" for k b
    using sound bound_mem [OF assms(1) that(1)] that by force
  then have n: "0 \<le> n" using assms(2) by (fastforce simp: IsBulk_iff)
  have col: "cols k = (if isArray (b_Value b) then Unmarshal_array lib (b_Value b) else None)"
    if "(k, b) \<in> set bs" for k b
    using sound bound_mem [OF assms(1) that] that by force
  have "make_row bs cols r = map (map_prod id (row_binding lib r)) bs"
    unfolding make_row_def using arr col by (fastforce simp: row_binding_def)
  moreover have "arrays_of_length lib bs (nat n)"
    unfolding arrays_of_length_def using arr by fastforce
  ultimately show ?thesis using n by blast
qed

text \<open>
  C8. Pivoting array bindings is exact: with at least one array among the bindings, it succeeds exactly
  when every array decodes and all have the same non-zero length, it gives that many rows, and row
  \<open>r\<close> binds every array variable to element \<open>r\<close> of its array with the array's type and every other
  variable to its scalar.
\<close>

theorem splitRows_pivot:
  assumes "distinct (map fst bs)" "IsBulk bs"
  shows "splitRows lib bs = Inr rows \<longleftrightarrow>
    rows \<noteq> [] \<and> arrays_of_length lib bs (length rows) \<and>
    rows = map (\<lambda>r. map (map_prod id (row_binding lib r)) bs) [0..<length rows]"
proof
  assume "splitRows lib bs = Inr rows"
  then obtain n cols where scan: "scan_cols lib bs (sort (map fst bs)) (- 1) Map.empty = Inr (n, cols)"
    and n: "0 < n" and rows: "rows = map (make_row bs cols) [0..<nat n]"
    by (auto simp: splitRows_def split: sum.splits if_splits)
  from rows n have "length rows = nat n" "rows \<noteq> []" by auto
  with scan_cols_all [OF assms scan] rows show "rows \<noteq> [] \<and> arrays_of_length lib bs (length rows) \<and>
      rows = map (\<lambda>r. map (map_prod id (row_binding lib r)) bs) [0..<length rows]" by simp
next
  assume spec: "rows \<noteq> [] \<and> arrays_of_length lib bs (length rows) \<and>
    rows = map (\<lambda>r. map (map_prod id (row_binding lib r)) bs) [0..<length rows]"
  have "\<exists>vals. Unmarshal_array lib (b_Value (bound bs k)) = Some vals \<and> length vals = length rows"
    if "k \<in> set (sort (map fst bs))" "isArray (b_Value (bound bs k))" for k
    using that spec bound_mem [OF assms(1)] by (fastforce simp: arrays_of_length_def)
  then obtain n cols where scan: "scan_cols lib bs (sort (map fst bs)) (- 1) Map.empty = Inr (n, cols)"
    using scan_cols_complete [of "sort (map fst bs)" bs lib "length rows" "- 1"] by force
  from assms(2) obtain k b where "(k, b) \<in> set bs" "isArray (b_Value b)" by (auto simp: IsBulk_iff)
  with spec scan_cols_all [OF assms scan] have "nat n = length rows" "0 \<le> n" by (force simp: arrays_of_length_def)+
  then have "n = int (length rows)" by simp
  moreover from this spec have "0 < n" by simp
  moreover have "make_row bs cols = (\<lambda>r. map (map_prod id (row_binding lib r)) bs)"
    using scan_cols_all [OF assms scan] by blast
  with spec have "map (make_row bs cols) [0..<length rows] = rows" by metis
  ultimately show "splitRows lib bs = Inr rows" using scan by (simp add: splitRows_def)
qed

definition sample_bulk :: bindings where
  "sample_bulk = [(''2'', \<lparr>b_Type = ''FIXED'', b_Value = [CHR 0x22] @ ''7'' @ [CHR 0x22]\<rparr>),
                  (''1'', \<lparr>b_Type = ''FIXED'', b_Value = ''[_5_,_6_]''\<rparr>)]"

theorem splitRows_pivot_witness:
  "splitRows sample_lib sample_bulk = Inr
     [[(''2'', \<lparr>b_Type = ''FIXED'', b_Value = [CHR 0x22] @ ''7'' @ [CHR 0x22]\<rparr>), (''1'', \<lparr>b_Type = ''FIXED'', b_Value = ''_5_''\<rparr>)],
      [(''2'', \<lparr>b_Type = ''FIXED'', b_Value = [CHR 0x22] @ ''7'' @ [CHR 0x22]\<rparr>), (''1'', \<lparr>b_Type = ''FIXED'', b_Value = ''_6_''\<rparr>)]]"
  (is "_ = Inr ?rows")
proof -
  have "distinct (map fst sample_bulk)" "IsBulk sample_bulk" by code_simp+
  note pivot = splitRows_pivot [OF this, where lib = sample_lib and rows = ?rows]
  have "Unmarshal_array sample_lib ''[_5_,_6_]'' = Some [''_5_'', ''_6_'']" "isArray ''[_5_,_6_]''"
    "\<not> isArray ([CHR 0x22] @ ''7'' @ [CHR 0x22])" by code_simp+
  then show ?thesis
    unfolding pivot by (simp add: arrays_of_length_def row_binding_def sample_bulk_def)
qed

subsection \<open>The statements\<close>

lemma find_values_split:
  "find_values prev depth s = Some (before, after) \<Longrightarrow>
   \<exists>kw. s = before @ kw @ after \<and> EqualFold kw ''VALUES''"
proof (induction prev depth s arbitrary: before after rule: find_values.induct)
  case (2 prev depth c s)
  show ?case
  proof (cases "special_len (c # s)")
    case (Some n)
    with "2.prems" obtain b where "find_values (Some (last (take n (c # s)))) depth (drop n (c # s)) = Some (b, after)"
      and before: "before = take n (c # s) @ b" by auto
    from "2.IH"(4) [OF Some this(1)] before show ?thesis
      by (metis append.assoc append_take_drop_id)
  next
    case None
    show ?thesis
    proof (cases "depth = 0 \<and> values_here prev (c # s) \<and> c \<noteq> CHR ''('' \<and> c \<noteq> CHR '')''")
      case True
      with None "2.prems" have "before = []" "after = drop 6 (c # s)" by simp_all
      then have "c # s = before @ take 6 (c # s) @ after" by (metis append_Nil append_take_drop_id)
      with True show ?thesis unfolding values_here_def by blast
    next
      case False
      with None "2.prems" obtain d b where "find_values (Some c) d s = Some (b, after)" "before = c # b"
        and d: "d = (if c = CHR ''('' then depth + 1 else if c = CHR '')'' then depth - 1 else depth)"
        by (auto split: if_splits)
      moreover have "\<exists>kw. s = b @ kw @ after \<and> EqualFold kw ''VALUES''"
        using None False d calculation "2.IH"(1,2,3) by (metis (no_types, lifting))
      ultimately show ?thesis by auto
    qed
  qed
qed simp

lemma subst_rows_Ok:
  "subst_rows lib sql rows = Inr ts \<Longrightarrow> list_all2 (\<lambda>row t. Substitute lib sql row = Inr t) rows ts"
  by (induction rows arbitrary: ts) (auto split: sum.splits)

lemma splitInsertValuesD:
  assumes "splitInsertValues sql = Some (prefix, tuple)"
  shows "\<exists>before kw after. TrimSpace (TrimSuffix (TrimSpace sql) '';'') = before @ kw @ after \<and>
    EqualFold kw ''VALUES'' \<and> prefix = TrimSpace before \<and> tuple = TrimSpace after \<and>
    \<not> hasPlaceholder prefix \<and> HasPrefix tuple ''('' \<and> tuple_depth 0 tuple = Some 0"
proof -
  from assms obtain before after where fv: "find_values None 0 (TrimSpace (TrimSuffix (TrimSpace sql) '';'')) = Some (before, after)"
    and rest: "prefix = TrimSpace before" "tuple = TrimSpace after" "\<not> hasPlaceholder prefix"
      "HasPrefix tuple ''(''" "tuple_depth 0 tuple = Some 0"
    by (auto simp: splitInsertValues_def Let_def split: if_splits option.splits)
  from find_values_split [OF fv] rest show ?thesis by blast
qed

text \<open>
  A bulk INSERT is folded only where that is sound: the statement is \<open>before\<close>, the keyword
  \<^verbatim>\<open>VALUES\<close> in some case, and one parenthesised tuple that spans the rest; no placeholder stands before
  the keyword, so every row renders that part to itself; and the fold is a single statement with one
  tuple per row of the pivot, in order, each the tuple rendered with that row's bindings.
\<close>

theorem Expand_folds_insert:
  assumes "IsBulk bs" "splitInsertValues sql = Some (prefix, tuple)" "Expand lib sql bs = Inr stmts"
  shows "\<exists>rows ts before kw after. splitRows lib bs = Inr rows \<and>
    TrimSpace (TrimSuffix (TrimSpace sql) '';'') = before @ kw @ after \<and> EqualFold kw ''VALUES'' \<and>
    prefix = TrimSpace before \<and> tuple = TrimSpace after \<and>
    HasPrefix tuple ''('' \<and> tuple_depth 0 tuple = Some 0 \<and>
    (\<forall>row. Substitute lib prefix row = Inr prefix) \<and>
    list_all2 (\<lambda>row t. Substitute lib tuple row = Inr t) rows ts \<and>
    stmts = [prefix @ '' VALUES '' @ Join ts '', '']"
proof -
  from assms obtain rows ts where rows: "splitRows lib bs = Inr rows" "subst_rows lib tuple rows = Inr ts"
    "stmts = [prefix @ '' VALUES '' @ Join ts '', '']"
    by (auto simp: Expand_def split: sum.splits)
  from splitInsertValuesD [OF assms(2)] obtain before kw after where
    parts: "TrimSpace (TrimSuffix (TrimSpace sql) '';'') = before @ kw @ after" "EqualFold kw ''VALUES''"
      "prefix = TrimSpace before" "tuple = TrimSpace after" "HasPrefix tuple ''(''" "tuple_depth 0 tuple = Some 0"
    and np: "\<not> hasPlaceholder prefix" by blast
  from np have "\<forall>row. Substitute lib prefix row = Inr prefix" by (simp add: Substitute_plain)
  with rows(1,3) subst_rows_Ok [OF rows(2)] parts show ?thesis by blast
qed

definition sample_insert :: string where
  "sample_insert = '' insert into t (a, b) values (?, :2);''"

definition sample_ints :: bindings where
  "sample_ints = [(''1'', \<lparr>b_Type = ''FIXED'', b_Value = ''[_5_,_6_]''\<rparr>), (''2'', \<lparr>b_Type = ''FIXED'', b_Value = ''_7_''\<rparr>)]"

theorem Expand_folds_insert_witness:
  "Expand sample_lib sample_insert sample_ints = Inr [''insert into t (a, b) VALUES (5, 7), (6, 7)''] \<and>
   (\<exists>rows ts. splitRows sample_lib sample_ints = Inr rows \<and>
      list_all2 (\<lambda>row t. Substitute sample_lib ''(?, :2)'' row = Inr t) rows ts)"
proof -
  have "IsBulk sample_ints" "splitInsertValues sample_insert = Some (''insert into t (a, b)'', ''(?, :2)'')"
    and ex: "Expand sample_lib sample_insert sample_ints = Inr [''insert into t (a, b) VALUES (5, 7), (6, 7)'']"
    by code_simp+
  from Expand_folds_insert [OF this] ex show ?thesis by blast
qed

text \<open>
  The fold trims the text before the keyword. When a line comment stands there, the newline that ends
  it is trimmed as well, and the comment swallows the rows.
\<close>

lemma comment_swallows_rows:
  "Expand sample_lib (''INSERT INTO t --c'' @ [CHR 0x0A] @ ''VALUES (?)'') sample_ints =
     Inr [''INSERT INTO t --c VALUES (5), (6)'']"
  by code_simp

end
