(* ===== verification/Account_Usage.thy ===== *)
theory Account_Usage
  imports Go_Paths
begin

text \<open>
  \<^verbatim>\<open>internal/accountusage\<close>: the query, login and storage histories behind the ACCOUNT_USAGE views, each
  bounded by \<^verbatim>\<open>maxHistory\<close>. The layouts \<^verbatim>\<open>time.RFC3339\<close> and \<^verbatim>\<open>2006-01-02\<close> are the arguments \<open>rfc3339\<close>
  and \<open>ymd\<close>. A filter map is its entries in the order in which \<^verbatim>\<open>range\<close> visits them.
\<close>

record QueryHistory =
  qh_QueryID :: string
  qh_QueryText :: string
  qh_DatabaseName :: string
  qh_SchemaName :: string
  qh_UserName :: string
  qh_RoleName :: string
  qh_WarehouseName :: string
  qh_StartTime :: time
  qh_EndTime :: time
  qh_Status :: string
  qh_ErrorCode :: string
  qh_ErrorMessage :: string
  qh_BytesScanned :: int
  qh_RowsProduced :: int
  qh_ExecutionTimeMs :: int

record LoginHistory =
  lh_EventTimestamp :: time
  lh_UserName :: string
  lh_ClientIP :: string
  lh_IsSuccess :: bool
  lh_ErrorCode :: string
  lh_ErrorMessage :: string

record StorageUsage =
  su_UsageDate :: time
  su_DatabaseName :: string
  su_AverageBytes :: int
  su_DeletedBytes :: int
  su_FailsafeBytes :: int

record Store =
  queryHistory :: "QueryHistory list"
  loginHistory :: "LoginHistory list"
  storageUsage :: "StorageUsage list"
  maxHistory :: int

definition NewStore :: "int \<Rightarrow> Store" where
  "NewStore n =
     \<lparr>queryHistory = [], loginHistory = [], storageUsage = [], maxHistory = (if n \<le> 0 then 10000 else n)\<rparr>"

subsection \<open>Recording\<close>

text \<open>\<^verbatim>\<open>if len(h) > max { h = h[len(h)-max:] }\<close>\<close>

definition evict :: "int \<Rightarrow> 'a list \<Rightarrow> 'a list" where
  "evict n h = (if int (length h) > n then drop (nat (int (length h) - n)) h else h)"

definition RecordQuery :: "Store \<Rightarrow> QueryHistory \<Rightarrow> Store" where
  "RecordQuery s qh = s\<lparr>queryHistory := evict (maxHistory s) (queryHistory s @ [qh])\<rparr>"

definition RecordLogin :: "Store \<Rightarrow> LoginHistory \<Rightarrow> Store" where
  "RecordLogin s lh = s\<lparr>loginHistory := evict (maxHistory s) (loginHistory s @ [lh])\<rparr>"

definition RecordStorage :: "Store \<Rightarrow> StorageUsage \<Rightarrow> Store" where
  "RecordStorage s su = s\<lparr>storageUsage := evict (maxHistory s) (storageUsage s @ [su])\<rparr>"

subsection \<open>Queries\<close>

fun matchesFilters :: "QueryHistory \<Rightarrow> (string \<times> string) list \<Rightarrow> bool" where
  "matchesFilters qh [] = True"
| "matchesFilters qh ((k, v) # filters) =
     (let K = ToUpper k
      in if K = ''DATABASE_NAME'' \<and> \<not> EqualFold (qh_DatabaseName qh) v then False
         else if K = ''SCHEMA_NAME'' \<and> \<not> EqualFold (qh_SchemaName qh) v then False
         else if K = ''USER_NAME'' \<and> \<not> EqualFold (qh_UserName qh) v then False
         else if K = ''STATUS'' \<and> \<not> EqualFold (qh_Status qh) v then False
         else if K = ''WAREHOUSE_NAME'' \<and> \<not> EqualFold (qh_WarehouseName qh) v then False
         else matchesFilters qh filters)"

text \<open>The loop from the newest entry down; \<open>result\<close> is the slice built so far.\<close>

fun collect :: "int \<Rightarrow> (string \<times> string) list \<Rightarrow> QueryHistory list \<Rightarrow> QueryHistory list \<Rightarrow> QueryHistory list" where
  "collect limit filters [] result = result"
| "collect limit filters (qh # qhs) result =
     (if matchesFilters qh filters then
        (let result = result @ [qh]
         in if limit > 0 \<and> int (length result) \<ge> limit then result else collect limit filters qhs result)
      else collect limit filters qhs result)"

definition GetQueryHistory :: "Store \<Rightarrow> int \<Rightarrow> (string \<times> string) list \<Rightarrow> QueryHistory list" where
  "GetQueryHistory s limit filters = collect limit filters (rev (queryHistory s)) []"

definition GetLoginHistory :: "Store \<Rightarrow> int \<Rightarrow> LoginHistory list" where
  "GetLoginHistory s limit =
     (let n = length (loginHistory s);
          limit = (if limit \<le> 0 \<or> limit > int n then n else nat limit)
      in map (\<lambda>i. loginHistory s ! (n - 1 - i)) [0..<limit])"

definition truncate_day :: "time \<Rightarrow> time" where
  "truncate_day t = t - t mod (24 * hour)"

definition GetStorageUsage :: "Store \<Rightarrow> time \<Rightarrow> time \<Rightarrow> StorageUsage list" where
  "GetStorageUsage s startDate endDate =
     filter (\<lambda>su. let day = truncate_day (su_UsageDate su)
                   in (day = startDate \<or> day > startDate) \<and> (day = endDate \<or> day < endDate)) (storageUsage s)"

subsection \<open>Result sets\<close>

type_synonym result_set = "string list \<times> string list list"

definition queryHistoryResult :: "(time \<Rightarrow> string) \<Rightarrow> Store \<Rightarrow> int \<Rightarrow> result_set" where
  "queryHistoryResult rfc3339 s limit =
     ([''QUERY_ID'', ''QUERY_TEXT'', ''DATABASE_NAME'', ''SCHEMA_NAME'', ''USER_NAME'', ''ROLE_NAME'',
       ''WAREHOUSE_NAME'', ''START_TIME'', ''END_TIME'', ''STATUS'', ''ERROR_CODE'', ''ERROR_MESSAGE'',
       ''BYTES_SCANNED'', ''ROWS_PRODUCED'', ''EXECUTION_TIME''],
      map (\<lambda>qh. [qh_QueryID qh, qh_QueryText qh, qh_DatabaseName qh, qh_SchemaName qh, qh_UserName qh,
             qh_RoleName qh, qh_WarehouseName qh, rfc3339 (qh_StartTime qh), rfc3339 (qh_EndTime qh),
             qh_Status qh, qh_ErrorCode qh, qh_ErrorMessage qh, Itoa (qh_BytesScanned qh),
             Itoa (qh_RowsProduced qh), Itoa (qh_ExecutionTimeMs qh)])
        (GetQueryHistory s limit []))"

definition loginHistoryResult :: "(time \<Rightarrow> string) \<Rightarrow> Store \<Rightarrow> int \<Rightarrow> result_set" where
  "loginHistoryResult rfc3339 s limit =
     ([''EVENT_TIMESTAMP'', ''USER_NAME'', ''CLIENT_IP'', ''IS_SUCCESS'', ''ERROR_CODE'', ''ERROR_MESSAGE''],
      map (\<lambda>lh. [rfc3339 (lh_EventTimestamp lh), lh_UserName lh, lh_ClientIP lh,
             (if lh_IsSuccess lh then ''YES'' else ''NO''), lh_ErrorCode lh, lh_ErrorMessage lh])
        (GetLoginHistory s limit))"

definition storageUsageResult :: "(time \<Rightarrow> string) \<Rightarrow> Store \<Rightarrow> int \<Rightarrow> result_set" where
  "storageUsageResult ymd s limit =
     (let entries = storageUsage s;
          entries = (if limit > 0 \<and> limit < int (length entries)
                     then drop (length entries - nat limit) entries else entries)
      in ([''USAGE_DATE'', ''DATABASE_NAME'', ''AVERAGE_DATABASE_BYTES'',
           ''AVERAGE_DATABASE_DELETED_BYTES'', ''AVERAGE_FAILSAFE_BYTES''],
          map (\<lambda>su. [ymd (su_UsageDate su), su_DatabaseName su, Itoa (su_AverageBytes su),
                 Itoa (su_DeletedBytes su), Itoa (su_FailsafeBytes su)]) entries))"

definition AsQueryResult :: "(time \<Rightarrow> string) \<Rightarrow> (time \<Rightarrow> string) \<Rightarrow> Store \<Rightarrow> string \<Rightarrow> int \<Rightarrow> result_set" where
  "AsQueryResult rfc3339 ymd s viewName limit =
     (let V = ToUpper viewName
      in if V = ''QUERY_HISTORY'' then queryHistoryResult rfc3339 s limit
         else if V = ''LOGIN_HISTORY'' then loginHistoryResult rfc3339 s limit
         else if V = ''STORAGE_USAGE'' then storageUsageResult ymd s limit
         else ([], []))"

subsection \<open>The bounded log contract\<close>

text \<open>
  What the three histories share: a log that keeps the last entries of all that was recorded. The
  client sees \<open>entries\<close>, and each record call is a push.
\<close>

locale bounded_log =
  fixes entries :: "'s \<Rightarrow> 'a list" and push :: "'s \<Rightarrow> 'a \<Rightarrow> 's" and capacity :: "'s \<Rightarrow> nat"
  assumes push_entries: "entries (push s x) = drop (length (entries s) + 1 - capacity s) (entries s @ [x])"
    and push_capacity: "capacity (push s x) = capacity s"
begin

lemma fold_capacity: "capacity (foldl push s xs) = capacity s"
  by (induction xs arbitrary: s) (simp_all add: push_capacity)

lemma length_entries: "length (entries s) \<le> capacity s \<Longrightarrow> length (entries (push s x)) \<le> capacity s"
  by (simp add: push_entries)

lemma entries_fold:
  "length (entries s) \<le> capacity s \<Longrightarrow>
   entries (foldl push s xs) = drop (length (entries s) + length xs - capacity s) (entries s @ xs)"
proof (induction xs arbitrary: s)
  case (Cons x xs)
  let ?d = "length (entries s) + 1 - capacity s"
  have "drop (length (entries (push s x)) + length xs - capacity s) (entries (push s x) @ xs)
      = drop (length (entries s) + 1 - ?d + length xs - capacity s) (drop ?d (entries s @ [x] @ xs))"
  proof -
    have "length (entries (push s x)) = length (entries s) + 1 - ?d" by (simp add: push_entries)
    moreover have "entries (push s x) @ xs = drop ?d (entries s @ [x] @ xs)"
      by (cases "capacity s") (simp_all add: push_entries)
    ultimately show ?thesis by (simp only:)
  qed
  also have "\<dots> = drop (length (entries s) + 1 + length xs - capacity s) (entries s @ [x] @ xs)"
  proof -
    have "length (entries s) + 1 - ?d + length xs - capacity s + ?d = length (entries s) + 1 + length xs - capacity s"
      using Cons.prems by arith
    then show ?thesis by (simp only: drop_drop)
  qed
  finally show ?case
    using Cons.IH [of "push s x"] Cons.prems by (simp add: length_entries push_capacity)
qed simp

text \<open>From an empty log: the newest entries, newest first.\<close>

lemma newest_first:
  "entries s = [] \<Longrightarrow> rev (entries (foldl push s xs)) = take (capacity s) (rev xs)"
proof -
  assume "entries s = []"
  moreover have "length xs - (length xs - capacity s) = min (length xs) (capacity s)" by arith
  ultimately show ?thesis by (simp add: entries_fold rev_drop min_def)
qed

end

lemma evict_push: "evict n (h @ [x]) = drop (length h + 1 - nat n) (h @ [x])"
proof (cases "0 \<le> n")
  case True
  then have "nat (int (length (h @ [x])) - n) = length h + 1 - nat n" by simp
  then show ?thesis using True by (auto simp: evict_def simp del: drop_append)
qed (simp add: evict_def)

definition capacity_of :: "Store \<Rightarrow> nat" where
  "capacity_of s = nat (maxHistory s)"

interpretation query_log: bounded_log queryHistory RecordQuery capacity_of
  by unfold_locales (simp_all add: RecordQuery_def capacity_of_def evict_push)

interpretation login_log: bounded_log loginHistory RecordLogin capacity_of
  by unfold_locales (simp_all add: RecordLogin_def capacity_of_def evict_push)

interpretation storage_log: bounded_log storageUsage RecordStorage capacity_of
  by unfold_locales (simp_all add: RecordStorage_def capacity_of_def evict_push)

subsection \<open>Interleaved recording\<close>

datatype usage_event = QueryEvent QueryHistory | LoginEvent LoginHistory | StorageEvent StorageUsage

fun record_usage :: "Store \<Rightarrow> usage_event \<Rightarrow> Store" where
  "record_usage s (QueryEvent qh) = RecordQuery s qh"
| "record_usage s (LoginEvent lh) = RecordLogin s lh"
| "record_usage s (StorageEvent su) = RecordStorage s su"

definition query_events :: "usage_event list \<Rightarrow> QueryHistory list" where
  "query_events es = List.map_filter (\<lambda>e. case e of QueryEvent qh \<Rightarrow> Some qh | _ \<Rightarrow> None) es"

definition login_events :: "usage_event list \<Rightarrow> LoginHistory list" where
  "login_events es = List.map_filter (\<lambda>e. case e of LoginEvent lh \<Rightarrow> Some lh | _ \<Rightarrow> None) es"

lemmas event_defs = query_events_def login_events_def map_filter_simps

lemma query_store_cong:
  "queryHistory s = queryHistory t \<Longrightarrow> maxHistory s = maxHistory t \<Longrightarrow>
   queryHistory (foldl RecordQuery s qs) = queryHistory (foldl RecordQuery t qs)"
  by (induction qs arbitrary: s t) (simp_all add: RecordQuery_def)

lemma login_store_cong:
  "loginHistory s = loginHistory t \<Longrightarrow> maxHistory s = maxHistory t \<Longrightarrow>
   loginHistory (foldl RecordLogin s ls) = loginHistory (foldl RecordLogin t ls)"
  by (induction ls arbitrary: s t) (simp_all add: RecordLogin_def)

text \<open>Each history depends on the events of its own kind only.\<close>

lemma query_projection: "queryHistory (foldl record_usage s es) = queryHistory (foldl RecordQuery s (query_events es))"
proof (induction es arbitrary: s)
  case (Cons e es)
  show ?case
    by (cases e) (simp_all add: Cons.IH event_defs, (rule query_store_cong; simp add: RecordLogin_def RecordStorage_def)+)
qed (simp add: event_defs)

lemma login_projection: "loginHistory (foldl record_usage s es) = loginHistory (foldl RecordLogin s (login_events es))"
proof (induction es arbitrary: s)
  case (Cons e es)
  show ?case
    by (cases e) (simp_all add: Cons.IH event_defs, (rule login_store_cong; simp add: RecordQuery_def RecordStorage_def)+)
qed (simp add: event_defs)

definition take_limit :: "int \<Rightarrow> 'a list \<Rightarrow> 'a list" where
  "take_limit limit xs = (if limit \<le> 0 then xs else take (nat limit) xs)"

lemma collect_spec:
  "(limit > 0 \<Longrightarrow> int (length result) < limit) \<Longrightarrow>
   collect limit filters qhs result =
     result @ take_limit (if limit \<le> 0 then 0 else limit - int (length result))
       (filter (\<lambda>qh. matchesFilters qh filters) qhs)"
proof (induction qhs arbitrary: result)
  case (Cons qh qhs)
  show ?case
  proof (cases "matchesFilters qh filters")
    case True
    consider "limit \<le> 0" | "0 < limit" "limit = int (length result) + 1" | "0 < limit" "int (length result) + 1 < limit"
      using Cons.prems by linarith
    then show ?thesis
    proof cases
      case 3
      then have "nat (limit - int (length result)) = Suc (nat (limit - int (length (result @ [qh]))))" by simp
      with 3 True Cons.IH [of "result @ [qh]"] show ?thesis by (simp add: take_limit_def)
    qed (use True Cons.IH [of "result @ [qh]"] in \<open>simp_all add: take_limit_def\<close>)
  next
    case False
    with Cons show ?thesis by simp
  qed
qed (simp add: take_limit_def)

lemma login_spec: "GetLoginHistory s limit = take_limit limit (rev (loginHistory s))"
  by (rule nth_equalityI) (auto simp: GetLoginHistory_def take_limit_def Let_def rev_nth split: if_splits)

text \<open>
  However queries, logins and storage figures are recorded, the query view shows the newest
  \<^verbatim>\<open>maxHistory\<close> queries (10000 for a bound that is not positive) that pass the filters, newest first, cut
  to the limit when there is one, and the login view likewise the newest logins: eviction and the
  interleaving of the three kinds of records never lose, repeat or reorder an entry within the bound.
\<close>

theorem usage_views_exact:
  "GetQueryHistory (foldl record_usage (NewStore n) es) limit filters =
     take_limit limit (filter (\<lambda>qh. matchesFilters qh filters)
       (take (if n \<le> 0 then 10000 else nat n) (rev (query_events es)))) \<and>
   GetLoginHistory (foldl record_usage (NewStore n) es) limit =
     take_limit limit (take (if n \<le> 0 then 10000 else nat n) (rev (login_events es)))"
proof -
  have cap: "capacity_of (NewStore n) = (if n \<le> 0 then 10000 else nat n)"
    by (simp add: capacity_of_def NewStore_def)
  have empty: "queryHistory (NewStore n) = []" "loginHistory (NewStore n) = []" by (simp_all add: NewStore_def)
  show ?thesis
    using query_log.newest_first [OF empty(1), of "query_events es"]
      login_log.newest_first [OF empty(2), of "login_events es"]
    by (simp add: GetQueryHistory_def collect_spec login_spec query_projection login_projection cap)
      (simp add: take_limit_def)
qed

end
