(* ===== verification/Go_Net.thy ===== *)
theory Go_Net
  imports Go_Strings
begin

text \<open>
  The parts of Go's \<^verbatim>\<open>net\<close> and \<^verbatim>\<open>net/netip\<close> that network policies use: parsing addresses and CIDR
  blocks, and containment. An address is its list of bytes, 16 of them from the parser (an IPv4
  address in its IPv4-in-IPv6 form), 4 after \<^verbatim>\<open>To4\<close>.
\<close>

unbundle bit_operations_syntax

type_synonym byte = "8 word"
type_synonym IP = "byte list"

subsection \<open>IPv4\<close>

definition octet :: "string \<Rightarrow> byte option" where
  "octet s =
     (if s = [] \<or> \<not> list_all is_digit s \<or> (length s > 1 \<and> hd s = CHR ''0'') then None
      else case digits_val 0 s of
             None \<Rightarrow> None
           | Some v \<Rightarrow> if v > 255 then None else Some (word_of_int v))"

fun all_some :: "'a option list \<Rightarrow> 'a list option" where
  "all_some [] = Some []"
| "all_some (None # xs) = None"
| "all_some (Some x # xs) = map_option (Cons x) (all_some xs)"

definition parseIPv4 :: "string \<Rightarrow> IP option" where
  "parseIPv4 s = (let fields = Split s (CHR ''.'') in if length fields \<noteq> 4 then None else all_some (map octet fields))"

definition v4InV6Prefix :: IP where
  "v4InV6Prefix = replicate 10 0 @ [0xff, 0xff]"

subsection \<open>IPv6\<close>

definition hex_val :: "char \<Rightarrow> int option" where
  "hex_val c = (let n = (of_char c :: int)
     in if 48 \<le> n \<and> n \<le> 57 then Some (n - 48)
        else if 97 \<le> n \<and> n \<le> 102 then Some (n - 87)
        else if 65 \<le> n \<and> n \<le> 70 then Some (n - 55) else None)"

fun hex_num :: "int \<Rightarrow> string \<Rightarrow> int" where
  "hex_num acc [] = acc"
| "hex_num acc (c # s) = (case hex_val c of None \<Rightarrow> acc | Some v \<Rightarrow> hex_num (16 * acc + v) s)"

text \<open>
  The loop over the fields: \<open>out\<close> holds the bytes written so far and \<open>ell\<close> the offset of the ellipsis.
  The result is the bytes and the offset; a text that goes on after 16 bytes is refused.
\<close>

function v6_fields :: "string \<Rightarrow> IP \<Rightarrow> nat option \<Rightarrow> (IP \<times> nat option) option" where
  "v6_fields s out ell =
     (if length out \<ge> 16 then (if s = [] then Some (out, ell) else None)
      else
        (let digits = takeWhile (\<lambda>c. hex_val c \<noteq> None) s;
             rest = dropWhile (\<lambda>c. hex_val c \<noteq> None) s;
             acc = hex_num 0 digits
         in if digits = [] \<or> length digits > 4 then None
            else if HasPrefix rest ''.'' then
              (if ell = None \<and> length out \<noteq> 12 \<or> length out + 4 > 16 then None
               else map_option (\<lambda>v4. (out @ v4, ell)) (parseIPv4 s))
            else
              (let out = out @ [word_of_int (acc div 256), word_of_int acc]
               in case rest of
                    [] \<Rightarrow> Some (out, ell)
                  | [_] \<Rightarrow> None
                  | c # d # t \<Rightarrow>
                      if c \<noteq> CHR '':'' then None
                      else if d = CHR '':'' then
                        (if ell \<noteq> None then None
                         else if t = [] then Some (out, Some (length out))
                         else v6_fields t out (Some (length out)))
                      else v6_fields (d # t) out ell)))"
  by pat_completeness auto
termination
proof (relation "measure (\<lambda>(s, out, ell). 16 - length out)")
qed auto

definition parseIPv6 :: "string \<Rightarrow> IP option" where
  "parseIPv6 s0 =
     (let (s, ell) = (if HasPrefix s0 ''::'' then (drop 2 s0, Some 0) else (s0, None))
      in if ell = Some 0 \<and> s = [] then Some (replicate 16 0)
         else case v6_fields s [] ell of
                None \<Rightarrow> None
              | Some (out, ell) \<Rightarrow>
                  if length out < 16 then
                    (case ell of
                       None \<Rightarrow> None
                     | Some e \<Rightarrow> Some (take e out @ replicate (16 - length out) 0 @ drop e out))
                  else if ell \<noteq> None then None else Some out)"

text \<open>
  \<^verbatim>\<open>netip.ParseAddr\<close> for addresses without a zone, which both callers refuse: the first of \<^verbatim>\<open>.\<close>, \<^verbatim>\<open>:\<close> and
  \<^verbatim>\<open>%\<close> decides. The flag says whether the address is an IPv4 address.
\<close>

definition ParseAddr :: "string \<Rightarrow> (bool \<times> IP) option" where
  "ParseAddr s =
     (case List.find (\<lambda>c. c = CHR ''.'' \<or> c = CHR '':'' \<or> c = CHR 0x25) s of
        None \<Rightarrow> None
      | Some c \<Rightarrow>
          if c = CHR ''.'' then map_option (\<lambda>v4. (True, v4InV6Prefix @ v4)) (parseIPv4 s)
          else if c = CHR '':'' \<and> CHR 0x25 \<notin> set s then map_option (Pair False) (parseIPv6 s)
          else None)"

definition ParseIP :: "string \<Rightarrow> IP option" where
  "ParseIP s = map_option snd (ParseAddr s)"

subsection \<open>CIDR blocks\<close>

record IPNet =
  net_IP :: IP
  net_Mask :: IP

text \<open>The byte of a prefix mask that has \<open>n\<close> bits left.\<close>

definition mask_byte :: "nat \<Rightarrow> byte" where
  "mask_byte n = (if n \<ge> 8 then 0xff else NOT (drop_bit n 0xff))"

definition CIDRMask :: "nat \<Rightarrow> nat \<Rightarrow> IP" where
  "CIDRMask ones bits = map (\<lambda>i. mask_byte (ones - 8 * i)) [0..<bits div 8]"

definition To4 :: "IP \<Rightarrow> IP option" where
  "To4 ip =
     (if length ip = 4 then Some ip
      else if length ip = 16 \<and> take 12 ip = v4InV6Prefix then Some (drop 12 ip)
      else None)"

definition and_bytes :: "IP \<Rightarrow> IP \<Rightarrow> IP" where
  "and_bytes ip msk = map2 (AND) ip msk"

text \<open>\<^verbatim>\<open>IP.Mask\<close>, for a mask of 4 or 16 bytes and an address of 16.\<close>

definition ip_Mask :: "IP \<Rightarrow> IP \<Rightarrow> IP" where
  "ip_Mask ip msk =
     (let ip = (if length msk = 4 \<and> length ip = 16 \<and> take 12 ip = v4InV6Prefix then drop 12 ip else ip)
      in if length ip \<noteq> length msk then [] else and_bytes ip msk)"

definition ParseCIDR :: "string \<Rightarrow> IPNet option" where
  "ParseCIDR s =
     (if CHR ''/'' \<notin> set s then None
      else
        (let addr = takeWhile (\<lambda>c. c \<noteq> CHR ''/'') s; msk = tl (dropWhile (\<lambda>c. c \<noteq> CHR ''/'') s)
         in case ParseAddr addr of
              None \<Rightarrow> None
            | Some (v4, ip) \<Rightarrow>
                (let bits = (if v4 then 32 else 128 :: nat)
                 in if msk = [] then None
                    else case digits_val 0 msk of
                           None \<Rightarrow> None
                         | Some n \<Rightarrow>
                             if n > int bits then None
                             else (let m = CIDRMask (nat n) bits
                                   in Some \<lparr>net_IP = ip_Mask ip m, net_Mask = m\<rparr>))))"

definition net_number_mask :: "IPNet \<Rightarrow> IP \<times> IP" where
  "net_number_mask n =
     (let ip = (case To4 (net_IP n) of Some x \<Rightarrow> x | None \<Rightarrow> net_IP n); m = net_Mask n
      in if length ip \<noteq> 4 \<and> length ip \<noteq> 16 then ([], [])
         else if length m = 4 then (if length ip \<noteq> 4 then ([], []) else (ip, m))
         else if length m = 16 then (if length ip = 4 then (ip, drop 12 m) else (ip, m))
         else ([], []))"

definition net_Contains :: "IPNet \<Rightarrow> IP \<Rightarrow> bool" where
  "net_Contains n ip0 =
     (let (nn, m) = net_number_mask n; ip = (case To4 ip0 of Some x \<Rightarrow> x | None \<Rightarrow> ip0)
      in length ip = length nn \<and> and_bytes nn m = and_bytes ip m)"

end
