(* ===== verification/Network.thy ===== *)
theory Network
  imports Go_Net
begin

text \<open>
  \<^verbatim>\<open>internal/network/network.go\<close>: network policies, the active policy and the access check of a client
  address. The lists a policy holds are values here, so the copies the code makes of them
  (\<^verbatim>\<open>copyStrings\<close>) are the lists themselves.
\<close>

record Policy =
  pol_Name :: string
  pol_AllowedIPList :: "string list"
  pol_BlockedIPList :: "string list"
  pol_Comment :: string
  pol_CreatedAt :: time

record PolicyInfo =
  pi_Name :: string
  pi_Comment :: string
  pi_CreatedAt :: time

record net_Manager =
  policies :: "string \<rightharpoonup> Policy"
  activePolicy :: string

definition net_NewManager :: net_Manager where
  "net_NewManager = \<lparr>policies = Map.empty, activePolicy = ''''\<rparr>"

fun validateCIDRList :: "string list \<Rightarrow> unit result" where
  "validateCIDRList [] = Ok ()"
| "validateCIDRList (c # cidrs) =
     (if ParseCIDR c = None then Err (Invalid ''CIDR'' c) else validateCIDRList cidrs)"

definition CreatePolicy ::
  "net_Manager \<Rightarrow> time \<Rightarrow> string \<Rightarrow> string list \<Rightarrow> string list \<Rightarrow> string \<Rightarrow> net_Manager result"
where
  "CreatePolicy m now name allowedIPs blockedIPs comment =
     (case validateCIDRList allowedIPs of
        Inl err \<Rightarrow> Err (Wrap ''allowed IP list'' err)
      | Inr _ \<Rightarrow>
          (case validateCIDRList blockedIPs of
             Inl err \<Rightarrow> Err (Wrap ''blocked IP list'' err)
           | Inr _ \<Rightarrow>
               if policies m name \<noteq> None then Err (AlreadyExists ''network policy'' name)
               else Ok (m\<lparr>policies := (policies m)(name \<mapsto>
                      \<lparr>pol_Name = name, pol_AllowedIPList = allowedIPs, pol_BlockedIPList = blockedIPs,
                       pol_Comment = comment, pol_CreatedAt = now\<rparr>)\<rparr>)))"

definition DropPolicy :: "net_Manager \<Rightarrow> string \<Rightarrow> net_Manager result" where
  "DropPolicy m name =
     (if policies m name = None then Err (DoesNotExist ''network policy'' name)
      else if activePolicy m = name then Err (NotAllowed ''drop active network policy'' name)
      else Ok (m\<lparr>policies := (policies m)(name := None)\<rparr>))"

definition AlterPolicy :: "net_Manager \<Rightarrow> string \<Rightarrow> string list \<Rightarrow> string list \<Rightarrow> net_Manager result" where
  "AlterPolicy m name allowedIPs blockedIPs =
     (case validateCIDRList allowedIPs of
        Inl err \<Rightarrow> Err (Wrap ''allowed IP list'' err)
      | Inr _ \<Rightarrow>
          (case validateCIDRList blockedIPs of
             Inl err \<Rightarrow> Err (Wrap ''blocked IP list'' err)
           | Inr _ \<Rightarrow>
               (case policies m name of
                  None \<Rightarrow> Err (DoesNotExist ''network policy'' name)
                | Some p \<Rightarrow>
                    Ok (m\<lparr>policies := (policies m)(name \<mapsto>
                      p\<lparr>pol_AllowedIPList := allowedIPs, pol_BlockedIPList := blockedIPs\<rparr>)\<rparr>))))"

definition SetActivePolicy :: "net_Manager \<Rightarrow> string \<Rightarrow> net_Manager result" where
  "SetActivePolicy m name =
     (if name \<noteq> '''' \<and> policies m name = None then Err (DoesNotExist ''network policy'' name)
      else Ok (m\<lparr>activePolicy := name\<rparr>))"

text \<open>The two loops of the check: the first entry of a list whose network contains the address.\<close>

fun first_containing :: "IP \<Rightarrow> string list \<Rightarrow> string option" where
  "first_containing ip [] = None"
| "first_containing ip (cidr # cidrs) =
     (case ParseCIDR cidr of
        None \<Rightarrow> first_containing ip cidrs
      | Some network \<Rightarrow> if net_Contains network ip then Some cidr else first_containing ip cidrs)"

definition net_CheckAccess :: "net_Manager \<Rightarrow> string \<Rightarrow> bool \<times> string" where
  "net_CheckAccess m clientIP =
     (if activePolicy m = '''' then (True, ''no active network policy'')
      else case policies m (activePolicy m) of
             None \<Rightarrow> (True, ''active policy not found'')
           | Some p \<Rightarrow>
               (case ParseIP clientIP of
                  None \<Rightarrow> (False, ''invalid client IP: '' @ clientIP)
                | Some ip \<Rightarrow>
                    (case first_containing ip (pol_BlockedIPList p) of
                       Some cidr \<Rightarrow> (False, ''IP '' @ clientIP @ '' is in blocked list ('' @ cidr @ '')'')
                     | None \<Rightarrow>
                         if pol_AllowedIPList p \<noteq> [] then
                           (case first_containing ip (pol_AllowedIPList p) of
                              Some cidr \<Rightarrow> (True, ''allowed'')
                            | None \<Rightarrow> (False, ''IP '' @ clientIP @ '' is not in allowed list''))
                         else (True, ''allowed''))))"

definition ShowPolicies :: "net_Manager \<Rightarrow> string list \<Rightarrow> PolicyInfo list" where
  "ShowPolicies m ks =
     map (\<lambda>p. \<lparr>pi_Name = pol_Name p, pi_Comment = pol_Comment p, pi_CreatedAt = pol_CreatedAt p\<rparr>)
       (range_values (policies m) ks)"

definition DescribePolicy :: "net_Manager \<Rightarrow> string \<Rightarrow> Policy result" where
  "DescribePolicy m name =
     (case policies m name of None \<Rightarrow> Err (DoesNotExist ''network policy'' name) | Some p \<Rightarrow> Ok p)"

subsection \<open>The manager as a state machine\<close>

inductive net_step :: "net_Manager \<Rightarrow> net_Manager \<Rightarrow> bool" where
  create: "CreatePolicy m now name allowed blocked comment = Inr m' \<Longrightarrow> net_step m m'"
| remove: "DropPolicy m name = Inr m' \<Longrightarrow> net_step m m'"
| alter: "AlterPolicy m name allowed blocked = Inr m' \<Longrightarrow> net_step m m'"
| activate: "SetActivePolicy m name = Inr m' \<Longrightarrow> net_step m m'"

inductive net_reachable :: "net_Manager \<Rightarrow> bool" where
  start: "net_reachable net_NewManager"
| step: "net_reachable m \<Longrightarrow> net_step m m' \<Longrightarrow> net_reachable m'"

text \<open>Every list holds valid blocks only, and the active policy exists.\<close>

definition policy_ok :: "string \<Rightarrow> Policy \<Rightarrow> bool" where
  "policy_ok name p \<longleftrightarrow> pol_Name p = name \<and>
     (\<forall>c \<in> set (pol_AllowedIPList p) \<union> set (pol_BlockedIPList p). ParseCIDR c \<noteq> None)"

definition net_inv :: "net_Manager \<Rightarrow> bool" where
  "net_inv m \<longleftrightarrow>
     (\<forall>name p. policies m name = Some p \<longrightarrow> policy_ok name p) \<and>
     (activePolicy m \<noteq> '''' \<longrightarrow> policies m (activePolicy m) \<noteq> None)"

lemma validateCIDRList_iff: "validateCIDRList cs = Inr u \<longleftrightarrow> (\<forall>c \<in> set cs. ParseCIDR c \<noteq> None)"
  by (induction cs) auto

lemma net_step_inv: "net_step m m' \<Longrightarrow> net_inv m \<Longrightarrow> net_inv m'"
  by (erule net_step.cases)
    (auto simp: net_inv_def policy_ok_def CreatePolicy_def DropPolicy_def AlterPolicy_def SetActivePolicy_def
      validateCIDRList_iff split: sum.splits if_splits option.splits)

lemma net_reachable_inv: "net_reachable m \<Longrightarrow> net_inv m"
proof (induction rule: net_reachable.induct)
  case start
  show ?case by (simp add: net_inv_def net_NewManager_def)
next
  case (step m m')
  then show ?case by (blast intro: net_step_inv)
qed

subsection \<open>The access check\<close>

definition in_cidr :: "IP \<Rightarrow> string \<Rightarrow> bool" where
  "in_cidr ip cidr = (case ParseCIDR cidr of None \<Rightarrow> False | Some network \<Rightarrow> net_Contains network ip)"

lemma first_containing_None: "first_containing ip cs = None \<longleftrightarrow> (\<forall>c \<in> set cs. \<not> in_cidr ip c)"
  by (induction cs) (auto simp: in_cidr_def split: option.split)

text \<open>
  C10. The access check decides exactly what the policy says. In every state the operations can reach,
  every client is admitted when no policy is active; when one is, it exists, every entry of its
  lists is a valid block (so none is skipped), and the client is admitted exactly when its address
  parses, lies in no blocked block and, where there is an allowed list, lies in one of its blocks.
\<close>

theorem network_access_exact:
  assumes "net_reachable m"
  shows "if activePolicy m = '''' then fst (net_CheckAccess m clientIP)
    else \<exists>p. policies m (activePolicy m) = Some p \<and>
      (\<forall>c \<in> set (pol_AllowedIPList p) \<union> set (pol_BlockedIPList p). ParseCIDR c \<noteq> None) \<and>
      (fst (net_CheckAccess m clientIP) \<longleftrightarrow>
         (\<exists>ip. ParseIP clientIP = Some ip \<and> (\<forall>c \<in> set (pol_BlockedIPList p). \<not> in_cidr ip c) \<and>
            (pol_AllowedIPList p = [] \<or> (\<exists>c \<in> set (pol_AllowedIPList p). in_cidr ip c))))"
proof (cases "activePolicy m = ''''")
  case True
  then show ?thesis by (simp add: net_CheckAccess_def)
next
  case active: False
  from net_reachable_inv [OF assms] active obtain p where p: "policies m (activePolicy m) = Some p"
    and ok: "policy_ok (activePolicy m) p" by (auto simp: net_inv_def)
  have "fst (net_CheckAccess m clientIP) \<longleftrightarrow>
      (\<exists>ip. ParseIP clientIP = Some ip \<and> first_containing ip (pol_BlockedIPList p) = None \<and>
        (pol_AllowedIPList p = [] \<or> first_containing ip (pol_AllowedIPList p) \<noteq> None))"
    using p active by (simp add: net_CheckAccess_def split: option.split)
  with p ok active show ?thesis by (simp add: policy_ok_def first_containing_None)
qed

definition sample_net :: net_Manager where
  "sample_net = \<lparr>policies = [''P'' \<mapsto> \<lparr>pol_Name = ''P'', pol_AllowedIPList = [''10.0.0.0/8''],
     pol_BlockedIPList = [''10.1.0.0/16''], pol_Comment = '''', pol_CreatedAt = 0\<rparr>], activePolicy = ''P''\<rparr>"

lemma sample_net_reachable: "net_reachable sample_net"
proof -
  have cidr: "ParseCIDR ''10.0.0.0/8'' \<noteq> None" "ParseCIDR ''10.1.0.0/16'' \<noteq> None" by code_simp+
  have "CreatePolicy net_NewManager 0 ''P'' [''10.0.0.0/8''] [''10.1.0.0/16''] '''' = Inr (sample_net\<lparr>activePolicy := ''''\<rparr>)"
    using cidr by (simp add: CreatePolicy_def sample_net_def net_NewManager_def)
  moreover have "SetActivePolicy (sample_net\<lparr>activePolicy := ''''\<rparr>) ''P'' = Inr sample_net"
    by (simp add: SetActivePolicy_def sample_net_def)
  ultimately show ?thesis by (meson net_reachable.intros net_step.create net_step.activate)
qed

theorem network_access_exact_witness:
  "fst (net_CheckAccess sample_net ''10.2.3.4'') \<and> \<not> fst (net_CheckAccess sample_net ''10.1.3.4'') \<and>
   \<not> fst (net_CheckAccess sample_net ''::1'') \<and> fst (net_CheckAccess net_NewManager ''::1'') \<and>
   (\<exists>p. policies sample_net (activePolicy sample_net) = Some p \<and> pol_AllowedIPList p = [''10.0.0.0/8''])"
proof -
  have act: "activePolicy sample_net \<noteq> ''''" by (simp add: sample_net_def)
  have ips: "ParseIP ''10.2.3.4'' = Some (v4InV6Prefix @ [10, 2, 3, 4])" "ParseIP ''10.1.3.4'' = Some (v4InV6Prefix @ [10, 1, 3, 4])"
    "ParseIP ''::1'' = Some (replicate 15 0 @ [1])" by code_simp+
  have nets: "in_cidr (v4InV6Prefix @ [10, 2, 3, 4]) ''10.0.0.0/8''" "\<not> in_cidr (v4InV6Prefix @ [10, 2, 3, 4]) ''10.1.0.0/16''"
    "in_cidr (v4InV6Prefix @ [10, 1, 3, 4]) ''10.1.0.0/16''" "\<not> in_cidr (replicate 15 0 @ [1]) ''10.0.0.0/8''" by code_simp+
  note ex = network_access_exact [OF sample_net_reachable]
  have "net_reachable net_NewManager" "activePolicy net_NewManager = ''''"
    by (rule net_reachable.start) (simp add: net_NewManager_def)
  with network_access_exact [of net_NewManager "''::1''"] have "fst (net_CheckAccess net_NewManager ''::1'')" by simp
  then show ?thesis
    using act ex [of "''10.2.3.4''"] ex [of "''10.1.3.4''"] ex [of "''::1''"] ips nets
    by (simp add: sample_net_def)
qed

end
