(* ===== verification/Sharing.thy ===== *)
theory Sharing
  imports Registry
begin

text \<open>
  \<^verbatim>\<open>internal/sharing/sharing.go\<close>: data shares, the objects and consumer accounts they list, and the
  inbound share that stands for a mounted database. The lists are values, so the copies that
  \<^verbatim>\<open>DescribeShare\<close> and \<^verbatim>\<open>CreateDatabaseFromShare\<close> make of them are the lists themselves; that a mounted
  database does not share its list with the share rests on the \<^verbatim>\<open>make\<close> and \<^verbatim>\<open>copy\<close> of the code, which values cannot show.
\<close>

datatype ShareType = ShareOutbound | ShareInbound

record SharedObject =
  so_Type :: string
  so_Name :: string

record Share =
  sh_Name :: string
  sh_Type :: ShareType
  sh_Database :: string
  sh_Objects :: "SharedObject list"
  sh_Accounts :: "string list"
  sh_Comment :: string
  sh_CreatedAt :: time

record ShareInfo =
  si_Name :: string
  si_Type :: ShareType
  si_Database :: string
  si_Comment :: string
  si_Accounts :: int
  si_Objects :: int
  si_CreatedAt :: time

record share_Manager =
  shares :: "string \<rightharpoonup> Share"

definition share_NewManager :: share_Manager where
  "share_NewManager = \<lparr>shares = Map.empty\<rparr>"

definition new_share :: "time \<Rightarrow> string \<Rightarrow> string \<Rightarrow> Share" where
  "new_share now name comment =
     \<lparr>sh_Name = name, sh_Type = ShareOutbound, sh_Database = '''', sh_Objects = [], sh_Accounts = [],
      sh_Comment = comment, sh_CreatedAt = now\<rparr>"

definition CreateShare :: "share_Manager \<Rightarrow> time \<Rightarrow> string \<Rightarrow> string \<Rightarrow> share_Manager result" where
  "CreateShare m now name comment =
     (if name = '''' then Err (Invalid ''share name'' ''cannot be empty'')
      else if shares m name \<noteq> None then Err (AlreadyExists ''share'' name)
      else Ok (m\<lparr>shares := (shares m)(name \<mapsto> new_share now name comment)\<rparr>))"

definition DropShare :: "share_Manager \<Rightarrow> string \<Rightarrow> share_Manager result" where
  "DropShare m name =
     (if shares m name = None then Err (DoesNotExist ''share'' name)
      else Ok (m\<lparr>shares := (shares m)(name := None)\<rparr>))"

definition same_object :: "string \<Rightarrow> string \<Rightarrow> SharedObject \<Rightarrow> bool" where
  "same_object objectType objectName obj \<longleftrightarrow> so_Type obj = objectType \<and> so_Name obj = objectName"

definition GrantToShare :: "share_Manager \<Rightarrow> string \<Rightarrow> string \<Rightarrow> string \<Rightarrow> share_Manager result" where
  "GrantToShare m shareName objectType objectName =
     (case shares m shareName of
        None \<Rightarrow> Err (DoesNotExist ''share'' shareName)
      | Some share \<Rightarrow>
          if list_ex (same_object objectType objectName) (sh_Objects share)
          then Err (AlreadyExists ''object'' objectName)
          else Ok (m\<lparr>shares := (shares m)(shareName \<mapsto>
                 share\<lparr>sh_Objects := sh_Objects share @ [\<lparr>so_Type = objectType, so_Name = objectName\<rparr>]\<rparr>)\<rparr>))"

definition RevokeFromShare :: "share_Manager \<Rightarrow> string \<Rightarrow> string \<Rightarrow> string \<Rightarrow> share_Manager result" where
  "RevokeFromShare m shareName objectType objectName =
     (case shares m shareName of
        None \<Rightarrow> Err (DoesNotExist ''share'' shareName)
      | Some share \<Rightarrow>
          if list_ex (same_object objectType objectName) (sh_Objects share)
          then Ok (m\<lparr>shares := (shares m)(shareName \<mapsto>
                 share\<lparr>sh_Objects := remove_first (same_object objectType objectName) (sh_Objects share)\<rparr>)\<rparr>)
          else Err (DoesNotExist ''object'' objectName))"

text \<open>The loop with the \<^verbatim>\<open>existing\<close> set, which always holds the accounts of the list.\<close>

fun add_accounts :: "string list \<Rightarrow> string set \<Rightarrow> string list \<Rightarrow> string list" where
  "add_accounts accs existing [] = accs"
| "add_accounts accs existing (a # as) =
     (if a \<notin> existing then add_accounts (accs @ [a]) (insert a existing) as
      else add_accounts accs existing as)"

definition AlterShareAddAccounts :: "share_Manager \<Rightarrow> string \<Rightarrow> string list \<Rightarrow> share_Manager result" where
  "AlterShareAddAccounts m shareName accounts =
     (case shares m shareName of
        None \<Rightarrow> Err (DoesNotExist ''share'' shareName)
      | Some share \<Rightarrow>
          Ok (m\<lparr>shares := (shares m)(shareName \<mapsto>
            share\<lparr>sh_Accounts := add_accounts (sh_Accounts share) (set (sh_Accounts share)) accounts\<rparr>)\<rparr>))"

definition AlterShareRemoveAccounts :: "share_Manager \<Rightarrow> string \<Rightarrow> string list \<Rightarrow> share_Manager result" where
  "AlterShareRemoveAccounts m shareName accounts =
     (case shares m shareName of
        None \<Rightarrow> Err (DoesNotExist ''share'' shareName)
      | Some share \<Rightarrow>
          Ok (m\<lparr>shares := (shares m)(shareName \<mapsto>
            share\<lparr>sh_Accounts := filter (\<lambda>a. a \<notin> set accounts) (sh_Accounts share)\<rparr>)\<rparr>))"

definition ShowShares :: "share_Manager \<Rightarrow> string list \<Rightarrow> ShareInfo list" where
  "ShowShares m ks =
     map (\<lambda>s. \<lparr>si_Name = sh_Name s, si_Type = sh_Type s, si_Database = sh_Database s,
                si_Comment = sh_Comment s, si_Accounts = int (length (sh_Accounts s)),
                si_Objects = int (length (sh_Objects s)), si_CreatedAt = sh_CreatedAt s\<rparr>)
       (range_values (shares m) ks)"

definition DescribeShare :: "share_Manager \<Rightarrow> string \<Rightarrow> Share result" where
  "DescribeShare m name =
     (case shares m name of None \<Rightarrow> Err (DoesNotExist ''share'' name) | Some share \<Rightarrow> Ok share)"

definition inbound_name :: "string \<Rightarrow> string \<Rightarrow> string" where
  "inbound_name dbName shareName = dbName @ ''_from_'' @ shareName"

definition CreateDatabaseFromShare :: "share_Manager \<Rightarrow> time \<Rightarrow> string \<Rightarrow> string \<Rightarrow> share_Manager result" where
  "CreateDatabaseFromShare m now shareName dbName =
     (case shares m shareName of
        None \<Rightarrow> Err (DoesNotExist ''share'' shareName)
      | Some share \<Rightarrow>
          (let inboundName = inbound_name dbName shareName
           in if shares m inboundName \<noteq> None then Err (AlreadyExists ''database'' dbName)
              else Ok (m\<lparr>shares := (shares m)(inboundName \<mapsto>
                     \<lparr>sh_Name = inboundName, sh_Type = ShareInbound, sh_Database = dbName,
                      sh_Objects = sh_Objects share, sh_Accounts = [],
                      sh_Comment = ''Database created from share '' @ [CHR 0x27] @ shareName @ [CHR 0x27],
                      sh_CreatedAt = now\<rparr>)\<rparr>)))"

subsection \<open>The registry contract\<close>

definition create_share :: "share_Manager \<Rightarrow> string \<Rightarrow> time \<times> string \<Rightarrow> share_Manager result" where
  "create_share m name a = CreateShare m (fst a) name (snd a)"

interpretation share_reg: registry shares create_share DropShare "\<lambda>n. n"
  "\<lambda>n a. new_share (fst a) n (snd a)" "\<lambda>n a. n \<noteq> ''''"
  by unfold_locales
    (auto simp: create_share_def CreateShare_def DropShare_def split: if_splits)

subsection \<open>Shares as sets\<close>

text \<open>
  What a share promises: a set of objects and a set of accounts. The abstract operations on a map from
  names to such shares; an operation that the code refuses leaves the map as it is.
\<close>

record share_spec =
  spec_type :: ShareType
  spec_objects :: "(string \<times> string) set"
  spec_accounts :: "string set"

datatype share_op =
    OpCreate time string string
  | OpDrop string
  | OpGrant string string string
  | OpRevoke string string string
  | OpAdd string "string list"
  | OpRemove string "string list"
  | OpMount time string string

fun share_exec :: "share_Manager \<Rightarrow> share_op \<Rightarrow> share_Manager result" where
  "share_exec m (OpCreate now n c) = CreateShare m now n c"
| "share_exec m (OpDrop n) = DropShare m n"
| "share_exec m (OpGrant n t ob) = GrantToShare m n t ob"
| "share_exec m (OpRevoke n t ob) = RevokeFromShare m n t ob"
| "share_exec m (OpAdd n as) = AlterShareAddAccounts m n as"
| "share_exec m (OpRemove n as) = AlterShareRemoveAccounts m n as"
| "share_exec m (OpMount now n db) = CreateDatabaseFromShare m now n db"

definition share_run :: "share_Manager \<Rightarrow> share_op list \<Rightarrow> share_Manager" where
  "share_run = foldl (\<lambda>m op. ignore_error m (share_exec m op))"

definition update_share :: "string \<Rightarrow> (share_spec \<Rightarrow> share_spec) \<Rightarrow> (string \<rightharpoonup> share_spec) \<Rightarrow> (string \<rightharpoonup> share_spec)" where
  "update_share n f a = (case a n of None \<Rightarrow> a | Some s \<Rightarrow> a(n \<mapsto> f s))"

fun share_spec_step :: "(string \<rightharpoonup> share_spec) \<Rightarrow> share_op \<Rightarrow> (string \<rightharpoonup> share_spec)" where
  "share_spec_step a (OpCreate now n c) =
     (if n = '''' \<or> a n \<noteq> None then a
      else a(n \<mapsto> \<lparr>spec_type = ShareOutbound, spec_objects = {}, spec_accounts = {}\<rparr>))"
| "share_spec_step a (OpDrop n) = a(n := None)"
| "share_spec_step a (OpGrant n t ob) = update_share n (spec_objects_update (insert (t, ob))) a"
| "share_spec_step a (OpRevoke n t ob) = update_share n (spec_objects_update (\<lambda>obs. obs - {(t, ob)})) a"
| "share_spec_step a (OpAdd n as) = update_share n (spec_accounts_update (\<lambda>A. A \<union> set as)) a"
| "share_spec_step a (OpRemove n as) = update_share n (spec_accounts_update (\<lambda>A. A - set as)) a"
| "share_spec_step a (OpMount now n db) =
     (case a n of
        None \<Rightarrow> a
      | Some s \<Rightarrow>
          if a (inbound_name db n) \<noteq> None then a
          else a(inbound_name db n \<mapsto> \<lparr>spec_type = ShareInbound, spec_objects = spec_objects s, spec_accounts = {}\<rparr>))"

definition object_pair :: "SharedObject \<Rightarrow> string \<times> string" where
  "object_pair ob = (so_Type ob, so_Name ob)"

definition abs_share :: "Share \<Rightarrow> share_spec" where
  "abs_share s = \<lparr>spec_type = sh_Type s, spec_objects = set (map object_pair (sh_Objects s)),
                  spec_accounts = set (sh_Accounts s)\<rparr>"

definition abs_shares :: "share_Manager \<Rightarrow> (string \<rightharpoonup> share_spec)" where
  "abs_shares m = map_values abs_share (shares m)"

subsection \<open>No duplicates\<close>

definition share_ok :: "string \<Rightarrow> Share \<Rightarrow> bool" where
  "share_ok n s \<longleftrightarrow> sh_Name s = n \<and> distinct (map object_pair (sh_Objects s)) \<and> distinct (sh_Accounts s)"

definition share_inv :: "share_Manager \<Rightarrow> bool" where
  "share_inv m \<longleftrightarrow> (\<forall>n s. shares m n = Some s \<longrightarrow> share_ok n s)"

lemma same_object_pair: "same_object t ob = (\<lambda>x. object_pair x = (t, ob))"
  by (auto simp: same_object_def object_pair_def)

lemma object_pair_simps [simp]: "object_pair \<lparr>so_Type = t, so_Name = ob\<rparr> = (t, ob)"
  by (simp add: object_pair_def)

lemma add_accounts_spec:
  "set (add_accounts accs (set accs) as) = set accs \<union> set as \<and>
   (distinct accs \<longrightarrow> distinct (add_accounts accs (set accs) as))"
proof (induction as arbitrary: accs)
  case (Cons a as)
  from Cons.IH [of accs] Cons.IH [of "accs @ [a]"] show ?case by auto
qed simp

lemma has_object: "list_ex (same_object t ob) obs \<longleftrightarrow> (t, ob) \<in> object_pair ` set obs"
  unfolding same_object_pair list_ex_iff image_iff by metis

lemma remove_first_pairs:
  "distinct (map object_pair obs) \<Longrightarrow>
   object_pair ` set (remove_first (same_object t ob) obs) = object_pair ` set obs - {(t, ob)}"
  unfolding same_object_pair by (induction obs) auto

lemma share_exec_inv:
  assumes "share_inv m" "share_exec m op = Inr m'"
  shows "share_inv m'"
  using assms
  by (cases op)
    (auto simp: share_inv_def share_ok_def CreateShare_def DropShare_def GrantToShare_def RevokeFromShare_def
      AlterShareAddAccounts_def AlterShareRemoveAccounts_def CreateDatabaseFromShare_def new_share_def Let_def
      has_object add_accounts_spec distinct_map_remove_first
      split: if_splits option.splits)

lemma share_exec_refines:
  assumes "share_inv m"
  shows "abs_shares (ignore_error m (share_exec m op)) = share_spec_step (abs_shares m) op"
proof (cases op)
  case (OpRevoke n t ob)
  show ?thesis
  proof (cases "shares m n")
    case None
    with OpRevoke show ?thesis by (simp add: RevokeFromShare_def abs_shares_def update_share_def)
  next
    case (Some s)
    with assms have d: "distinct (map object_pair (sh_Objects s))" by (simp add: share_inv_def share_ok_def)
    from Some OpRevoke show ?thesis
      by (simp add: RevokeFromShare_def abs_shares_def update_share_def abs_share_def has_object
          remove_first_pairs [OF d] fun_upd_idem)
  qed
qed (auto simp: abs_shares_def abs_share_def update_share_def CreateShare_def DropShare_def GrantToShare_def
    AlterShareAddAccounts_def AlterShareRemoveAccounts_def CreateDatabaseFromShare_def new_share_def Let_def
    has_object add_accounts_spec map_values_def fun_eq_iff insert_absorb split: option.split)

lemma share_run_inv: "share_inv m \<Longrightarrow> share_inv (share_run m ops)"
proof (induction ops arbitrary: m)
  case (Cons op ops)
  then have "share_inv (ignore_error m (share_exec m op))"
    by (cases "share_exec m op") (auto intro: share_exec_inv)
  with Cons.IH show ?case by (simp add: share_run_def)
qed (simp add: share_run_def)

lemma share_run_refines: "share_inv m \<Longrightarrow> abs_shares (share_run m ops) = foldl share_spec_step (abs_shares m) ops"
proof (induction ops arbitrary: m)
  case (Cons op ops)
  have "share_inv (ignore_error m (share_exec m op))"
    using share_run_inv [OF Cons.prems, of "[op]"] by (simp add: share_run_def)
  with Cons.IH share_exec_refines [OF Cons.prems] show ?case by (simp add: share_run_def)
qed (simp add: share_run_def)

text \<open>
  C37. Shares behave like sets: after any history of create, drop, grant, revoke, account and mount calls,
  refused ones included, each share lists exactly the objects and the accounts that the same history
  gives on plain sets, and lists none of them twice. A mounted database has the objects its share had
  when it was mounted, and later grants and revocations on either do not reach the other.
\<close>

theorem shares_refine_sets:
  "abs_shares (share_run share_NewManager ops) = foldl share_spec_step Map.empty ops \<and>
   share_inv (share_run share_NewManager ops)"
proof -
  have "share_inv share_NewManager" "abs_shares share_NewManager = Map.empty"
    by (auto simp: share_inv_def share_NewManager_def abs_shares_def map_values_def)
  with share_run_refines share_run_inv show ?thesis by metis
qed

end
