(* ===== verification/Alert.thy ===== *)
theory Alert
  imports Registry
begin

text \<open>
  \<^verbatim>\<open>internal/alert/alert.go\<close>: alerts, their schedules, and the goroutine that checks each started alert.
  A stop channel is a number; \<open>al_loops\<close> holds the running goroutines by the channel each waits on, with
  the key and the interval it was started with, and \<open>al_closed\<close> the channels that have been closed. A
  goroutine whose channel is closed leaves at a later step of its own, and may see one more tick first,
  since \<^verbatim>\<open>select\<close> picks any ready case. The query and the exec callback are the arguments \<open>queryFn\<close> and
  \<open>execFn\<close> on a world \<open>'w\<close>; the rows are opaque.
\<close>

datatype AlertState = AlertStarted | AlertSuspended

record Alert =
  al_Name :: string
  al_Database :: string
  al_Schema :: string
  al_Warehouse :: string
  al_Schedule :: string
  al_Condition :: string
  al_Action :: string
  al_State :: AlertState
  al_CreatedAt :: time
  al_LastFired :: "time option"

text \<open>\<^verbatim>\<open>AlertInfo\<close> has the fields of \<^verbatim>\<open>Alert\<close>.\<close>

type_synonym AlertInfo = Alert

record alert_Manager =
  alerts :: "string \<rightharpoonup> Alert"
  al_stopChs :: "string \<rightharpoonup> nat"
  al_loops :: "nat \<rightharpoonup> string \<times> duration"
  al_closed :: "nat set"
  al_next :: nat

definition alert_NewManager :: alert_Manager where
  "alert_NewManager =
     \<lparr>alerts = Map.empty, al_stopChs = Map.empty, al_loops = Map.empty, al_closed = {}, al_next = 0\<rparr>"

definition alertKey :: "string \<Rightarrow> string \<Rightarrow> string \<Rightarrow> string" where
  "alertKey db schema name = ToUpper db @ ''.'' @ ToUpper schema @ ''.'' @ ToUpper name"

definition new_alert ::
  "time \<Rightarrow> string \<Rightarrow> string \<Rightarrow> string \<Rightarrow> string \<Rightarrow> string \<Rightarrow> string \<Rightarrow> string \<Rightarrow> Alert"
where
  "new_alert now db schema name warehouse schedule condition action =
     \<lparr>al_Name = name, al_Database = db, al_Schema = schema, al_Warehouse = warehouse,
      al_Schedule = schedule, al_Condition = condition, al_Action = action, al_State = AlertSuspended,
      al_CreatedAt = now, al_LastFired = None\<rparr>"

definition CreateAlert ::
  "alert_Manager \<Rightarrow> time \<Rightarrow> string \<Rightarrow> string \<Rightarrow> string \<Rightarrow> string \<Rightarrow> string \<Rightarrow> string \<Rightarrow> string \<Rightarrow> alert_Manager result"
where
  "CreateAlert m now db schema name warehouse schedule condition action =
     (let key = alertKey db schema name
      in if alerts m key \<noteq> None then Err (AlreadyExists ''alert'' key)
         else Ok (m\<lparr>alerts := (alerts m)(key \<mapsto>
                new_alert now db schema name warehouse schedule condition action)\<rparr>))"

text \<open>\<^verbatim>\<open>if ch, ok := m.stopChs[key]; ok { close(ch); delete(m.stopChs, key) }\<close>\<close>

definition stop_loop :: "alert_Manager \<Rightarrow> string \<Rightarrow> alert_Manager" where
  "stop_loop m key =
     (case al_stopChs m key of
        None \<Rightarrow> m
      | Some ch \<Rightarrow> m\<lparr>al_closed := insert ch (al_closed m), al_stopChs := (al_stopChs m)(key := None)\<rparr>)"

definition DropAlert :: "alert_Manager \<Rightarrow> string \<Rightarrow> string \<Rightarrow> string \<Rightarrow> alert_Manager result" where
  "DropAlert m db schema name =
     (let key = alertKey db schema name
      in if alerts m key = None then Err (DoesNotExist ''alert'' key)
         else (let m = stop_loop m key in Ok (m\<lparr>alerts := (alerts m)(key := None)\<rparr>)))"

definition alert_parseSchedule :: "string \<Rightarrow> duration" where
  "alert_parseSchedule schedule =
     (case Fields (TrimSpace schedule) of
        [num, unit] \<Rightarrow>
          if EqualFold unit ''MINUTE'' then
            (case Atoi num of
               Some n \<Rightarrow> if n > 0 then wrap64 (n * minute) else minute
             | None \<Rightarrow> minute)
          else minute
      | _ \<Rightarrow> minute)"

definition startAlertLocked :: "alert_Manager \<Rightarrow> string \<Rightarrow> Alert \<Rightarrow> alert_Manager" where
  "startAlertLocked m key a =
     (let interval = alert_parseSchedule (al_Schedule a);
          interval = (if interval \<le> 0 then minute else interval);
          ch = al_next m
      in m\<lparr>al_next := Suc ch, al_stopChs := (al_stopChs m)(key \<mapsto> ch),
           al_loops := (al_loops m)(ch \<mapsto> (key, interval))\<rparr>)"

definition AlterAlert :: "alert_Manager \<Rightarrow> string \<Rightarrow> string \<Rightarrow> string \<Rightarrow> AlertState \<Rightarrow> alert_Manager result" where
  "AlterAlert m db schema name state =
     (let key = alertKey db schema name
      in case alerts m key of
           None \<Rightarrow> Err (DoesNotExist ''alert'' key)
         | Some a \<Rightarrow>
             (let oldState = al_State a; a = a\<lparr>al_State := state\<rparr>;
                  m = m\<lparr>alerts := (alerts m)(key \<mapsto> a)\<rparr>
              in if state = AlertStarted \<and> oldState \<noteq> AlertStarted then Ok (startAlertLocked m key a)
                 else if state = AlertSuspended \<and> oldState = AlertStarted then Ok (stop_loop m key)
                 else Ok m))"

definition ShowAlerts :: "alert_Manager \<Rightarrow> string \<Rightarrow> string \<Rightarrow> string list \<Rightarrow> AlertInfo list" where
  "ShowAlerts m db schema ks =
     filter (\<lambda>a. (db = '''' \<or> EqualFold (al_Database a) db) \<and> (schema = '''' \<or> EqualFold (al_Schema a) schema))
       (range_values (alerts m) ks)"

definition start_one :: "alert_Manager \<Rightarrow> string \<Rightarrow> alert_Manager" where
  "start_one m key =
     (case alerts m key of
        None \<Rightarrow> m
      | Some a \<Rightarrow>
          if al_State a = AlertStarted \<and> al_stopChs m key = None then startAlertLocked m key a else m)"

definition alert_Start :: "alert_Manager \<Rightarrow> string list \<Rightarrow> alert_Manager" where
  "alert_Start m ks = foldl start_one m ks"

definition alert_Stop :: "alert_Manager \<Rightarrow> string list \<Rightarrow> alert_Manager" where
  "alert_Stop m ks = foldl stop_loop m ks"

subsection \<open>Firing\<close>

type_synonym ('w, 'r) query_fn = "'w \<Rightarrow> string \<Rightarrow> 'w \<times> 'r list result"
type_synonym 'w exec_fn = "'w \<Rightarrow> string \<Rightarrow> 'w \<times> unit result"

text \<open>The part under the read lock, the two calls without a lock, and the part under the write lock.\<close>

definition fire_begin :: "alert_Manager \<Rightarrow> string \<Rightarrow> (string \<times> string) option" where
  "fire_begin m key =
     (case alerts m key of
        None \<Rightarrow> None
      | Some a \<Rightarrow> if al_State a \<noteq> AlertStarted then None else Some (al_Condition a, al_Action a))"

definition fire_run :: "('w, 'r) query_fn \<Rightarrow> 'w exec_fn \<Rightarrow> 'w \<Rightarrow> string \<Rightarrow> string \<Rightarrow> 'w \<times> bool" where
  "fire_run queryFn execFn w condition action =
     (case queryFn w condition of
        (w, Inl err) \<Rightarrow> (w, False)
      | (w, Inr rows) \<Rightarrow> if rows = [] then (w, False) else (fst (execFn w action), True))"

definition fire_commit :: "alert_Manager \<Rightarrow> time \<Rightarrow> string \<Rightarrow> alert_Manager" where
  "fire_commit m now key =
     (case alerts m key of
        None \<Rightarrow> m
      | Some a \<Rightarrow> m\<lparr>alerts := (alerts m)(key \<mapsto> a\<lparr>al_LastFired := Some now\<rparr>)\<rparr>)"

definition checkAndFire ::
  "('w, 'r) query_fn \<Rightarrow> 'w exec_fn \<Rightarrow> alert_Manager \<Rightarrow> 'w \<Rightarrow> time \<Rightarrow> string \<Rightarrow> alert_Manager \<times> 'w"
where
  "checkAndFire queryFn execFn m w now key =
     (case fire_begin m key of
        None \<Rightarrow> (m, w)
      | Some (condition, action) \<Rightarrow>
          (case fire_run queryFn execFn w condition action of
             (w, False) \<Rightarrow> (m, w)
           | (w, True) \<Rightarrow> (fire_commit m now key, w)))"

subsection \<open>The registry contract\<close>

definition path_alertKey :: "string \<times> string \<times> string \<Rightarrow> string" where
  "path_alertKey p = (case p of (db, schema, name) \<Rightarrow> alertKey db schema name)"

definition create_alert ::
  "alert_Manager \<Rightarrow> string \<times> string \<times> string \<Rightarrow> time \<times> string \<times> string \<times> string \<times> string \<Rightarrow> alert_Manager result"
where
  "create_alert m p a = (case p of (db, schema, name) \<Rightarrow> case a of (now, wh, sched, cond, act) \<Rightarrow>
     CreateAlert m now db schema name wh sched cond act)"

definition alert_entry ::
  "string \<times> string \<times> string \<Rightarrow> time \<times> string \<times> string \<times> string \<times> string \<Rightarrow> Alert"
where
  "alert_entry p a = (case p of (db, schema, name) \<Rightarrow> case a of (now, wh, sched, cond, act) \<Rightarrow>
     new_alert now db schema name wh sched cond act)"

definition drop_alert :: "alert_Manager \<Rightarrow> string \<times> string \<times> string \<Rightarrow> alert_Manager result" where
  "drop_alert m p = (case p of (db, schema, name) \<Rightarrow> DropAlert m db schema name)"

lemma alerts_stop_loop [simp]: "alerts (stop_loop m key) = alerts m"
  by (simp add: stop_loop_def split: option.split)

lemma alerts_startAlertLocked [simp]: "alerts (startAlertLocked m key a) = alerts m"
  by (simp add: startAlertLocked_def Let_def)

interpretation alert_reg: registry alerts create_alert drop_alert path_alertKey alert_entry "\<lambda>_ _. True"
  by unfold_locales
    (auto simp: create_alert_def drop_alert_def path_alertKey_def alert_entry_def CreateAlert_def DropAlert_def
      Let_def split: if_splits)

subsection \<open>The manager and its goroutines as a state machine\<close>

inductive alert_step :: "alert_Manager \<Rightarrow> alert_Manager \<Rightarrow> bool" where
  create: "CreateAlert m now db schema name wh sched cond act = Inr m' \<Longrightarrow> alert_step m m'"
| remove: "DropAlert m db schema name = Inr m' \<Longrightarrow> alert_step m m'"
| alter: "AlterAlert m db schema name state = Inr m' \<Longrightarrow> alert_step m m'"
| start: "range_order (alerts m) ks \<Longrightarrow> alert_step m (alert_Start m ks)"
| stop: "range_order (al_stopChs m) ks \<Longrightarrow> alert_step m (alert_Stop m ks)"
| exit_loop: "ch \<in> al_closed m \<Longrightarrow> alert_step m (m\<lparr>al_loops := (al_loops m)(ch := None)\<rparr>)"
| fired: "alert_step m (fire_commit m now key)"

inductive alert_reachable :: "alert_Manager \<Rightarrow> bool" where
  init: "alert_reachable alert_NewManager"
| step: "alert_reachable m \<Longrightarrow> alert_step m m' \<Longrightarrow> alert_reachable m'"

text \<open>
  A registered channel belongs to a started alert and to a running goroutine for its key; a running
  goroutine whose channel is open is the registered one; channels are fresh.
\<close>

definition registered_ok :: "alert_Manager \<Rightarrow> string \<Rightarrow> nat \<Rightarrow> bool" where
  "registered_ok m key ch \<longleftrightarrow>
     ch \<notin> al_closed m \<and> map_option fst (al_loops m ch) = Some key \<and>
     map_option al_State (alerts m key) = Some AlertStarted"

definition loop_ok :: "alert_Manager \<Rightarrow> nat \<Rightarrow> string \<times> duration \<Rightarrow> bool" where
  "loop_ok m ch l \<longleftrightarrow> 0 < snd l \<and> ch < al_next m \<and> (ch \<in> al_closed m \<or> al_stopChs m (fst l) = Some ch)"

definition alert_inv :: "alert_Manager \<Rightarrow> bool" where
  "alert_inv m \<longleftrightarrow>
     (\<forall>key ch. al_stopChs m key = Some ch \<longrightarrow> registered_ok m key ch) \<and>
     (\<forall>ch l. al_loops m ch = Some l \<longrightarrow> loop_ok m ch l) \<and>
     (\<forall>ch \<in> al_closed m. ch < al_next m)"

lemma alert_invI:
  "(\<And>key ch. al_stopChs m key = Some ch \<Longrightarrow> registered_ok m key ch) \<Longrightarrow>
   (\<And>ch l. al_loops m ch = Some l \<Longrightarrow> loop_ok m ch l) \<Longrightarrow>
   (\<And>ch. ch \<in> al_closed m \<Longrightarrow> ch < al_next m) \<Longrightarrow> alert_inv m"
  by (simp add: alert_inv_def)

lemma alert_invD:
  assumes "alert_inv m"
  shows inv_registered: "al_stopChs m key = Some ch \<Longrightarrow> registered_ok m key ch"
    and inv_loop: "al_loops m ch = Some l \<Longrightarrow> loop_ok m ch l"
    and inv_closed: "ch \<in> al_closed m \<Longrightarrow> ch < al_next m"
  using assms unfolding alert_inv_def by blast+

lemmas alert_ok_defs = registered_ok_def loop_ok_def

lemma stop_loop_none [simp]: "al_stopChs (stop_loop m key) key = None"
  by (simp add: stop_loop_def split: option.split)

lemma stop_loop_alerts: "stop_loop (m\<lparr>alerts := x\<rparr>) key = (stop_loop m key)\<lparr>alerts := x\<rparr>"
  by (simp add: stop_loop_def split: option.split)

lemma registered_inj:
  assumes "alert_inv m" "al_stopChs m key = Some ch" "al_stopChs m key' = Some ch"
  shows "key = key'"
  using inv_registered [OF assms(1,2)] inv_registered [OF assms(1,3)] by (auto simp: registered_ok_def)

lemma stop_loop_inv:
  assumes inv: "alert_inv m"
  shows "alert_inv (stop_loop m key)"
proof (cases "al_stopChs m key")
  case (Some ch)
  show ?thesis
  proof (rule alert_invI, goal_cases)
    case (1 k c)
    with Some have kc: "al_stopChs m k = Some c" "k \<noteq> key" by (auto simp: stop_loop_def split: if_splits)
    with registered_inj [OF inv kc(1)] Some have "c \<noteq> ch" by blast
    with inv_registered [OF inv kc(1)] Some show ?case by (simp add: stop_loop_def registered_ok_def)
  next
    case (2 c l)
    then have "loop_ok m c l" using Some inv_loop [OF inv] by (simp add: stop_loop_def)
    with Some show ?case by (auto simp: stop_loop_def loop_ok_def)
  next
    case (3 c)
    moreover have "ch < al_next m"
      using inv_registered [OF inv Some] inv_loop [OF inv] by (auto simp: alert_ok_defs)
    ultimately show ?case using Some inv_closed [OF inv] by (auto simp: stop_loop_def)
  qed
qed (use inv in \<open>simp add: stop_loop_def\<close>)

text \<open>
  Replacing the alert under a key is harmless when no channel is registered for it, or when its
  state stays.
\<close>

lemma update_inv:
  assumes inv: "alert_inv m"
    and "al_stopChs m key = None \<or> map_option al_State x = map_option al_State (alerts m key)"
  shows "alert_inv (m\<lparr>alerts := (alerts m)(key := x)\<rparr>)"
proof (rule alert_invI, goal_cases)
  case (1 k c)
  with inv_registered [OF inv, of k c] assms(2) show ?case by (auto simp: registered_ok_def)
next
  case (2 c l)
  with inv_loop [OF inv] show ?case by (simp add: loop_ok_def)
qed (use inv_closed [OF inv] in simp)

lemma start_inv:
  assumes inv: "alert_inv m" and st: "map_option al_State (alerts m key) = Some AlertStarted" "al_stopChs m key = None"
  shows "alert_inv (startAlertLocked m key a)"
proof -
  have fresh: "al_next m \<notin> al_closed m" using inv_closed [OF inv] by blast
  have below: "c < al_next m" if "al_stopChs m k = Some c" for k c
    using inv_registered [OF inv that] inv_loop [OF inv] by (auto simp: alert_ok_defs)
  show ?thesis
  proof (rule alert_invI, goal_cases)
    case (1 k c)
    with st fresh below [of k c] inv_registered [OF inv, of k c] show ?case
      by (auto simp: startAlertLocked_def registered_ok_def Let_def split: if_splits)
  next
    case (2 c l)
    show ?case
    proof (cases "c = al_next m")
      case True
      with 2 show ?thesis by (auto simp: startAlertLocked_def loop_ok_def Let_def)
    next
      case False
      with 2 have "loop_ok m c l" using inv_loop [OF inv] by (simp add: startAlertLocked_def Let_def)
      with st show ?thesis by (auto simp: startAlertLocked_def loop_ok_def Let_def)
    qed
  next
    case (3 c)
    with inv_closed [OF inv] show ?case by (auto simp: startAlertLocked_def Let_def less_Suc_eq)
  qed
qed

lemma start_one_inv: "alert_inv m \<Longrightarrow> alert_inv (start_one m key)"
  unfolding start_one_def by (auto split: option.split intro: start_inv)

lemma alert_inv_unstarted:
  "alert_inv m \<Longrightarrow> alerts m key = Some a \<Longrightarrow> al_State a \<noteq> AlertStarted \<Longrightarrow> al_stopChs m key = None"
  using inv_registered [of m key] by (cases "al_stopChs m key") (auto simp: registered_ok_def)

lemma AlterAlert_inv:
  assumes inv: "alert_inv m" and alter: "AlterAlert m db schema name state = Inr m'"
  shows "alert_inv m'"
proof -
  let ?key = "alertKey db schema name"
  from alter obtain a where a: "alerts m ?key = Some a" by (auto simp: AlterAlert_def Let_def split: option.splits)
  let ?b = "a\<lparr>al_State := state\<rparr>"
  let ?m = "m\<lparr>alerts := (alerts m)(?key \<mapsto> ?b)\<rparr>"
  consider "al_State a = state" | "state = AlertStarted" "al_State a = AlertSuspended"
    | "state = AlertSuspended" "al_State a = AlertStarted"
    by (metis AlertState.exhaust)
  then show ?thesis
  proof cases
    case 1
    then have "m' = ?m" using alter a by (cases state) (auto simp: AlterAlert_def Let_def)
    with 1 a update_inv [OF inv, of ?key "Some ?b"] show ?thesis by simp
  next
    case 2
    then have m': "m' = startAlertLocked ?m ?key ?b" using alter a by (simp add: AlterAlert_def Let_def)
    from 2 have none: "al_stopChs m ?key = None" using alert_inv_unstarted [OF inv a] by simp
    show ?thesis unfolding m' using update_inv [OF inv, of ?key "Some ?b"] 2 none by (intro start_inv) auto
  next
    case 3
    then have m': "m' = (stop_loop m ?key)\<lparr>alerts := (alerts m)(?key \<mapsto> ?b)\<rparr>"
      using alter a by (simp add: AlterAlert_def Let_def stop_loop_alerts)
    show ?thesis unfolding m' 
      using update_inv [OF stop_loop_inv [OF inv], of ?key ?key "Some ?b"] by simp
  qed
qed

lemma alert_step_inv: "alert_step m m' \<Longrightarrow> alert_inv m \<Longrightarrow> alert_inv m'"
proof (induction rule: alert_step.induct)
  case (create m now db schema name wh sched cond act m')
  then have "alerts m (alertKey db schema name) = None" by (auto simp: CreateAlert_def Let_def split: if_splits)
  with create.prems have "al_stopChs m (alertKey db schema name) = None"
    using inv_registered [OF create.prems, of "alertKey db schema name"]
    by (cases "al_stopChs m (alertKey db schema name)") (auto simp: registered_ok_def)
  with create show ?case
    by (auto simp: CreateAlert_def Let_def split: if_splits intro: update_inv)
next
  case (remove m db schema name m')
  then show ?case
    using update_inv [OF stop_loop_inv [OF remove.prems], of "alertKey db schema name" "alertKey db schema name" None]
    by (auto simp: DropAlert_def Let_def split: if_splits)
next
  case (alter m db schema name state m')
  then show ?case by (blast intro: AlterAlert_inv)
next
  case (start m ks)
  have "alert_inv m \<Longrightarrow> alert_inv (foldl start_one m ks)" for m
    by (induction ks arbitrary: m) (simp_all add: start_one_inv)
  with start.prems show ?case by (simp add: alert_Start_def)
next
  case (stop m ks)
  have "alert_inv m \<Longrightarrow> alert_inv (foldl stop_loop m ks)" for m
    by (induction ks arbitrary: m) (simp_all add: stop_loop_inv)
  with stop.prems show ?case by (simp add: alert_Stop_def)
next
  case (exit_loop ch m)
  show ?case
  proof (rule alert_invI, goal_cases)
    case (1 k c)
    with inv_registered [OF exit_loop.prems, of k c] exit_loop.hyps show ?case by (auto simp: registered_ok_def)
  next
    case (2 c l)
    with inv_loop [OF exit_loop.prems, of c l] show ?case by (auto simp: loop_ok_def split: if_splits)
  qed (use inv_closed [OF exit_loop.prems] in simp)
next
  case (fired m now key)
  then show ?case
    unfolding fire_commit_def by (auto split: option.split intro: update_inv)
qed

lemma alert_reachable_inv: "alert_reachable m \<Longrightarrow> alert_inv m"
proof (induction rule: alert_reachable.induct)
  case init
  show ?case by (simp add: alert_inv_def alert_NewManager_def)
next
  case (step m m')
  then show ?case by (blast intro: alert_step_inv)
qed

text \<open>
  C9. In every state that calls, ticks and goroutine exits can reach, an alert has at most one goroutine
  with an open stop channel; it has one only while it exists and is started, and its ticker interval is
  positive (\<^verbatim>\<open>time.NewTicker\<close> panics otherwise). A tick for any other alert, from a goroutine that has
  not yet seen its channel close, runs neither the condition nor the action and changes nothing; a tick
  for a started alert runs the action exactly when the condition returns rows.
\<close>

theorem alert_loops_exact:
  assumes "alert_reachable m"
  shows
    "(\<forall>ch ch' key iv iv'. al_loops m ch = Some (key, iv) \<and> al_loops m ch' = Some (key, iv') \<and>
        ch \<notin> al_closed m \<and> ch' \<notin> al_closed m \<longrightarrow> ch = ch') \<and>
     (\<forall>ch key iv. al_loops m ch = Some (key, iv) \<longrightarrow> 0 < iv \<and>
        (ch \<notin> al_closed m \<longrightarrow> (\<exists>a. alerts m key = Some a \<and> al_State a = AlertStarted))) \<and>
     checkAndFire queryFn execFn m w now key =
       (case alerts m key of
          None \<Rightarrow> (m, w)
        | Some a \<Rightarrow>
            if al_State a = AlertSuspended then (m, w)
            else case queryFn w (al_Condition a) of
                   (w', Inl err) \<Rightarrow> (m, w')
                 | (w', Inr rows) \<Rightarrow>
                     if rows = [] then (m, w')
                     else (m\<lparr>alerts := (alerts m)(key \<mapsto> a\<lparr>al_LastFired := Some now\<rparr>)\<rparr>, fst (execFn w' (al_Action a))))"
  (is "?one \<and> ?live \<and> ?fire")
proof -
  from assms have inv: "alert_inv m" by (rule alert_reachable_inv)
  have one: ?one
  proof (intro allI impI)
    fix ch ch' key iv iv'
    assume "al_loops m ch = Some (key, iv) \<and> al_loops m ch' = Some (key, iv') \<and> ch \<notin> al_closed m \<and> ch' \<notin> al_closed m"
    with inv_loop [OF inv, of ch "(key, iv)"] inv_loop [OF inv, of ch' "(key, iv')"] show "ch = ch'"
      by (auto simp: loop_ok_def)
  qed
  have live: ?live
  proof (intro allI impI)
    fix ch key iv
    assume "al_loops m ch = Some (key, iv)"
    then have "loop_ok m ch (key, iv)" by (rule inv_loop [OF inv])
    with inv_registered [OF inv, of key ch] show "0 < iv \<and>
        (ch \<notin> al_closed m \<longrightarrow> (\<exists>a. alerts m key = Some a \<and> al_State a = AlertStarted))"
      by (auto simp: alert_ok_defs)
  qed
  have fire: ?fire
  proof (cases "alerts m key")
    case (Some a)
    then show ?thesis
      by (cases "al_State a"; cases "queryFn w (al_Condition a)"; cases "snd (queryFn w (al_Condition a))")
        (auto simp: checkAndFire_def fire_begin_def fire_run_def fire_commit_def)
  qed (simp add: checkAndFire_def fire_begin_def)
  from one live fire show ?thesis by blast
qed

definition sample_alerts :: alert_Manager where
  "sample_alerts =
     \<lparr>alerts = [''D.S.A'' \<mapsto> (new_alert 0 ''d'' ''s'' ''a'' '''' ''5 MINUTE'' ''c'' ''x'')\<lparr>al_State := AlertStarted\<rparr>],
      al_stopChs = [''D.S.A'' \<mapsto> 0], al_loops = [0 \<mapsto> (''D.S.A'', 5 * minute)], al_closed = {}, al_next = 1\<rparr>"

lemma sample_alerts_reachable: "alert_reachable sample_alerts"
proof -
  let ?m = "alert_NewManager\<lparr>alerts := [''D.S.A'' \<mapsto> new_alert 0 ''d'' ''s'' ''a'' '''' ''5 MINUTE'' ''c'' ''x'']\<rparr>"
  have key: "alertKey ''d'' ''s'' ''a'' = ''D.S.A''" by code_simp
  have iv: "alert_parseSchedule ''5 MINUTE'' = 5 * minute" by code_simp
  have "CreateAlert alert_NewManager 0 ''d'' ''s'' ''a'' '''' ''5 MINUTE'' ''c'' ''x'' = Inr ?m"
    by (simp add: CreateAlert_def key Let_def alert_NewManager_def)
  moreover have "AlterAlert ?m ''d'' ''s'' ''a'' AlertStarted = Inr sample_alerts"
    using duration_pos(2)
    by (simp add: AlterAlert_def key iv startAlertLocked_def sample_alerts_def alert_NewManager_def new_alert_def Let_def
        del: duration_pos)
  ultimately show ?thesis by (meson alert_reachable.intros alert_step.create alert_step.alter)
qed

theorem alert_loops_exact_witness:
  "checkAndFire (\<lambda>w sql. (w @ [sql], Ok [()])) (\<lambda>w sql. (w @ [sql], Ok ())) sample_alerts [] 7 ''D.S.A'' =
     (sample_alerts\<lparr>alerts := [''D.S.A'' \<mapsto> (new_alert 0 ''d'' ''s'' ''a'' '''' ''5 MINUTE'' ''c'' ''x'')
        \<lparr>al_State := AlertStarted, al_LastFired := Some 7\<rparr>]\<rparr>, [''c'', ''x''])"
proof -
  note ex = alert_loops_exact [OF sample_alerts_reachable, THEN conjunct2, THEN conjunct2]
  show ?thesis unfolding ex by (simp add: sample_alerts_def new_alert_def)
qed

end
