(* ===== verification/Go_Regexp.thy ===== *)
theory Go_Regexp
  imports Go_Strings
begin

text \<open>
  Go's \<^verbatim>\<open>regexp\<close> package, as far as the code uses it: the syntax of RE2 without counted repetition, and
  the leftmost-first matching that the package documents (the match a backtracking search finds first).
  Texts are bytes and case folding is the folding of ASCII letters, as everywhere in this development.

  An expression is parsed from the text the source gives it, so that a definition of the development
  names the same text as the code. \<open>rmatch\<close> matches at one position: it receives the character before the
  position, the rest of the text and the groups captured so far.
\<close>

subsection \<open>Expressions\<close>

datatype re_item = IChar char | IRange char char | ISpace | INotSpace | IWord | IDigit

datatype re =
    Eps
  | Cls bool bool "re_item list"
  | Dot bool
  | Cat re re
  | Alt re re
  | Star bool re
  | Grp nat re
  | Bol
  | Eol
  | WordB

type_synonym caps = "(nat \<times> string) list"

definition re_space :: "char \<Rightarrow> bool" where
  "re_space c = (let n = (of_char c :: nat) in n = 32 \<or> n = 9 \<or> n = 10 \<or> n = 12 \<or> n = 13)"

definition re_word :: "char \<Rightarrow> bool" where
  "re_word c \<longleftrightarrow> is_alpha c \<or> is_digit c \<or> c = CHR ''_''"

lemma re_space_code [code]:
  "re_space c \<longleftrightarrow> c = CHR '' '' \<or> c = CHR 0x09 \<or> c = CHR 0x0A \<or> c = CHR 0x0C \<or> c = CHR 0x0D"
proof -
  have eq: "c = d \<longleftrightarrow> (of_char c :: nat) = of_char d" for d by simp
  show ?thesis unfolding re_space_def Let_def eq by simp
qed

text \<open>The order of bytes, most significant bit first.\<close>

fun bits_le :: "bool list \<Rightarrow> bool list \<Rightarrow> bool" where
  "bits_le (a # as) (b # bs) = (if a = b then bits_le as bs else b)"
| "bits_le as bs = True"

definition char_le :: "char \<Rightarrow> char \<Rightarrow> bool" where
  "char_le a b \<longleftrightarrow> (of_char a :: nat) \<le> of_char b"

lemma bits_le_horner:
  "length as = length bs \<Longrightarrow>
     bits_le as bs \<longleftrightarrow> (horner_sum of_bool 2 (rev as) :: nat) \<le> horner_sum of_bool 2 (rev bs)"
proof (induction as bs rule: bits_le.induct)
  case (1 a as b bs)
  have "(horner_sum of_bool 2 (rev as) :: nat) < 2 ^ length bs" "(horner_sum of_bool 2 (rev bs) :: nat) < 2 ^ length bs"
    using horner_sum_of_bool_2_less [of "rev as", where 'a = nat] horner_sum_of_bool_2_less [of "rev bs", where 'a = nat]
      "1.prems" by simp_all
  with 1 show ?case by (cases a; cases b) (auto simp: horner_sum_append)
qed auto

lemma char_le_code [code]:
  "char_le (Char a0 a1 a2 a3 a4 a5 a6 a7) (Char b0 b1 b2 b3 b4 b5 b6 b7) =
     bits_le [a7, a6, a5, a4, a3, a2, a1, a0] [b7, b6, b5, b4, b3, b2, b1, b0]"
  by (subst bits_le_horner) (simp_all only: char_le_def of_char_Char rev.simps append.simps list.size)

fun in_item :: "re_item \<Rightarrow> char \<Rightarrow> bool" where
  "in_item (IChar c) x = (x = c)"
| "in_item (IRange a b) x = (char_le a x \<and> char_le x b)"
| "in_item ISpace x = re_space x"
| "in_item INotSpace x = (\<not> re_space x)"
| "in_item IWord x = re_word x"
| "in_item IDigit x = is_digit x"

text \<open>A class: with the flag i its items are folded, then it is negated if its second flag says so.\<close>

definition in_class :: "bool \<Rightarrow> bool \<Rightarrow> re_item list \<Rightarrow> char \<Rightarrow> bool" where
  "in_class i neg items x =
     (list_ex (\<lambda>it. in_item it x \<or> i \<and> (in_item it (upper_char x) \<or> in_item it (lower_char x))) items \<noteq> neg)"

definition word_before :: "char option \<Rightarrow> bool" where
  "word_before p = (case p of None \<Rightarrow> False | Some c \<Rightarrow> re_word c)"

definition word_after :: "string \<Rightarrow> bool" where
  "word_after s = (case s of [] \<Rightarrow> False | c # _ \<Rightarrow> re_word c)"

text \<open>
  The search runs a list of jobs: to match an expression, to close a group that began with a given rest
  of the text, or to go on with a repetition whose last iteration began with a rest of a given length; it
  goes on only after an iteration that consumed something, so that it ends. The flag of \<open>Star\<close> tells
  whether another iteration is preferred.
\<close>

datatype re_job = Run re | CloseG nat string | Again nat bool re

fun job_weight :: "nat \<Rightarrow> re_job \<Rightarrow> nat" where
  "job_weight n (Run r) = 2 * size r + 1"
| "job_weight n (CloseG i t) = 1"
| "job_weight n (Again l g r) = (if n < l then 2 * size (Star g r) + 2 else 1)"

function (sequential) rmatch :: "re_job list \<Rightarrow> char option \<Rightarrow> string \<Rightarrow> caps \<Rightarrow> (string \<times> caps) option" where
  "rmatch [] p s c = Some (s, c)"
| "rmatch (CloseG i t # k) p s c = rmatch k p s ((i, take (length t - length s) t) # c)"
| "rmatch (Again l g a # k) p s c = (if length s < l then rmatch (Run (Star g a) # k) p s c else None)"
| "rmatch (Run Eps # k) p s c = rmatch k p s c"
| "rmatch (Run (Cls i neg items) # k) p s c =
     (case s of [] \<Rightarrow> None | x # s' \<Rightarrow> if in_class i neg items x then rmatch k (Some x) s' c else None)"
| "rmatch (Run (Dot nl) # k) p s c =
     (case s of [] \<Rightarrow> None | x # s' \<Rightarrow> if nl \<or> x \<noteq> CHR 0x0A then rmatch k (Some x) s' c else None)"
| "rmatch (Run (Cat a b) # k) p s c = rmatch (Run a # Run b # k) p s c"
| "rmatch (Run (Alt a b) # k) p s c = (case rmatch (Run a # k) p s c of Some r \<Rightarrow> Some r | None \<Rightarrow> rmatch (Run b # k) p s c)"
| "rmatch (Run (Star g a) # k) p s c =
     (if g then (case rmatch (Run a # Again (length s) g a # k) p s c of Some r \<Rightarrow> Some r | None \<Rightarrow> rmatch k p s c)
      else (case rmatch k p s c of Some r \<Rightarrow> Some r | None \<Rightarrow> rmatch (Run a # Again (length s) g a # k) p s c))"
| "rmatch (Run (Grp n a) # k) p s c = rmatch (Run a # CloseG n s # k) p s c"
| "rmatch (Run Bol # k) p s c = (if p = None then rmatch k p s c else None)"
| "rmatch (Run Eol # k) p s c = (if s = [] then rmatch k p s c else None)"
| "rmatch (Run WordB # k) p s c = (if word_before p \<noteq> word_after s then rmatch k p s c else None)"
  by pat_completeness auto
termination
  by (relation "measures [\<lambda>(k, p, s, c). length s, \<lambda>(k, p, s, c). sum_list (map (job_weight (length s)) k)]") auto

subsection \<open>Syntax\<close>

datatype re_token =
    TClass bool "re_item list"
  | TDot
  | TOpen
  | TOpenPlain
  | TClose
  | TBar
  | TStar bool
  | TPlus bool
  | TOpt bool
  | TBol
  | TEol
  | TWordB

definition re_class_escape :: "char \<Rightarrow> re_item" where
  "re_class_escape e =
     (if e = CHR ''s'' then ISpace
      else if e = CHR ''S'' then INotSpace
      else if e = CHR ''w'' then IWord
      else if e = CHR ''d'' then IDigit
      else IChar e)"

text \<open>One item of a bracket class that starts with \<open>a\<close>, and all items up to the closing bracket.\<close>

definition class_item :: "char \<Rightarrow> string \<Rightarrow> (re_item \<times> string) option" where
  "class_item a s =
     (if a = CHR 0x5C then (case s of [] \<Rightarrow> None | e # s2 \<Rightarrow> Some (re_class_escape e, s2))
      else
        Some (case s of
            d # b # s2 \<Rightarrow> if d = CHR ''-'' \<and> b \<noteq> CHR '']'' then (IRange a b, s2) else (IChar a, s)
          | _ \<Rightarrow> (IChar a, s)))"

lemma class_item_shorter: "class_item a s = Some (it, r) \<Longrightarrow> length r \<le> length s"
  by (auto simp: class_item_def split: if_splits list.splits)

function class_items :: "string \<Rightarrow> re_item list \<Rightarrow> (re_item list \<times> string) option" where
  "class_items [] acc = None"
| "class_items (a # s) acc =
     (if a = CHR '']'' then Some (rev acc, s)
      else (case class_item a s of None \<Rightarrow> None | Some (it, r) \<Rightarrow> class_items r (it # acc)))"
  by pat_completeness auto
termination by (relation "measure (length \<circ> fst)") (auto dest: class_item_shorter)

definition re_class :: "string \<Rightarrow> (re_token \<times> string) option" where
  "re_class s =
     (case s of
        a # s1 \<Rightarrow>
          if a = CHR ''^'' then map_option (\<lambda>(items, r). (TClass True items, r)) (class_items s1 [])
          else map_option (\<lambda>(items, r). (TClass False items, r)) (class_items s [])
      | [] \<Rightarrow> None)"

text \<open>A question mark after a repetition makes it lazy.\<close>

definition lazy_suffix :: "string \<Rightarrow> bool \<times> string" where
  "lazy_suffix s = (case s of a # s1 \<Rightarrow> if a = CHR ''?'' then (False, s1) else (True, s) | [] \<Rightarrow> (True, s))"

lemma lazy_suffix_shorter: "length (snd (lazy_suffix s)) \<le> length s"
  by (auto simp: lazy_suffix_def split: list.splits)

lemma class_items_shorter: "class_items s acc = Some (its, r) \<Longrightarrow> length r < length s"
proof (induction s acc rule: class_items.induct)
  case (2 a s acc)
  show ?case
  proof (cases "a = CHR '']''")
    case False
    with "2.prems" obtain it r' where item: "class_item a s = Some (it, r')"
      and rest: "class_items r' (it # acc) = Some (its, r)"
      by (auto split: option.splits)
    with "2.IH" [OF False item] class_item_shorter [OF item] show ?thesis by simp
  qed (use "2.prems" in simp)
qed simp

lemma re_class_shorter: "re_class s = Some (t, r) \<Longrightarrow> length r < length s"
proof (cases s)
  case (Cons a s1)
  assume "re_class s = Some (t, r)"
  with Cons show ?thesis
    using class_items_shorter [of s "[]"] class_items_shorter [of s1 "[]"]
    by (cases "a = CHR ''^''") (auto simp: re_class_def simp del: class_items.simps dest: less_SucI)
qed (simp add: re_class_def)

definition re_escape :: "char \<Rightarrow> re_token" where
  "re_escape e = (if e = CHR ''b'' then TWordB else TClass False [re_class_escape e])"

definition re_token_at :: "char \<Rightarrow> string \<Rightarrow> (re_token \<times> string) option" where
  "re_token_at a s =
     (if a = CHR 0x5C then (case s of e # s2 \<Rightarrow> Some (re_escape e, s2) | [] \<Rightarrow> None)
      else if a = CHR ''['' then re_class s
      else if a = CHR ''('' then Some (if HasPrefix s ''?:'' then (TOpenPlain, drop 2 s) else (TOpen, s))
      else if a = CHR '')'' then Some (TClose, s)
      else if a = CHR ''|'' then Some (TBar, s)
      else if a = CHR ''*'' then (case lazy_suffix s of (g, r) \<Rightarrow> Some (TStar g, r))
      else if a = CHR ''+'' then (case lazy_suffix s of (g, r) \<Rightarrow> Some (TPlus g, r))
      else if a = CHR ''?'' then (case lazy_suffix s of (g, r) \<Rightarrow> Some (TOpt g, r))
      else if a = CHR ''^'' then Some (TBol, s)
      else if a = CHR ''$'' then Some (TEol, s)
      else if a = CHR ''.'' then Some (TDot, s)
      else Some (TClass False [IChar a], s))"

lemma re_token_at_shorter: "re_token_at a s = Some (t, r) \<Longrightarrow> length r \<le> length s"
  using lazy_suffix_shorter [of s] re_class_shorter [of s t r]
  by (auto simp: re_token_at_def split: if_splits list.splits prod.splits)

function re_tokens :: "string \<Rightarrow> re_token list option" where
  "re_tokens [] = Some []"
| "re_tokens (a # s) =
     (case re_token_at a s of
        None \<Rightarrow> None
      | Some (t, r) \<Rightarrow> (case re_tokens r of None \<Rightarrow> None | Some ts \<Rightarrow> Some (t # ts)))"
  by pat_completeness auto
termination by (relation "measure length") (auto dest: re_token_at_shorter)

text \<open>
  The parser, under the flags i (case folding) and s (the dot matches a newline). It keeps the alternatives
  and the pieces read so far, newest first, of the group it is in, and a stack of the same for the groups
  around it with the number of each group, if it has one.
\<close>

fun re_cats :: "re list \<Rightarrow> re \<Rightarrow> re" where
  "re_cats [] acc = acc"
| "re_cats (x # xs) acc = re_cats xs (case acc of Eps \<Rightarrow> x | _ \<Rightarrow> Cat x acc)"

definition re_body :: "re option \<Rightarrow> re list \<Rightarrow> re" where
  "re_body alts xs = (case alts of None \<Rightarrow> re_cats xs Eps | Some a \<Rightarrow> Alt a (re_cats xs Eps))"

type_synonym re_frame = "nat option \<times> re option \<times> re list"

fun re_parse :: "bool \<Rightarrow> bool \<Rightarrow> re_token list \<Rightarrow> nat \<Rightarrow> re_frame list \<Rightarrow> re option \<Rightarrow> re list \<Rightarrow> re option" where
  "re_parse i d [] n st alts xs = (if st = [] then Some (re_body alts xs) else None)"
| "re_parse i d (TClass neg items # ts) n st alts xs = re_parse i d ts n st alts (Cls i neg items # xs)"
| "re_parse i d (TDot # ts) n st alts xs = re_parse i d ts n st alts (Dot d # xs)"
| "re_parse i d (TBol # ts) n st alts xs = re_parse i d ts n st alts (Bol # xs)"
| "re_parse i d (TEol # ts) n st alts xs = re_parse i d ts n st alts (Eol # xs)"
| "re_parse i d (TWordB # ts) n st alts xs = re_parse i d ts n st alts (WordB # xs)"
| "re_parse i d (TOpen # ts) n st alts xs = re_parse i d ts (Suc n) ((Some (Suc n), alts, xs) # st) None []"
| "re_parse i d (TOpenPlain # ts) n st alts xs = re_parse i d ts n ((None, alts, xs) # st) None []"
| "re_parse i d (TBar # ts) n st alts xs = re_parse i d ts n st (Some (re_body alts xs)) []"
| "re_parse i d (TClose # ts) n st alts xs =
     (case st of
        [] \<Rightarrow> None
      | (g, alts', xs') # st' \<Rightarrow>
          re_parse i d ts n st' alts' ((case g of None \<Rightarrow> re_body alts xs | Some j \<Rightarrow> Grp j (re_body alts xs)) # xs'))"
| "re_parse i d (TStar g # ts) n st alts xs =
     (case xs of [] \<Rightarrow> None | x # xs' \<Rightarrow> re_parse i d ts n st alts (Star g x # xs'))"
| "re_parse i d (TPlus g # ts) n st alts xs =
     (case xs of [] \<Rightarrow> None | x # xs' \<Rightarrow> re_parse i d ts n st alts (Star g x # x # xs'))"
| "re_parse i d (TOpt g # ts) n st alts xs =
     (case xs of [] \<Rightarrow> None
      | x # xs' \<Rightarrow> re_parse i d ts n st alts ((if g then Alt x Eps else Alt Eps x) # xs'))"

text \<open>
  \<^verbatim>\<open>regexp.Compile\<close>; the flags that the code uses stand at the front of the expression. An expression that
  does not compile is \<open>None\<close>.
\<close>

definition re_Compile :: "string \<Rightarrow> re option" where
  "re_Compile src =
     (let (i, d, body) =
        (if HasPrefix src ''(?i)'' then (True, False, drop 4 src)
         else if HasPrefix src ''(?s)'' then (False, True, drop 4 src)
         else if HasPrefix src ''(?is)'' then (True, True, drop 5 src)
         else (False, False, src))
      in case re_tokens body of None \<Rightarrow> None | Some ts \<Rightarrow> re_parse i d ts 0 [] None [])"

definition MustCompile :: "string \<Rightarrow> re" where
  "MustCompile src = (case re_Compile src of Some r \<Rightarrow> r | None \<Rightarrow> Cls False False [])"

text \<open>
  String literals of HOL cannot hold a backslash, and two quotes end them: in the expressions below a
  tilde stands for the backslash of the source and a grave accent for its single quote. No expression
  of the source contains either of the two.
\<close>

definition re_text :: "string \<Rightarrow> string" where
  "re_text s = map (\<lambda>c. if c = CHR ''~'' then CHR 0x5C else if c = CHR 0x60 then CHR 0x27 else c) s"

definition re_lit :: "string \<Rightarrow> re" where
  "re_lit s = MustCompile (re_text s)"

subsection \<open>Searching\<close>

definition rmatch_at :: "re \<Rightarrow> char option \<Rightarrow> string \<Rightarrow> (string \<times> caps) option" where
  "rmatch_at r p s = rmatch [Run r] p s []"

text \<open>The leftmost match: the text before it, the matched text, the text after it and the groups.\<close>

fun find_re :: "re \<Rightarrow> char option \<Rightarrow> string \<Rightarrow> (string \<times> string \<times> string \<times> caps) option" where
  "find_re r p s =
     (case rmatch_at r p s of
        Some (s', c) \<Rightarrow> Some ([], take (length s - length s') s, s', c)
      | None \<Rightarrow>
          (case s of
             [] \<Rightarrow> None
           | x # t \<Rightarrow> (case find_re r (Some x) t of
               None \<Rightarrow> None | Some (b, m, after, c) \<Rightarrow> Some (x # b, m, after, c))))"

declare find_re.simps [simp del]

definition MatchString :: "re \<Rightarrow> string \<Rightarrow> bool" where
  "MatchString r s \<longleftrightarrow> find_re r None s \<noteq> None"

lemma rmatch_suffix: "rmatch k p s c = Some (s', c') \<Longrightarrow> \<exists>u. s = u @ s'"
proof (induction k p s c rule: rmatch.induct)
  case (5 i neg items k p s c)
  then show ?case by (cases s) (auto split: if_splits)
next
  case (6 nl k p s c)
  then show ?case by (cases s) (auto split: if_splits)
next
  case (8 a b k p s c)
  then show ?case by (cases "rmatch (Run a # k) p s c") auto
next
  case (9 g a k p s c)
  then show ?case
    by (cases g; cases "rmatch (Run a # Again (length s) g a # k) p s c"; cases "rmatch k p s c") auto
qed (auto split: if_splits)

lemma find_re_parts: "find_re r p s = Some (before, m, after, c) \<Longrightarrow> s = before @ m @ after"
proof (induction s arbitrary: p before)
  case Nil
  then show ?case by (auto simp: find_re.simps [of r p "[]"] rmatch_at_def split: option.splits dest: rmatch_suffix)
next
  case (Cons x t)
  show ?case
  proof (cases "rmatch_at r p (x # t)")
    case None
    with Cons.prems obtain b where "find_re r (Some x) t = Some (b, m, after, c)" "before = x # b"
      by (auto simp: find_re.simps [of r p "x # t"] split: option.splits)
    with Cons.IH show ?thesis by simp
  next
    case (Some q)
    then obtain s' c' where q: "rmatch_at r p (x # t) = Some (s', c')" by (cases q) auto
    then obtain u where "x # t = u @ s'" using rmatch_suffix unfolding rmatch_at_def by blast
    moreover from q Cons.prems have "before = []" "m = take (length (x # t) - length s') (x # t)" "after = s'"
      by (auto simp: find_re.simps [of r p "x # t"])
    ultimately show ?thesis by (metis append_Nil append_eq_conv_conj diff_add_inverse2 length_append)
  qed
qed

text \<open>The submatches of a match: group 0 is the whole match, a group that took no part is empty.\<close>

definition re_group :: "string \<Rightarrow> caps \<Rightarrow> nat \<Rightarrow> string" where
  "re_group m c n = (if n = 0 then m else case map_of c n of None \<Rightarrow> [] | Some t \<Rightarrow> t)"

definition FindStringSubmatch :: "re \<Rightarrow> string \<Rightarrow> (nat \<Rightarrow> string) option" where
  "FindStringSubmatch r s =
     (case find_re r None s of None \<Rightarrow> None | Some (b, m, after, c) \<Rightarrow> Some (re_group m c))"

text \<open>
  All matches from left to right, each with the text between it and the match before, and the text after
  the last one. None of the expressions that the code searches repeatedly matches the empty text; a search
  that would find an empty match stops.
\<close>

function re_pieces :: "re \<Rightarrow> char option \<Rightarrow> string \<Rightarrow> (string \<times> string \<times> caps) list \<times> string" where
  "re_pieces r p s =
     (case find_re r p s of
        None \<Rightarrow> ([], s)
      | Some (b, m, after, c) \<Rightarrow>
          if m = [] then ([], s)
          else (case re_pieces r (Some (last m)) after of (ps, t) \<Rightarrow> ((b, m, c) # ps, t)))"
  by pat_completeness auto
termination by (relation "measure (\<lambda>(r, p, s). length s)") (auto dest!: find_re_parts)

declare re_pieces.simps [simp del]

lemma re_pieces_join: "re_pieces r p s = (ps, t) \<Longrightarrow> concat (map (\<lambda>(b, m, c). b @ m) ps) @ t = s"
proof (induction r p s arbitrary: ps rule: re_pieces.induct)
  case (1 r p s)
  show ?case
  proof (cases "find_re r p s")
    case None
    with "1.prems" show ?thesis by (simp add: re_pieces.simps [of r p s])
  next
    case (Some q)
    then obtain b m a c where q: "find_re r p s = Some (b, m, a, c)" by (cases q) auto
    show ?thesis
    proof (cases "m = []")
      case True
      with q "1.prems" show ?thesis by (simp add: re_pieces.simps [of r p s])
    next
      case False
      obtain ps' t' where r: "re_pieces r (Some (last m)) a = (ps', t')" by fastforce
      with q False "1.prems" have "ps = (b, m, c) # ps'" "t = t'" by (simp_all add: re_pieces.simps [of r p s])
      with "1.IH" [OF q] False r find_re_parts [OF q] show ?thesis by simp
    qed
  qed
qed

text \<open>
  A replacement function that panics (it indexes the submatches of a text that does not match) makes the
  whole call panic: its result is \<open>None\<close>.
\<close>

fun replace_pieces :: "(string \<Rightarrow> string option) \<Rightarrow> (string \<times> string \<times> caps) list \<Rightarrow> string option" where
  "replace_pieces f [] = Some []"
| "replace_pieces f ((b, m, c) # ps) =
     (case f m of
        None \<Rightarrow> None
      | Some t \<Rightarrow> (case replace_pieces f ps of None \<Rightarrow> None | Some u \<Rightarrow> Some (b @ t @ u)))"

definition ReplaceAllStringFunc :: "re \<Rightarrow> string \<Rightarrow> (string \<Rightarrow> string option) \<Rightarrow> string option" where
  "ReplaceAllStringFunc r s f =
     (case re_pieces r None s of (ps, t) \<Rightarrow> map_option (\<lambda>u. u @ t) (replace_pieces f ps))"

definition ReplaceAllString :: "re \<Rightarrow> string \<Rightarrow> ((nat \<Rightarrow> string) \<Rightarrow> string) \<Rightarrow> string" where
  "ReplaceAllString r s template =
     (case re_pieces r None s of (ps, t) \<Rightarrow> concat (map (\<lambda>(b, m, c). b @ template (re_group m c)) ps) @ t)"

definition FindAllStringSubmatch :: "re \<Rightarrow> string \<Rightarrow> (nat \<Rightarrow> string) list" where
  "FindAllStringSubmatch r s = map (\<lambda>(b, m, c). re_group m c) (fst (re_pieces r None s))"

end
