(* ===== verification/Rewriter.thy ===== *)
theory Rewriter
  imports Go_Regexp
begin

text \<open>
  \<^verbatim>\<open>internal/rewriter/rewriter.go\<close>: the splitting of statements, the scanner for function calls and the
  rules that rewrite one function into another. A position in the text is the rest of the text from
  there on. The loop of \<^verbatim>\<open>replaceFuncCall\<close> goes on as long as it finds a call, so it is a
  \<open>partial_function\<close>: \<open>None\<close> is a loop that never ends.
\<close>

subsection \<open>Splitting statements\<close>

fun split_loop :: "bool \<Rightarrow> string \<Rightarrow> string \<Rightarrow> string list" where
  "split_loop inQuote current [] = (if current \<noteq> [] then [current] else [])"
| "split_loop inQuote current (ch # sql) =
     (if ch = CHR 0x27 \<and> \<not> inQuote then split_loop True (current @ [ch]) sql
      else if ch = CHR 0x27 \<and> inQuote then
        (case sql of
           [] \<Rightarrow> split_loop False (current @ [ch]) []
         | d # sql' \<Rightarrow>
             if d = CHR 0x27 then split_loop True (current @ [ch, d]) sql'
             else split_loop False (current @ [ch]) (d # sql'))
      else if ch = CHR '';'' \<and> \<not> inQuote then current # split_loop False [] sql
      else split_loop inQuote (current @ [ch]) sql)"

definition splitStatements :: "string \<Rightarrow> string list" where
  "splitStatements sql = split_loop False [] sql"

subsection \<open>Arguments of a call\<close>

text \<open>\<open>current\<close> is the text since the last top-level comma, \<^verbatim>\<open>sql[start:i]\<close>.\<close>

fun scan_args :: "nat \<Rightarrow> bool \<Rightarrow> string \<Rightarrow> string list \<Rightarrow> string \<Rightarrow> (string list \<times> string) option" where
  "scan_args depth inQuote current args [] = None"
| "scan_args depth inQuote current args (ch # sql) =
     (if ch = CHR 0x27 \<and> \<not> inQuote then scan_args depth True (current @ [ch]) args sql
      else if ch = CHR 0x27 \<and> inQuote then
        (case sql of
           [] \<Rightarrow> None
         | d # sql' \<Rightarrow>
             if d = CHR 0x27 then scan_args depth True (current @ [ch, d]) args sql'
             else scan_args depth False (current @ [ch]) args (d # sql'))
      else if inQuote then scan_args depth inQuote (current @ [ch]) args sql
      else if ch = CHR ''('' then scan_args (Suc depth) inQuote (current @ [ch]) args sql
      else if ch = CHR '')'' then
        (if depth - 1 = 0 then
           (let arg = TrimSpace current in Some (if arg \<noteq> [] then args @ [arg] else args, sql))
         else scan_args (depth - 1) inQuote (current @ [ch]) args sql)
      else if ch = CHR '','' \<and> depth = 1 then scan_args depth inQuote [] (args @ [TrimSpace current]) sql
      else scan_args depth inQuote (current @ [ch]) args sql)"

text \<open>The arguments and the text after the closing parenthesis.\<close>

definition extractFuncArgs :: "string \<Rightarrow> (string list \<times> string) option" where
  "extractFuncArgs s =
     (case s of [] \<Rightarrow> None | c # sql \<Rightarrow> if c \<noteq> CHR ''('' then None else scan_args 1 False [] [] sql)"

subsection \<open>Finding and replacing calls\<close>

text \<open>
  A match of \<^verbatim>\<open>(?i)\bNAME\s*\(\<close> at this position, after the byte \<open>prev\<close>: the text from the parenthesis
  on. The names of the rules start with a word byte, so the boundary is a \<open>prev\<close> that is none.
\<close>

definition call_here :: "string \<Rightarrow> char option \<Rightarrow> string \<Rightarrow> string option" where
  "call_here funcName prev s =
     (let rest = dropWhile re_space (drop (length funcName) s)
      in if (case prev of None \<Rightarrow> True | Some c \<Rightarrow> \<not> re_word c) \<and>
            EqualFold (take (length funcName) s) funcName \<and> HasPrefix rest ''(''
         then Some rest else None)"

fun find_call :: "string \<Rightarrow> char option \<Rightarrow> string \<Rightarrow> (string \<times> string) option" where
  "find_call funcName prev [] = None"
| "find_call funcName prev (c # s) =
     (case call_here funcName prev (c # s) of
        Some rest \<Rightarrow> Some ([], rest)
      | None \<Rightarrow> map_option (apfst (Cons c)) (find_call funcName (Some c) s))"

text \<open>The text before the leftmost call, its arguments and the text after it.\<close>

definition findFuncCall :: "string \<Rightarrow> string \<Rightarrow> (string \<times> string list \<times> string) option" where
  "findFuncCall sql funcName =
     (case find_call funcName None sql of
        None \<Rightarrow> None
      | Some (before, rest) \<Rightarrow>
          (case extractFuncArgs rest of
             None \<Rightarrow> None
           | Some (args, after) \<Rightarrow> Some (before, args, after)))"

partial_function (option) replaceFuncCall :: "string \<Rightarrow> string \<Rightarrow> (string list \<Rightarrow> string) \<Rightarrow> string option" where
  "replaceFuncCall sql funcName replacer =
     (case findFuncCall sql funcName of
        None \<Rightarrow> Some sql
      | Some (before, args, after) \<Rightarrow> replaceFuncCall (before @ replacer args @ after) funcName replacer)"

declare replaceFuncCall.simps [code]

subsection \<open>The rules\<close>

definition call_text :: "string \<Rightarrow> string list \<Rightarrow> string" where
  "call_text f args = f @ ''('' @ Join args '', '' @ '')''"

definition rewriteIFF :: "string \<Rightarrow> string option" where
  "rewriteIFF sql = replaceFuncCall sql ''IFF'' (\<lambda>args.
     if length args < 3 then call_text ''IFF'' args
     else ''CASE WHEN '' @ args ! 0 @ '' THEN '' @ args ! 1 @ '' ELSE '' @ args ! 2 @ '' END'')"

definition rewriteNVL2 :: "string \<Rightarrow> string option" where
  "rewriteNVL2 sql = replaceFuncCall sql ''NVL2'' (\<lambda>args.
     if length args < 3 then call_text ''NVL2'' args
     else ''CASE WHEN '' @ args ! 0 @ '' IS NOT NULL THEN '' @ args ! 1 @ '' ELSE '' @ args ! 2 @ '' END'')"

definition rewriteNVL :: "string \<Rightarrow> string option" where
  "rewriteNVL sql = replaceFuncCall sql ''NVL'' (call_text ''COALESCE'')"

definition rewriteDIV0NULL :: "string \<Rightarrow> string option" where
  "rewriteDIV0NULL sql = replaceFuncCall sql ''DIV0NULL'' (\<lambda>args.
     if length args < 2 then call_text ''DIV0NULL'' args
     else ''CASE WHEN COALESCE('' @ args ! 1 @ '', 0) = 0 THEN 0 ELSE '' @ args ! 0 @ '' / '' @ args ! 1 @ '' END'')"

definition rewriteDIV0 :: "string \<Rightarrow> string option" where
  "rewriteDIV0 sql = replaceFuncCall sql ''DIV0'' (\<lambda>args.
     if length args < 2 then call_text ''DIV0'' args
     else ''CASE WHEN '' @ args ! 1 @ '' = 0 THEN 0 ELSE '' @ args ! 0 @ '' / '' @ args ! 1 @ '' END'')"

definition rewriteSquare :: "string \<Rightarrow> string option" where
  "rewriteSquare sql = replaceFuncCall sql ''SQUARE'' (\<lambda>args.
     if length args < 1 then ''SQUARE()'' else ''POWER('' @ args ! 0 @ '', 2)'')"

definition rewriteArrayConstruct :: "string \<Rightarrow> string option" where
  "rewriteArrayConstruct sql = replaceFuncCall sql ''ARRAY_CONSTRUCT'' (\<lambda>args. ''['' @ Join args '', '' @ '']'')"

definition rewriteArraySize :: "string \<Rightarrow> string option" where
  "rewriteArraySize sql = replaceFuncCall sql ''ARRAY_SIZE'' (\<lambda>args.
     if length args < 1 then ''len()'' else ''len('' @ args ! 0 @ '')'')"

fun object_pairs :: "string list \<Rightarrow> string list" where
  "object_pairs (k # v # args) = (k @ '': '' @ v) # object_pairs args"
| "object_pairs _ = []"

definition rewriteObjectConstruct :: "string \<Rightarrow> string option" where
  "rewriteObjectConstruct sql = replaceFuncCall sql ''OBJECT_CONSTRUCT'' (\<lambda>args.
     if length args mod 2 \<noteq> 0 then call_text ''OBJECT_CONSTRUCT'' args
     else ''{'' @ Join (object_pairs args) '', '' @ ''}'')"

definition rewriteParseJSON :: "string \<Rightarrow> string option" where
  "rewriteParseJSON sql = replaceFuncCall sql ''PARSE_JSON'' (\<lambda>args.
     if length args < 1 then ''PARSE_JSON()'' else args ! 0 @ ''::JSON'')"

definition rewriteRegexpLike :: "string \<Rightarrow> string option" where
  "rewriteRegexpLike sql = replaceFuncCall sql ''REGEXP_LIKE'' (call_text ''regexp_full_match'')"

definition rewriteListAgg :: "string \<Rightarrow> string option" where
  "rewriteListAgg sql = replaceFuncCall sql ''LISTAGG'' (call_text ''STRING_AGG'')"

definition rewriteStrtokToArray :: "string \<Rightarrow> string option" where
  "rewriteStrtokToArray sql = replaceFuncCall sql ''STRTOK_TO_ARRAY'' (call_text ''STRING_SPLIT'')"

definition date_part :: "string \<Rightarrow> string" where
  "date_part s = Trim (TrimSpace s) [CHR 0x27, CHR 0x22]"

definition rewriteDateAdd :: "string \<Rightarrow> string option" where
  "rewriteDateAdd sql = replaceFuncCall sql ''DATEADD'' (\<lambda>args.
     if length args < 3 then call_text ''DATEADD'' args
     else TrimSpace (args ! 2) @ '' + INTERVAL '' @ [CHR 0x27] @ TrimSpace (args ! 1) @ '' '' @ date_part (args ! 0) @ [CHR 0x27])"

definition rewriteDateDiff :: "string \<Rightarrow> string option" where
  "rewriteDateDiff sql = replaceFuncCall sql ''DATEDIFF'' (\<lambda>args.
     if length args < 3 then call_text ''DATEDIFF'' args
     else ''DATE_DIFF('' @ [CHR 0x27] @ date_part (args ! 0) @ [CHR 0x27] @ '', '' @ args ! 1 @ '', '' @ args ! 2 @ '')'')"

definition cast_text :: "string \<Rightarrow> string \<Rightarrow> string" where
  "cast_text x ty = ''CAST('' @ x @ '' AS '' @ ty @ '')''"

definition rewriteToVarchar :: "string \<Rightarrow> string option" where
  "rewriteToVarchar sql =
     Option.bind (replaceFuncCall sql ''TO_VARCHAR'' (\<lambda>args.
         if length args < 1 then ''TO_VARCHAR()'' else cast_text (args ! 0) ''VARCHAR''))
       (\<lambda>sql. replaceFuncCall sql ''TO_CHAR'' (\<lambda>args.
         if length args < 1 then ''TO_CHAR()'' else cast_text (args ! 0) ''VARCHAR''))"

definition rewriteToNumber :: "string \<Rightarrow> string option" where
  "rewriteToNumber sql = replaceFuncCall sql ''TO_NUMBER'' (\<lambda>args.
     if length args < 1 then ''TO_NUMBER()''
     else if length args = 3 then
       cast_text (args ! 0) (''DECIMAL('' @ TrimSpace (args ! 1) @ '', '' @ TrimSpace (args ! 2) @ '')'')
     else cast_text (args ! 0) ''NUMERIC'')"

definition rewriteToDate :: "string \<Rightarrow> string option" where
  "rewriteToDate sql = replaceFuncCall sql ''TO_DATE'' (\<lambda>args.
     if length args < 1 then ''TO_DATE()'' else cast_text (args ! 0) ''DATE'')"

definition rewriteToTimestamp :: "string \<Rightarrow> string option" where
  "rewriteToTimestamp sql = replaceFuncCall sql ''TO_TIMESTAMP'' (\<lambda>args.
     if length args < 1 then ''TO_TIMESTAMP()'' else cast_text (args ! 0) ''TIMESTAMP'')"

subsection \<open>Statements\<close>

text \<open>The reference: every quote toggles, since a doubled quote toggles twice.\<close>

fun split_ref :: "bool \<Rightarrow> string \<Rightarrow> string \<Rightarrow> string list" where
  "split_ref q current [] = (if current \<noteq> [] then [current] else [])"
| "split_ref q current (c # s) =
     (if c = CHR 0x27 then split_ref (\<not> q) (current @ [c]) s
      else if c = CHR '';'' \<and> \<not> q then current # split_ref False [] s
      else split_ref q (current @ [c]) s)"

lemma split_loop_ref: "split_loop q current s = split_ref q current s"
  by (induction q current s rule: split_loop.induct) (auto split: list.split)

definition quotes :: "string \<Rightarrow> nat" where
  "quotes s = length (filter (\<lambda>c. c = CHR 0x27) s)"

text \<open>Every semicolon of the text stands inside a string literal.\<close>

definition semis_quoted :: "string \<Rightarrow> bool" where
  "semis_quoted p \<longleftrightarrow> (\<forall>u v. p = u @ CHR '';'' # v \<longrightarrow> odd (quotes u))"

lemma quotes_simps [simp]:
  "quotes [] = 0" "quotes (u @ v) = quotes u + quotes v" "quotes [c] = (if c = CHR 0x27 then 1 else 0)"
  by (simp_all add: quotes_def)

lemma semis_quoted_Nil [simp]: "semis_quoted []"
  by (simp add: semis_quoted_def)

lemma semis_quoted_snoc:
  "semis_quoted p \<Longrightarrow> (c = CHR '';'' \<Longrightarrow> odd (quotes p)) \<Longrightarrow> semis_quoted (p @ [c])"
  unfolding semis_quoted_def
proof (intro allI impI)
  fix u v
  assume p: "\<forall>u v. p = u @ CHR '';'' # v \<longrightarrow> odd (quotes u)" and c: "c = CHR '';'' \<Longrightarrow> odd (quotes p)"
    and eq: "p @ [c] = u @ CHR '';'' # v"
  show "odd (quotes u)"
  proof (cases v rule: rev_cases)
    case Nil
    with eq c show ?thesis by simp
  next
    case (snoc v' d)
    with eq have "p = u @ CHR '';'' # v'" by simp
    with p show ?thesis by blast
  qed
qed

lemma split_ref_quoted:
  "q = odd (quotes current) \<Longrightarrow> semis_quoted current \<Longrightarrow> p \<in> set (split_ref q current s) \<Longrightarrow> semis_quoted p"
  by (induction q current s rule: split_ref.induct) (auto intro: semis_quoted_snoc split: if_splits)

lemma split_ref_balanced:
  "q = odd (quotes current) \<Longrightarrow> p \<in> set (butlast (split_ref q current s)) \<Longrightarrow> even (quotes p)"
  by (induction q current s rule: split_ref.induct) (auto split: if_splits)

lemma split_ref_Nil: "split_ref q current s = [] \<longleftrightarrow> current = [] \<and> s = []"
  by (induction q current s rule: split_ref.induct) auto

lemma split_ref_join:
  "Join (split_ref q current s) '';'' = current @ s \<or> Join (split_ref q current s) '';'' @ '';'' = current @ s"
proof (induction q current s rule: split_ref.induct)
  case (2 q current c s)
  show ?case
  proof (cases "c \<noteq> CHR 0x27 \<and> c = CHR '';'' \<and> \<not> q")
    case True
    with 2 show ?thesis by (cases "split_ref False [] s = []") (auto simp: split_ref_Nil Join_Cons)
  next
    case False
    with 2 show ?thesis by (cases "c = CHR 0x27") auto
  qed
qed auto

text \<open>
  C31. Splitting a request into statements is exact: the statements joined by semicolons are the text
  (less a semicolon at its very end), no statement contains a semicolon outside a string literal, and
  every statement but the last has its string literals closed, so that no cut falls inside one.
\<close>

theorem splitStatements_exact:
  "(Join (splitStatements sql) '';'' = sql \<or> Join (splitStatements sql) '';'' @ '';'' = sql) \<and>
   (\<forall>p \<in> set (splitStatements sql). semis_quoted p) \<and>
   (\<forall>p \<in> set (butlast (splitStatements sql)). even (quotes p))"
  unfolding splitStatements_def split_loop_ref
  using split_ref_join [of False "[]" sql] split_ref_quoted [of False "[]" _ sql] split_ref_balanced [of False "[]" _ sql]
  by auto

theorem splitStatements_exact_witness:
  "splitStatements (''a'' @ [CHR 0x27] @ '';'' @ [CHR 0x27] @ ''; b;'') = [''a'' @ [CHR 0x27] @ '';'' @ [CHR 0x27], '' b''] \<and>
   semis_quoted (''a'' @ [CHR 0x27] @ '';'' @ [CHR 0x27])"
proof -
  have "splitStatements (''a'' @ [CHR 0x27] @ '';'' @ [CHR 0x27] @ ''; b;'') = [''a'' @ [CHR 0x27] @ '';'' @ [CHR 0x27], '' b'']"
    by code_simp
  with splitStatements_exact [of "''a'' @ [CHR 0x27] @ '';'' @ [CHR 0x27] @ ''; b;''"] show ?thesis by simp
qed

subsection \<open>When the loop ends\<close>

lemma replaceFuncCall_done: "replaceFuncCall sql n f = Some out \<Longrightarrow> findFuncCall out n = None"
  by (rule replaceFuncCall.raw_induct [where P = "\<lambda>sql n f out. findFuncCall out n = None"])
    (auto split: option.splits)

text \<open>A call that its own replacement restores keeps the loop running for ever.\<close>

lemma replaceFuncCall_loops:
  assumes "findFuncCall sql n = Some (before, args, after)" "before @ f args @ after = sql"
  shows "replaceFuncCall sql n f = None"
proof -
  have "\<not> (findFuncCall sql n = Some (before, args, after) \<and> before @ f args @ after = sql)"
    if "replaceFuncCall sql n f = Some out" for out
    using that
    by (rule replaceFuncCall.raw_induct [where P = "\<lambda>sql n f out.
          \<not> (findFuncCall sql n = Some (before, args, after) \<and> before @ f args @ after = sql)", rotated])
      fastforce
  with assms show ?thesis by (cases "replaceFuncCall sql n f") auto
qed

text \<open>The measure of the loop: how often the name occurs in the text, in any case.\<close>

fun occ :: "string \<Rightarrow> string \<Rightarrow> nat" where
  "occ n [] = 0"
| "occ n (c # s) = (if HasPrefix (ToUpper (c # s)) n then 1 else 0) + occ n s"

definition word_name :: "string \<Rightarrow> bool" where
  "word_name n \<longleftrightarrow> n \<noteq> [] \<and> ToUpper n = n \<and> list_all re_word n"

abbreviation occ_sum :: "string \<Rightarrow> string list \<Rightarrow> nat" where
  "occ_sum n args \<equiv> sum_list (map (occ n) args)"

lemma HasPrefix_longer: "HasPrefix a n \<Longrightarrow> HasPrefix (a @ b) n"
  by (auto simp: HasPrefix_iff)

lemma occ_append_ge: "occ n a + occ n b \<le> occ n (a @ b)"
proof (induction a)
  case (Cons c a)
  have "HasPrefix (ToUpper (c # a)) n \<Longrightarrow> HasPrefix (ToUpper (c # a @ b)) n"
    using HasPrefix_longer [of "ToUpper (c # a)" n "ToUpper b"] by (simp add: ToUpper_def)
  with Cons show ?case by auto
qed simp

lemma HasPrefix_sep: "c \<notin> set n \<Longrightarrow> HasPrefix (a @ c # b) n \<longleftrightarrow> HasPrefix a n"
proof (induction n arbitrary: a)
  case (Cons d n)
  then show ?case by (cases a) auto
qed simp

lemma upper_nonword: "\<not> re_word c \<Longrightarrow> upper_char c = c"
  by (auto simp: re_word_def upper_char_def is_alpha_def Let_def)

lemma occ_sep:
  assumes "word_name n" "\<not> re_word c"
  shows "occ n (a @ c # b) = occ n a + occ n b"
proof -
  have c: "c \<notin> set n" "n \<noteq> []" using assms by (auto simp: word_name_def list_all_iff)
  have up: "ToUpper (x @ c # b) = ToUpper x @ c # ToUpper b" for x
    by (simp add: ToUpper_def upper_nonword [OF assms(2)])
  have pre: "HasPrefix (ToUpper (x @ c # b)) n \<longleftrightarrow> HasPrefix (ToUpper x) n" for x
    unfolding up by (rule HasPrefix_sep [OF c(1)])
  show ?thesis
  proof (induction a)
    case Nil
    from pre [of "[]"] c(2) show ?case by simp
  next
    case (Cons x a)
    with pre [of "x # a"] show ?case by simp
  qed
qed

lemmas occ_sep_Nil = occ_sep [where a = "[]", simplified]

lemma occ_trim: "occ n (TrimSpace s) \<le> occ n s"
proof -
  obtain u v where s: "s = u @ TrimSpace s @ v" using trim_by_middle [of s is_space] by (auto simp: TrimSpace_def)
  have "occ n (TrimSpace s) \<le> occ n (TrimSpace s @ v)" using occ_append_ge [of n "TrimSpace s" v] by linarith
  also have "\<dots> \<le> occ n s" using occ_append_ge [of n u "TrimSpace s @ v"] s by (metis add_leE)
  finally show ?thesis .
qed

lemma scan_args_occ:
  "scan_args depth q current args s = Some (args', after) \<Longrightarrow>
   occ_sum n args' + occ n after \<le> occ_sum n args + occ n (current @ s)"
proof (induction depth q current args s arbitrary: args' after rule: scan_args.induct)
  case (2 depth q current args ch sql)
  have close: "occ n (TrimSpace current) + occ n sql \<le> occ n (current @ ch # sql)"
    using occ_trim [of n current] occ_append_ge [of n current "ch # sql"] occ_append_ge [of n "[ch]" sql] by simp
  consider "ch = CHR 0x27" | "ch \<noteq> CHR 0x27" "\<not> q" "ch = CHR '')''" "depth - 1 = 0"
    | "ch \<noteq> CHR 0x27" "\<not> q" "ch = CHR '',''" "depth = 1"
    | "ch \<noteq> CHR 0x27" "q \<or> ch \<noteq> CHR '')'' \<or> depth - 1 \<noteq> 0" "q \<or> ch \<noteq> CHR '','' \<or> depth \<noteq> 1"
    by blast
  then show ?case
  proof cases
    case 1
    with "2.prems" "2.IH"(1-3) show ?thesis by (auto split: list.splits if_splits)
  next
    case 2
    with "2.prems" close show ?thesis by (auto simp: Let_def split: if_splits)
  next
    case 3
    with "2.prems" have "scan_args depth q [] (args @ [TrimSpace current]) sql = Some (args', after)" by simp
    with 3 "2.IH" have "occ_sum n args' + occ n after \<le> occ_sum n (args @ [TrimSpace current]) + occ n ([] @ sql)" by simp
    with close show ?thesis by simp
  next
    case 4
    with "2.prems" "2.IH" show ?thesis by (auto split: if_splits)
  qed
qed simp

lemma find_call_split:
  "find_call n prev s = Some (before, rest) \<Longrightarrow>
   \<exists>kw ws. s = before @ kw @ ws @ rest \<and> EqualFold kw n \<and> HasPrefix rest ''('' \<and>
     (before = [] \<or> \<not> re_word (last before))"
proof (induction s arbitrary: prev before)
  case (Cons c s)
  show ?case
  proof (cases "call_here n prev (c # s)")
    case (Some r)
    let ?k = "take (length n) (c # s)" and ?t = "drop (length n) (c # s)"
    from Some Cons.prems have "before = []" "rest = dropWhile re_space ?t" "EqualFold ?k n" "HasPrefix rest ''(''"
      by (auto simp: call_here_def Let_def split: if_splits)
    moreover have "c # s = ?k @ takeWhile re_space ?t @ dropWhile re_space ?t" by simp
    ultimately show ?thesis by (metis append_Nil)
  next
    case None
    with Cons.prems obtain b where b: "find_call n (Some c) s = Some (b, rest)" "before = c # b" by auto
    from Cons.IH [OF b(1)] obtain kw ws where kw: "s = b @ kw @ ws @ rest" "EqualFold kw n" "HasPrefix rest ''(''"
      "b = [] \<or> \<not> re_word (last b)" by blast
    have "\<not> re_word c" if "b = []"
    proof -
      from b(1) that have "call_here n (Some c) s \<noteq> None"
        by (cases s) (auto split: option.splits)
      then show ?thesis by (auto simp: call_here_def Let_def split: if_splits)
    qed
    with kw b(2) show ?thesis by auto
  qed
qed simp

lemma findFuncCall_occ:
  assumes "word_name n" "findFuncCall sql n = Some (before, args, after)"
  shows "occ n before + occ_sum n args + occ n after < occ n sql \<and> (before = [] \<or> \<not> re_word (last before))"
proof -
  from assms(2) obtain rest where fc: "find_call n None sql = Some (before, rest)"
    and ex: "extractFuncArgs rest = Some (args, after)" by (auto simp: findFuncCall_def split: option.splits)
  from find_call_split [OF fc] obtain kw ws where sql: "sql = before @ kw @ ws @ rest" "EqualFold kw n"
    and b: "before = [] \<or> \<not> re_word (last before)" by blast
  from ex obtain inner where inner: "rest = CHR ''('' # inner" "scan_args 1 False [] [] inner = Some (args, after)"
    by (auto simp: extractFuncArgs_def split: list.splits if_splits)
  have "ToUpper kw = n" using sql(2) assms(1) by (simp add: EqualFold_iff_ToUpper word_name_def)
  moreover from this assms(1) obtain k ks where k: "kw = k # ks" by (cases kw) (auto simp: word_name_def)
  ultimately have "HasPrefix (ToUpper (k # ks @ ws @ rest)) n"
    using HasPrefix_append [of n "ToUpper (ws @ rest)"] by (metis ToUpper_append append_Cons)
  then have "occ n (kw @ ws @ rest) = 1 + occ n (ks @ ws @ rest)" by (simp add: k)
  moreover have "occ n rest \<le> occ n (ks @ ws @ rest)"
    using occ_append_ge [of n "ks @ ws" rest] by simp
  moreover have "occ_sum n args + occ n after \<le> occ n inner" using scan_args_occ [OF inner(2), of n] by simp
  moreover have "occ n inner \<le> occ n rest" by (simp add: inner)
  moreover have "occ n before + occ n (kw @ ws @ rest) \<le> occ n sql" unfolding sql(1) by (rule occ_append_ge)
  ultimately show ?thesis using b by linarith
qed

text \<open>A replacement that brings no occurrence of the name but those of the arguments.\<close>

definition adds_none :: "string \<Rightarrow> (string list \<Rightarrow> string) \<Rightarrow> bool" where
  "adds_none n f \<longleftrightarrow> (\<forall>args after. occ n (f args @ after) \<le> occ_sum n args + occ n after)"

lemma replaceFuncCall_returns:
  assumes name: "word_name n" and f: "adds_none n f"
  shows "\<exists>out. replaceFuncCall sql n f = Some out \<and> findFuncCall out n = None"
proof (induction sql rule: measure_induct_rule [where f = "occ n"])
  case (less sql)
  show ?case
  proof (cases "findFuncCall sql n")
    case None
    then show ?thesis by (simp add: replaceFuncCall.simps)
  next
    case (Some r)
    then obtain before args after where r: "findFuncCall sql n = Some (before, args, after)" by (cases r) auto
    note call = findFuncCall_occ [OF name r]
    have "occ n (before @ f args @ after) \<le> occ n before + occ n (f args @ after)"
    proof (cases before rule: rev_cases)
      case (snoc b c)
      with call have "occ n (b @ c # f args @ after) = occ n b + occ n (f args @ after)" by (intro occ_sep [OF name]) simp
      moreover have "occ n b \<le> occ n before" using occ_append_ge [of n b "[c]"] snoc by simp
      ultimately show ?thesis using snoc by simp
    qed simp
    moreover have "occ n (f args @ after) \<le> occ_sum n args + occ n after" using f by (simp add: adds_none_def)
    ultimately have "occ n (before @ f args @ after) < occ n sql" using call by linarith
    then obtain out where "replaceFuncCall (before @ f args @ after) n f = Some out" "findFuncCall out n = None"
      using less.IH by blast
    with r show ?thesis by (subst replaceFuncCall.simps) simp
  qed
qed

lemma occ_Join:
  assumes "word_name n"
  shows "occ n (Join args '', '') = occ_sum n args"
proof (induction args "'', ''" rule: Join.induct)
  case (3 s t ts)
  have "\<not> re_word (CHR '','')" "\<not> re_word (CHR '' '')" by code_simp+
  with 3 assms show ?case by (simp add: occ_sep occ_sep_Nil)
qed simp_all

text \<open>The replacement of these rules: a text without the name, and the arguments between two brackets.\<close>

lemma adds_none_brackets:
  assumes "word_name n" "\<not> re_word l" "\<not> re_word r" "occ n w = 0"
    and f: "\<And>args. f args = w @ l # body args @ [r]" and body: "\<And>args. occ n (body args) \<le> occ_sum n args"
  shows "adds_none n f"
  unfolding adds_none_def
proof (intro allI)
  fix args after
  have "occ n (f args @ after) = occ n w + (occ n (body args) + occ n after)"
    using assms(1-3) by (simp add: f occ_sep)
  with assms(4) body [of args] show "occ n (f args @ after) \<le> occ_sum n args + occ n after" by simp
qed

lemma adds_none_call:
  "word_name n \<Longrightarrow> occ n w = 0 \<Longrightarrow> adds_none n (call_text w)"
proof (rule adds_none_brackets [where l = "CHR ''(''" and r = "CHR '')''" and w = w and body = "\<lambda>args. Join args '', ''"])
  show "\<not> re_word (CHR ''('')" "\<not> re_word (CHR '')'')" by code_simp+
qed (simp_all add: call_text_def occ_Join)

text \<open>
  C35. The function rules that rewrite a call whatever its arguments are always end, on every statement,
  however calls are nested, quoted or unbalanced, and leave no call that the scanner still finds: NVL,
  ARRAY_CONSTRUCT, ARRAY_SIZE, REGEXP_LIKE, LISTAGG and STRTOK_TO_ARRAY.
\<close>

theorem total_rules_return:
  "(\<exists>out. rewriteNVL sql = Some out \<and> findFuncCall out ''NVL'' = None) \<and>
   (\<exists>out. rewriteArrayConstruct sql = Some out \<and> findFuncCall out ''ARRAY_CONSTRUCT'' = None) \<and>
   (\<exists>out. rewriteArraySize sql = Some out \<and> findFuncCall out ''ARRAY_SIZE'' = None) \<and>
   (\<exists>out. rewriteRegexpLike sql = Some out \<and> findFuncCall out ''REGEXP_LIKE'' = None) \<and>
   (\<exists>out. rewriteListAgg sql = Some out \<and> findFuncCall out ''LISTAGG'' = None) \<and>
   (\<exists>out. rewriteStrtokToArray sql = Some out \<and> findFuncCall out ''STRTOK_TO_ARRAY'' = None)"
proof -
  have names: "word_name ''NVL''" "word_name ''ARRAY_CONSTRUCT''" "word_name ''ARRAY_SIZE''"
    "word_name ''REGEXP_LIKE''" "word_name ''LISTAGG''" "word_name ''STRTOK_TO_ARRAY''" by code_simp+
  have fresh: "occ ''NVL'' ''COALESCE'' = 0" "occ ''REGEXP_LIKE'' ''regexp_full_match'' = 0"
    "occ ''LISTAGG'' ''STRING_AGG'' = 0" "occ ''STRTOK_TO_ARRAY'' ''STRING_SPLIT'' = 0"
    "occ ''ARRAY_SIZE'' ''len'' = 0" by code_simp+
  have brackets: "\<not> re_word (CHR ''['')" "\<not> re_word (CHR '']'')" "\<not> re_word (CHR ''('')" "\<not> re_word (CHR '')'')"
    by code_simp+
  have construct: "adds_none ''ARRAY_CONSTRUCT'' (\<lambda>args. ''['' @ Join args '', '' @ '']'')"
    by (rule adds_none_brackets [OF names(2) brackets(1,2), where w = "[]" and body = "\<lambda>args. Join args '', ''"])
      (simp_all add: occ_Join [OF names(2)])
  have size: "adds_none ''ARRAY_SIZE'' (\<lambda>args. if length args < 1 then ''len()'' else ''len('' @ args ! 0 @ '')'')"
    by (rule adds_none_brackets [OF names(3) brackets(3,4) fresh(5), where body = "\<lambda>args. if args = [] then [] else hd args"])
      (auto simp: hd_conv_nth neq_Nil_conv)
  note ret = replaceFuncCall_returns [where sql = sql]
  show ?thesis
    unfolding rewriteNVL_def rewriteArrayConstruct_def rewriteArraySize_def rewriteRegexpLike_def rewriteListAgg_def
      rewriteStrtokToArray_def
    using ret [OF names(1) adds_none_call] ret [OF names(2) construct] ret [OF names(3) size]
      ret [OF names(4) adds_none_call] ret [OF names(5) adds_none_call] ret [OF names(6) adds_none_call] names fresh
    by blast
qed

text \<open>
  The rules that keep a call with too few arguments as it is do not end on it: the scanner finds the call again in
  every round. One such call for each of ten rules:
\<close>

lemma short_calls_hang:
  "rewriteIFF ''SELECT IFF(a, b)'' = None \<and> rewriteNVL2 ''SELECT NVL2(a, b)'' = None \<and>
   rewriteDIV0 ''SELECT DIV0(a)'' = None \<and> rewriteSquare ''SELECT SQUARE()'' = None \<and>
   rewriteObjectConstruct ''SELECT OBJECT_CONSTRUCT(a)'' = None \<and> rewriteParseJSON ''SELECT PARSE_JSON()'' = None \<and>
   rewriteDateAdd ''SELECT DATEADD(a, b)'' = None \<and> rewriteDateDiff ''SELECT DATEDIFF(a, b)'' = None \<and>
   rewriteToNumber ''SELECT TO_NUMBER()'' = None \<and> rewriteToDate ''SELECT TO_DATE()'' = None"
proof -
  note loops = replaceFuncCall_loops [where before = "''SELECT ''" and after = "''''"]
  have c0: "findFuncCall ''SELECT IFF(a, b)'' ''IFF'' = Some (''SELECT '', [''a'', ''b''], '''')" by code_simp
  have c1: "findFuncCall ''SELECT NVL2(a, b)'' ''NVL2'' = Some (''SELECT '', [''a'', ''b''], '''')" by code_simp
  have c2: "findFuncCall ''SELECT DIV0(a)'' ''DIV0'' = Some (''SELECT '', [''a''], '''')" by code_simp
  have c3: "findFuncCall ''SELECT SQUARE()'' ''SQUARE'' = Some (''SELECT '', [], '''')" by code_simp
  have c4: "findFuncCall ''SELECT OBJECT_CONSTRUCT(a)'' ''OBJECT_CONSTRUCT'' = Some (''SELECT '', [''a''], '''')" by code_simp
  have c5: "findFuncCall ''SELECT PARSE_JSON()'' ''PARSE_JSON'' = Some (''SELECT '', [], '''')" by code_simp
  have c6: "findFuncCall ''SELECT DATEADD(a, b)'' ''DATEADD'' = Some (''SELECT '', [''a'', ''b''], '''')" by code_simp
  have c7: "findFuncCall ''SELECT DATEDIFF(a, b)'' ''DATEDIFF'' = Some (''SELECT '', [''a'', ''b''], '''')" by code_simp
  have c8: "findFuncCall ''SELECT TO_NUMBER()'' ''TO_NUMBER'' = Some (''SELECT '', [], '''')" by code_simp
  have c9: "findFuncCall ''SELECT TO_DATE()'' ''TO_DATE'' = Some (''SELECT '', [], '''')" by code_simp
  note calls = c0 c1 c2 c3 c4 c5 c6 c7 c8 c9
  show ?thesis
    unfolding rewriteIFF_def rewriteNVL2_def rewriteDIV0_def rewriteSquare_def rewriteObjectConstruct_def
      rewriteParseJSON_def rewriteDateAdd_def rewriteDateDiff_def rewriteToNumber_def rewriteToDate_def
    by (intro conjI; rule calls [THEN loops]) (simp_all add: call_text_def)
qed

end
