(* ===== verification/Go_Regexp_Lang.thy ===== *)
theory Go_Regexp_Lang
  imports Go_Regexp
begin

text \<open>
  What the backtracking search finds, without the order of its choices: \<open>consumes k s t\<close> says that the jobs
  \<open>k\<close> can match a prefix of \<open>s\<close> and leave \<open>t\<close>. For expressions without assertions the search succeeds
  exactly when some choice does, whatever stands around the text; so a text that was matched inside a
  larger one matches on its own. The code relies on this each time it takes the submatches of a match
  again, inside a replacement function.
\<close>

fun assertion_free :: "re \<Rightarrow> bool" where
  "assertion_free (Cat a b) = (assertion_free a \<and> assertion_free b)"
| "assertion_free (Alt a b) = (assertion_free a \<and> assertion_free b)"
| "assertion_free (Star g a) = assertion_free a"
| "assertion_free (Grp n a) = assertion_free a"
| "assertion_free Bol = False"
| "assertion_free Eol = False"
| "assertion_free WordB = False"
| "assertion_free r = True"

fun job_free :: "re_job \<Rightarrow> bool" where
  "job_free (Run r) = assertion_free r"
| "job_free (CloseG n t) = True"
| "job_free (Again l g r) = assertion_free r"

inductive consumes :: "re_job list \<Rightarrow> string \<Rightarrow> string \<Rightarrow> bool" where
  "consumes [] s s"
| "consumes k s t \<Longrightarrow> consumes (CloseG n u # k) s t"
| "length s < l \<Longrightarrow> consumes (Run (Star g a) # k) s t \<Longrightarrow> consumes (Again l g a # k) s t"
| "consumes k s t \<Longrightarrow> consumes (Run Eps # k) s t"
| "in_class i neg items x \<Longrightarrow> consumes k s t \<Longrightarrow> consumes (Run (Cls i neg items) # k) (x # s) t"
| "nl \<or> x \<noteq> CHR 0x0A \<Longrightarrow> consumes k s t \<Longrightarrow> consumes (Run (Dot nl) # k) (x # s) t"
| "consumes (Run a # Run b # k) s t \<Longrightarrow> consumes (Run (Cat a b) # k) s t"
| "consumes (Run a # k) s t \<Longrightarrow> consumes (Run (Alt a b) # k) s t"
| "consumes (Run b # k) s t \<Longrightarrow> consumes (Run (Alt a b) # k) s t"
| "consumes (Run a # Again (length s) g a # k) s t \<Longrightarrow> consumes (Run (Star g a) # k) s t"
| "consumes k s t \<Longrightarrow> consumes (Run (Star g a) # k) s t"
| "consumes (Run a # CloseG n s # k) s t \<Longrightarrow> consumes (Run (Grp n a) # k) s t"

inductive_simps consumes_simps:
  "consumes (CloseG n u # k) s t" "consumes (Again l g a # k) s t" "consumes (Run Eps # k) s t"
  "consumes (Run (Cls i neg items) # k) s t" "consumes (Run (Dot nl) # k) s t" "consumes (Run (Cat a b) # k) s t"
  "consumes (Run (Grp n a) # k) s t"

lemma rmatch_consumes:
  "rmatch k p s c = Some (t, c') \<Longrightarrow> list_all job_free k \<Longrightarrow> consumes k s t"
proof (induction k p s c rule: rmatch.induct)
  case (5 i neg items k p s c)
  then show ?case by (cases s) (auto split: if_splits intro: consumes.intros)
next
  case (6 nl k p s c)
  then show ?case by (cases s) (auto split: if_splits intro: consumes.intros)
next
  case (8 a b k p s c)
  then show ?case by (cases "rmatch (Run a # k) p s c") (auto intro: consumes.intros)
next
  case (9 g a k p s c)
  then show ?case
    by (cases g; cases "rmatch (Run a # Again (length s) g a # k) p s c"; cases "rmatch k p s c")
      (auto intro: consumes.intros)
qed (auto split: if_splits intro: consumes.intros)

lemma consumes_rmatch: "consumes k s t \<Longrightarrow> rmatch k p s c \<noteq> None"
proof (induction k s t arbitrary: p c rule: consumes.induct)
  case (8 a k s t b)
  show ?case using "8.IH" [of p c] by (cases "rmatch (Run a # k) p s c") auto
next
  case (9 b k s t a)
  show ?case using "9.IH" [of p c] by (cases "rmatch (Run a # k) p s c") auto
next
  case (10 a s g k t)
  show ?case using "10.IH" [of p c]
    by (cases g; cases "rmatch (Run a # Again (length s) g a # k) p s c"; cases "rmatch k p s c") auto
next
  case (11 k s t g a)
  show ?case using "11.IH" [of p c]
    by (cases g; cases "rmatch (Run a # Again (length s) g a # k) p s c"; cases "rmatch k p s c") auto
qed auto

lemma consumes_suffix: "consumes k s t \<Longrightarrow> \<exists>u. s = u @ t"
  by (induction rule: consumes.induct) auto

text \<open>Cutting a common tail off the text and what is left of it.\<close>

fun cut_job :: "nat \<Rightarrow> re_job \<Rightarrow> re_job" where
  "cut_job n (Again l g r) = Again (l - n) g r"
| "cut_job n (CloseG i u) = CloseG i (take (length u - n) u)"
| "cut_job n (Run r) = Run r"

lemma consumes_cut:
  "consumes k s t \<Longrightarrow> s = s' @ v \<Longrightarrow> t = t' @ v \<Longrightarrow> consumes (map (cut_job (length v)) k) s' t'"
proof (induction k s t arbitrary: s' rule: consumes.induct)
  case (3 s l g a k t)
  then show ?case by (auto intro!: consumes.intros)
next
  case (5 i neg items x k s t)
  then obtain u where "s = u @ t" using consumes_suffix by blast
  with 5 show ?case by (cases s') (auto intro: consumes.intros)
next
  case (6 nl x k s t)
  then obtain u where "s = u @ t" using consumes_suffix by blast
  with 6 show ?case by (cases s') (auto intro: consumes.intros)
next
  case (10 a s g k t)
  then show ?case by (auto intro!: consumes.intros(10))
next
  case (12 a n s k t)
  then show ?case by (auto intro!: consumes.intros(12))
qed (auto intro: consumes.intros)

lemma matched_alone:
  assumes "assertion_free r" "rmatch [Run r] p (m @ s) c = Some (s, c')"
  shows "rmatch [Run r] p' m c'' \<noteq> None"
proof -
  have "consumes [Run r] (m @ s) s" using rmatch_consumes [OF assms(2)] assms(1) by simp
  from consumes_cut [OF this, of m s "[]"] have "consumes [Run r] m []" by simp
  then show ?thesis by (rule consumes_rmatch)
qed

subsection \<open>A leading word boundary\<close>

fun word_item :: "re_item \<Rightarrow> bool" where
  "word_item (IChar c) = re_word c"
| "word_item (IRange a b) =
     (char_le (CHR ''a'') a \<and> char_le b (CHR ''z'') \<or> char_le (CHR ''A'') a \<and> char_le b (CHR ''Z'') \<or>
      char_le (CHR ''0'') a \<and> char_le b (CHR ''9''))"
| "word_item IWord = True"
| "word_item IDigit = True"
| "word_item it = False"

fun leads_word :: "re \<Rightarrow> bool" where
  "leads_word (Cls i neg items) = (\<not> neg \<and> list_all word_item items)"
| "leads_word (Cat a b) = leads_word a"
| "leads_word (Grp n a) = leads_word a"
| "leads_word r = False"

lemma word_item_word: "word_item it \<Longrightarrow> in_item it x \<Longrightarrow> re_word x"
  by (cases it) (auto simp: re_word_def char_le_def is_alpha_def is_digit_def Let_def)

lemma re_word_case [simp]: "re_word (upper_char x) = re_word x" "re_word (lower_char x) = re_word x"
  by (auto simp: re_word_def is_alpha_def is_digit_def upper_char_def lower_char_def Let_def)

lemma in_class_word: "list_all word_item items \<Longrightarrow> in_class i False items x \<Longrightarrow> re_word x"
  unfolding in_class_def list_ex_iff list_all_iff by (metis re_word_case word_item_word)

lemma leads_word_after: "rmatch (Run r # k) p s c = Some q \<Longrightarrow> leads_word r \<Longrightarrow> word_after s"
proof (induction r arbitrary: k)
  case (Cls i neg items)
  then show ?case by (cases s) (auto simp: word_after_def dest: in_class_word split: if_splits)
next
  case (Cat a b)
  then show ?case by simp
next
  case (Grp n a)
  then show ?case by simp
qed auto

text \<open>The expressions that the code matches again on the text of a match.\<close>

fun rematchable :: "re \<Rightarrow> bool" where
  "rematchable (Cat WordB r) = (assertion_free r \<and> leads_word r)"
| "rematchable r = assertion_free r"

lemma rematch:
  assumes "rematchable r" "rmatch_at r p (m @ s) = Some (s, c)" "m \<noteq> []"
  shows "rmatch_at r None m \<noteq> None"
proof (cases "\<exists>r'. r = Cat WordB r'")
  case True
  then obtain r' where r: "r = Cat WordB r'" by blast
  with assms have m: "rmatch [Run r'] p (m @ s) [] = Some (s, c)" and r': "assertion_free r'" "leads_word r'"
    by (auto simp: rmatch_at_def split: if_splits)
  have "word_after (m @ s)" using leads_word_after [OF m r'(2)] .
  with assms(3) have "word_after m" by (cases m) (auto simp: word_after_def)
  then show ?thesis using matched_alone [OF r'(1) m, of None "[]"] r
    by (simp add: rmatch_at_def word_before_def)
next
  case False
  with assms(1) have "assertion_free r" by (cases r rule: rematchable.cases) auto
  from matched_alone [OF this assms(2) [unfolded rmatch_at_def]] show ?thesis by (simp add: rmatch_at_def)
qed

lemma find_re_match:
  "find_re r p s = Some (before, m, after, c) \<Longrightarrow> \<exists>p'. rmatch_at r p' (m @ after) = Some (after, c)"
proof (induction s arbitrary: p before)
  case Nil
  then show ?case by (auto simp: find_re.simps [of r p "[]"] rmatch_at_def split: option.splits dest: rmatch_suffix)
next
  case (Cons x t)
  show ?case
  proof (cases "rmatch_at r p (x # t)")
    case None
    with Cons.prems obtain b where "find_re r (Some x) t = Some (b, m, after, c)"
      by (auto simp: find_re.simps [of r p "x # t"] split: option.splits)
    with Cons.IH show ?thesis .
  next
    case (Some q)
    with Cons.prems have "before = []" and q: "q = (after, c)"
      by (auto simp: find_re.simps [of r p "x # t"] split: prod.splits)
    with find_re_parts [OF Cons.prems] Some show ?thesis by auto
  qed
qed

lemma re_pieces_match:
  assumes "re_pieces r p s = (ps, t)" "(b, m, c) \<in> set ps"
  shows "m \<noteq> [] \<and> (\<exists>p' s'. rmatch_at r p' (m @ s') = Some (s', c))"
  using assms
proof (induction r p s arbitrary: ps rule: re_pieces.induct)
  case (1 r p s)
  show ?case
  proof (cases "find_re r p s")
    case None
    with "1.prems" show ?thesis by (simp add: re_pieces.simps [of r p s])
  next
    case (Some q)
    then obtain b' m' a c' where q: "find_re r p s = Some (b', m', a, c')" by (cases q) auto
    show ?thesis
    proof (cases "m' = []")
      case True
      with q "1.prems" show ?thesis by (simp add: re_pieces.simps [of r p s])
    next
      case False
      obtain ps' t' where r: "re_pieces r (Some (last m')) a = (ps', t')" by fastforce
      with q False "1.prems"(1) have ps: "ps = (b', m', c') # ps'" "t = t'" by (simp_all add: re_pieces.simps [of r p s])
      from ps "1.prems"(2) consider "b = b'" "m = m'" "c = c'" | "(b, m, c) \<in> set ps'" by auto
      then show ?thesis
      proof cases
        case 1
        with False find_re_match [OF q] show ?thesis by blast
      next
        case 2
        with "1.IH" [OF q refl refl refl False] r ps show ?thesis by simp
      qed
    qed
  qed
qed

lemma replace_pieces_total: "(\<And>b m c. (b, m, c) \<in> set ps \<Longrightarrow> f m \<noteq> None) \<Longrightarrow> replace_pieces f ps \<noteq> None"
proof (induction f ps rule: replace_pieces.induct)
  case (2 f b m c ps)
  have "f m \<noteq> None" using "2.prems" [of b m c] by simp
  moreover from this obtain t where "f m = Some t" by blast
  moreover have "replace_pieces f ps \<noteq> None" using "2.IH" [OF \<open>f m = Some t\<close>] "2.prems" by (meson list.set_intros(2))
  ultimately show ?case by auto
qed simp

text \<open>Taking the submatches again inside a replacement function does not panic.\<close>

lemma pieces_rematch:
  assumes "rematchable r" "re_pieces r None s = (ps, t)" "(b, m, c) \<in> set ps"
  shows "FindStringSubmatch r m \<noteq> None"
proof -
  from re_pieces_match [OF assms(2,3)] obtain p' s' where "m \<noteq> []" "rmatch_at r p' (m @ s') = Some (s', c)" by blast
  with rematch [OF assms(1)] have "rmatch_at r None m \<noteq> None" by blast
  then show ?thesis by (auto simp: FindStringSubmatch_def find_re.simps [of r None m] split: option.splits)
qed

lemma ReplaceAllStringFunc_total:
  assumes "rematchable r" and "\<And>m. FindStringSubmatch r m \<noteq> None \<Longrightarrow> f m \<noteq> None"
  shows "ReplaceAllStringFunc r s f \<noteq> None"
proof -
  obtain ps t where ps: "re_pieces r None s = (ps, t)" by fastforce
  have "f m \<noteq> None" if "(b, m, c) \<in> set ps" for b m c
    using pieces_rematch [OF assms(1) ps that] by (rule assms(2))
  then have "replace_pieces f ps \<noteq> None" by (rule replace_pieces_total)
  with ps show ?thesis by (simp add: ReplaceAllStringFunc_def)
qed

subsection \<open>What a group captures\<close>

text \<open>
  When every class inside the groups numbered \<open>n\<close> lies in a set of characters, so does the text that the
  group captures.
\<close>

fun only_chars :: "(char \<Rightarrow> bool) \<Rightarrow> re \<Rightarrow> bool" where
  "only_chars P (Cls i neg items) = (\<forall>x. in_class i neg items x \<longrightarrow> P x)"
| "only_chars P (Dot nl) = (\<forall>x. P x)"
| "only_chars P (Cat a b) = (only_chars P a \<and> only_chars P b)"
| "only_chars P (Alt a b) = (only_chars P a \<and> only_chars P b)"
| "only_chars P (Star g a) = only_chars P a"
| "only_chars P (Grp n a) = only_chars P a"
| "only_chars P r = True"

fun group_chars :: "(char \<Rightarrow> bool) \<Rightarrow> nat \<Rightarrow> re \<Rightarrow> bool" where
  "group_chars P n (Cat a b) = (group_chars P n a \<and> group_chars P n b)"
| "group_chars P n (Alt a b) = (group_chars P n a \<and> group_chars P n b)"
| "group_chars P n (Star g a) = group_chars P n a"
| "group_chars P n (Grp m a) = (group_chars P n a \<and> (m = n \<longrightarrow> only_chars P a))"
| "group_chars P n r = True"

fun job_only :: "(char \<Rightarrow> bool) \<Rightarrow> re_job \<Rightarrow> bool" where
  "job_only P (Run r) = only_chars P r"
| "job_only P (Again l g r) = only_chars P r"
| "job_only P (CloseG m u) = True"

fun job_groups :: "(char \<Rightarrow> bool) \<Rightarrow> nat \<Rightarrow> re_job \<Rightarrow> bool" where
  "job_groups P n (Run r) = group_chars P n r"
| "job_groups P n (Again l g r) = group_chars P n r"
| "job_groups P n (CloseG m u) = True"

definition closes :: "nat \<Rightarrow> re_job list \<Rightarrow> bool" where
  "closes n k \<longleftrightarrow> (\<exists>u. CloseG n u \<in> set k)"

lemma closes_Cons [simp]:
  "closes n (Run r # k) = closes n k" "closes n (Again l g r # k) = closes n k"
  "closes n (CloseG m u # k) = (m = n \<or> closes n k)" "\<not> closes n []"
  by (auto simp: closes_def)

fun jobs_ok :: "(char \<Rightarrow> bool) \<Rightarrow> nat \<Rightarrow> re_job list \<Rightarrow> string \<Rightarrow> bool" where
  "jobs_ok P n [] s = True"
| "jobs_ok P n (CloseG m u # k) s = ((m = n \<longrightarrow> (\<exists>w. u = w @ s \<and> list_all P w)) \<and> jobs_ok P n k s)"
| "jobs_ok P n (j # k) s = (job_groups P n j \<and> (closes n k \<longrightarrow> job_only P j) \<and> jobs_ok P n k s)"

lemma jobs_ok_step: "jobs_ok P n k (x # s) \<Longrightarrow> (closes n k \<Longrightarrow> P x) \<Longrightarrow> jobs_ok P n k s"
proof (induction P n k "x # s" rule: jobs_ok.induct)
  case (2 P n m u k)
  have "\<exists>w. u = w @ s \<and> list_all P w" if "m = n"
  proof -
    from 2 that obtain w where "u = w @ x # s" "list_all P w" by auto
    with 2 that show ?thesis by (intro exI [of _ "w @ [x]"]) simp
  qed
  with 2 show ?case by auto
qed auto

lemma rmatch_captures:
  "rmatch k p s c = Some (s', c') \<Longrightarrow> jobs_ok P n k s \<Longrightarrow> (\<And>t. (n, t) \<in> set c \<Longrightarrow> list_all P t) \<Longrightarrow>
   (n, t) \<in> set c' \<Longrightarrow> list_all P t"
proof (induction k p s c rule: rmatch.induct)
  case (2 i u k p s c)
  have cap: "list_all P t'" if "(n, t') \<in> set ((i, take (length u - length s) u) # c)" for t'
    using that "2.prems"(2,3) by auto
  from "2.IH" [OF _ _ cap] "2.prems" show ?case by auto
next
  case (5 i neg items k p s c)
  then show ?case by (cases s) (auto split: if_splits intro: jobs_ok_step)
next
  case (6 nl k p s c)
  then show ?case by (cases s) (auto split: if_splits intro: jobs_ok_step)
next
  case (8 a b k p s c)
  then show ?case by (cases "rmatch (Run a # k) p s c") auto
next
  case (9 g a k p s c)
  then show ?case
    by (cases g; cases "rmatch (Run a # Again (length s) g a # k) p s c"; cases "rmatch k p s c") auto
qed (auto split: if_splits)

lemma FindAll_group:
  assumes "group_chars P n r" "0 < n" "m \<in> set (FindAllStringSubmatch r s)"
  shows "list_all P (m n)"
proof -
  obtain ps t where ps: "re_pieces r None s = (ps, t)" by fastforce
  with assms(3) obtain b x c where m: "(b, x, c) \<in> set ps" "m = re_group x c"
    by (auto simp: FindAllStringSubmatch_def)
  from re_pieces_match [OF ps m(1)] obtain p' s' where "rmatch [Run r] p' (x @ s') [] = Some (s', c)"
    by (auto simp: rmatch_at_def)
  then have "\<And>t. (n, t) \<in> set c \<Longrightarrow> list_all P t"
    by (rule rmatch_captures) (use assms(1) in auto)
  then show ?thesis using m(2) assms(2) by (auto simp: re_group_def split: option.split dest: map_of_SomeD)
qed

end
