(* ===== verification/Rewrite_Rules.thy ===== *)
theory Rewrite_Rules
  imports Rewriter Go_Regexp_Lang
begin

text \<open>
  The rules of \<^verbatim>\<open>internal/rewriter\<close> that match regular expressions (\<^verbatim>\<open>rewriter.go\<close> and
  \<^verbatim>\<open>snowflake_ddl.go\<close>), and the rewriting of a whole statement. The rules that turn a statement into a
  marker comment for the orchestrator, then those that translate an expression. A rule that can panic or
  run forever has an optional result; \<open>None\<close> is not returning.
\<close>

definition stmt_trim :: "string \<Rightarrow> string" where
  "stmt_trim sql = TrimRight (TrimSpace sql) '';''"

definition marker :: "string \<Rightarrow> string \<Rightarrow> string" where
  "marker name text = ''/* MINIFLAKE_'' @ name @ '' '' @ text @ '' */''"

subsection \<open>Statements that become markers\<close>

definition reUse :: re where
  "reUse = re_lit ''(?i)^~s*USE~s+(DATABASE|SCHEMA|WAREHOUSE|ROLE)~s+(.+)$''"

definition rewriteUseStatements :: "string \<Rightarrow> string" where
  "rewriteUseStatements sql =
     (case FindStringSubmatch reUse sql of
        Some m \<Rightarrow> marker (''USE_'' @ ToUpper (m 1)) (TrimSpace (TrimRight (m 2) '';''))
      | None \<Rightarrow> sql)"

definition rePut :: re where "rePut = re_lit ''(?i)^~s*PUT~b''"
definition reGet :: re where "reGet = re_lit ''(?i)^~s*GET~b''"

definition rewritePutGet :: "string \<Rightarrow> string" where
  "rewritePutGet sql =
     (if MatchString rePut sql then marker ''PUT'' sql
      else if MatchString reGet sql then marker ''GET'' sql else sql)"

definition reCopyInto :: re where "reCopyInto = re_lit ''(?i)^~s*COPY~s+INTO~b''"

definition rewriteCopyInto :: "string \<Rightarrow> string" where
  "rewriteCopyInto sql = (if MatchString reCopyInto sql then marker ''COPY_INTO'' sql else sql)"

definition reListCmd :: re where "reListCmd = re_lit ''(?is)^~s*(?:LIST|LS)~s+@''"
definition reRemoveCmd :: re where "reRemoveCmd = re_lit ''(?is)^~s*(?:REMOVE|RM)~s+@''"

definition rewriteStageCommands :: "string \<Rightarrow> string" where
  "rewriteStageCommands sql =
     (let trimmed = stmt_trim sql
      in if MatchString reListCmd trimmed then marker ''LIST'' trimmed
         else if MatchString reRemoveCmd trimmed then marker ''REMOVE'' trimmed else sql)"

definition flag01 :: "string \<Rightarrow> string" where
  "flag01 s = (if s \<noteq> '''' then ''1'' else ''0'')"

definition rw_reCreateStream :: re where
  "rw_reCreateStream = re_lit ''(?is)^~s*CREATE~s+(OR~s+REPLACE~s+)?STREAM~b''"
definition rw_reDropStream :: re where
  "rw_reDropStream = re_lit ''(?is)^~s*DROP~s+STREAM~s+(IF~s+EXISTS~s+)?(~S+)~s*;?~s*$''"
definition reShowStreams :: re where
  "reShowStreams = re_lit ''(?is)^~s*SHOW~s+STREAMS(~s+IN~s+SCHEMA~s+(~S+))?~s*;?~s*$''"

definition rewriteStreams :: "string \<Rightarrow> string" where
  "rewriteStreams sql =
     (let trimmed = stmt_trim sql
      in if MatchString rw_reCreateStream trimmed then marker ''CREATE_STREAM'' trimmed
         else (case FindStringSubmatch rw_reDropStream trimmed of
           Some m \<Rightarrow> marker ''DROP_STREAM'' (m 2 @ '' '' @ flag01 (m 1))
         | None \<Rightarrow> (case FindStringSubmatch reShowStreams trimmed of
             Some m \<Rightarrow> marker ''SHOW_STREAMS'' (m 2) | None \<Rightarrow> sql)))"

definition rw_reCreateTask :: re where
  "rw_reCreateTask = re_lit ''(?is)^~s*CREATE~s+(OR~s+REPLACE~s+)?TASK~b''"
definition rw_reDropTask :: re where
  "rw_reDropTask = re_lit ''(?is)^~s*DROP~s+TASK~s+(IF~s+EXISTS~s+)?(~S+)~s*;?~s*$''"
definition reAlterTask :: re where
  "reAlterTask = re_lit ''(?is)^~s*ALTER~s+TASK~s+(~S+)~s+(RESUME|SUSPEND)~s*;?~s*$''"
definition reShowTasks :: re where
  "reShowTasks = re_lit ''(?is)^~s*SHOW~s+TASKS(~s+IN~s+SCHEMA~s+(~S+))?~s*;?~s*$''"
definition reExecTask :: re where
  "reExecTask = re_lit ''(?is)^~s*EXECUTE~s+TASK~s+(~S+)~s*;?~s*$''"

definition rewriteTasks :: "string \<Rightarrow> string" where
  "rewriteTasks sql =
     (let trimmed = stmt_trim sql
      in if MatchString rw_reCreateTask trimmed then marker ''CREATE_TASK'' trimmed
         else (case FindStringSubmatch rw_reDropTask trimmed of
           Some m \<Rightarrow> marker ''DROP_TASK'' (m 2 @ '' '' @ flag01 (m 1))
         | None \<Rightarrow> (case FindStringSubmatch reAlterTask trimmed of
             Some m \<Rightarrow> marker ''ALTER_TASK'' (m 1 @ '' '' @ ToUpper (m 2))
           | None \<Rightarrow> (case FindStringSubmatch reShowTasks trimmed of
               Some m \<Rightarrow> marker ''SHOW_TASKS'' (m 2)
             | None \<Rightarrow> (case FindStringSubmatch reExecTask trimmed of
                 Some m \<Rightarrow> marker ''EXECUTE_TASK'' (m 1) | None \<Rightarrow> sql)))))"

definition rw_reCreatePipe :: re where
  "rw_reCreatePipe = re_lit ''(?is)^~s*CREATE~s+(OR~s+REPLACE~s+)?PIPE~b''"
definition rw_reDropPipe :: re where
  "rw_reDropPipe = re_lit ''(?is)^~s*DROP~s+PIPE~s+(IF~s+EXISTS~s+)?(~S+)~s*;?~s*$''"
definition reShowPipes :: re where
  "reShowPipes = re_lit ''(?is)^~s*SHOW~s+PIPES(~s+IN~s+SCHEMA~s+(~S+))?~s*;?~s*$''"

definition rewritePipes :: "string \<Rightarrow> string" where
  "rewritePipes sql =
     (let trimmed = stmt_trim sql
      in if MatchString rw_reCreatePipe trimmed then marker ''CREATE_PIPE'' trimmed
         else (case FindStringSubmatch rw_reDropPipe trimmed of
           Some m \<Rightarrow> marker ''DROP_PIPE'' (m 2 @ '' '' @ flag01 (m 1))
         | None \<Rightarrow> (case FindStringSubmatch reShowPipes trimmed of
             Some m \<Rightarrow> marker ''SHOW_PIPES'' (m 2) | None \<Rightarrow> sql)))"

definition reShowParameters :: re where
  "reShowParameters = re_lit (''(?is)^~s*SHOW~s+PARAMETERS'' @
     ''(?:~s+LIKE~s+`([^`]*)`)?'' @
     ''(?:~s+(?:IN|FOR)~s+(SESSION|ACCOUNT|USER|WAREHOUSE|DATABASE|SCHEMA|TASK|TABLE)(?:~s+(~S+))?)?'' @
     ''~s*;?~s*$'')"

definition rewriteShowParameters :: "string \<Rightarrow> string" where
  "rewriteShowParameters sql =
     (let trimmed = stmt_trim sql
      in case FindStringSubmatch reShowParameters trimmed of
           None \<Rightarrow> sql
         | Some m \<Rightarrow>
             let like = m 1; scope = (if m 2 = '''' then ''SESSION'' else m 2)
             in marker ''SHOW_PARAMETERS'' (ToUpper scope @ '' | '' @ like))"

definition reUndrop :: re where
  "reUndrop = re_lit ''(?is)^~s*UNDROP~s+TABLE~s+(~S+)~s*;?~s*$''"

definition rewriteUndrop :: "string \<Rightarrow> string" where
  "rewriteUndrop sql =
     (case FindStringSubmatch reUndrop (stmt_trim sql) of Some m \<Rightarrow> marker ''UNDROP_TABLE'' (m 1) | None \<Rightarrow> sql)"

text \<open>The text a closure builds from the submatches of a match; indexing the submatches of no match panics.\<close>

definition resub :: "re \<Rightarrow> ((nat \<Rightarrow> string) \<Rightarrow> string) \<Rightarrow> string \<Rightarrow> string option" where
  "resub r f match = map_option f (FindStringSubmatch r match)"

definition reAtBeforeOffset :: re where
  "reAtBeforeOffset = re_lit ''(?is)~bFROM~s+(~S+)~s+AT~s*~(~s*OFFSET~s*=>~s*(-?~d+)~s*~)''"
definition reAtBeforeTimestamp :: re where
  "reAtBeforeTimestamp = re_lit ''(?is)~bFROM~s+(~S+)~s+(AT|BEFORE)~s*~(~s*TIMESTAMP~s*=>~s*`([^`]+)`~s*~)''"

definition rewriteTimeTravel :: "string \<Rightarrow> string option" where
  "rewriteTimeTravel sql =
     (case ReplaceAllStringFunc reAtBeforeOffset sql
        (resub reAtBeforeOffset (\<lambda>m. ''FROM '' @ marker ''AT_OFFSET'' (m 1 @ '' '' @ m 2) @ '' '' @ m 1)) of
        None \<Rightarrow> None
      | Some sql \<Rightarrow>
          ReplaceAllStringFunc reAtBeforeTimestamp sql
            (resub reAtBeforeTimestamp (\<lambda>m. ''FROM '' @ marker ''AT_TIMESTAMP'' (m 1 @ '' '' @ m 3) @ '' '' @ m 1)))"

subsection \<open>MERGE\<close>

definition reMergeUpsert :: re where
  "reMergeUpsert = re_lit (''(?is)^~s*MERGE~s+INTO~s+(~S+)(?:~s+(?:AS~s+)?(~w+))?~s+USING~s+(~S+)(?:~s+(?:AS~s+)?(~w+))?'' @
     ''~s+ON~s+(.+?)~s+WHEN~s+MATCHED~s+THEN~s+UPDATE~s+SET~s+(.+?)~s+WHEN~s+NOT~s+MATCHED~s+THEN~s+INSERT'' @
     ''~s*~(([^)]+)~)~s+VALUES~s*~(([^)]+)~)~s*;?~s*$'')"

definition keyMatch :: re where
  "keyMatch = re_lit ''(?is)^~s*(?:[A-Za-z_][~w]*~.)?([A-Za-z_]~w*)~s*=~s*(?:[A-Za-z_][~w]*~.)?([A-Za-z_]~w*)~s*$''"

definition QuoteMeta :: "string \<Rightarrow> string" where
  "QuoteMeta s = concat (map (\<lambda>c. if c \<in> set ([CHR 0x5C] @ ''.+*?()|[]{}^$'') then [CHR 0x5C, c] else [c]) s)"

definition alias_dot :: "string \<Rightarrow> re" where
  "alias_dot alias = MustCompile (re_text ''(?i)~b'' @ QuoteMeta alias @ re_text ''~.'')"

definition rewriteMerge :: "string \<Rightarrow> string" where
  "rewriteMerge sql =
     (case FindStringSubmatch reMergeUpsert (stmt_trim sql) of
        None \<Rightarrow> sql
      | Some m \<Rightarrow>
          let targetTable = m 1;
              targetAlias = (if m 2 = '''' then targetTable else m 2);
              sourceTable = m 3;
              sourceAlias = (if m 4 = '''' then sourceTable else m 4);
              onClause = m 5; updateSet = m 6;
              insertCols = TrimSpace (m 7); insertVals = TrimSpace (m 8)
          in (case FindStringSubmatch keyMatch onClause of
                None \<Rightarrow> sql
              | Some km \<Rightarrow>
                  let conflictCol = km 1;
                      cleanSet = (if targetAlias \<noteq> ''''
                        then ReplaceAllString (alias_dot targetAlias) updateSet (\<lambda>_. '''') else updateSet);
                      cleanSet = (if sourceAlias \<noteq> ''''
                        then ReplaceAllString (alias_dot sourceAlias) cleanSet (\<lambda>_. ''excluded.'') else cleanSet);
                      fromClause = (if sourceAlias \<noteq> '''' \<and> sourceAlias \<noteq> sourceTable
                        then sourceTable @ '' AS '' @ sourceAlias else sourceTable)
                  in ''INSERT INTO '' @ targetTable @ '' ('' @ insertCols @ '') SELECT '' @ insertVals @
                     '' FROM '' @ fromClause @ '' ON CONFLICT ('' @ conflictCol @ '') DO UPDATE SET '' @ cleanSet))"

subsection \<open>SHOW and DESCRIBE\<close>

definition reShowDatabases :: re where "reShowDatabases = re_lit ''(?i)^~s*SHOW~s+DATABASES~s*$''"
definition reShowSchemas :: re where
  "reShowSchemas = re_lit ''(?i)^~s*SHOW~s+SCHEMAS(~s+IN~s+(DATABASE~s+)?(~S+))?~s*$''"
definition reShowTables :: re where
  "reShowTables = re_lit ''(?i)^~s*SHOW~s+TABLES(~s+IN~s+(SCHEMA~s+|DATABASE~s+)?(~S+))?~s*$''"
definition reShowColumns :: re where
  "reShowColumns = re_lit ''(?i)^~s*SHOW~s+COLUMNS~s+IN~s+(~S+)~s*$''"
definition reShowWarehouses :: re where "reShowWarehouses = re_lit ''(?i)^~s*SHOW~s+WAREHOUSES~s*$''"

text \<open>Text in which a grave accent stands for a single quote and a tilde for a double quote.\<close>

definition sql_text :: "string \<Rightarrow> string" where
  "sql_text s = map (\<lambda>c. if c = CHR ''~'' then CHR 0x22 else if c = CHR 0x60 then CHR 0x27 else c) s"

definition rewriteShowCommands :: "string \<Rightarrow> string" where
  "rewriteShowCommands sql =
     (if MatchString reShowDatabases sql
      then sql_text ''SELECT DISTINCT catalog_name AS ~name~ FROM information_schema.schemata''
      else (case FindStringSubmatch reShowSchemas sql of
        Some m \<Rightarrow>
          sql_text ''SELECT schema_name AS ~name~ FROM information_schema.schemata'' @
          (if m 3 \<noteq> '''' then sql_text '' WHERE catalog_name = `'' @ m 3 @ sql_text ''`'' else '''')
      | None \<Rightarrow> (case FindStringSubmatch reShowTables sql of
          Some m \<Rightarrow>
            sql_text ''SELECT table_name AS ~name~ FROM information_schema.tables'' @
            (if m 3 \<noteq> '''' then sql_text '' WHERE table_schema = `'' @ m 3 @ sql_text ''`'' else '''')
        | None \<Rightarrow> (case FindStringSubmatch reShowColumns sql of
            Some m \<Rightarrow>
              sql_text ''SELECT column_name AS ~name~, data_type AS ~type~ FROM information_schema.columns WHERE table_name = `'' @
              m 1 @ sql_text ''`''
          | None \<Rightarrow>
              if MatchString reShowWarehouses sql
              then sql_text ''SELECT `MINIFLAKE_WH` AS ~name~, `STARTED` AS ~state~, `X-SMALL` AS ~size~''
              else sql))))"

definition reDescribe :: re where
  "reDescribe = re_lit ''(?i)^~s*(DESCRIBE|DESC)~s+TABLE~s+(~S+)~s*$''"

definition rewriteDescribe :: "string \<Rightarrow> string" where
  "rewriteDescribe sql =
     (case FindStringSubmatch reDescribe sql of Some m \<Rightarrow> ''DESCRIBE '' @ m 2 | None \<Rightarrow> sql)"

subsection \<open>Expressions\<close>

definition reIdentifier :: re where "reIdentifier = re_lit ''(?i)IDENTIFIER~s*~(~s*`([^`]+)`~s*~)''"

definition rewriteIdentifierFunc :: "string \<Rightarrow> string" where
  "rewriteIdentifierFunc sql = ReplaceAllString reIdentifier sql (\<lambda>m. m 1)"

definition reVariantCastNested :: re where
  "reVariantCastNested =
     re_lit ''(?i)~b([a-zA-Z_][a-zA-Z0-9_]*):([a-zA-Z_][a-zA-Z0-9_.]*)::([~w]+(?:~([^)]*~))?)''"
definition reVariantAccessNested :: re where
  "reVariantAccessNested = re_lit ''~b([a-zA-Z_][a-zA-Z0-9_]*):([a-zA-Z_][a-zA-Z0-9_.]*)''"
definition reVariantArrayAccess :: re where
  "reVariantArrayAccess = re_lit ''~b([a-zA-Z_][a-zA-Z0-9_]*)~[(~d+)~]''"

definition expandNestedKeys :: "string \<Rightarrow> string \<Rightarrow> string" where
  "expandNestedKeys col keys =
     col @ concat (map (\<lambda>p. sql_text ''->>`'' @ p @ sql_text ''`'') (Split keys (CHR ''.'')))"

definition rewriteVariantAccess :: "string \<Rightarrow> string option" where
  "rewriteVariantAccess sql =
     (case ReplaceAllStringFunc reVariantCastNested sql
        (resub reVariantCastNested (\<lambda>m. ''CAST('' @ expandNestedKeys (m 1) (m 2) @ '' AS '' @ m 3 @ '')'')) of
        None \<Rightarrow> None
      | Some sql \<Rightarrow>
          (case ReplaceAllStringFunc reVariantAccessNested sql
             (resub reVariantAccessNested (\<lambda>m. expandNestedKeys (m 1) (m 2))) of
             None \<Rightarrow> None
           | Some sql \<Rightarrow> Some (ReplaceAllString reVariantArrayAccess sql (\<lambda>m. m 1 @ ''->>'' @ m 2))))"

definition reFlattenTable :: re where
  "reFlattenTable = re_lit ''(?i)TABLE~s*~(~s*FLATTEN~s*~(~s*(?:input~s*=>~s*)?([^)]+)~)~s*~)''"
definition reLateralFlatten :: re where
  "reLateralFlatten = re_lit ''(?i),?~s*LATERAL~s+FLATTEN~s*~(~s*(?:input~s*=>~s*)?([^)]+)~)~s+(?:AS~s+)?(~w+)''"

definition rewriteFlatten :: "string \<Rightarrow> string" where
  "rewriteFlatten sql =
     (let sql = ReplaceAllString reFlattenTable sql (\<lambda>m. ''unnest('' @ m 1 @ '') AS flat(value)'')
      in ReplaceAllString reLateralFlatten sql
           (\<lambda>m. '', LATERAL (SELECT unnest AS value FROM unnest('' @ m 1 @ '')) AS '' @ m 2))"

definition reRlike :: re where
  "reRlike = re_lit ''(?i)(~S+)~s+(NOT~s+)?(?:RLIKE|REGEXP)~s+(`(?:[^`]|``)*`|~S+)''"

definition rewriteRLike :: "string \<Rightarrow> string option" where
  "rewriteRLike sql =
     ReplaceAllStringFunc reRlike sql
       (resub reRlike (\<lambda>sub. (if sub 2 \<noteq> '''' then ''NOT '' else '''') @
          ''regexp_full_match('' @ sub 1 @ '', '' @ sub 3 @ '')''))"

definition dataTypeReplacements :: "(re \<times> ((nat \<Rightarrow> string) \<Rightarrow> string)) list" where
  "dataTypeReplacements =
     [(re_lit ''(?i)~bNUMBER~s*~(~s*38~s*,~s*0~s*~)'', \<lambda>_. ''BIGINT''),
      (re_lit ''(?i)~bNUMBER~s*~(~s*(~d+)~s*,~s*(~d+)~s*~)'', \<lambda>m. ''DECIMAL('' @ m 1 @ '', '' @ m 2 @ '')''),
      (re_lit ''(?i)~bVARIANT~b'', \<lambda>_. ''JSON''),
      (re_lit ''(?i)~bTIMESTAMP_NTZ~b'', \<lambda>_. ''TIMESTAMP''),
      (re_lit ''(?i)~bTIMESTAMP_LTZ~b'', \<lambda>_. ''TIMESTAMPTZ''),
      (re_lit ''(?i)~bTIMESTAMP_TZ~b'', \<lambda>_. ''TIMESTAMPTZ''),
      (re_lit ''(?i)~bBINARY~b'', \<lambda>_. ''BLOB'')]"

definition reNumberWithContext :: re where
  "reNumberWithContext = re_lit ''(?i)~bNUMBER~s*(~()?''"

text \<open>The closure that replaces a bare NUMBER does not index submatches, so it never panics.\<close>

definition rewriteDataTypes :: "string \<Rightarrow> string" where
  "rewriteDataTypes sql =
     (let upper = ToUpper (TrimSpace sql)
      in if \<not> HasPrefix upper ''CREATE'' \<and> \<not> HasPrefix upper ''ALTER'' then sql
         else
           let sql = fold (\<lambda>(pat, repl) sql. ReplaceAllString pat sql repl) dataTypeReplacements sql
           in ReplaceAllString reNumberWithContext sql
                (\<lambda>m. if Contains (m 0) ''('' then m 0 else ''BIGINT''))"

subsection \<open>Whole statements\<close>

definition rules :: "(string \<Rightarrow> string option) list" where
  "rules =
     [Some \<circ> rewriteUseStatements, Some \<circ> rewritePutGet, Some \<circ> rewriteCopyInto, Some \<circ> rewriteStageCommands,
      Some \<circ> rewriteStreams, Some \<circ> rewriteTasks, Some \<circ> rewritePipes, Some \<circ> rewriteShowParameters,
      Some \<circ> rewriteUndrop, rewriteTimeTravel, Some \<circ> rewriteMerge, Some \<circ> rewriteShowCommands,
      Some \<circ> rewriteDescribe, Some \<circ> rewriteIdentifierFunc, rewriteVariantAccess, Some \<circ> rewriteFlatten,
      rewriteIFF, rewriteNVL2, rewriteNVL, rewriteDIV0NULL, rewriteDIV0, rewriteSquare, rewriteArrayConstruct,
      rewriteArraySize, rewriteObjectConstruct, rewriteParseJSON, rewriteRegexpLike, rewriteRLike, rewriteListAgg,
      rewriteStrtokToArray, rewriteDateAdd, rewriteDateDiff, rewriteToVarchar, rewriteToNumber, rewriteToDate,
      rewriteToTimestamp, Some \<circ> rewriteDataTypes]"

fun apply_rules :: "(string \<Rightarrow> string option) list \<Rightarrow> string \<Rightarrow> string option" where
  "apply_rules [] sql = Some sql"
| "apply_rules (rule # rs) sql = (case rule sql of None \<Rightarrow> None | Some sql' \<Rightarrow> apply_rules rs sql')"

definition Rewrite :: "string \<Rightarrow> string option" where
  "Rewrite sql =
     (let sql = TrimSpace sql
      in if sql = '''' then Some '''' else map_option TrimSpace (apply_rules rules sql))"

fun rewrite_each :: "string list \<Rightarrow> string list option" where
  "rewrite_each [] = Some []"
| "rewrite_each (s # ss) =
     (if TrimSpace s = '''' then rewrite_each ss
      else (case Rewrite (TrimSpace s) of
        None \<Rightarrow> None
      | Some r \<Rightarrow> (case rewrite_each ss of
          None \<Rightarrow> None | Some rs \<Rightarrow> Some (if r \<noteq> '''' then r # rs else rs))))"

definition RewriteMulti :: "string \<Rightarrow> string list option" where
  "RewriteMulti sql = rewrite_each (splitStatements sql)"

subsection \<open>The rules return\<close>

lemma rematchable_rules:
  "rematchable reAtBeforeOffset" "rematchable reAtBeforeTimestamp" "rematchable reVariantCastNested"
  "rematchable reVariantAccessNested" "rematchable reRlike"
  by code_simp+

lemma resub_total: "rematchable r \<Longrightarrow> ReplaceAllStringFunc r s (resub r f) \<noteq> None"
  by (rule ReplaceAllStringFunc_total) (auto simp: resub_def)

text \<open>
  The rules that take the submatches of a match again, inside the function that replaces it, never
  index a missing match: on every statement the rules for time travel, for semi-structured access and for
  RLIKE return.
\<close>

theorem regexp_rules_return:
  "(\<exists>out. rewriteTimeTravel sql = Some out) \<and> (\<exists>out. rewriteVariantAccess sql = Some out) \<and>
   (\<exists>out. rewriteRLike sql = Some out)"
proof -
  note total = resub_total [THEN not_None_eq [THEN iffD1]]
  have "\<exists>out. rewriteTimeTravel sql = Some out"
    using total [OF rematchable_rules(1)] total [OF rematchable_rules(2)]
    unfolding rewriteTimeTravel_def by (metis option.case(2))
  moreover have "\<exists>out. rewriteVariantAccess sql = Some out"
    using total [OF rematchable_rules(3)] total [OF rematchable_rules(4)]
    unfolding rewriteVariantAccess_def by (metis option.case(2))
  moreover have "\<exists>out. rewriteRLike sql = Some out"
    using total [OF rematchable_rules(5)] unfolding rewriteRLike_def by blast
  ultimately show ?thesis by blast
qed

text \<open>The rules do not look at quotes: a literal that contains a colon between names is torn apart.\<close>

lemma variant_rule_breaks_literal:
  "rewriteVariantAccess (sql_text ''SELECT `k:v`'') = Some (sql_text ''SELECT `k->>`v``'')"
  by code_simp

text \<open>Rules that follow rewrite the statement inside a marker, here the pattern of a LIST.\<close>

lemma variant_rule_breaks_marker:
  "rewriteVariantAccess (rewriteStageCommands (sql_text ''LIST @s PATTERN = `a[0]`'')) =
     Some (sql_text ''/* MINIFLAKE_LIST LIST @s PATTERN = `a->>0` */'')"
  by code_simp

end
