(* ===== verification/Go_Rel.thy ===== *)
theory Go_Rel
  imports Go_Paths
begin

text \<open>
  \<^verbatim>\<open>filepath.Rel\<close> on Unix, on the elements of the cleaned paths, and the normal form that cleaning
  gives: no empty and no dot elements, and dot-dot elements only at the front of a relative path.
\<close>

definition rel_elems :: "string \<Rightarrow> string list" where
  "rel_elems p = (if IsAbs p then path_elems p else Split (Clean p) (CHR ''/''))"

fun strip_common :: "string list \<Rightarrow> string list \<Rightarrow> string list \<times> string list" where
  "strip_common (x # b) (y # t) = (if x = y then strip_common b t else (x # b, y # t))"
| "strip_common b t = (b, t)"

definition path_Rel :: "string \<Rightarrow> string \<Rightarrow> string option" where
  "path_Rel base targ =
     (if Clean targ = Clean base then Some ''.''
      else if IsAbs base \<noteq> IsAbs targ then None
      else
        (let (b, t) = strip_common (if Clean base = ''.'' then [] else rel_elems base) (rel_elems targ)
         in if b \<noteq> [] \<and> t \<noteq> [] \<and> hd b = ''..'' then None
            else Some (Join (replicate (length b) ''..'' @ t) ''/'')))"

subsection \<open>The normal form\<close>

definition plain_elem :: "string \<Rightarrow> bool" where
  "plain_elem e \<longleftrightarrow> e \<noteq> '''' \<and> e \<noteq> ''.'' \<and> CHR ''/'' \<notin> set e"

definition ups_first :: "string list \<Rightarrow> bool" where
  "ups_first es \<longleftrightarrow> ''..'' \<notin> set (dropWhile (\<lambda>e. e = ''..'') es)"

definition normal_form :: "bool \<Rightarrow> string list \<Rightarrow> bool" where
  "normal_form rooted es \<longleftrightarrow> (\<forall>e \<in> set es. plain_elem e) \<and> ups_first es \<and> (rooted \<longrightarrow> ''..'' \<notin> set es)"

lemma ups_first_snoc:
  "ups_first (es @ [e]) \<longleftrightarrow> ups_first es \<and> (e = ''..'' \<longrightarrow> (\<forall>x \<in> set es. x = ''..''))"
proof (cases "\<forall>x \<in> set es. x = ''..''")
  case True
  then have d: "dropWhile (\<lambda>e. e = ''..'') es = []" by simp
  have "ups_first es" unfolding ups_first_def d by simp
  with True show ?thesis by (simp add: ups_first_def dropWhile_append2)
next
  case False
  then show ?thesis by (auto simp: ups_first_def dropWhile_append1)
qed

lemma ups_first_append: "ups_first (a @ b) \<Longrightarrow> ups_first a"
proof (induction b rule: rev_induct)
  case (snoc e b)
  then show ?case using ups_first_snoc [of "a @ b" e] by simp
qed simp

lemma ups_first_after:
  assumes "ups_first (a @ t)" "t \<noteq> []" "hd t \<noteq> ''..''"
  shows "''..'' \<notin> set t"
proof -
  obtain x r where t: "t = x # r" "x \<noteq> ''..''" using assms(2,3) by (cases t) auto
  have "set t \<subseteq> set (dropWhile (\<lambda>e. e = ''..'') (a @ t))"
    using t by (induction a) auto
  with assms(1) show ?thesis by (auto simp: ups_first_def)
qed

lemma clean_elems_normal:
  "normal_form rooted (rev st) \<Longrightarrow> (\<And>c. c \<in> set cs \<Longrightarrow> CHR ''/'' \<notin> set c) \<Longrightarrow>
   normal_form rooted (clean_elems rooted cs st)"
proof (induction rooted cs st rule: clean_elems.induct)
  case (2 rooted c cs st)
  show ?case
  proof (cases "c = '''' \<or> c = ''.''")
    case True
    with 2 show ?thesis by auto
  next
    case not_dot: False
    show ?thesis
    proof (cases "c = ''..''")
      case True
      have up: "plain_elem ''..''" by code_simp
      show ?thesis
      proof (cases st)
        case Nil
        have "normal_form rooted (rev (if rooted then [] else [''..'']))"
          using up by (simp add: normal_form_def ups_first_def)
        with 2 True Nil show ?thesis by auto
      next
        case (Cons d st')
        show ?thesis
        proof (cases "d = ''..''")
          case d: True
          then have "normal_form rooted (rev (''..'' # st))"
            using "2.prems"(1) up Cons ups_first_snoc [of "rev st" "''..''"]
            by (auto simp: normal_form_def ups_first_snoc)
          with 2 True Cons d show ?thesis by auto
        next
          case False
          then have "normal_form rooted (rev st')"
            using "2.prems"(1) Cons by (auto simp: normal_form_def ups_first_snoc)
          with 2 True Cons False show ?thesis by auto
        qed
      qed
    next
      case False
      then have "normal_form rooted (rev (c # st))"
        using "2.prems" not_dot by (auto simp: normal_form_def ups_first_snoc plain_elem_def)
      with 2 False not_dot show ?thesis by auto
    qed
  qed
qed simp

lemma path_elems_normal: "normal_form (IsAbs p) (path_elems p)"
  unfolding path_elems_def
  by (rule clean_elems_normal) (auto simp: normal_form_def ups_first_def dest: Split_parts_no_sep)

lemma clean_elems_id: "normal_form rooted (rev st @ es) \<Longrightarrow> clean_elems rooted es st = rev st @ es"
proof (induction es arbitrary: st)
  case (Cons c es)
  have c: "c \<noteq> ''''" "c \<noteq> ''.''" using Cons.prems by (auto simp: normal_form_def plain_elem_def)
  have pre: "ups_first (rev st @ [c])"
    using Cons.prems ups_first_append [of "rev st @ [c]" es] by (simp add: normal_form_def)
  have IH: "clean_elems rooted es (c # st) = rev st @ c # es" using Cons.IH [of "c # st"] Cons.prems by simp
  show ?case
  proof (cases "c = ''..''")
    case True
    with Cons.prems have "\<not> rooted" by (auto simp: normal_form_def)
    moreover have "\<forall>x \<in> set st. x = ''..''" using pre True by (simp add: ups_first_snoc)
    ultimately show ?thesis using IH True by (cases st) auto
  next
    case False
    with c IH show ?thesis by simp
  qed
qed simp

lemma Split_Join:
  "es \<noteq> [] \<Longrightarrow> (\<And>e. e \<in> set es \<Longrightarrow> sep \<notin> set e) \<Longrightarrow> Split (Join es [sep]) sep = es"
proof (induction es rule: list_nonempty_induct)
  case (single x)
  then show ?case by (simp add: Split_no_sep)
next
  case (cons x xs)
  have "Split (x @ sep # s) sep = x # Split s sep" if "sep \<notin> set x" for s
    using that by (induction x) auto
  with cons show ?case by (simp add: Join_Cons)
qed

lemma IsAbs_Join: "es \<noteq> [] \<Longrightarrow> (\<And>e. e \<in> set es \<Longrightarrow> plain_elem e) \<Longrightarrow> \<not> IsAbs (Join es ''/'')"
proof (cases es)
  case (Cons e es')
  assume "\<And>e. e \<in> set es \<Longrightarrow> plain_elem e"
  with Cons have "plain_elem e" by simp
  then obtain c e' where "e = c # e'" "c \<noteq> CHR ''/''" by (cases e) (auto simp: plain_elem_def)
  with Cons show ?thesis by (simp add: Join_Cons_head IsAbs_def)
qed simp

lemma IsAbs_Clean [simp]: "IsAbs (Clean p) = IsAbs p"
proof -
  note nf = path_elems_normal [of p]
  show ?thesis
    using nf IsAbs_Join [of "path_elems p"]
    by (cases "path_elems p = []") (auto simp: Clean_def normal_form_def, auto simp: IsAbs_def)
qed

lemma path_elems_Clean [simp]: "path_elems (Clean p) = path_elems p"
proof -
  let ?es = "path_elems p"
  note nf = path_elems_normal [of p]
  then have sl: "\<And>e. e \<in> set ?es \<Longrightarrow> CHR ''/'' \<notin> set e" by (auto simp: normal_form_def plain_elem_def)
  show ?thesis
  proof (cases "IsAbs p")
    case True
    have "Split (''/'' @ Join ?es ''/'') (CHR ''/'') = [] # (if ?es = [] then [[]] else ?es)"
      using Split_Join [OF _ sl] by auto
    with True clean_elems_id [of True "[]" ?es] nf have "clean_elems True (Split (Clean p) (CHR ''/'')) [] = ?es"
      by (simp add: Clean_def)
    with True show ?thesis by (subst path_elems_def) simp
  next
    case False
    show ?thesis
    proof (cases "?es = []")
      case True
      have "path_elems ''.'' = []" by code_simp
      with True False show ?thesis by (simp add: Clean_def)
    next
      case ne: False
      from Split_Join [OF ne sl] clean_elems_id [of False "[]" ?es] nf False ne
      have "clean_elems False (Split (Clean p) (CHR ''/'')) [] = ?es" by (simp add: Clean_def)
      with False show ?thesis by (subst path_elems_def) simp
    qed
  qed
qed

lemma Clean_eq_iff: "Clean p = Clean q \<longleftrightarrow> IsAbs p = IsAbs q \<and> path_elems p = path_elems q"
  by (metis Clean_def IsAbs_Clean path_elems_Clean)

subsection \<open>Descending paths\<close>

lemma strip_common_Nil: "strip_common b t = ([], r) \<Longrightarrow> t = b @ r"
  by (induction b t rule: strip_common.induct) (auto split: if_splits)

lemma strip_common_prefix: "strip_common b (b @ r) = ([], r)"
proof (induction b)
  case Nil
  show ?case by (cases r) simp_all
qed simp

lemma Join_ups_first:
  "es \<noteq> [] \<Longrightarrow> hd es = ''..'' \<Longrightarrow> Join es ''/'' = ''..'' \<or> HasPrefix (Join es ''/'') ''../''"
  by (cases es; cases "tl es = []") (auto simp: Join_Cons HasPrefix_def)

definition climbs :: "string \<Rightarrow> bool" where
  "climbs rel \<longleftrightarrow> rel = ''..'' \<or> HasPrefix rel ''../''"

lemma not_climbs_Join:
  assumes "es \<noteq> []" "hd es \<noteq> ''..''" "CHR ''/'' \<notin> set (hd es)"
  shows "\<not> climbs (Join es ''/'')"
proof
  assume c: "climbs (Join es ''/'')"
  obtain e r where es: "es = e # r" using assms(1) by (cases es) auto
  have first: "takeWhile (\<lambda>c. c \<noteq> CHR ''/'') (Join es ''/'') = e"
    using assms(3) es by (cases "r = []") (auto simp: Join_Cons takeWhile_tail)
  have "takeWhile (\<lambda>c. c \<noteq> CHR ''/'') (Join es ''/'') = ''..''"
    using c by (auto simp: climbs_def HasPrefix_iff)
  with first assms(2) es show False by simp
qed

lemma rel_elems_eq: "IsAbs p \<or> path_elems p \<noteq> [] \<Longrightarrow> rel_elems p = path_elems p"
proof (cases "IsAbs p")
  case False
  assume "IsAbs p \<or> path_elems p \<noteq> []"
  with False have ne: "path_elems p \<noteq> []" by simp
  have "\<And>e. e \<in> set (path_elems p) \<Longrightarrow> CHR ''/'' \<notin> set e"
    using path_elems_normal [of p] by (auto simp: normal_form_def plain_elem_def)
  from Split_Join [OF ne this] False ne show ?thesis by (simp add: rel_elems_def Clean_def)
qed (simp add: rel_elems_def)

lemma Clean_dot: "Clean p = ''.'' \<longleftrightarrow> \<not> IsAbs p \<and> path_elems p = []"
proof -
  have "\<not> IsAbs ''.''" "path_elems ''.'' = []" "Clean ''.'' = ''.''" by code_simp+
  then show ?thesis using Clean_eq_iff [of p "''.''"] by simp
qed

lemma base_elems_eq: "(if Clean base = ''.'' then [] else rel_elems base) = path_elems base"
  using rel_elems_eq [of base] by (auto simp: Clean_dot)

definition below :: "string \<Rightarrow> string \<Rightarrow> bool" where
  "below base targ \<longleftrightarrow> IsAbs targ = IsAbs base \<and>
     (\<exists>suffix. path_elems targ = path_elems base @ suffix \<and> ''..'' \<notin> set suffix)"

text \<open>A relative path that does not climb leads below the base, and every path below it has one.\<close>

lemma path_Rel_descends:
  assumes "path_Rel base targ = Some rel" "\<not> climbs rel"
  shows "below base targ"
proof (cases "Clean targ = Clean base")
  case True
  then show ?thesis by (simp add: Clean_eq_iff below_def)
next
  case False
  obtain b t where bt: "strip_common (path_elems base) (rel_elems targ) = (b, t)" by fastforce
  with assms(1) False have rel: "rel = Join (replicate (length b) ''..'' @ t) ''/''" and abs: "IsAbs base = IsAbs targ"
    by (auto simp: path_Rel_def base_elems_eq split: if_splits)
  have b: "b = []"
  proof (rule ccontr)
    assume "b \<noteq> []"
    then have "climbs rel" using Join_ups_first [of "replicate (length b) ''..'' @ t"] rel
      by (cases b) (auto simp: climbs_def)
    with assms(2) show False ..
  qed
  with bt strip_common_Nil have targ: "rel_elems targ = path_elems base @ t" by blast
  have eq: "rel_elems targ = path_elems targ"
  proof (rule rel_elems_eq, rule ccontr)
    assume "\<not> (IsAbs targ \<or> path_elems targ \<noteq> [])"
    then have dot: "Clean targ = ''.''" by (simp add: Clean_dot)
    have "Split ''.'' (CHR ''/'') = [''.'']" by code_simp
    then have rt: "rel_elems targ = [''.'']" using dot \<open>\<not> (IsAbs targ \<or> _)\<close> by (simp add: rel_elems_def)
    from rt targ have "path_elems base = [] \<or> ''.'' \<in> set (path_elems base)" by (cases "path_elems base") auto
    moreover have "''.'' \<notin> set (path_elems base)"
      using path_elems_normal [of base] by (auto simp: normal_form_def plain_elem_def)
    ultimately have "Clean base = ''.''" using abs \<open>\<not> (IsAbs targ \<or> _)\<close> by (simp add: Clean_dot)
    with dot False show False by simp
  qed
  have "''..'' \<notin> set t"
  proof (cases "t = []")
    case ne: False
    have "hd t \<noteq> ''..''" using assms(2) rel b Join_ups_first [OF ne] by (auto simp: climbs_def)
    then show ?thesis
      using ups_first_after [of "path_elems base" t] path_elems_normal [of targ] targ eq ne by (simp add: normal_form_def)
  qed simp
  with abs targ eq show ?thesis unfolding below_def by metis
qed

lemma path_Rel_below:
  assumes "below base targ"
  shows "\<exists>rel. path_Rel base targ = Some rel \<and> \<not> climbs rel"
proof (cases "Clean targ = Clean base")
  case True
  have "\<not> climbs ''.''" by code_simp
  with True show ?thesis by (simp add: path_Rel_def)
next
  case False
  from assms obtain t where abs: "IsAbs targ = IsAbs base" and t: "path_elems targ = path_elems base @ t" "''..'' \<notin> set t"
    by (auto simp: below_def)
  with False have ne: "t \<noteq> []" by (auto simp: Clean_eq_iff)
  then have "rel_elems targ = path_elems base @ t" using rel_elems_eq [of targ] t by simp
  then have "path_Rel base targ = Some (Join t ''/'')"
    using False abs by (simp add: path_Rel_def base_elems_eq strip_common_prefix)
  moreover have h: "hd t \<in> set t" by (rule hd_in_set [OF ne])
  moreover have "hd t \<noteq> ''..''" using h t(2) by metis
  moreover have "CHR ''/'' \<notin> set (hd t)"
    using h t(1) path_elems_normal [of targ] unfolding normal_form_def plain_elem_def by (metis UnCI set_append)
  ultimately show ?thesis using not_climbs_Join [OF ne] by simp
qed

subsection \<open>Joining a relative path back\<close>

lemma clean_elems_append: "clean_elems r (xs @ ys) st = clean_elems r ys (rev (clean_elems r xs st))"
  by (induction r xs st rule: clean_elems.induct) (auto split: list.splits)

lemma Split_append_sep: "Split (a @ sep # b) sep = Split a sep @ Split b sep"
  by (induction a) (auto split: list.splits simp: neq_Nil_conv)

lemma path_elems_sep:
  assumes "a \<noteq> []"
  shows "path_elems (a @ ''/'' @ b) = clean_elems (IsAbs a) (Split b (CHR ''/'')) (rev (path_elems a))"
proof -
  have "IsAbs (a @ ''/'' @ b) = IsAbs a" using assms by (cases a) (auto simp: IsAbs_def)
  then show ?thesis by (simp add: path_elems_def Split_append_sep clean_elems_append)
qed

lemma path_Join_elems:
  "IsAbs (path_Join [base, rel]) = (if base = '''' then IsAbs rel else IsAbs base)"
  "path_elems (path_Join [base, rel]) =
     (if base = '''' then path_elems rel else clean_elems (IsAbs base) (Split rel (CHR ''/'')) (rev (path_elems base)))"
proof -
  have abs: "base \<noteq> [] \<Longrightarrow> IsAbs (base @ ''/'' @ rel) = IsAbs base" by (cases base) (auto simp: IsAbs_def)
  have "IsAbs '''' = False" "path_elems '''' = []" by code_simp+
  then show "IsAbs (path_Join [base, rel]) = (if base = '''' then IsAbs rel else IsAbs base)"
    "path_elems (path_Join [base, rel]) =
     (if base = '''' then path_elems rel else clean_elems (IsAbs base) (Split rel (CHR ''/'')) (rev (path_elems base)))"
    using abs path_elems_sep [of base rel] by (auto simp: path_Join_def)
qed

lemma path_Join_ne: "rel \<noteq> '''' \<Longrightarrow> path_Join [base, rel] = Clean (path_Join [base, rel])"
  by (auto simp: path_Join_def Clean_eq_iff)

text \<open>The relative path of a target below the base leads from the base back to the target.\<close>

lemma path_Rel_suffix:
  assumes "below base targ" "path_Rel base targ = Some rel"
  shows "rel \<noteq> '''' \<and> \<not> IsAbs rel \<and> path_elems targ = path_elems base @ path_elems rel \<and>
     Split rel (CHR ''/'') = (if path_elems rel = [] then [''.''] else path_elems rel)"
proof (cases "Clean targ = Clean base")
  case True
  have "\<not> IsAbs ''.''" "path_elems ''.'' = []" "Split ''.'' (CHR ''/'') = [''.'']" by code_simp+
  with True assms(2) show ?thesis by (auto simp: path_Rel_def Clean_eq_iff)
next
  case False
  from assms(1) obtain t where abs: "IsAbs targ = IsAbs base" and t: "path_elems targ = path_elems base @ t" "''..'' \<notin> set t"
    by (auto simp: below_def)
  with False have ne: "t \<noteq> []" by (auto simp: Clean_eq_iff)
  then have "rel_elems targ = path_elems base @ t" using rel_elems_eq [of targ] t by simp
  with False abs assms(2) have rel: "rel = Join t ''/''"
    by (simp add: path_Rel_def base_elems_eq strip_common_prefix)
  have plain: "\<And>e. e \<in> set t \<Longrightarrow> plain_elem e" using path_elems_normal [of targ] t by (simp add: normal_form_def)
  then have split: "Split rel (CHR ''/'') = t"
    unfolding rel using ne by (intro Split_Join) (auto simp: plain_elem_def)
  have abs_rel: "\<not> IsAbs rel" using IsAbs_Join [OF ne plain] rel by simp
  have "normal_form False t" using plain t(2) by (auto simp: normal_form_def ups_first_def dest: set_dropWhileD)
  then have "path_elems rel = t" using abs_rel split clean_elems_id [of False "[]" t] by (simp add: path_elems_def)
  moreover have "rel \<noteq> ''''" using split ne plain by (auto simp: plain_elem_def)
  ultimately show ?thesis using t abs_rel split ne by simp
qed

lemma path_Join_Rel:
  assumes "below base targ" "path_Rel base targ = Some rel"
  shows "path_Join [base, rel] = Clean targ"
proof -
  note s = path_Rel_suffix [OF assms]
  have abs: "IsAbs targ = IsAbs base" using assms(1) by (simp add: below_def)
  have nil: "IsAbs '''' = False" "path_elems '''' = []" by code_simp+
  have nf: "normal_form (IsAbs base) (path_elems base @ path_elems rel)"
    using path_elems_normal [of targ] s abs by simp
  have "clean_elems (IsAbs base) (Split rel (CHR ''/'')) (rev (path_elems base)) = path_elems targ"
    using s clean_elems_id [of "IsAbs base" "rev (path_elems base)" "path_elems rel"] nf by auto
  then have "path_elems (path_Join [base, rel]) = path_elems targ" "IsAbs (path_Join [base, rel]) = IsAbs targ"
    using s abs nil by (simp_all add: path_Join_elems)
  then show ?thesis using path_Join_ne [of rel base] s Clean_eq_iff by metis
qed

lemma below_refl: "below p p"
  by (auto simp: below_def)

lemma below_trans: "below a b \<Longrightarrow> below b c \<Longrightarrow> below a c"
  by (auto simp: below_def)

lemma below_Join:
  assumes "plain_elem e" "e \<noteq> ''..''"
  shows "below d (path_Join [d, e])"
proof -
  have nil: "IsAbs '''' = False" "path_elems '''' = []" by code_simp+
  have split: "Split e (CHR ''/'') = [e]" using assms(1) by (simp add: plain_elem_def Split_no_sep)
  have "\<not> IsAbs e" using assms(1) by (cases e) (auto simp: IsAbs_def plain_elem_def)
  moreover have "path_elems e = [e]"
    using assms split by (simp add: path_elems_def plain_elem_def)
  moreover have "clean_elems r [e] (rev (path_elems d)) = path_elems d @ [e]" for r
    using assms by (simp add: plain_elem_def)
  ultimately show ?thesis
    using assms(2) nil split by (cases "d = ''''") (auto simp: below_def path_Join_elems)
qed

end
