(* ===== verification/Stage.thy ===== *)
theory Stage
  imports Registry Go_Rel
begin

text \<open>
  The stage manager (\<^verbatim>\<open>stage/stage.go\<close>): named, user and table stages over directories of the file
  system, and the check that a path of a stage stays inside it.

  The operating system is the record \<open>stage_os\<close> of the calls the code makes, over a world \<open>'w\<close> and open
  files \<open>'h\<close>; each call returns the world and the text of its error. \<open>walk\<close> is the sequence of calls
  that \<^verbatim>\<open>filepath.WalkDir\<close> makes as long as the callback returns nil. Compiling a user's regular
  expression and \<^verbatim>\<open>filepath.Match\<close> are fields too: the patterns come from the client.
\<close>

subsection \<open>Types\<close>

datatype StageType = StageInternal | StageExternal | StageUser | StageTable

record StageMeta =
  sm_Name :: string
  sm_Type :: StageType
  sm_URL :: string
  sm_LocalPath :: string
  sm_CreatedAt :: time

record FileInfo =
  fi_Name :: string
  fi_Size :: int
  fi_ModTime :: time
  fi_MD5 :: string

record stage_Manager =
  baseDir :: string
  stages :: "string \<rightharpoonup> StageMeta"

datatype fs_error = ErrNotExist | OtherFsError string

record walk_entry =
  we_path :: string
  we_err :: "fs_error option"
  we_isDir :: bool
  we_info :: "fs_error + (int \<times> time)"

record ('w, 'h) stage_os =
  os_MkdirAll :: "string \<Rightarrow> 'w \<Rightarrow> 'w \<times> string option"
  os_RemoveAll :: "string \<Rightarrow> 'w \<Rightarrow> 'w \<times> string option"
  os_Remove :: "string \<Rightarrow> 'w \<Rightarrow> 'w \<times> string option"
  os_Open :: "string \<Rightarrow> 'w \<Rightarrow> string + 'h"
  os_Create :: "string \<Rightarrow> 'w \<Rightarrow> 'w \<times> (string + 'h)"
  io_Copy :: "'h \<Rightarrow> 'h \<Rightarrow> 'w \<Rightarrow> 'w \<times> string option"
  os_Close :: "'h \<Rightarrow> 'w \<Rightarrow> 'w \<times> string option"
  md5_hex :: "'h \<Rightarrow> 'w \<Rightarrow> string option"
  walk :: "string \<Rightarrow> 'w \<Rightarrow> walk_entry list"
  re_compile :: "string \<Rightarrow> string + (string \<Rightarrow> bool)"
  glob_match :: "string \<Rightarrow> string \<Rightarrow> string + bool"

definition stage_NewManager :: "string \<Rightarrow> stage_Manager" where
  "stage_NewManager dir = \<lparr>baseDir = dir, stages = Map.empty\<rparr>"

subsection \<open>Registry\<close>

definition stageKey :: "string \<Rightarrow> string \<Rightarrow> string \<Rightarrow> string" where
  "stageKey db schema name = ToUpper (dotted db schema name)"

definition os_failed :: "string \<Rightarrow> string \<Rightarrow> go_error" where
  "os_failed what err = Wrap what (ExecError err)"

text \<open>The map is emptied before the directory is touched, so that an error of the disk leaves no stage behind.\<close>

definition stage_Reset :: "('w, 'h) stage_os \<Rightarrow> stage_Manager \<Rightarrow> 'w \<Rightarrow> 'w \<times> stage_Manager \<times> go_error option" where
  "stage_Reset os m w =
     (let m = m\<lparr>stages := Map.empty\<rparr>;
          (w, err) = os_RemoveAll os (baseDir m) w
      in case err of
           Some e \<Rightarrow> (w, m, Some (os_failed ''stage: reset remove'' e))
         | None \<Rightarrow>
             (let (w, err) = os_MkdirAll os (baseDir m) w
              in case err of
                   Some e \<Rightarrow> (w, m, Some (os_failed ''stage: reset mkdir'' e))
                 | None \<Rightarrow> (w, m, None)))"

definition new_stage :: "string \<Rightarrow> time \<Rightarrow> string \<Rightarrow> string \<Rightarrow> string \<Rightarrow> StageType \<Rightarrow> string \<Rightarrow> StageMeta" where
  "new_stage dir now db schema name stageType url =
     \<lparr>sm_Name = ToUpper name, sm_Type = stageType, sm_URL = url,
      sm_LocalPath = path_Join [dir, ''stages'', ToUpper db, ToUpper schema, ToUpper name], sm_CreatedAt = now\<rparr>"

definition CreateStage ::
  "('w, 'h) stage_os \<Rightarrow> stage_Manager \<Rightarrow> time \<Rightarrow> string \<Rightarrow> string \<Rightarrow> string \<Rightarrow> StageType \<Rightarrow> string \<Rightarrow> 'w \<Rightarrow>
     'w \<times> stage_Manager result"
where
  "CreateStage os m now db schema name stageType url w =
     (let key = stageKey db schema name
      in if stages m key \<noteq> None then (w, Err (AlreadyExists ''stage'' key))
         else
           let meta = new_stage (baseDir m) now db schema name stageType url;
               (w, err) = os_MkdirAll os (sm_LocalPath meta) w
           in case err of
                Some e \<Rightarrow> (w, Err (os_failed ''failed to create stage directory'' e))
              | None \<Rightarrow> (w, Ok (m\<lparr>stages := (stages m)(key \<mapsto> meta)\<rparr>)))"

definition DropStage ::
  "('w, 'h) stage_os \<Rightarrow> stage_Manager \<Rightarrow> string \<Rightarrow> string \<Rightarrow> string \<Rightarrow> 'w \<Rightarrow> 'w \<times> stage_Manager result" where
  "DropStage os m db schema name w =
     (let key = stageKey db schema name
      in case stages m key of
           None \<Rightarrow> (w, Err (DoesNotExist ''stage'' key))
         | Some meta \<Rightarrow>
             let (w, _) = os_RemoveAll os (sm_LocalPath meta) w
             in (w, Ok (m\<lparr>stages := (stages m)(key := None)\<rparr>)))"

definition GetStage :: "stage_Manager \<Rightarrow> string \<Rightarrow> string \<Rightarrow> string \<Rightarrow> StageMeta result" where
  "GetStage m db schema name =
     (let key = stageKey db schema name
      in case stages m key of None \<Rightarrow> Err (DoesNotExist ''stage'' key) | Some meta \<Rightarrow> Ok meta)"

text \<open>
  The stages of users and tables are created on the first use; both critical sections of the code read
  the map, and the second one decides. Failing to create the directory is ignored.
\<close>

definition user_stage :: "string \<Rightarrow> time \<Rightarrow> string \<Rightarrow> StageMeta" where
  "user_stage dir now user =
     \<lparr>sm_Name = ''@~'' @ ToUpper user, sm_Type = StageUser, sm_URL = '''',
      sm_LocalPath = path_Join [dir, ''user_stages'', ToUpper user], sm_CreatedAt = now\<rparr>"

definition GetUserStage ::
  "('w, 'h) stage_os \<Rightarrow> stage_Manager \<Rightarrow> time \<Rightarrow> string \<Rightarrow> 'w \<Rightarrow> 'w \<times> stage_Manager \<times> StageMeta" where
  "GetUserStage os m now user w =
     (let key = stageKey ''~'' ''~'' (ToUpper user)
      in case stages m key of
           Some meta \<Rightarrow> (w, m, meta)
         | None \<Rightarrow>
             let meta = user_stage (baseDir m) now user;
                 (w, _) = os_MkdirAll os (sm_LocalPath meta) w
             in (w, m\<lparr>stages := (stages m)(key \<mapsto> meta)\<rparr>, meta))"

definition table_stage :: "string \<Rightarrow> time \<Rightarrow> string \<Rightarrow> string \<Rightarrow> string \<Rightarrow> StageMeta" where
  "table_stage dir now db schema table =
     \<lparr>sm_Name = ''@%'' @ ToUpper table, sm_Type = StageTable, sm_URL = '''',
      sm_LocalPath = path_Join [dir, ''table_stages'', ToUpper db, ToUpper schema, ToUpper table],
      sm_CreatedAt = now\<rparr>"

definition GetTableStage ::
  "('w, 'h) stage_os \<Rightarrow> stage_Manager \<Rightarrow> time \<Rightarrow> string \<Rightarrow> string \<Rightarrow> string \<Rightarrow> 'w \<Rightarrow>
     'w \<times> stage_Manager \<times> StageMeta"
where
  "GetTableStage os m now db schema table w =
     (let key = stageKey db schema (''%'' @ ToUpper table)
      in case stages m key of
           Some meta \<Rightarrow> (w, m, meta)
         | None \<Rightarrow>
             let meta = table_stage (baseDir m) now db schema table;
                 (w, _) = os_MkdirAll os (sm_LocalPath meta) w
             in (w, m\<lparr>stages := (stages m)(key \<mapsto> meta)\<rparr>, meta))"

subsection \<open>Files\<close>

text \<open>On Unix \<^verbatim>\<open>FromSlash\<close> and \<^verbatim>\<open>ToSlash\<close> are the identity.\<close>

definition ResolveInStage :: "StageMeta \<Rightarrow> string \<Rightarrow> string result" where
  "ResolveInStage meta path =
     (let target = path_Join [sm_LocalPath meta, path]
      in case path_Rel (sm_LocalPath meta) target of
           None \<Rightarrow> Err (Invalid ''stage path'' path)
         | Some rel \<Rightarrow>
             if rel = ''..'' \<or> HasPrefix rel ''../'' then Err (NotAllowed ''stage path escapes the stage'' path)
             else Ok target)"

text \<open>
  \<^verbatim>\<open>copyFile\<close> closes the destination explicitly on success; the deferred calls close both files on the
  way out and their errors are dropped.
\<close>

definition copyFile :: "('w, 'h) stage_os \<Rightarrow> string \<Rightarrow> string \<Rightarrow> 'w \<Rightarrow> 'w \<times> go_error option" where
  "copyFile os src dst w =
     (case os_Open os src w of
        Inl e \<Rightarrow> (w, Some (os_failed ''open source'' e))
      | Inr inp \<Rightarrow>
          (let (w, created) = os_Create os dst w
          in case created of
               Inl e \<Rightarrow> (fst (os_Close os inp w), Some (os_failed ''create destination'' e))
             | Inr out \<Rightarrow>
                 let (w, err) = io_Copy os out inp w;
                     (w, res) =
                       (case err of
                          Some e \<Rightarrow> (w, Some (os_failed ''copy'' e))
                        | None \<Rightarrow> let (w, err) = os_Close os out w in (w, map_option ExecError err))
                 in (fst (os_Close os inp (fst (os_Close os out w))), res)))"

definition PutMetaFile :: "('w, 'h) stage_os \<Rightarrow> StageMeta \<Rightarrow> string \<Rightarrow> string \<Rightarrow> 'w \<Rightarrow> 'w \<times> go_error option" where
  "PutMetaFile os meta localPath destPath w =
     (case ResolveInStage meta destPath of
        Inl e \<Rightarrow> (w, Some e)
      | Inr dest \<Rightarrow>
          (let (w, err) = os_MkdirAll os (path_Dir dest) w
          in case err of
               Some e \<Rightarrow> (w, Some (os_failed ''failed to create destination directory'' e))
             | None \<Rightarrow> copyFile os localPath dest w))"

definition GetMetaFile :: "('w, 'h) stage_os \<Rightarrow> StageMeta \<Rightarrow> string \<Rightarrow> string \<Rightarrow> 'w \<Rightarrow> 'w \<times> go_error option" where
  "GetMetaFile os meta srcPath localPath w =
     (case ResolveInStage meta srcPath of
        Inl e \<Rightarrow> (w, Some e)
      | Inr src \<Rightarrow>
          (let (w, err) = os_MkdirAll os (path_Dir localPath) w
          in case err of
               Some e \<Rightarrow> (w, Some (os_failed ''failed to create destination directory'' e))
             | None \<Rightarrow> copyFile os src localPath w))"

definition RemoveMetaFile :: "('w, 'h) stage_os \<Rightarrow> StageMeta \<Rightarrow> string \<Rightarrow> 'w \<Rightarrow> 'w \<times> go_error option" where
  "RemoveMetaFile os meta path w =
     (case ResolveInStage meta path of
        Inl e \<Rightarrow> (w, Some e)
      | Inr target \<Rightarrow>
          let (w, err) = os_Remove os target w
          in (w, map_option (os_failed ''failed to remove file'') err))"

definition PutFile ::
  "('w, 'h) stage_os \<Rightarrow> stage_Manager \<Rightarrow> string \<Rightarrow> string \<Rightarrow> string \<Rightarrow> string \<Rightarrow> string \<Rightarrow> 'w \<Rightarrow> 'w \<times> go_error option" where
  "PutFile os m db schema stageName localPath destPath w =
     (case GetStage m db schema stageName of
        Inl e \<Rightarrow> (w, Some e) | Inr meta \<Rightarrow> PutMetaFile os meta localPath destPath w)"

definition GetFile ::
  "('w, 'h) stage_os \<Rightarrow> stage_Manager \<Rightarrow> string \<Rightarrow> string \<Rightarrow> string \<Rightarrow> string \<Rightarrow> string \<Rightarrow> 'w \<Rightarrow> 'w \<times> go_error option" where
  "GetFile os m db schema stageName srcPath localPath w =
     (case GetStage m db schema stageName of
        Inl e \<Rightarrow> (w, Some e) | Inr meta \<Rightarrow> GetMetaFile os meta srcPath localPath w)"

definition RemoveFile ::
  "('w, 'h) stage_os \<Rightarrow> stage_Manager \<Rightarrow> string \<Rightarrow> string \<Rightarrow> string \<Rightarrow> string \<Rightarrow> 'w \<Rightarrow> 'w \<times> go_error option" where
  "RemoveFile os m db schema stageName path w =
     (case GetStage m db schema stageName of
        Inl e \<Rightarrow> (w, Some e) | Inr meta \<Rightarrow> RemoveMetaFile os meta path w)"

subsection \<open>Listing\<close>

record ListOptions =
  lo_Prefix :: string
  lo_Pattern :: string
  lo_Regex :: string
  lo_Checksum :: bool

definition fileMD5 :: "('w, 'h) stage_os \<Rightarrow> string \<Rightarrow> 'w \<Rightarrow> string" where
  "fileMD5 os path w =
     (case os_Open os path w of
        Inl _ \<Rightarrow> ''''
      | Inr f \<Rightarrow> (case md5_hex os f w of None \<Rightarrow> '''' | Some h \<Rightarrow> h))"

definition fs_failed :: "fs_error \<Rightarrow> go_error option" where
  "fs_failed e = (case e of ErrNotExist \<Rightarrow> None | OtherFsError msg \<Rightarrow> Some (ExecError msg))"

text \<open>The callback of the walk on one entry: an error, or the file to append, if any.\<close>

definition list_visit ::
  "('w, 'h) stage_os \<Rightarrow> StageMeta \<Rightarrow> ListOptions \<Rightarrow> string \<Rightarrow> (string \<Rightarrow> bool) option \<Rightarrow> 'w \<Rightarrow> walk_entry \<Rightarrow>
     FileInfo option result"
where
  "list_visit os meta opts prefix re w d =
     (case we_err d of
        Some e \<Rightarrow> (case fs_failed e of None \<Rightarrow> Ok None | Some err \<Rightarrow> Err err)
      | None \<Rightarrow>
          (if we_isDir d then Ok None
           else (case path_Rel (sm_LocalPath meta) (we_path d) of
             None \<Rightarrow> Err (Invalid ''relative path'' (we_path d))
           | Some rel \<Rightarrow>
               (if prefix \<noteq> '''' \<and> \<not> HasPrefix rel prefix then Ok None
                else (case (if lo_Pattern opts \<noteq> '''' then glob_match os (lo_Pattern opts) (path_Base rel) else Inr True) of
                  Inl e \<Rightarrow> Err (ExecError e)
                | Inr matched \<Rightarrow>
                    (if \<not> matched then Ok None
                     else if (case re of Some matches \<Rightarrow> \<not> matches rel | None \<Rightarrow> False) then Ok None
                     else (case we_info d of
                       Inl e \<Rightarrow> (case fs_failed e of None \<Rightarrow> Ok None | Some err \<Rightarrow> Err err)
                     | Inr (sz, modTime) \<Rightarrow>
                         Ok (Some \<lparr>fi_Name = rel, fi_Size = sz, fi_ModTime = modTime,
                                   fi_MD5 = (if lo_Checksum opts then fileMD5 os (we_path d) w else '''')\<rparr>))))))))"

fun list_walk :: "(walk_entry \<Rightarrow> FileInfo option result) \<Rightarrow> walk_entry list \<Rightarrow> FileInfo list \<Rightarrow> FileInfo list result" where
  "list_walk visit [] files = Ok files"
| "list_walk visit (d # ds) files =
     (case visit d of
        Inl e \<Rightarrow> Err (Wrap ''failed to list files'' e)
      | Inr None \<Rightarrow> list_walk visit ds files
      | Inr (Some fi) \<Rightarrow> list_walk visit ds (files @ [fi]))"

definition ListMetaFiles ::
  "('w, 'h) stage_os \<Rightarrow> StageMeta \<Rightarrow> ListOptions \<Rightarrow> 'w \<Rightarrow> FileInfo list result" where
  "ListMetaFiles os meta opts w =
     (let prefix = TrimPrefix (lo_Prefix opts) ''/'' in
      let ds = walk os (sm_LocalPath meta) w in
      if lo_Regex opts \<noteq> '''' then
        (case re_compile os (''^(?:'' @ lo_Regex opts @ '')$'') of
           Inl e \<Rightarrow> Err (os_failed ''invalid PATTERN regexp'' e)
         | Inr matches \<Rightarrow> list_walk (list_visit os meta opts prefix (Some matches) w) ds [])
      else list_walk (list_visit os meta opts prefix None w) ds [])"

definition ListFilesWithOptions ::
  "('w, 'h) stage_os \<Rightarrow> stage_Manager \<Rightarrow> string \<Rightarrow> string \<Rightarrow> string \<Rightarrow> ListOptions \<Rightarrow> 'w \<Rightarrow> FileInfo list result" where
  "ListFilesWithOptions os m db schema stageName opts w =
     (case GetStage m db schema stageName of Inl e \<Rightarrow> Err e | Inr meta \<Rightarrow> ListMetaFiles os meta opts w)"

definition ListFiles ::
  "('w, 'h) stage_os \<Rightarrow> stage_Manager \<Rightarrow> string \<Rightarrow> string \<Rightarrow> string \<Rightarrow> string \<Rightarrow> 'w \<Rightarrow> FileInfo list result" where
  "ListFiles os m db schema stageName pattern w =
     ListFilesWithOptions os m db schema stageName
       \<lparr>lo_Prefix = '''', lo_Pattern = pattern, lo_Regex = '''', lo_Checksum = False\<rparr> w"

subsection \<open>Containment\<close>

lemma ResolveInStage_iff:
  "ResolveInStage meta path = Ok target \<longleftrightarrow>
     target = path_Join [sm_LocalPath meta, path] \<and> below (sm_LocalPath meta) target"
proof
  assume "ResolveInStage meta path = Ok target"
  then obtain rel where "target = path_Join [sm_LocalPath meta, path]"
    "path_Rel (sm_LocalPath meta) target = Some rel" "\<not> climbs rel"
    by (auto simp: ResolveInStage_def Let_def climbs_def split: option.splits if_splits)
  then show "target = path_Join [sm_LocalPath meta, path] \<and> below (sm_LocalPath meta) target"
    using path_Rel_descends by blast
next
  assume r: "target = path_Join [sm_LocalPath meta, path] \<and> below (sm_LocalPath meta) target"
  then obtain rel where "path_Rel (sm_LocalPath meta) target = Some rel" "\<not> climbs rel"
    using path_Rel_below by blast
  with r show "ResolveInStage meta path = Ok target" by (simp add: ResolveInStage_def climbs_def)
qed

text \<open>
  C30. A path resolves inside a stage exactly when the cleaned join of the stage directory and the path lies
  below the directory: it extends the elements of the directory and contains no dot-dot step. Every
  other path is refused, by PUT, GET and REMOVE alike, before the operating system is called at all.
\<close>

theorem stage_paths_contained:
  "if below (sm_LocalPath meta) (path_Join [sm_LocalPath meta, path])
   then ResolveInStage meta path = Ok (path_Join [sm_LocalPath meta, path])
   else \<exists>e. ResolveInStage meta path = Err e \<and> PutMetaFile os meta file path w = (w, Some e)
      \<and> GetMetaFile os meta path file w = (w, Some e) \<and> RemoveMetaFile os meta path w = (w, Some e)"
proof (cases "below (sm_LocalPath meta) (path_Join [sm_LocalPath meta, path])")
  case True
  then show ?thesis by (simp add: ResolveInStage_iff)
next
  case False
  then obtain e where "ResolveInStage meta path = Err e"
    using ResolveInStage_iff [of meta path] by (cases "ResolveInStage meta path") auto
  with False show ?thesis by (simp add: PutMetaFile_def GetMetaFile_def RemoveMetaFile_def)
qed

text \<open>The listing appends exactly the entries its callback accepts.\<close>

lemma list_walk_Ok:
  "list_walk visit ds files = Ok fs \<Longrightarrow>
     (\<forall>d \<in> set ds. is_ok (visit d)) \<and> fs = files @ List.map_filter (\<lambda>d. case visit d of Inl _ \<Rightarrow> None | Inr f \<Rightarrow> f) ds"
proof (induction visit ds files rule: list_walk.induct)
  case (2 visit d ds files)
  then show ?case by (cases "visit d") (auto simp: map_filter_simps split: option.splits)
qed (simp add: map_filter_simps)

lemma list_walk_member:
  assumes "list_walk visit ds [] = Ok fs" "fi \<in> set fs"
  shows "\<exists>d \<in> set ds. visit d = Ok (Some fi)"
  using list_walk_Ok [OF assms(1)] assms(2)
  by (auto simp: map_filter_def split: sum.splits)

lemma list_visit_Some:
  assumes "list_visit os meta opts prefix re w d = Ok (Some fi)"
  shows "path_Rel (sm_LocalPath meta) (we_path d) = Some (fi_Name fi) \<and> we_err d = None \<and> \<not> we_isDir d
       \<and> HasPrefix (fi_Name fi) prefix"
proof -
  from assms have e: "we_err d = None" by (auto simp: list_visit_def split: option.splits)
  from assms e have dir: "\<not> we_isDir d" by (auto simp: list_visit_def split: if_splits)
  from assms e dir obtain rel where rel: "path_Rel (sm_LocalPath meta) (we_path d) = Some rel"
    by (simp add: list_visit_def split: option.splits)
  have pre: "HasPrefix rel prefix"
  proof (rule ccontr)
    assume "\<not> HasPrefix rel prefix"
    moreover from this have "prefix \<noteq> ''''" by auto
    ultimately show False using assms e dir rel by (simp add: list_visit_def)
  qed
  let ?g = "if lo_Pattern opts \<noteq> '''' then glob_match os (lo_Pattern opts) (path_Base rel) else Inr True"
  from assms e dir rel pre have g: "?g = Inr True"
    by (cases ?g) (auto simp: list_visit_def split: if_splits)
  let ?r = "case re of Some matches \<Rightarrow> \<not> matches rel | None \<Rightarrow> False"
  from assms e dir rel pre g have r: "\<not> ?r" by (cases ?r) (auto simp: list_visit_def)
  from assms e dir rel pre g r have "fi_Name fi = rel"
    by (cases "we_info d") (auto simp: list_visit_def split: fs_error.splits option.splits)
  with e dir rel pre show ?thesis by simp
qed

lemma ListMetaFiles_member:
  assumes "ListMetaFiles os meta opts w = Ok files" "fi \<in> set files"
  shows "\<exists>d \<in> set (walk os (sm_LocalPath meta) w). path_Rel (sm_LocalPath meta) (we_path d) = Some (fi_Name fi)
       \<and> we_err d = None \<and> \<not> we_isDir d \<and> HasPrefix (fi_Name fi) (TrimPrefix (lo_Prefix opts) ''/'')"
proof -
  obtain re where "list_walk (list_visit os meta opts (TrimPrefix (lo_Prefix opts) ''/'') re w)
      (walk os (sm_LocalPath meta) w) [] = Ok files"
    using assms(1) by (auto simp: ListMetaFiles_def Let_def split: if_splits sum.splits)
  from list_walk_member [OF this assms(2)] obtain d where d: "d \<in> set (walk os (sm_LocalPath meta) w)"
    "list_visit os meta opts (TrimPrefix (lo_Prefix opts) ''/'') re w d = Ok (Some fi)" ..
  from d(1) list_visit_Some [OF d(2)] show ?thesis ..
qed

text \<open>
  C34. The names a listing reports can be used in the stage they come from: each one resolves to the path of
  an entry of the directory walk that is a file, and starts with the prefix asked for. The walk is assumed
  to visit cleaned paths below its root, as \<^verbatim>\<open>filepath.WalkDir\<close> documents.
\<close>

theorem ListMetaFiles_resolve:
  assumes walk_below: "\<forall>d \<in> set (walk os (sm_LocalPath meta) w).
      below (sm_LocalPath meta) (we_path d) \<and> Clean (we_path d) = we_path d"
    and "ListMetaFiles os meta opts w = Ok files" "fi \<in> set files"
  shows "\<exists>d \<in> set (walk os (sm_LocalPath meta) w). ResolveInStage meta (fi_Name fi) = Ok (we_path d)
       \<and> \<not> we_isDir d \<and> HasPrefix (fi_Name fi) (TrimPrefix (lo_Prefix opts) ''/'')"
proof -
  from ListMetaFiles_member [OF assms(2,3)] obtain d where d: "d \<in> set (walk os (sm_LocalPath meta) w)"
    "path_Rel (sm_LocalPath meta) (we_path d) = Some (fi_Name fi)" "\<not> we_isDir d"
    "HasPrefix (fi_Name fi) (TrimPrefix (lo_Prefix opts) ''/'')" by blast
  with walk_below have b: "below (sm_LocalPath meta) (we_path d)" "Clean (we_path d) = we_path d" by blast+
  have "path_Join [sm_LocalPath meta, fi_Name fi] = we_path d" using path_Join_Rel [OF b(1) d(2)] b(2) by simp
  with b have "ResolveInStage meta (fi_Name fi) = Ok (we_path d)" by (simp add: ResolveInStage_iff)
  with d show ?thesis by blast
qed

definition sample_os :: "(unit, unit) stage_os" where
  "sample_os =
     \<lparr>os_MkdirAll = (\<lambda>_ w. (w, None)), os_RemoveAll = (\<lambda>_ w. (w, None)), os_Remove = (\<lambda>_ w. (w, None)),
      os_Open = (\<lambda>_ _. Inr ()), os_Create = (\<lambda>_ w. (w, Inr ())), io_Copy = (\<lambda>_ _ w. (w, None)),
      os_Close = (\<lambda>_ w. (w, None)), md5_hex = (\<lambda>_ _. None),
      walk = (\<lambda>root _.
        [\<lparr>we_path = root, we_err = None, we_isDir = True, we_info = Inr (0, 0)\<rparr>,
         \<lparr>we_path = root @ ''/in/a.csv'', we_err = None, we_isDir = False, we_info = Inr (12, 5)\<rparr>]),
      re_compile = (\<lambda>_. Inr (\<lambda>_. True)), glob_match = (\<lambda>_ _. Inr True)\<rparr>"

definition sample_stage :: StageMeta where
  "sample_stage = new_stage ''/data'' 0 ''db'' ''public'' ''s'' StageInternal ''''"

definition sample_options :: ListOptions where
  "sample_options = \<lparr>lo_Prefix = ''/in'', lo_Pattern = '''', lo_Regex = '''', lo_Checksum = False\<rparr>"

definition sample_listed :: FileInfo where
  "sample_listed = \<lparr>fi_Name = ''in/a.csv'', fi_Size = 12, fi_ModTime = 5, fi_MD5 = ''''\<rparr>"

lemma sample_stage_path: "sm_LocalPath sample_stage = ''/data/stages/DB/PUBLIC/S''"
  by code_simp

lemma below_append:
  assumes "IsAbs targ = IsAbs base" "path_elems targ = path_elems base @ suffix" "''..'' \<notin> set suffix"
  shows "below base targ"
  using assms by (auto simp: below_def)

theorem ListMetaFiles_resolve_witness:
  "ListMetaFiles sample_os sample_stage sample_options () = Ok [sample_listed] \<and>
   (\<exists>d. d \<in> set (walk sample_os ''/data/stages/DB/PUBLIC/S'' ()) \<and>
      ResolveInStage sample_stage ''in/a.csv'' = Ok (we_path d) \<and> \<not> we_isDir d)"
proof -
  let ?root = "''/data/stages/DB/PUBLIC/S''"
  have listed: "ListMetaFiles sample_os sample_stage sample_options () = Ok [sample_listed]" by code_simp
  have b1: "below ?root ?root"
    by (rule below_append [where suffix = "[]"]) (code_simp, code_simp, simp)
  have b2: "below ?root (?root @ ''/in/a.csv'')"
    by (rule below_append [where suffix = "[''in'', ''a.csv'']"]) code_simp+
  have c: "Clean ?root = ?root" "Clean (?root @ ''/in/a.csv'') = ?root @ ''/in/a.csv''" by code_simp+
  have w: "map we_path (walk sample_os ?root ()) = [?root, ?root @ ''/in/a.csv'']" by code_simp
  have "below ?root (we_path d) \<and> Clean (we_path d) = we_path d"
    if "d \<in> set (walk sample_os ?root ())" for d
  proof -
    from that have "we_path d \<in> set (map we_path (walk sample_os ?root ()))" by (simp only: set_map image_eqI)
    then have "we_path d = ?root \<or> we_path d = ?root @ ''/in/a.csv''"
      unfolding w by (simp only: list.set insert_iff empty_iff simp_thms)
    then show ?thesis
    proof
      assume p: "we_path d = ?root"
      show ?thesis unfolding p using b1 c(1) by (rule conjI)
    next
      assume p: "we_path d = ?root @ ''/in/a.csv''"
      show ?thesis unfolding p using b2 c(2) by (rule conjI)
    qed
  qed
  then have "\<forall>d \<in> set (walk sample_os (sm_LocalPath sample_stage) ()).
      below (sm_LocalPath sample_stage) (we_path d) \<and> Clean (we_path d) = we_path d"
    unfolding sample_stage_path by blast
  from ListMetaFiles_resolve [OF this listed, of sample_listed] listed show ?thesis
    by (auto simp: sample_stage_path sample_listed_def)
qed

text \<open>A user name with dot-dot steps gives a user stage outside the directory of the manager.\<close>

lemma user_stage_escapes: "sm_LocalPath (user_stage ''/srv/stages'' now ''../../x'') = ''/srv/X''"
proof -
  have "path_Join [''/srv/stages'', ''user_stages'', ToUpper ''../../x''] = ''/srv/X''" by code_simp
  then show ?thesis by (simp add: user_stage_def)
qed

end
