(* ===== verification/Copyinto.thy ===== *)
theory Copyinto
  imports Stage Go_Regexp_Lang "HOL-Library.Multiset"
begin

text \<open>
  COPY INTO (\<^verbatim>\<open>copyinto/copyinto.go\<close> and \<^verbatim>\<open>copyinto/fileformat.go\<close>): the parsing of the statement and of
  its file format, loading the files of a stage into a table and unloading a table into a stage. The SQL
  engine is the argument \<open>exec\<close>, which returns the number of rows or the text of its error.
\<close>

subsection \<open>Types\<close>

datatype Direction = LoadIntoTable | UnloadToStage

record FileFormat =
  ff_Type :: string
  ff_Compression :: string
  ff_FieldDelimiter :: string
  ff_RecordDelimiter :: string
  ff_SkipHeader :: int
  ff_DateFormat :: string
  ff_TimestampFormat :: string
  ff_NullIf :: "string list"
  ff_TrimSpace :: bool
  ff_ErrorOnColumnCountMismatch :: bool
  ff_StripOuterArray :: bool

record CopyOptions =
  co_OnError :: string
  co_SizeLimit :: int
  co_Purge :: bool
  co_ReturnFailedOnly :: bool
  co_ForceLoad :: bool
  co_MaxFileSize :: int
  co_SingleFile :: bool
  co_Overwrite :: bool

record CopyResult =
  cr_File :: string
  cr_Status :: string
  cr_RowsParsed :: int
  cr_RowsLoaded :: int
  cr_ErrorsSeen :: int
  cr_FirstError :: string
  cr_FirstErrorLine :: int
  cr_FirstErrorCol :: string

subsection \<open>File formats\<close>

definition DefaultCSV :: FileFormat where
  "DefaultCSV =
     \<lparr>ff_Type = ''CSV'', ff_Compression = ''AUTO'', ff_FieldDelimiter = '','', ff_RecordDelimiter = [CHR 0x0A],
      ff_SkipHeader = 0, ff_DateFormat = ''AUTO'', ff_TimestampFormat = ''AUTO'',
      ff_NullIf = [[CHR 0x5C, CHR ''N'']], ff_TrimSpace = False, ff_ErrorOnColumnCountMismatch = True,
      ff_StripOuterArray = False\<rparr>"

definition DefaultJSON :: FileFormat where
  "DefaultJSON =
     \<lparr>ff_Type = ''JSON'', ff_Compression = ''AUTO'', ff_FieldDelimiter = '''', ff_RecordDelimiter = [CHR 0x0A],
      ff_SkipHeader = 0, ff_DateFormat = ''AUTO'', ff_TimestampFormat = ''AUTO'', ff_NullIf = [],
      ff_TrimSpace = False, ff_ErrorOnColumnCountMismatch = False, ff_StripOuterArray = False\<rparr>"

definition DefaultParquet :: FileFormat where
  "DefaultParquet =
     \<lparr>ff_Type = ''PARQUET'', ff_Compression = ''AUTO'', ff_FieldDelimiter = '''', ff_RecordDelimiter = '''',
      ff_SkipHeader = 0, ff_DateFormat = '''', ff_TimestampFormat = '''', ff_NullIf = [],
      ff_TrimSpace = False, ff_ErrorOnColumnCountMismatch = False, ff_StripOuterArray = False\<rparr>"

definition quote_cut :: string where
  "quote_cut = [CHR 0x27, CHR 0x22]"

definition parseNullIf :: "string \<Rightarrow> string list" where
  "parseNullIf val =
     (let val = TrimSuffix (TrimPrefix (TrimSpace val) ''('') '')''
      in map (\<lambda>p. Trim (TrimSpace p) quote_cut) (Split val (CHR '','')))"

text \<open>The first pass over the options ends at the first key that names the type.\<close>

definition type_defaults :: "string \<Rightarrow> FileFormat" where
  "type_defaults val =
     (let t = ToUpper val
      in if t = ''CSV'' then DefaultCSV
         else if t = ''JSON'' then DefaultJSON
         else if t = ''PARQUET'' then DefaultParquet
         else DefaultCSV\<lparr>ff_Type := t\<rparr>)"

fun format_pass1 :: "(string \<times> string) list \<Rightarrow> FileFormat" where
  "format_pass1 [] = DefaultCSV"
| "format_pass1 ((k, v) # kvs) =
     (if EqualFold (TrimSpace k) ''TYPE'' then type_defaults (Trim (TrimSpace v) quote_cut)
      else format_pass1 kvs)"

definition set_option :: "string \<Rightarrow> string \<Rightarrow> FileFormat \<Rightarrow> FileFormat" where
  "set_option key val ff =
     (if key = ''COMPRESSION'' then ff\<lparr>ff_Compression := ToUpper val\<rparr>
      else if key = ''FIELD_DELIMITER'' then ff\<lparr>ff_FieldDelimiter := val\<rparr>
      else if key = ''RECORD_DELIMITER'' then ff\<lparr>ff_RecordDelimiter := val\<rparr>
      else if key = ''SKIP_HEADER'' then (case Atoi val of None \<Rightarrow> ff | Some n \<Rightarrow> ff\<lparr>ff_SkipHeader := n\<rparr>)
      else if key = ''DATE_FORMAT'' then ff\<lparr>ff_DateFormat := val\<rparr>
      else if key = ''TIMESTAMP_FORMAT'' then ff\<lparr>ff_TimestampFormat := val\<rparr>
      else if key = ''NULL_IF'' then ff\<lparr>ff_NullIf := parseNullIf val\<rparr>
      else if key = ''TRIM_SPACE'' then ff\<lparr>ff_TrimSpace := EqualFold val ''TRUE''\<rparr>
      else if key = ''ERROR_ON_COLUMN_COUNT_MISMATCH''
        then ff\<lparr>ff_ErrorOnColumnCountMismatch := EqualFold val ''TRUE''\<rparr>
      else if key = ''STRIP_OUTER_ARRAY'' then ff\<lparr>ff_StripOuterArray := EqualFold val ''TRUE''\<rparr>
      else ff)"

definition apply_option :: "string \<times> string \<Rightarrow> FileFormat \<Rightarrow> FileFormat" where
  "apply_option kv ff =
     (case kv of (k, v) \<Rightarrow>
        let key = ToUpper (TrimSpace k); val = Trim (TrimSpace v) quote_cut
        in if key = ''TYPE'' then ff else set_option key val ff)"

text \<open>Two loops range over the map, each in an order of its own.\<close>

definition ParseFileFormatOptions :: "(string \<rightharpoonup> string) \<Rightarrow> string list \<Rightarrow> string list \<Rightarrow> FileFormat" where
  "ParseFileFormatOptions options ks1 ks2 =
     fold apply_option (range_entries options ks2) (format_pass1 (range_entries options ks1))"

subsection \<open>Parsing the statement\<close>

definition reCopyLoad :: re where
  "reCopyLoad = re_lit ''(?i)^~s*COPY~s+INTO~s+(~S+)~s+FROM~s+@(~S+)''"
definition reCopyUnload :: re where
  "reCopyUnload = re_lit ''(?i)^~s*COPY~s+INTO~s+@(~S+)~s+FROM~s+(~S+)''"
definition reFileFormat :: re where
  "reFileFormat = re_lit ''(?i)FILE_FORMAT~s*=~s*~(([^)]+)~)''"
definition rePurge :: re where "rePurge = re_lit ''(?i)~bPURGE~s*=~s*(TRUE|FALSE)~b''"
definition reOnError :: re where "reOnError = re_lit ''(?i)~bON_ERROR~s*=~s*(~S+)''"
definition reOverwrite :: re where "reOverwrite = re_lit ''(?i)~bOVERWRITE~s*=~s*(TRUE|FALSE)~b''"
definition reSingleFile :: re where "reSingleFile = re_lit ''(?i)~bSINGLE~s*=~s*(TRUE|FALSE)~b''"
definition reInlineOption :: re where "reInlineOption = re_lit ''(?i)(~w+)~s*=~s*(?:`([^`]*)`|(~S+))''"

definition inline_option :: "(nat \<Rightarrow> string) \<Rightarrow> string \<times> string" where
  "inline_option m = (ToUpper (m 1), if m 2 = '''' then m 3 else m 2)"

text \<open>The options in the order they are written; a later one replaces an earlier one of the same key.\<close>

definition inline_options :: "string \<Rightarrow> (string \<times> string) list" where
  "inline_options raw = map inline_option (FindAllStringSubmatch reInlineOption raw)"

definition parseInlineOptions :: "string \<Rightarrow> (string \<rightharpoonup> string)" where
  "parseInlineOptions raw = fold (\<lambda>(key, val) result. result(key \<mapsto> val)) (inline_options raw) Map.empty"

definition no_options :: CopyOptions where
  "no_options =
     \<lparr>co_OnError = '''', co_SizeLimit = 0, co_Purge = False, co_ReturnFailedOnly = False, co_ForceLoad = False,
      co_MaxFileSize = 0, co_SingleFile = False, co_Overwrite = False\<rparr>"

definition bool_option :: "re \<Rightarrow> string \<Rightarrow> bool" where
  "bool_option r sql =
     (case FindStringSubmatch r sql of None \<Rightarrow> False | Some m \<Rightarrow> EqualFold (m 1) ''TRUE'')"

definition copy_options :: "string \<Rightarrow> CopyOptions" where
  "copy_options sql =
     no_options\<lparr>co_Purge := bool_option rePurge sql,
       co_OnError := (case FindStringSubmatch reOnError sql of Some m \<Rightarrow> ToUpper (m 1) | None \<Rightarrow> ''ABORT_STATEMENT''),
       co_Overwrite := bool_option reOverwrite sql, co_SingleFile := bool_option reSingleFile sql\<rparr>"

text \<open>\<open>order\<close> gives the two orders in which the loops visit the options of the file format.\<close>

definition ParseCopyStatement ::
  "((string \<rightharpoonup> string) \<Rightarrow> string list \<times> string list) \<Rightarrow> string \<Rightarrow>
     (Direction \<times> string \<times> string \<times> FileFormat \<times> CopyOptions) result"
where
  "ParseCopyStatement order sql =
     (let sql = TrimRight (TrimSpace sql) '';'';
          format =
            (case FindStringSubmatch reFileFormat sql of
               None \<Rightarrow> DefaultCSV
             | Some m \<Rightarrow> let opts = parseInlineOptions (m 1); (ks1, ks2) = order opts
                         in ParseFileFormatOptions opts ks1 ks2)
      in case FindStringSubmatch reCopyLoad sql of
           Some m \<Rightarrow> Ok (LoadIntoTable, m 1, m 2, format, copy_options sql)
         | None \<Rightarrow>
             (case FindStringSubmatch reCopyUnload sql of
                Some m \<Rightarrow> Ok (UnloadToStage, m 2, m 1, format, copy_options sql)
              | None \<Rightarrow> Err (Invalid ''copyinto: unable to parse COPY INTO statement'' sql)))"

subsection \<open>Loading\<close>

definition escapePath :: "string \<Rightarrow> string" where
  "escapePath p = ReplaceAll p [CHR 0x27] [CHR 0x27, CHR 0x27]"

definition quoted :: "string \<Rightarrow> string" where
  "quoted s = [CHR 0x27] @ s @ [CHR 0x27]"

definition buildCSVReadOptions :: "FileFormat \<Rightarrow> string" where
  "buildCSVReadOptions f =
     '', '' @ Join ((if ff_FieldDelimiter f \<noteq> '''' then [''delim = '' @ quoted (ff_FieldDelimiter f)] else []) @
       [if 0 < ff_SkipHeader f then ''header = true'' else ''header = false'']) '', ''"

definition buildLoadSQL :: "string \<Rightarrow> string \<Rightarrow> FileFormat \<Rightarrow> string + string" where
  "buildLoadSQL tableName filePath format =
     (let t = ToUpper (ff_Type format); path = quoted (escapePath filePath)
      in if t = ''PARQUET'' then Inr (''INSERT INTO '' @ tableName @ '' SELECT * FROM read_parquet('' @ path @ '')'')
         else if t = ''CSV''
           then Inr (''INSERT INTO '' @ tableName @ '' SELECT * FROM read_csv('' @ path @ buildCSVReadOptions format @ '')'')
         else if t = ''JSON'' then Inr (''INSERT INTO '' @ tableName @ '' SELECT * FROM read_json_auto('' @ path @ '')'')
         else Inl (''unsupported file format: '' @ ff_Type format))"

type_synonym 'w engine_exec = "string \<Rightarrow> 'w \<Rightarrow> 'w \<times> (string + int)"

definition new_result :: "string \<Rightarrow> CopyResult" where
  "new_result file =
     \<lparr>cr_File = file, cr_Status = '''', cr_RowsParsed = 0, cr_RowsLoaded = 0, cr_ErrorsSeen = 0,
      cr_FirstError = '''', cr_FirstErrorLine = 0, cr_FirstErrorCol = ''''\<rparr>"

definition failed_result :: "string \<Rightarrow> string \<Rightarrow> CopyResult" where
  "failed_result file err = (new_result file)\<lparr>cr_Status := ''LOAD_FAILED'', cr_ErrorsSeen := 1, cr_FirstError := err\<rparr>"

definition loaded_result :: "string \<Rightarrow> int \<Rightarrow> CopyResult" where
  "loaded_result file rows = (new_result file)\<lparr>cr_Status := ''LOADED'', cr_RowsParsed := rows, cr_RowsLoaded := rows\<rparr>"

text \<open>One file: the rows loaded, or the text of the first error.\<close>

definition load_one ::
  "'w engine_exec \<Rightarrow> string \<Rightarrow> StageMeta \<Rightarrow> FileFormat \<Rightarrow> string \<Rightarrow> 'w \<Rightarrow> 'w \<times> (string + int)" where
  "load_one exec tableName meta format file w =
     (case buildLoadSQL tableName (path_Join [sm_LocalPath meta, file]) format of
        Inl e \<Rightarrow> (w, Inl e)
      | Inr loadSQL \<Rightarrow> exec loadSQL w)"

fun load_loop ::
  "('w, 'h) stage_os \<Rightarrow> 'w engine_exec \<Rightarrow> string \<Rightarrow> StageMeta \<Rightarrow> FileFormat \<Rightarrow> CopyOptions \<Rightarrow> string list \<Rightarrow> 'w \<Rightarrow>
     'w \<times> CopyResult list \<times> go_error option"
where
  "load_loop os exec tableName meta format options [] w = (w, [], None)"
| "load_loop os exec tableName meta format options (f # fs) w =
     (let (w, res) = load_one exec tableName meta format f w
      in case res of
           Inl e \<Rightarrow>
             (if co_OnError options = ''ABORT_STATEMENT'' then (w, [failed_result f e], Some (ExecError e))
              else (case load_loop os exec tableName meta format options fs w of
                (w, rs, err) \<Rightarrow> (w, failed_result f e # rs, err)))
         | Inr rows \<Rightarrow>
             (let w = (if co_Purge options then fst (RemoveMetaFile os meta f w) else w)
              in case load_loop os exec tableName meta format options fs w of
                   (w, rs, err) \<Rightarrow> (w, loaded_result f rows # rs, err)))"

definition ExecuteLoad ::
  "('w, 'h) stage_os \<Rightarrow> 'w engine_exec \<Rightarrow> string \<Rightarrow> StageMeta \<Rightarrow> string \<Rightarrow> FileFormat \<Rightarrow> CopyOptions \<Rightarrow> 'w \<Rightarrow>
     'w \<times> CopyResult list \<times> go_error option"
where
  "ExecuteLoad os exec tableName meta subPath format options w =
     (case ListMetaFiles os meta \<lparr>lo_Prefix = subPath, lo_Pattern = '''', lo_Regex = '''', lo_Checksum = False\<rparr> w of
        Inl e \<Rightarrow> (w, [], Some (Wrap ''copyinto: list stage files'' e))
      | Inr files \<Rightarrow> load_loop os exec tableName meta format options (map fi_Name files) w)"

subsection \<open>Unloading\<close>

definition formatExtension :: "string \<Rightarrow> string" where
  "formatExtension fmtType =
     (let t = ToUpper fmtType
      in if t = ''PARQUET'' then ''.parquet'' else if t = ''CSV'' then ''.csv''
         else if t = ''JSON'' then ''.json'' else ''.dat'')"

definition buildUnloadSQL :: "string \<Rightarrow> string \<Rightarrow> FileFormat \<Rightarrow> string" where
  "buildUnloadSQL tableName filePath format =
     (let fmtStr = ToUpper (ff_Type format);
          head = ''COPY (SELECT * FROM '' @ tableName @ '') TO '' @ quoted (escapePath filePath) @ '' (FORMAT ''
      in if fmtStr = ''PARQUET'' then head @ ''PARQUET)''
         else if fmtStr = ''CSV'' then head @ ''CSV, DELIMITER '' @ quoted (ff_FieldDelimiter format) @ '', HEADER)''
         else if fmtStr = ''JSON'' then head @ ''JSON)''
         else head @ fmtStr @ '')'')"

text \<open>The directory the file goes to, created if the statement names a path below the stage.\<close>

definition unload_dir ::
  "('w, 'h) stage_os \<Rightarrow> StageMeta \<Rightarrow> string \<Rightarrow> 'w \<Rightarrow> 'w \<times> string result" where
  "unload_dir os meta subPath w =
     (if subPath = '''' then (w, Ok (sm_LocalPath meta))
      else case ResolveInStage meta subPath of
        Inl e \<Rightarrow> (w, Err (Wrap ''copyinto'' e))
      | Inr destDir \<Rightarrow>
          (case os_MkdirAll os destDir w of
             (w, Some e) \<Rightarrow> (w, Err (os_failed ''copyinto: create dest dir'' e))
           | (w, None) \<Rightarrow> (w, Ok destDir)))"

definition unload_file :: "string \<Rightarrow> FileFormat \<Rightarrow> string" where
  "unload_file destDir format = path_Join [destDir, ''data_0_0_0'' @ formatExtension (ff_Type format)]"

text \<open>\<open>stat\<close> is \<^verbatim>\<open>os.Stat\<close>: the size of a file that exists.\<close>

definition ExecuteUnload ::
  "('w, 'h) stage_os \<Rightarrow> 'w engine_exec \<Rightarrow> (string \<Rightarrow> 'w \<Rightarrow> int option) \<Rightarrow> string \<Rightarrow> StageMeta \<Rightarrow> string \<Rightarrow> FileFormat \<Rightarrow>
     CopyOptions \<Rightarrow> 'w \<Rightarrow> 'w \<times> CopyResult list \<times> go_error option"
where
  "ExecuteUnload os exec stat tableName meta subPath format options w =
     (case unload_dir os meta subPath w of
        (w, Inl e) \<Rightarrow> (w, [], Some e)
      | (w, Inr destDir) \<Rightarrow>
          (let destFile = unload_file destDir format;
              w = (if co_Overwrite options then fst (os_Remove os destFile w) else w);
              (w, res) = exec (buildUnloadSQL tableName destFile format) w
          in case res of
               Inl e \<Rightarrow> (w, [failed_result (path_Base destFile) e], Some (ExecError e))
             | Inr _ \<Rightarrow>
                 (w, [loaded_result (path_Base destFile) (case stat destFile w of None \<Rightarrow> 0 | Some sz \<Rightarrow> sz)], None)))"

subsection \<open>The order of the options\<close>

text \<open>Each option sets one field, and each field is set by one option.\<close>

lemma set_option_fields:
  "ff_Type (set_option key v ff) = ff_Type ff"
  "ff_Compression (set_option key v ff) = (if key = ''COMPRESSION'' then ToUpper v else ff_Compression ff)"
  "ff_FieldDelimiter (set_option key v ff) = (if key = ''FIELD_DELIMITER'' then v else ff_FieldDelimiter ff)"
  "ff_RecordDelimiter (set_option key v ff) = (if key = ''RECORD_DELIMITER'' then v else ff_RecordDelimiter ff)"
  "ff_SkipHeader (set_option key v ff) =
     (if key = ''SKIP_HEADER'' then (case Atoi v of None \<Rightarrow> ff_SkipHeader ff | Some n \<Rightarrow> n) else ff_SkipHeader ff)"
  "ff_DateFormat (set_option key v ff) = (if key = ''DATE_FORMAT'' then v else ff_DateFormat ff)"
  "ff_TimestampFormat (set_option key v ff) = (if key = ''TIMESTAMP_FORMAT'' then v else ff_TimestampFormat ff)"
  "ff_NullIf (set_option key v ff) = (if key = ''NULL_IF'' then parseNullIf v else ff_NullIf ff)"
  "ff_TrimSpace (set_option key v ff) = (if key = ''TRIM_SPACE'' then EqualFold v ''TRUE'' else ff_TrimSpace ff)"
  "ff_ErrorOnColumnCountMismatch (set_option key v ff) =
     (if key = ''ERROR_ON_COLUMN_COUNT_MISMATCH'' then EqualFold v ''TRUE'' else ff_ErrorOnColumnCountMismatch ff)"
  "ff_StripOuterArray (set_option key v ff) =
     (if key = ''STRIP_OUTER_ARRAY'' then EqualFold v ''TRUE'' else ff_StripOuterArray ff)"
  by (simp_all add: set_option_def split: option.split)

lemma set_option_commute:
  "key \<noteq> key' \<Longrightarrow> set_option key v (set_option key' v' ff) = set_option key' v' (set_option key v ff)"
  by (rule FileFormat.equality) (auto simp: set_option_fields split: option.split)

lemma apply_option_commute:
  assumes "ToUpper (TrimSpace (fst x)) \<noteq> ToUpper (TrimSpace (fst y))"
  shows "apply_option x \<circ> apply_option y = apply_option y \<circ> apply_option x"
  using set_option_commute [OF assms] by (auto simp: fun_eq_iff apply_option_def Let_def split: prod.splits)

definition canonical_keys :: "(string \<rightharpoonup> string) \<Rightarrow> bool" where
  "canonical_keys options \<longleftrightarrow> (\<forall>k \<in> dom options. ToUpper (TrimSpace k) = k)"

lemma pass1_canonical:
  assumes "\<forall>(k, v) \<in> set kvs. ToUpper (TrimSpace k) = k"
  shows "format_pass1 kvs =
    (case map_of kvs ''TYPE'' of None \<Rightarrow> DefaultCSV | Some v \<Rightarrow> type_defaults (Trim (TrimSpace v) quote_cut))"
  using assms
proof (induction kvs)
  case (Cons kv kvs)
  obtain k v where kv: "kv = (k, v)" by fastforce
  with Cons.prems have "ToUpper (TrimSpace k) = k" by simp
  moreover have "ToUpper ''TYPE'' = ''TYPE''" by code_simp
  ultimately have "EqualFold (TrimSpace k) ''TYPE'' \<longleftrightarrow> k = ''TYPE''" by (simp add: EqualFold_iff_ToUpper)
  with Cons kv show ?case by auto
qed simp

lemma map_of_range_entries: "range_order m ks \<Longrightarrow> map_of (range_entries m ks) = m"
proof
  fix k
  assume ks: "range_order m ks"
  have "map fst (range_entries m ks) = ks" using ks by (simp add: range_order_def map_fst_range_entries)
  then have d: "distinct (map fst (range_entries m ks))" using ks by (simp add: range_order_def)
  show "map_of (range_entries m ks) k = m k"
  proof (cases "m k")
    case None
    then have "k \<notin> fst ` set (range_entries m ks)" by (auto simp: set_range_entries)
    then show ?thesis using None by (simp add: map_of_eq_None_iff)
  next
    case (Some v)
    with ks have "(k, v) \<in> set (range_entries m ks)" by (simp add: set_range_entries_order)
    with d Some show ?thesis by simp
  qed
qed

lemma ParseFileFormatOptions_order:
  assumes keys: "canonical_keys options"
    and ks: "range_order options ks1" "range_order options ks2"
    and ks': "range_order options ks1'" "range_order options ks2'"
  shows "ParseFileFormatOptions options ks1 ks2 = ParseFileFormatOptions options ks1' ks2'"
proof -
  have canon: "\<forall>(k, v) \<in> set (range_entries options l). ToUpper (TrimSpace k) = k" for l
    using keys by (auto simp: canonical_keys_def set_range_entries)
  have pass1: "format_pass1 (range_entries options ks1) = format_pass1 (range_entries options ks1')"
    unfolding pass1_canonical [OF canon] using ks(1) ks'(1) by (simp add: map_of_range_entries)
  have d: "distinct (range_entries options l)" if "range_order options l" for l
    using that map_fst_range_entries [of l options] by (metis distinct_map order_refl range_order_def)
  have "set (range_entries options ks2) = set (range_entries options ks2')"
    using ks(2) ks'(2) by (auto simp: set_range_entries_order)
  then have same: "mset (range_entries options ks2) = mset (range_entries options ks2')"
    using d ks(2) ks'(2) by (simp add: set_eq_iff_mset_eq_distinct)
  have "fold apply_option (range_entries options ks2) = fold apply_option (range_entries options ks2')"
  proof (rule fold_multiset_equiv [OF _ same])
    fix x y
    assume x: "x \<in> set (range_entries options ks2)" and y: "y \<in> set (range_entries options ks2)"
    show "apply_option x \<circ> apply_option y = apply_option y \<circ> apply_option x"
    proof (cases "fst x = fst y")
      case True
      have "options (fst x) = Some (snd x)" "options (fst y) = Some (snd y)"
        using x y set_range_entries_order [OF ks(2)] by (metis prod.collapse)+
      with True have "x = y" by (simp add: prod_eq_iff)
      then show ?thesis by simp
    next
      case False
      moreover have "ToUpper (TrimSpace (fst x)) = fst x" "ToUpper (TrimSpace (fst y)) = fst y"
        using canon [of ks2] x y by fastforce+
      ultimately have "ToUpper (TrimSpace (fst x)) \<noteq> ToUpper (TrimSpace (fst y))" by simp
      then show ?thesis by (rule apply_option_commute)
    qed
  qed
  with pass1 show ?thesis by (simp add: ParseFileFormatOptions_def)
qed

text \<open>The keys of a parsed option list are words.\<close>

lemma TrimSpace_id: "(\<And>c. c \<in> set s \<Longrightarrow> \<not> is_space c) \<Longrightarrow> TrimSpace s = s"
proof -
  assume a: "\<And>c. c \<in> set s \<Longrightarrow> \<not> is_space c"
  then have "dropWhile is_space s = s" "dropWhile is_space (rev s) = rev s"
    by (metis dropWhile_eq_self_iff hd_in_set, metis dropWhile_eq_self_iff hd_in_set set_rev)
  then show ?thesis by (simp add: TrimSpace_def trim_by_def)
qed

lemma word_no_space: "re_word c \<Longrightarrow> \<not> is_space c"
  by (auto simp: re_word_def is_alpha_def is_digit_def is_space_def Let_def)

lemma reInlineOption_key: "group_chars re_word 1 reInlineOption"
proof -
  have r: "reInlineOption =
      Cat (Grp 1 (Cat (Cls True False [IWord]) (Star True (Cls True False [IWord]))))
       (Cat (Star True (Cls True False [ISpace])) (Cat (Cls True False [IChar (CHR ''='')])
         (Cat (Star True (Cls True False [ISpace]))
           (Alt (Cat (Cls True False [IChar (CHR 0x27)])
              (Cat (Grp 2 (Star True (Cls True True [IChar (CHR 0x27)]))) (Cls True False [IChar (CHR 0x27)])))
             (Grp 3 (Cat (Cls True False [INotSpace]) (Star True (Cls True False [INotSpace]))))))))"
    by code_simp
  have "in_class True False [IWord] x \<Longrightarrow> re_word x" for x by (auto simp: in_class_def)
  then show ?thesis unfolding r by simp
qed

lemma fold_upd_dom: "dom (fold (\<lambda>(k, v) m. m(k \<mapsto> v)) kvs m) = dom m \<union> fst ` set kvs"
  by (induction kvs arbitrary: m) auto

lemma parseInlineOptions_canonical: "canonical_keys (parseInlineOptions raw)"
  unfolding canonical_keys_def
proof
  fix k
  assume "k \<in> dom (parseInlineOptions raw)"
  then obtain m where m: "m \<in> set (FindAllStringSubmatch reInlineOption raw)" "k = ToUpper (m 1)"
    by (auto simp: parseInlineOptions_def fold_upd_dom inline_options_def inline_option_def)
  from FindAll_group [OF reInlineOption_key _ m(1)] have "list_all re_word (m 1)" by simp
  then have "\<not> is_space c" if "c \<in> set k" for c
    using that m(2) by (auto simp: ToUpper_def list_all_iff) (metis re_word_case(1) word_no_space)
  then show "ToUpper (TrimSpace k) = k" using m(2) by (simp add: TrimSpace_id)
qed

text \<open>
  C32. The options of a file format are a Go map, which the two loops of the parser visit in orders that the
  language leaves open. For the options of any statement the resulting file format does not depend on these
  orders: every order gives the same defaults for the type and the same value for each option.
\<close>

theorem file_format_deterministic:
  assumes "range_order (parseInlineOptions raw) ks1" "range_order (parseInlineOptions raw) ks2"
    and "range_order (parseInlineOptions raw) ks1'" "range_order (parseInlineOptions raw) ks2'"
  shows "ParseFileFormatOptions (parseInlineOptions raw) ks1 ks2 = ParseFileFormatOptions (parseInlineOptions raw) ks1' ks2'"
  using ParseFileFormatOptions_order [OF parseInlineOptions_canonical assms] .

lemma sample_inline: "inline_options ''TYPE=JSON SKIP_HEADER=1'' = [(''TYPE'', ''JSON''), (''SKIP_HEADER'', ''1'')]"
  by code_simp

theorem file_format_deterministic_witness:
  "ParseFileFormatOptions (parseInlineOptions ''TYPE=JSON SKIP_HEADER=1'')
     [''TYPE'', ''SKIP_HEADER''] [''SKIP_HEADER'', ''TYPE''] = DefaultJSON\<lparr>ff_SkipHeader := 1\<rparr> \<and>
   ParseFileFormatOptions (parseInlineOptions ''TYPE=JSON SKIP_HEADER=1'')
     [''SKIP_HEADER'', ''TYPE''] [''TYPE'', ''SKIP_HEADER''] = DefaultJSON\<lparr>ff_SkipHeader := 1\<rparr>"
proof -
  let ?o = "parseInlineOptions ''TYPE=JSON SKIP_HEADER=1''"
  have o: "?o = [''TYPE'' \<mapsto> ''JSON'', ''SKIP_HEADER'' \<mapsto> ''1'']"
    unfolding parseInlineOptions_def sample_inline by simp
  have r: "range_order ?o [''TYPE'', ''SKIP_HEADER'']" "range_order ?o [''SKIP_HEADER'', ''TYPE'']"
    unfolding o range_order_def by auto
  have "ParseFileFormatOptions ?o [''TYPE'', ''SKIP_HEADER''] [''SKIP_HEADER'', ''TYPE''] = DefaultJSON\<lparr>ff_SkipHeader := 1\<rparr>"
    by code_simp
  with file_format_deterministic [OF r(1) r(2) r(2) r(1)] show ?thesis by simp
qed

subsection \<open>Loading reports every file\<close>

text \<open>
  What a load has to do with one file, between the worlds \<open>v\<close> before and \<open>v'\<close> after it: the engine takes the statement
  for the file's path in the stage and returns the number of rows, which the result has to give, and the file is
  removed if the load purges; or the statement cannot be built, or the engine refuses it, and the result has to give the error.
\<close>

definition file_loaded ::
  "('w, 'h) stage_os \<Rightarrow> 'w engine_exec \<Rightarrow> string \<Rightarrow> StageMeta \<Rightarrow> FileFormat \<Rightarrow> bool \<Rightarrow> string \<Rightarrow> 'w \<Rightarrow> CopyResult \<Rightarrow> 'w \<Rightarrow> bool" where
  "file_loaded os exec t meta format purge f v r v' \<longleftrightarrow>
     (\<exists>sql rows v1. buildLoadSQL t (path_Join [sm_LocalPath meta, f]) format = Inr sql \<and> exec sql v = (v1, Inr rows) \<and>
        v' = (if purge then fst (RemoveMetaFile os meta f v1) else v1) \<and>
        r = \<lparr>cr_File = f, cr_Status = ''LOADED'', cr_RowsParsed = rows, cr_RowsLoaded = rows, cr_ErrorsSeen = 0,
             cr_FirstError = '''', cr_FirstErrorLine = 0, cr_FirstErrorCol = ''''\<rparr>)"

definition file_refused ::
  "'w engine_exec \<Rightarrow> string \<Rightarrow> StageMeta \<Rightarrow> FileFormat \<Rightarrow> string \<Rightarrow> 'w \<Rightarrow> CopyResult \<Rightarrow> 'w \<Rightarrow> bool" where
  "file_refused exec t meta format f v r v' \<longleftrightarrow>
     (\<exists>e. (case buildLoadSQL t (path_Join [sm_LocalPath meta, f]) format of
             Inl e' \<Rightarrow> e' = e \<and> v' = v
           | Inr sql \<Rightarrow> exec sql v = (v', Inl e)) \<and>
        r = \<lparr>cr_File = f, cr_Status = ''LOAD_FAILED'', cr_RowsParsed = 0, cr_RowsLoaded = 0, cr_ErrorsSeen = 1,
             cr_FirstError = e, cr_FirstErrorLine = 0, cr_FirstErrorCol = ''''\<rparr>)"

text \<open>The reports of a run of files, one after the other, through the worlds \<open>ws\<close>.\<close>

definition reported ::
  "('w, 'h) stage_os \<Rightarrow> 'w engine_exec \<Rightarrow> string \<Rightarrow> StageMeta \<Rightarrow> FileFormat \<Rightarrow> bool \<Rightarrow> string list \<Rightarrow> 'w list \<Rightarrow> CopyResult list \<Rightarrow> bool" where
  "reported os exec t meta format purge fs ws rs \<longleftrightarrow>
     length ws = Suc (length rs) \<and> length rs \<le> length fs \<and>
     (\<forall>i<length rs. file_loaded os exec t meta format purge (fs ! i) (ws ! i) (rs ! i) (ws ! Suc i) \<or>
        file_refused exec t meta format (fs ! i) (ws ! i) (rs ! i) (ws ! Suc i))"

lemma reported_Nil: "reported os exec t meta format purge fs [w] []"
  by (simp add: reported_def)

lemma reported_Cons:
  assumes "file_loaded os exec t meta format purge f w r (hd ws) \<or> file_refused exec t meta format f w r (hd ws)"
    and "reported os exec t meta format purge fs ws rs"
  shows "reported os exec t meta format purge (f # fs) (w # ws) (r # rs)"
proof -
  have "hd ws = ws ! 0" using assms(2) by (cases ws) (auto simp: reported_def)
  with assms show ?thesis by (auto simp: reported_def less_Suc_eq_0_disj)
qed

lemma load_one_reports:
  assumes "load_one exec t meta format f w = (w1, res)"
  shows "case res of
      Inl e \<Rightarrow> file_refused exec t meta format f w (failed_result f e) w1
    | Inr rows \<Rightarrow> file_loaded os exec t meta format purge f w (loaded_result f rows)
        (if purge then fst (RemoveMetaFile os meta f w1) else w1)"
  using assms
  by (auto simp: load_one_def file_refused_def file_loaded_def failed_result_def loaded_result_def new_result_def
      split: sum.splits)

text \<open>When the loop ends without an error, and how it ends with one.\<close>

definition load_ends :: "CopyOptions \<Rightarrow> string list \<Rightarrow> CopyResult list \<Rightarrow> go_error option \<Rightarrow> bool" where
  "load_ends options fs rs err \<longleftrightarrow>
     (case err of
        None \<Rightarrow> length rs = length fs \<and> (co_OnError options = ''ABORT_STATEMENT'' \<longrightarrow> (\<forall>r \<in> set rs. cr_Status r = ''LOADED''))
      | Some e \<Rightarrow> co_OnError options = ''ABORT_STATEMENT'' \<and> rs \<noteq> [] \<and> cr_Status (last rs) = ''LOAD_FAILED'' \<and>
          e = ExecError (cr_FirstError (last rs)) \<and> (\<forall>r \<in> set (butlast rs). cr_Status r = ''LOADED''))"

lemma load_ends_Cons:
  assumes "load_ends options fs rs err" "co_OnError options = ''ABORT_STATEMENT'' \<longrightarrow> cr_Status r = ''LOADED''"
  shows "load_ends options (f # fs) (r # rs) err"
  using assms by (auto simp: load_ends_def split: option.splits)

lemma load_loop_reports:
  "load_loop os exec t meta format options fs w = (w', rs, err) \<Longrightarrow>
     (\<exists>ws. reported os exec t meta format (co_Purge options) fs ws rs \<and> hd ws = w \<and> last ws = w') \<and> load_ends options fs rs err"
proof (induction fs arbitrary: w rs)
  case Nil
  then show ?case by (auto simp: load_ends_def intro!: exI [of _ "[w']"] reported_Nil)
next
  case (Cons f fs)
  obtain w1 res where one: "load_one exec t meta format f w = (w1, res)" by fastforce
  note outcome = load_one_reports [OF one, of os "co_Purge options"]
  have further: ?case if l: "load_loop os exec t meta format options fs v = (w', rs2, err)" and rs: "rs = r # rs2"
    and f: "file_loaded os exec t meta format (co_Purge options) f w r v \<or> file_refused exec t meta format f w r v"
    and ok: "co_OnError options = ''ABORT_STATEMENT'' \<longrightarrow> cr_Status r = ''LOADED''" for v r rs2
  proof -
    from Cons.IH [OF l] obtain ws where ws: "reported os exec t meta format (co_Purge options) fs ws rs2" "hd ws = v" "last ws = w'"
      and "load_ends options fs rs2 err" by blast
    moreover have "ws \<noteq> []" using ws(1) by (auto simp: reported_def)
    ultimately show ?thesis
      using reported_Cons [OF _ ws(1)] load_ends_Cons [OF _ ok] f rs by (intro conjI exI [of _ "w # ws"]) auto
  qed
  show ?case
  proof (cases res)
    case (Inl e)
    show ?thesis
    proof (cases "co_OnError options = ''ABORT_STATEMENT''")
      case True
      with Cons.prems one Inl have stop: "rs = [failed_result f e]" "err = Some (ExecError e)" "w' = w1" by auto
      from outcome Inl have "reported os exec t meta format (co_Purge options) (f # fs) [w, w1] rs"
        unfolding stop(1) by (intro reported_Cons reported_Nil) simp
      with stop True show ?thesis
        by (intro conjI exI [of _ "[w, w1]"]) (auto simp: load_ends_def failed_result_def new_result_def)
    next
      case False
      obtain rs2 where l: "load_loop os exec t meta format options fs w1 = (w', rs2, err)" "rs = failed_result f e # rs2"
        using Cons.prems one Inl False by (auto split: prod.splits)
      with outcome Inl False show ?thesis by (intro further [OF l]) simp_all
    qed
  next
    case (Inr rows)
    let ?w = "if co_Purge options then fst (RemoveMetaFile os meta f w1) else w1"
    obtain rs2 where l: "load_loop os exec t meta format options fs ?w = (w', rs2, err)" "rs = loaded_result f rows # rs2"
      using Cons.prems one Inr by (auto simp: Let_def split: prod.splits)
    with outcome Inr show ?thesis by (intro further [OF l]) (simp_all add: loaded_result_def)
  qed
qed

text \<open>
  C33. A load runs and reports the files of the listing in order. Each reported file was given to the engine as the
  load statement for its path, in the world that the files before it left; the report says LOADED, with the number of rows the
  engine returned, exactly if the engine took the statement, and the file was then removed if the load purges; otherwise it
  says LOAD_FAILED with the error of the engine, or with the reason why there is no statement for the format. A load without
  an error reports every file of the listing, under ON_ERROR = ABORT_STATEMENT all of them loaded. It stops with
  an error only under ON_ERROR = ABORT_STATEMENT: then the error is the one reported for the last file, and
  every file before that one was loaded.
\<close>

theorem ExecuteLoad_reports:
  assumes "ListMetaFiles os meta \<lparr>lo_Prefix = sub, lo_Pattern = '''', lo_Regex = '''', lo_Checksum = False\<rparr> w = Ok files"
    and "ExecuteLoad os exec t meta sub format options w = (w', rs, err)"
  shows "(\<exists>ws. length ws = Suc (length rs) \<and> hd ws = w \<and> last ws = w' \<and> length rs \<le> length files \<and>
      (\<forall>i<length rs.
         file_loaded os exec t meta format (co_Purge options) (fi_Name (files ! i)) (ws ! i) (rs ! i) (ws ! Suc i) \<or>
         file_refused exec t meta format (fi_Name (files ! i)) (ws ! i) (rs ! i) (ws ! Suc i))) \<and>
    (case err of
       None \<Rightarrow> length rs = length files \<and>
         (co_OnError options = ''ABORT_STATEMENT'' \<longrightarrow> (\<forall>r \<in> set rs. cr_Status r = ''LOADED''))
     | Some e \<Rightarrow> co_OnError options = ''ABORT_STATEMENT'' \<and> rs \<noteq> [] \<and> cr_Status (last rs) = ''LOAD_FAILED'' \<and>
         e = ExecError (cr_FirstError (last rs)) \<and> (\<forall>r \<in> set (butlast rs). cr_Status r = ''LOADED''))"
proof -
  have l: "load_loop os exec t meta format options (map fi_Name files) w = (w', rs, err)"
    using assms by (simp add: ExecuteLoad_def)
  from load_loop_reports [OF this] obtain ws where
    "reported os exec t meta format (co_Purge options) (map fi_Name files) ws rs" "hd ws = w" "last ws = w'" by blast
  moreover have "load_ends options (map fi_Name files) rs err" using load_loop_reports [OF l] by blast
  ultimately show ?thesis by (auto simp: reported_def load_ends_def intro!: exI [of _ ws] split: option.splits)
qed

definition sample_exec_rows :: "unit engine_exec" where
  "sample_exec_rows sql w = (w, if Contains sql ''a.csv'' then Inl ''bad row'' else Inr 3)"

definition sample_load :: "unit \<times> CopyResult list \<times> go_error option" where
  "sample_load =
     ExecuteLoad sample_os sample_exec_rows ''T'' sample_stage ''in'' DefaultCSV
       (no_options\<lparr>co_OnError := ''ABORT_STATEMENT''\<rparr>) ()"

theorem ExecuteLoad_reports_witness:
  "sample_load = ((), [failed_result ''in/a.csv'' ''bad row''], Some (ExecError ''bad row'')) \<and>
   (\<exists>v v'. file_refused sample_exec_rows ''T'' sample_stage DefaultCSV ''in/a.csv'' v (failed_result ''in/a.csv'' ''bad row'') v')"
proof -
  have l: "ListMetaFiles sample_os sample_stage
      \<lparr>lo_Prefix = ''in'', lo_Pattern = '''', lo_Regex = '''', lo_Checksum = False\<rparr> () = Ok [sample_listed]"
    by code_simp
  have e: "sample_load = ((), [failed_result ''in/a.csv'' ''bad row''], Some (ExecError ''bad row''))" by code_simp
  have "fi_Name sample_listed = ''in/a.csv''" by code_simp
  with ExecuteLoad_reports [OF l e [unfolded sample_load_def]] e show ?thesis
    by (auto simp: file_loaded_def file_refused_def failed_result_def new_result_def)
qed

subsection \<open>Unloading stays in the stage\<close>

text \<open>
  A table is unloaded into a file below the directory of the stage. When the path of the statement leads
  out of the stage, the unload is refused before the operating system or the engine is called.
\<close>

theorem unload_contained:
  "if subPath = '''' \<or> below (sm_LocalPath meta) (path_Join [sm_LocalPath meta, subPath])
   then (case unload_dir os meta subPath w of
           (_, Inl _) \<Rightarrow> True
         | (_, Inr destDir) \<Rightarrow> below (sm_LocalPath meta) (unload_file destDir format))
   else \<exists>e. ExecuteUnload os exec stat t meta subPath format options w = (w, [], Some e)"
proof (cases "subPath = '''' \<or> below (sm_LocalPath meta) (path_Join [sm_LocalPath meta, subPath])")
  case True
  have name: "plain_elem (''data_0_0_0'' @ formatExtension (ff_Type format))"
    "''data_0_0_0'' @ formatExtension (ff_Type format) \<noteq> ''..''"
    by (auto simp: plain_elem_def formatExtension_def Let_def)
  have "below (sm_LocalPath meta) (unload_file d format)" if "unload_dir os meta subPath w = (w', Inr d)" for w' d
  proof -
    have "below (sm_LocalPath meta) d"
      using that ResolveInStage_iff [of meta subPath]
      by (auto simp: unload_dir_def below_refl split: if_splits sum.splits prod.splits option.splits)
    then show ?thesis unfolding unload_file_def using below_Join [OF name, of d] by (rule below_trans)
  qed
  then show ?thesis using True by (auto split: prod.split sum.split)
next
  case False
  then obtain e where "ResolveInStage meta subPath = Err e"
    using ResolveInStage_iff [of meta subPath] by (cases "ResolveInStage meta subPath") auto
  with False show ?thesis by (simp add: ExecuteUnload_def unload_dir_def)
qed

subsection \<open>Limits of the statement parser\<close>

text \<open>The expression for FILE_FORMAT ends at the first closing parenthesis, and a list of NULL_IF values at its first blank.\<close>

lemma null_if_list_cut:
  "(case FindStringSubmatch reFileFormat (re_text ''FILE_FORMAT = (TYPE = CSV NULL_IF = (`NULL`, `x`) SKIP_HEADER = 1)'') of
      None \<Rightarrow> [] | Some m \<Rightarrow> map (\<lambda>(k, v). (k, parseNullIf v)) (tl (inline_options (m 1)))) =
   [(''NULL_IF'', [''NULL'', ''''])]"
  by code_simp

text \<open>Only whether SKIP_HEADER is positive reaches the query: two header lines are read as one.\<close>

lemma skip_header_ignored_count:
  "buildCSVReadOptions (DefaultCSV\<lparr>ff_SkipHeader := 2\<rparr>) = buildCSVReadOptions (DefaultCSV\<lparr>ff_SkipHeader := 1\<rparr>)"
  by (simp add: buildCSVReadOptions_def)

end
