(* ===== verification/Engine.thy ===== *)
theory Engine
  imports Go_Strings
begin

text \<open>
  The query engine (\<^verbatim>\<open>engine/engine.go\<close>): a wrapper around the DuckDB driver that keeps the current database
  and schema. The driver is the record \<open>driver\<close> of the calls the code makes, on a world \<open>'w\<close> and values
  \<open>'v\<close> of \<^verbatim>\<open>interface{}\<close>: \<open>db_Exec\<close> returns the number of rows if the statement has one, \<open>db_Query\<close> the columns,
  the rows read and the error that ended the iteration, if any. \<open>as_string\<close> is the type assertion to a
  string and \<open>scan_string\<close> the conversion of \<^verbatim>\<open>rows.Scan\<close>.
\<close>

record ('w, 'v) driver =
  db_Exec :: "string \<Rightarrow> 'w \<Rightarrow> 'w \<times> (string + int option)"
  db_Query :: "string \<Rightarrow> string list \<Rightarrow> 'w \<Rightarrow> 'w \<times> (string + string list \<times> 'v list list \<times> string option)"
  as_string :: "'v \<Rightarrow> string option"
  scan_string :: "'v \<Rightarrow> string option"

record Engine =
  eng_dataDir :: string
  currentDB :: string
  currentSchema :: string

definition new_engine :: "string \<Rightarrow> Engine" where
  "new_engine dir = \<lparr>eng_dataDir = dir, currentDB = ''miniflake'', currentSchema = ''main''\<rparr>"

definition dquote :: char where "dquote = CHR 0x22"

definition escapeIdent :: "string \<Rightarrow> string" where
  "escapeIdent s = ReplaceAll s [dquote] [dquote, dquote]"

definition ident :: "string \<Rightarrow> string" where
  "ident s = [dquote] @ escapeIdent s @ [dquote]"

subsection \<open>Queries and statements\<close>

definition engine_Execute ::
  "('w, 'v) driver \<Rightarrow> string \<Rightarrow> string list \<Rightarrow> 'w \<Rightarrow> 'w \<times> (string list \<times> 'v list list) result" where
  "engine_Execute d query args w =
     (case db_Query d query args w of
        (w, Inl e) \<Rightarrow> (w, Err (Wrap ''engine: query'' (ExecError e)))
      | (w, Inr (cols, rows, Some e)) \<Rightarrow> (w, Err (Wrap ''engine: rows iteration'' (ExecError e)))
      | (w, Inr (cols, rows, None)) \<Rightarrow> (w, Ok (cols, rows)))"

definition ExecNoResult :: "('w, 'v) driver \<Rightarrow> string \<Rightarrow> 'w \<Rightarrow> 'w \<times> int result" where
  "ExecNoResult d query w =
     (case db_Exec d query w of
        (w, Inl e) \<Rightarrow> (w, Err (Wrap ''engine: exec'' (ExecError e)))
      | (w, Inr None) \<Rightarrow> (w, Ok 0)
      | (w, Inr (Some n)) \<Rightarrow> (w, Ok n))"

definition AttachDatabase :: "('w, 'v) driver \<Rightarrow> Engine \<Rightarrow> string \<Rightarrow> 'w \<Rightarrow> 'w \<times> go_error option" where
  "AttachDatabase d e name w =
     (let dbPath = eng_dataDir e @ ''/'' @ name @ ''.duckdb'';
          query = ''ATTACH IF NOT EXISTS '' @ [CHR 0x27] @ dbPath @ [CHR 0x27] @ '' AS '' @ [dquote] @ name @ [dquote]
      in case db_Exec d query w of
           (w, Inl err) \<Rightarrow> (w, Some (Wrap ''engine: attach database'' (ExecError err)))
         | (w, Inr _) \<Rightarrow> (w, None))"

definition SetCurrentDatabase :: "Engine \<Rightarrow> string \<Rightarrow> Engine" where
  "SetCurrentDatabase e name = e\<lparr>currentDB := name\<rparr>"

definition SetCurrentSchema :: "Engine \<Rightarrow> string \<Rightarrow> Engine" where
  "SetCurrentSchema e name = e\<lparr>currentSchema := name\<rparr>"

text \<open>
  The listings keep the rows whose first value is a string. A row always has the columns of its query, so
  the index cannot be out of range.
\<close>

definition first_strings :: "('w, 'v) driver \<Rightarrow> 'v list list \<Rightarrow> string list" where
  "first_strings d rows = List.map_filter (\<lambda>row. case row of [] \<Rightarrow> None | v # _ \<Rightarrow> as_string d v) rows"

definition list_names :: "('w, 'v) driver \<Rightarrow> string \<Rightarrow> string list \<Rightarrow> 'w \<Rightarrow> 'w \<times> string list result" where
  "list_names d query args w =
     (case engine_Execute d query args w of
        (w, Inl e) \<Rightarrow> (w, Err e) | (w, Inr (cols, rows)) \<Rightarrow> (w, Ok (first_strings d rows)))"

definition GetDatabases :: "('w, 'v) driver \<Rightarrow> 'w \<Rightarrow> 'w \<times> string list result" where
  "GetDatabases d w = list_names d ''SELECT database_name FROM duckdb_databases() ORDER BY database_name'' [] w"

definition GetSchemas :: "('w, 'v) driver \<Rightarrow> string \<Rightarrow> 'w \<Rightarrow> 'w \<times> string list result" where
  "GetSchemas d dbName w =
     list_names d ''SELECT schema_name FROM duckdb_schemas() WHERE database_name = ? ORDER BY schema_name'' [dbName] w"

definition GetTables :: "('w, 'v) driver \<Rightarrow> string \<Rightarrow> string \<Rightarrow> 'w \<Rightarrow> 'w \<times> string list result" where
  "GetTables d dbName schemaName w =
     list_names d
       ''SELECT table_name FROM duckdb_tables() WHERE database_name = ? AND schema_name = ? ORDER BY table_name''
       [dbName, schemaName] w"

subsection \<open>Reset\<close>

text \<open>The rows of a listing as strings; a value that does not convert or a broken iteration is an error.\<close>

fun scan_rows :: "('w, 'v) driver \<Rightarrow> 'v list list \<Rightarrow> string list list option" where
  "scan_rows d [] = Some []"
| "scan_rows d (row # rows) =
     (if \<exists>v \<in> set row. scan_string d v = None then None
      else (case scan_rows d rows of None \<Rightarrow> None | Some rs \<Rightarrow> Some (List.map_filter (scan_string d) row # rs)))"

definition reset_list :: "('w, 'v) driver \<Rightarrow> string \<Rightarrow> string \<Rightarrow> 'w \<Rightarrow> 'w \<times> string list list result" where
  "reset_list d query kind w =
     (case db_Query d query [] w of
        (w, Inl e) \<Rightarrow> (w, Err (Wrap (''engine: reset list '' @ kind) (ExecError e)))
      | (w, Inr (cols, rows, end)) \<Rightarrow>
          (case scan_rows d rows of
             None \<Rightarrow> (w, Err (Invalid ''engine: reset scan'' kind))
           | Some rs \<Rightarrow> (case end of Some e \<Rightarrow> (w, Err (ExecError e)) | None \<Rightarrow> (w, Ok rs))))"

fun exec_all :: "('w, 'v) driver \<Rightarrow> string list \<Rightarrow> 'w \<Rightarrow> 'w \<times> go_error option" where
  "exec_all d [] w = (w, None)"
| "exec_all d (stmt # stmts) w =
     (case db_Exec d stmt w of
        (w, Inl e) \<Rightarrow> (w, Some (Wrap (''engine: reset '' @ stmt) (ExecError e)))
      | (w, Inr _) \<Rightarrow> exec_all d stmts w)"

text \<open>One phase of the reset: list the objects, then run the statement that each of them needs.\<close>

definition reset_phase ::
  "('w, 'v) driver \<Rightarrow> string \<Rightarrow> string \<Rightarrow> (string list \<Rightarrow> string list) \<Rightarrow> 'w \<Rightarrow> 'w \<times> go_error option" where
  "reset_phase d query kind stmts w =
     (case reset_list d query kind w of
        (w, Inl e) \<Rightarrow> (w, Some e) | (w, Inr rows) \<Rightarrow> exec_all d (concat (map stmts rows)) w)"

definition drop_object :: "string \<Rightarrow> string list \<Rightarrow> string list" where
  "drop_object kind row = [''DROP '' @ kind @ '' IF EXISTS '' @ Join (map ident row) ''.'' @ '' CASCADE'']"

definition detach_database :: "string list \<Rightarrow> string list" where
  "detach_database row =
     (case row of
        [] \<Rightarrow> []
      | name # _ \<Rightarrow> if EqualFold name ''miniflake'' then [] else [''DETACH '' @ ident name])"

text \<open>The phases of the reset in their order: tables, views, schemas, databases.\<close>

definition reset_phases :: "(string \<times> string \<times> (string list \<Rightarrow> string list)) list" where
  "reset_phases =
     [(''SELECT database_name, schema_name, table_name FROM duckdb_tables() WHERE NOT internal'', ''TABLE'', drop_object ''TABLE''),
      (''SELECT database_name, schema_name, view_name FROM duckdb_views() WHERE NOT internal'', ''VIEW'', drop_object ''VIEW''),
      (''SELECT database_name, schema_name FROM duckdb_schemas() WHERE NOT internal'', ''schemas'', drop_object ''SCHEMA''),
      (''SELECT database_name FROM duckdb_databases() WHERE NOT internal'', ''databases'', detach_database)]"

fun run_phases ::
  "('w, 'v) driver \<Rightarrow> (string \<times> string \<times> (string list \<Rightarrow> string list)) list \<Rightarrow> 'w \<Rightarrow> 'w \<times> go_error option" where
  "run_phases d [] w = (w, None)"
| "run_phases d ((query, kind, stmts) # ps) w =
     (case reset_phase d query kind stmts w of (w, Some e) \<Rightarrow> (w, Some e) | (w, None) \<Rightarrow> run_phases d ps w)"

definition engine_Reset :: "('w, 'v) driver \<Rightarrow> Engine \<Rightarrow> 'w \<Rightarrow> 'w \<times> Engine \<times> go_error option" where
  "engine_Reset d e w =
     (case run_phases d reset_phases w of
        (w, Some err) \<Rightarrow> (w, e, Some err)
      | (w, None) \<Rightarrow> (w, e\<lparr>currentDB := ''miniflake'', currentSchema := ''main''\<rparr>, None))"

lemma engine_Reset_context:
  "engine_Reset d e w = (w', e', err) \<Longrightarrow> e' = (if err = None then new_engine (eng_dataDir e) else e)"
  by (auto simp: engine_Reset_def new_engine_def split: prod.splits option.splits)

text \<open>An identifier with a quote in it cannot end the quoted name it is put into.\<close>

lemma escapeIdent_double: "escapeIdent s = concat (map (\<lambda>c. if c = dquote then [dquote, dquote] else [c]) s)"
  unfolding escapeIdent_def by (rule ReplaceAll_double)

end
