(* ===== verification/Udf.thy ===== *)
theory Udf
  imports Registry
begin

text \<open>
  User-defined functions (\<^verbatim>\<open>udf/udf.go\<close>): the registry, the substitution of arguments into an SQL body and
  the script built for Python. Running the script and JSON encoding are arguments of \<open>ExecutePython\<close>.
\<close>

datatype UDFLanguage = LangSQL | LangJavaScript | LangPython

record UDFArg =
  ua_Name :: string
  ua_Type :: string

record UDF =
  u_Name :: string
  u_Database :: string
  u_Schema :: string
  u_Language :: UDFLanguage
  u_Args :: "UDFArg list"
  u_ReturnType :: string
  u_Body :: string
  u_IsProc :: bool
  u_CreatedAt :: "time option"

record udf_Registry =
  udfs :: "string \<rightharpoonup> UDF"

definition udf_NewRegistry :: udf_Registry where
  "udf_NewRegistry = \<lparr>udfs = Map.empty\<rparr>"

definition udf_Reset :: "udf_Registry \<Rightarrow> udf_Registry" where
  "udf_Reset r = r\<lparr>udfs := Map.empty\<rparr>"

definition makeKey :: "string \<Rightarrow> string \<Rightarrow> string \<Rightarrow> string list \<Rightarrow> string" where
  "makeKey db schema name argTypes =
     dotted (ToUpper db) (ToUpper schema) (ToUpper name) @ ''('' @ ToUpper (Join argTypes '','') @ '')''"

definition makeKeyFromUDF :: "UDF \<Rightarrow> string" where
  "makeKeyFromUDF u = makeKey (u_Database u) (u_Schema u) (u_Name u) (map ua_Type (u_Args u))"

text \<open>A zero creation time is \<open>None\<close>.\<close>

definition Register :: "udf_Registry \<Rightarrow> time \<Rightarrow> UDF \<Rightarrow> udf_Registry result" where
  "Register r now u =
     (if u_Name u = '''' then Err (Invalid ''udf'' ''name is required'')
      else
        let u = (if u_CreatedAt u = None then u\<lparr>u_CreatedAt := Some now\<rparr> else u);
            key = makeKeyFromUDF u
        in if udfs r key \<noteq> None then Err (AlreadyExists ''udf'' key)
           else Ok (r\<lparr>udfs := (udfs r)(key \<mapsto> u)\<rparr>))"

definition udf_Get :: "udf_Registry \<Rightarrow> string \<Rightarrow> string \<Rightarrow> string \<Rightarrow> string list \<Rightarrow> UDF result" where
  "udf_Get r db schema name argTypes =
     (let key = makeKey db schema name argTypes
      in case udfs r key of None \<Rightarrow> Err (DoesNotExist ''udf'' key) | Some u \<Rightarrow> Ok u)"

definition udf_prefix :: "string \<Rightarrow> string \<Rightarrow> string \<Rightarrow> string" where
  "udf_prefix db schema name = dotted (ToUpper db) (ToUpper schema) (ToUpper name) @ ''(''"

definition udf_Drop :: "udf_Registry \<Rightarrow> string list \<Rightarrow> string \<Rightarrow> string \<Rightarrow> string \<Rightarrow> udf_Registry result" where
  "udf_Drop r ks db schema name =
     (case List.find (\<lambda>key. HasPrefix key (udf_prefix db schema name)) ks of
        Some key \<Rightarrow> Ok (r\<lparr>udfs := (udfs r)(key := None)\<rparr>)
      | None \<Rightarrow> Err (DoesNotExist ''udf'' (dotted db schema name)))"

definition udf_List :: "udf_Registry \<Rightarrow> string list \<Rightarrow> string \<Rightarrow> string \<Rightarrow> UDF list" where
  "udf_List r ks db schema =
     (let prefix = ToUpper db @ ''.'' @ ToUpper schema @ ''.''
      in map snd (filter (\<lambda>(key, u). HasPrefix key prefix) (range_entries (udfs r) ks)))"

subsection \<open>Execution\<close>

text \<open>An argument value: a string, nil, or another value given by the text that the verb v prints for it.\<close>

datatype udf_value = VString string | VNil | VOther string

definition replacement :: "udf_value \<Rightarrow> string" where
  "replacement v =
     (case v of
        VString s \<Rightarrow> [CHR 0x27] @ ReplaceAll s [CHR 0x27] [CHR 0x27, CHR 0x27] @ [CHR 0x27]
      | VNil \<Rightarrow> ''NULL''
      | VOther t \<Rightarrow> t)"

text \<open>\<^verbatim>\<open>strings.ReplaceAll\<close> with an empty old text inserts the new one around every rune; a body is ASCII text here.\<close>

definition replace_name :: "string \<Rightarrow> string \<Rightarrow> string \<Rightarrow> string" where
  "replace_name body name rep =
     (if name = '''' then rep @ concat (map (\<lambda>c. c # rep) body) else ReplaceAll body name rep)"

definition udf_ExecuteSQL :: "UDF \<Rightarrow> (string \<rightharpoonup> udf_value) \<Rightarrow> string result" where
  "udf_ExecuteSQL u args =
     (if u_Language u \<noteq> LangSQL then Err (Invalid ''udf'' ''expected SQL language'')
      else Ok (foldl (\<lambda>body arg.
        replace_name body (ua_Name arg)
          (replacement (case args (ua_Name arg) of None \<Rightarrow> VNil | Some v \<Rightarrow> v))) (u_Body u) (u_Args u)))"

definition ExecuteJavaScript :: "UDF \<Rightarrow> (string \<rightharpoonup> udf_value) \<Rightarrow> udf_value result" where
  "ExecuteJavaScript u args =
     (if u_Language u \<noteq> LangJavaScript then Err (Invalid ''udf'' ''expected JAVASCRIPT language'')
      else Err (NotAllowed ''udf'' ''JavaScript execution not available''))"

definition nl :: string where "nl = [CHR 0x0A]"

fun python_setup :: "(udf_value \<Rightarrow> string option) \<Rightarrow> (string \<rightharpoonup> udf_value) \<Rightarrow> UDFArg list \<Rightarrow> string option" where
  "python_setup marshal args [] = Some ''''"
| "python_setup marshal args (arg # as) =
     (case marshal (case args (ua_Name arg) of None \<Rightarrow> VNil | Some v \<Rightarrow> v) of
        None \<Rightarrow> None
      | Some js \<Rightarrow>
          map_option (\<lambda>rest. ua_Name arg @ '' = json.loads('' @ [CHR 0x27] @ js @ [CHR 0x27] @ '')'' @ nl @ rest)
            (python_setup marshal args as))"

definition python_script :: "string \<Rightarrow> string \<Rightarrow> string" where
  "python_script setup body =
     ''import json, sys'' @ nl @ setup @ nl @ ''_result = '' @ body @ nl @ ''print(json.dumps(_result))'' @ nl"

text \<open>
  \<open>run\<close> runs a script and returns its output, or its output and an error; \<open>unmarshal\<close> decodes JSON. Output
  that is not JSON is returned as text.
\<close>

definition ExecutePython ::
  "(udf_value \<Rightarrow> string option) \<Rightarrow> (string \<Rightarrow> udf_value option) \<Rightarrow> (string \<Rightarrow> 'w \<Rightarrow> 'w \<times> (string + string)) \<Rightarrow>
     UDF \<Rightarrow> (string \<rightharpoonup> udf_value) \<Rightarrow> 'w \<Rightarrow> 'w \<times> udf_value result"
where
  "ExecutePython marshal unmarshal run u args w =
     (if u_Language u \<noteq> LangPython then (w, Err (Invalid ''udf'' ''expected PYTHON language''))
      else (case python_setup marshal args (u_Args u) of
        None \<Rightarrow> (w, Err (Invalid ''udf python'' ''marshal arg''))
      | Some setup \<Rightarrow>
          (case run (python_script setup (u_Body u)) w of
             (w, Inl out) \<Rightarrow> (w, Err (Wrap ''udf python: execution failed'' (ExecError (TrimSpace out))))
           | (w, Inr out) \<Rightarrow>
               (case unmarshal (TrimSpace out) of
                  None \<Rightarrow> (w, Ok (VString (TrimSpace out)))
                | Some v \<Rightarrow> (w, Ok v)))))"

subsection \<open>The registry\<close>

lemma makeKeyFromUDF_stamp [simp]: "makeKeyFromUDF (u\<lparr>u_CreatedAt := t\<rparr>) = makeKeyFromUDF u"
  by (simp add: makeKeyFromUDF_def)

lemma Register_then_Get:
  assumes "Register r now u = Ok r'"
  shows "udf_Get r' (u_Database u) (u_Schema u) (u_Name u) (map ua_Type (u_Args u)) =
     Ok (if u_CreatedAt u = None then u\<lparr>u_CreatedAt := Some now\<rparr> else u)"
  using assms by (auto simp: Register_def udf_Get_def Let_def makeKeyFromUDF_def split: if_splits)

text \<open>Dropping removes one overload of the name, whatever order the loop visits the map in.\<close>

lemma udf_Drop_one:
  assumes "range_order (udfs r) ks" "udf_Drop r ks db schema name = Ok r'"
  shows "\<exists>key u. udfs r key = Some u \<and> HasPrefix key (udf_prefix db schema name) \<and> udfs r' = (udfs r)(key := None)"
proof -
  from assms(2) obtain key where key: "List.find (\<lambda>key. HasPrefix key (udf_prefix db schema name)) ks = Some key"
    and r': "udfs r' = (udfs r)(key := None)"
    by (auto simp: udf_Drop_def split: option.splits)
  from key have "key \<in> set ks" "HasPrefix key (udf_prefix db schema name)" by (auto simp: find_Some_iff)
  with assms(1) r' show ?thesis by (auto simp: range_order_def)
qed

lemma udf_Drop_missing:
  assumes "range_order (udfs r) ks"
  shows "is_ok (udf_Drop r ks db schema name) \<longleftrightarrow> (\<exists>key \<in> dom (udfs r). HasPrefix key (udf_prefix db schema name))"
  using assms by (auto simp: udf_Drop_def range_order_def find_None_iff split: option.split) (metis find_Some_iff nth_mem)

interpretation udf_reset: resettable udf_Reset udf_NewRegistry
  by unfold_locales (simp add: udf_Reset_def udf_NewRegistry_def)

subsection \<open>Substitution by text\<close>

text \<open>
  Names are replaced as text: a name inside another word is replaced too, and a name inside the value of an
  earlier argument.
\<close>

definition sample_udf :: "string \<Rightarrow> UDF" where
  "sample_udf body =
     \<lparr>u_Name = ''f'', u_Database = ''D'', u_Schema = ''S'', u_Language = LangSQL,
      u_Args = [\<lparr>ua_Name = ''x'', ua_Type = ''TEXT''\<rparr>, \<lparr>ua_Name = ''y'', ua_Type = ''TEXT''\<rparr>],
      u_ReturnType = ''TEXT'', u_Body = body, u_IsProc = False, u_CreatedAt = None\<rparr>"

lemma substitution_hits_words:
  "udf_ExecuteSQL (sample_udf ''max(x)'') [''x'' \<mapsto> VOther ''1'', ''y'' \<mapsto> VOther ''2''] = Ok ''ma1(1)''"
  by code_simp

lemma substitution_hits_values:
  "udf_ExecuteSQL (sample_udf ''x'') [''x'' \<mapsto> VString ''y'', ''y'' \<mapsto> VOther ''2''] = Ok ([CHR 0x27] @ ''2'' @ [CHR 0x27])"
  by code_simp

end
