(* ===== verification/Clone.thy ===== *)
theory Clone
  imports Registry
begin

text \<open>
  Cloning (\<^verbatim>\<open>clone/clone.go\<close>): tables, schemas and databases are copied with CREATE TABLE AS SELECT, and each
  finished clone is recorded. \<open>exec\<close> runs a statement and \<open>query\<close> returns the rows of a listing as the
  strings of its first column (rows whose first value is no string are skipped there); both are callbacks
  of the code.
\<close>

datatype CloneType = CloneDatabaseType | CloneSchemaType | CloneTableType

record CloneRecord =
  cl_SourceName :: string
  cl_CloneName :: string
  cl_Type :: CloneType
  cl_CreatedAt :: time

record clone_Engine =
  clones :: "CloneRecord list"

type_synonym 'w clone_exec = "string \<Rightarrow> 'w \<Rightarrow> 'w \<times> go_error option"
type_synonym 'w clone_query = "string \<Rightarrow> 'w \<Rightarrow> 'w \<times> string option list result"

definition clone_NewEngine :: clone_Engine where
  "clone_NewEngine = \<lparr>clones = []\<rparr>"

definition clone_Reset :: "clone_Engine \<Rightarrow> clone_Engine" where
  "clone_Reset e = e\<lparr>clones := []\<rparr>"

definition qid :: "string \<Rightarrow> string" where
  "qid s = [CHR 0x22] @ s @ [CHR 0x22]"

definition sqid :: "string \<Rightarrow> string" where
  "sqid s = [CHR 0x27] @ s @ [CHR 0x27]"

definition clone_sql :: "string \<Rightarrow> string \<Rightarrow> string" where
  "clone_sql dst src = ''CREATE TABLE '' @ dst @ '' AS SELECT * FROM '' @ src"

definition table_name3 :: "string \<Rightarrow> string \<Rightarrow> string \<Rightarrow> string" where
  "table_name3 db schema table = dotted (qid db) (qid schema) (qid table)"

definition CloneTable ::
  "'w clone_exec \<Rightarrow> clone_Engine \<Rightarrow> time \<Rightarrow> string \<Rightarrow> string \<Rightarrow> string \<Rightarrow> string \<Rightarrow> string \<Rightarrow> string \<Rightarrow> 'w \<Rightarrow>
     'w \<times> clone_Engine result"
where
  "CloneTable exec e now srcDB srcSchema srcTable dstDB dstSchema dstTable w =
     (let src = table_name3 srcDB srcSchema srcTable;
          dst = table_name3 dstDB dstSchema dstTable
      in case exec (clone_sql dst src) w of
           (w, Some err) \<Rightarrow> (w, Err (Wrap ''clone table'' err))
         | (w, None) \<Rightarrow>
             (w, Ok (e\<lparr>clones := clones e @
                [\<lparr>cl_SourceName = src, cl_CloneName = dst, cl_Type = CloneTableType, cl_CreatedAt = now\<rparr>]\<rparr>)))"

definition listTables :: "'w clone_query \<Rightarrow> string \<Rightarrow> string \<Rightarrow> 'w \<Rightarrow> 'w \<times> string list result" where
  "listTables query db schema w =
     (case query (''SELECT table_name FROM duckdb_tables() WHERE database_name = '' @ sqid db @
                  '' AND schema_name = '' @ sqid schema @ '' ORDER BY table_name'') w of
        (w, Inl e) \<Rightarrow> (w, Err e) | (w, Inr rows) \<Rightarrow> (w, Ok (List.map_filter id rows)))"

definition listSchemas :: "'w clone_query \<Rightarrow> string \<Rightarrow> 'w \<Rightarrow> 'w \<times> string list result" where
  "listSchemas query db w =
     (case query (''SELECT schema_name FROM duckdb_schemas() WHERE database_name = '' @ sqid db @
                  '' ORDER BY schema_name'') w of
        (w, Inl e) \<Rightarrow> (w, Err e) | (w, Inr rows) \<Rightarrow> (w, Ok (List.map_filter id rows)))"

text \<open>
  The loops stop at the first error; what was cloned until then stays cloned and recorded, so the engine is
  returned with the error.
\<close>

fun clone_each ::
  "(clone_Engine \<Rightarrow> string \<Rightarrow> 'w \<Rightarrow> 'w \<times> clone_Engine \<times> go_error option) \<Rightarrow> clone_Engine \<Rightarrow> string list \<Rightarrow> 'w \<Rightarrow>
     'w \<times> clone_Engine \<times> go_error option"
where
  "clone_each f e [] w = (w, e, None)"
| "clone_each f e (x # xs) w =
     (case f e x w of (w, e, Some err) \<Rightarrow> (w, e, Some err) | (w, e, None) \<Rightarrow> clone_each f e xs w)"

definition clone_one ::
  "'w clone_exec \<Rightarrow> time \<Rightarrow> string \<Rightarrow> string \<Rightarrow> string \<Rightarrow> string \<Rightarrow> clone_Engine \<Rightarrow> string \<Rightarrow> 'w \<Rightarrow>
     'w \<times> clone_Engine \<times> go_error option"
where
  "clone_one exec now srcDB srcSchema dstDB dstSchema e tbl w =
     (case CloneTable exec e now srcDB srcSchema tbl dstDB dstSchema tbl w of
        (w, Inl err) \<Rightarrow> (w, e, Some (Wrap (''clone schema: table '' @ tbl) err))
      | (w, Inr e') \<Rightarrow> (w, e', None))"

definition schema_name2 :: "string \<Rightarrow> string \<Rightarrow> string" where
  "schema_name2 db schema = qid db @ ''.'' @ qid schema"

definition CloneSchema ::
  "'w clone_exec \<Rightarrow> 'w clone_query \<Rightarrow> clone_Engine \<Rightarrow> time \<Rightarrow> string \<Rightarrow> string \<Rightarrow> string \<Rightarrow> string \<Rightarrow> 'w \<Rightarrow>
     'w \<times> clone_Engine \<times> go_error option"
where
  "CloneSchema exec query e now srcDB srcSchema dstDB dstSchema w =
     (case exec (''CREATE SCHEMA IF NOT EXISTS '' @ schema_name2 dstDB dstSchema) w of
        (w, Some err) \<Rightarrow> (w, e, Some (Wrap ''clone schema: create dst schema'' err))
      | (w, None) \<Rightarrow>
          (case listTables query srcDB srcSchema w of
             (w, Inl err) \<Rightarrow> (w, e, Some (Wrap ''clone schema: list tables'' err))
           | (w, Inr tables) \<Rightarrow>
               (case clone_each (clone_one exec now srcDB srcSchema dstDB dstSchema) e tables w of
                  (w, e, Some err) \<Rightarrow> (w, e, Some err)
                | (w, e, None) \<Rightarrow>
                    (w, e\<lparr>clones := clones e @
                      [\<lparr>cl_SourceName = schema_name2 srcDB srcSchema, cl_CloneName = schema_name2 dstDB dstSchema,
                        cl_Type = CloneSchemaType, cl_CreatedAt = now\<rparr>]\<rparr>, None))))"

definition CloneDatabase ::
  "'w clone_exec \<Rightarrow> 'w clone_query \<Rightarrow> clone_Engine \<Rightarrow> time \<Rightarrow> string \<Rightarrow> string \<Rightarrow> 'w \<Rightarrow>
     'w \<times> clone_Engine \<times> go_error option"
where
  "CloneDatabase exec query e now srcDB dstDB w =
     (case exec (''CREATE SCHEMA IF NOT EXISTS '' @ schema_name2 dstDB ''main'') w of
        (w, Some err) \<Rightarrow> (w, e, Some (Wrap ''clone database: create dst'' err))
      | (w, None) \<Rightarrow>
          (case listSchemas query srcDB w of
             (w, Inl err) \<Rightarrow> (w, e, Some (Wrap ''clone database: list schemas'' err))
           | (w, Inr schemas) \<Rightarrow>
               (case clone_each (\<lambda>e schema w.
                    case CloneSchema exec query e now srcDB schema dstDB schema w of
                      (w, e, Some err) \<Rightarrow> (w, e, Some (Wrap (''clone database: schema '' @ schema) err))
                    | (w, e, None) \<Rightarrow> (w, e, None)) e schemas w of
                  (w, e, Some err) \<Rightarrow> (w, e, Some err)
                | (w, e, None) \<Rightarrow>
                    (w, e\<lparr>clones := clones e @
                      [\<lparr>cl_SourceName = srcDB, cl_CloneName = dstDB, cl_Type = CloneDatabaseType, cl_CreatedAt = now\<rparr>]\<rparr>,
                     None))))"

definition ListClones :: "clone_Engine \<Rightarrow> CloneRecord list" where
  "ListClones e = clones e"

interpretation clone_reset: resettable clone_Reset clone_NewEngine
  by unfold_locales (simp add: clone_Reset_def clone_NewEngine_def)

subsection \<open>A schema clone copies the listed tables\<close>

definition table_record :: "time \<Rightarrow> string \<Rightarrow> string \<Rightarrow> string \<Rightarrow> string \<Rightarrow> string \<Rightarrow> CloneRecord" where
  "table_record now srcDB srcSchema dstDB dstSchema tbl =
     \<lparr>cl_SourceName = table_name3 srcDB srcSchema tbl, cl_CloneName = table_name3 dstDB dstSchema tbl,
      cl_Type = CloneTableType, cl_CreatedAt = now\<rparr>"

lemma clone_each_records:
  "clone_each (clone_one exec now srcDB srcSchema dstDB dstSchema) e tables w = (w', e', err) \<Longrightarrow>
     (\<exists>done rest. tables = done @ rest \<and> (err = None \<longleftrightarrow> rest = []) \<and>
        clones e' = clones e @ map (table_record now srcDB srcSchema dstDB dstSchema) done)"
proof (induction tables arbitrary: e w)
  case (Cons t ts)
  obtain w1 o1 where x: "exec (clone_sql (table_name3 dstDB dstSchema t) (table_name3 srcDB srcSchema t)) w = (w1, o1)"
    by fastforce
  show ?case
  proof (cases o1)
    case (Some err1)
    with x Cons.prems have "e' = e" "err \<noteq> None" by (auto simp: clone_one_def CloneTable_def)
    then show ?thesis by (intro exI [of _ "[]"] exI [of _ "t # ts"]) simp
  next
    case None
    let ?e = "e\<lparr>clones := clones e @ [table_record now srcDB srcSchema dstDB dstSchema t]\<rparr>"
    have "clone_one exec now srcDB srcSchema dstDB dstSchema e t w = (w1, ?e, None)"
      using x None by (simp add: clone_one_def CloneTable_def table_record_def)
    with Cons.prems have "clone_each (clone_one exec now srcDB srcSchema dstDB dstSchema) ?e ts w1 = (w', e', err)"
      by simp
    from Cons.IH [OF this] obtain d r where "ts = d @ r" "err = None \<longleftrightarrow> r = []"
      "clones e' = clones ?e @ map (table_record now srcDB srcSchema dstDB dstSchema) d" by blast
    then show ?thesis by (intro exI [of _ "t # d"] exI [of _ r]) simp
  qed
qed simp

text \<open>
  Cloning a schema clones the tables that the listing returns, in its order, and stops at the first
  failure. The record of clones grows by exactly one entry per table that was cloned, and by the entry of
  the schema if and only if every table was.
\<close>

theorem CloneSchema_records:
  assumes "exec (''CREATE SCHEMA IF NOT EXISTS '' @ schema_name2 dstDB dstSchema) w = (w1, None)"
    and "listTables query srcDB srcSchema w1 = (w2, Ok tables)"
    and "CloneSchema exec query e now srcDB srcSchema dstDB dstSchema w = (w', e', err)"
  shows "\<exists>done rest. tables = done @ rest \<and> (err = None \<longleftrightarrow> rest = []) \<and>
    ListClones e' = ListClones e @ map (table_record now srcDB srcSchema dstDB dstSchema) done @
      (if err = None then [\<lparr>cl_SourceName = schema_name2 srcDB srcSchema, cl_CloneName = schema_name2 dstDB dstSchema,
         cl_Type = CloneSchemaType, cl_CreatedAt = now\<rparr>] else [])"
proof -
  obtain w3 e3 err3 where each: "clone_each (clone_one exec now srcDB srcSchema dstDB dstSchema) e tables w2 = (w3, e3, err3)"
    by (metis prod_cases3)
  from clone_each_records [OF this] obtain d r where dr: "tables = d @ r" "err3 = None \<longleftrightarrow> r = []"
    "clones e3 = clones e @ map (table_record now srcDB srcSchema dstDB dstSchema) d" by blast
  have "err = err3" using assms each by (cases err3) (auto simp: CloneSchema_def)
  moreover have "clones e' = clones e3 @ (if err = None then [\<lparr>cl_SourceName = schema_name2 srcDB srcSchema,
      cl_CloneName = schema_name2 dstDB dstSchema, cl_Type = CloneSchemaType, cl_CreatedAt = now\<rparr>] else [])"
    using assms each by (cases err3) (auto simp: CloneSchema_def)
  ultimately show ?thesis using dr by (intro exI [of _ d] exI [of _ r]) (simp add: ListClones_def)
qed

definition sample_clone_exec :: "string list clone_exec" where
  "sample_clone_exec sql w = (w @ [sql], None)"

definition sample_clone_query :: "string list clone_query" where
  "sample_clone_query sql w = (w, Ok [Some ''A'', None, Some ''B''])"

theorem CloneSchema_records_witness:
  "\<exists>done rest. [''A'', ''B''] = done @ rest \<and> rest = [] \<and>
     ListClones (fst (snd (CloneSchema sample_clone_exec sample_clone_query clone_NewEngine 5 ''D'' ''S'' ''D'' ''S2'' []))) =
       map (table_record 5 ''D'' ''S'' ''D'' ''S2'') done @
       [\<lparr>cl_SourceName = schema_name2 ''D'' ''S'', cl_CloneName = schema_name2 ''D'' ''S2'',
         cl_Type = CloneSchemaType, cl_CreatedAt = 5\<rparr>]"
proof -
  let ?w1 = "[''CREATE SCHEMA IF NOT EXISTS '' @ schema_name2 ''D'' ''S2'']"
  have a: "sample_clone_exec (''CREATE SCHEMA IF NOT EXISTS '' @ schema_name2 ''D'' ''S2'') [] = (?w1, None)"
    by (simp add: sample_clone_exec_def)
  have b: "listTables sample_clone_query ''D'' ''S'' ?w1 = (?w1, Ok [''A'', ''B''])"
    by (simp add: listTables_def sample_clone_query_def map_filter_simps)
  obtain w' e' err where c: "CloneSchema sample_clone_exec sample_clone_query clone_NewEngine 5 ''D'' ''S'' ''D'' ''S2'' [] = (w', e', err)"
    by (metis prod_cases3)
  have "snd (snd (CloneSchema sample_clone_exec sample_clone_query clone_NewEngine 5 ''D'' ''S'' ''D'' ''S2'' [])) = None"
    by code_simp
  with c have "err = None" by simp
  with CloneSchema_records [OF a b c] c show ?thesis by (simp add: clone_NewEngine_def ListClones_def)
qed

end
