(* ===== verification/Dynamic_Table.thy ===== *)
theory Dynamic_Table
  imports Registry
begin

text \<open>
  Dynamic tables (\<^verbatim>\<open>dynamictable/dynamictable.go\<close>): tables filled from a query and refreshed by a goroutine
  each. \<open>exec\<close> is the callback that runs a statement. The goroutines are part of the state: \<open>dt_loops\<close> maps
  the stop channel of each running loop to its key, \<open>dt_closed\<close> holds the closed channels and \<open>dt_next\<close> is the
  next channel that \<^verbatim>\<open>make\<close> returns.
\<close>

record DynamicTable =
  dt_Name :: string
  dt_Database :: string
  dt_Schema :: string
  dt_Query :: string
  dt_TargetLag :: duration
  dt_Warehouse :: string
  dt_RefreshMode :: string
  dt_LastRefresh :: "time option"
  dt_NextRefresh :: "time option"
  dt_RowCount :: int
  dt_CreatedAt :: time

type_synonym DynamicTableInfo = DynamicTable

record dt_Manager =
  dt_tables :: "string \<rightharpoonup> DynamicTable"
  dt_stopChs :: "string \<rightharpoonup> nat"
  dt_loops :: "nat \<rightharpoonup> string"
  dt_closed :: "nat set"
  dt_next :: nat

type_synonym 'w dt_exec = "string \<Rightarrow> 'w \<Rightarrow> 'w \<times> go_error option"

definition dt_tableKey :: "string \<Rightarrow> string \<Rightarrow> string \<Rightarrow> string" where
  "dt_tableKey db schema name = ToUpper (dotted db schema name)"

definition dt_NewManager :: dt_Manager where
  "dt_NewManager =
     \<lparr>dt_tables = Map.empty, dt_stopChs = Map.empty, dt_loops = Map.empty, dt_closed = {}, dt_next = 0\<rparr>"

definition dt_fqn :: "DynamicTable \<Rightarrow> string" where
  "dt_fqn dt = dotted (dt_Database dt) (dt_Schema dt) (dt_Name dt)"

text \<open>A new channel under the key and the goroutine that listens on it.\<close>

definition start_loop :: "dt_Manager \<Rightarrow> string \<Rightarrow> dt_Manager" where
  "start_loop m key =
     m\<lparr>dt_stopChs := (dt_stopChs m)(key \<mapsto> dt_next m), dt_loops := (dt_loops m)(dt_next m \<mapsto> key),
       dt_next := Suc (dt_next m)\<rparr>"

definition close_loop :: "dt_Manager \<Rightarrow> string \<Rightarrow> dt_Manager" where
  "close_loop m key =
     (case dt_stopChs m key of
        None \<Rightarrow> m
      | Some ch \<Rightarrow> m\<lparr>dt_closed := insert ch (dt_closed m), dt_stopChs := (dt_stopChs m)(key := None)\<rparr>)"

definition new_dynamic_table ::
  "time \<Rightarrow> string \<Rightarrow> string \<Rightarrow> string \<Rightarrow> string \<Rightarrow> string \<Rightarrow> duration \<Rightarrow> string \<Rightarrow> DynamicTable" where
  "new_dynamic_table now db schema name query warehouse targetLag refreshMode =
     \<lparr>dt_Name = name, dt_Database = db, dt_Schema = schema, dt_Query = query, dt_TargetLag = targetLag,
      dt_Warehouse = warehouse, dt_RefreshMode = refreshMode, dt_LastRefresh = Some now,
      dt_NextRefresh = Some (now + targetLag), dt_RowCount = 0, dt_CreatedAt = now\<rparr>"

definition dt_Create ::
  "'w dt_exec \<Rightarrow> dt_Manager \<Rightarrow> time \<Rightarrow> string \<Rightarrow> string \<Rightarrow> string \<Rightarrow> string \<Rightarrow> string \<Rightarrow> duration \<Rightarrow> string \<Rightarrow> 'w \<Rightarrow>
     'w \<times> dt_Manager result"
where
  "dt_Create exec m now db schema name query warehouse targetLag refreshMode w =
     (let key = dt_tableKey db schema name
      in if dt_tables m key \<noteq> None then (w, Err (AlreadyExists ''dynamic table'' key))
         else (case exec (''CREATE TABLE '' @ dotted db schema name @ '' AS '' @ query) w of
           (w, Some e) \<Rightarrow> (w, Err (Wrap ''failed to create dynamic table'' e))
         | (w, None) \<Rightarrow>
             (w, Ok (start_loop (m\<lparr>dt_tables := (dt_tables m)(key \<mapsto>
                new_dynamic_table now db schema name query warehouse targetLag refreshMode)\<rparr>) key))))"

text \<open>The loop is stopped before the table is dropped: the manager is returned with the error too.\<close>

definition dt_Drop ::
  "'w dt_exec \<Rightarrow> dt_Manager \<Rightarrow> string \<Rightarrow> string \<Rightarrow> string \<Rightarrow> 'w \<Rightarrow> 'w \<times> dt_Manager \<times> go_error option" where
  "dt_Drop exec m db schema name w =
     (let key = dt_tableKey db schema name
      in case dt_tables m key of
           None \<Rightarrow> (w, m, Some (DoesNotExist ''dynamic table'' key))
         | Some dt \<Rightarrow>
             (let m = close_loop m key
              in case exec (''DROP TABLE IF EXISTS '' @ dt_fqn dt) w of
                   (w, Some e) \<Rightarrow> (w, m, Some (Wrap ''failed to drop dynamic table'' e))
                 | (w, None) \<Rightarrow> (w, m\<lparr>dt_tables := (dt_tables m)(key := None)\<rparr>, None)))"

text \<open>
  A refresh reads the table under the lock, runs its two statements without it and takes the lock again to
  note the times; the last part is \<open>refresh_commit\<close>.
\<close>

definition refresh_key :: "string \<Rightarrow> string \<Rightarrow> string \<Rightarrow> string" where
  "refresh_key db schema name = (if db = '''' \<and> schema = '''' then name else dt_tableKey db schema name)"

definition refresh_run :: "'w dt_exec \<Rightarrow> DynamicTable \<Rightarrow> 'w \<Rightarrow> 'w \<times> go_error option" where
  "refresh_run exec dt w =
     (case exec (''DELETE FROM '' @ dt_fqn dt) w of
        (w, Some e) \<Rightarrow> (w, Some (Wrap ''refresh failed (delete)'' e))
      | (w, None) \<Rightarrow>
          (case exec (''INSERT INTO '' @ dt_fqn dt @ '' '' @ dt_Query dt) w of
             (w, Some e) \<Rightarrow> (w, Some (Wrap ''refresh failed (insert)'' e))
           | (w, None) \<Rightarrow> (w, None)))"

definition refresh_commit :: "dt_Manager \<Rightarrow> time \<Rightarrow> duration \<Rightarrow> string \<Rightarrow> dt_Manager" where
  "refresh_commit m now lag key =
     (case dt_tables m key of
        None \<Rightarrow> m
      | Some dt \<Rightarrow> m\<lparr>dt_tables := (dt_tables m)(key \<mapsto>
          dt\<lparr>dt_LastRefresh := Some now, dt_NextRefresh := Some (now + lag)\<rparr>)\<rparr>)"

definition dt_Refresh ::
  "'w dt_exec \<Rightarrow> dt_Manager \<Rightarrow> time \<Rightarrow> string \<Rightarrow> string \<Rightarrow> string \<Rightarrow> 'w \<Rightarrow> 'w \<times> dt_Manager \<times> go_error option" where
  "dt_Refresh exec m now db schema name w =
     (let key = refresh_key db schema name
      in case dt_tables m key of
           None \<Rightarrow> (w, m, Some (DoesNotExist ''dynamic table'' key))
         | Some dt \<Rightarrow>
             (case refresh_run exec dt w of
                (w, Some e) \<Rightarrow> (w, m, Some e)
              | (w, None) \<Rightarrow> (w, refresh_commit m now (dt_TargetLag dt) key, None)))"

definition dt_Get :: "dt_Manager \<Rightarrow> string \<Rightarrow> string \<Rightarrow> string \<Rightarrow> DynamicTable result" where
  "dt_Get m db schema name =
     (let key = dt_tableKey db schema name
      in case dt_tables m key of None \<Rightarrow> Err (DoesNotExist ''dynamic table'' key) | Some dt \<Rightarrow> Ok dt)"

definition dt_Show :: "dt_Manager \<Rightarrow> string list \<Rightarrow> string \<Rightarrow> string \<Rightarrow> DynamicTableInfo list" where
  "dt_Show m ks db schema =
     (let prefix = ToUpper (db @ ''.'' @ schema @ ''.'')
      in map snd (filter (\<lambda>(key, dt). HasPrefix key prefix) (range_entries (dt_tables m) ks)))"

definition dt_start_one :: "dt_Manager \<Rightarrow> string \<Rightarrow> dt_Manager" where
  "dt_start_one m key = (if dt_stopChs m key = None then start_loop m key else m)"

definition dt_Start :: "dt_Manager \<Rightarrow> string list \<Rightarrow> dt_Manager" where
  "dt_Start m ks = foldl dt_start_one m ks"

definition dt_Stop :: "dt_Manager \<Rightarrow> string list \<Rightarrow> dt_Manager" where
  "dt_Stop m ks = foldl close_loop m ks"

subsection \<open>Loops\<close>

text \<open>
  What can happen: the calls of clients, a loop that refreshes its table after the lag, and a loop that ends
  because its channel is closed or its table is gone.
\<close>

inductive dt_step :: "'w dt_exec \<Rightarrow> dt_Manager \<Rightarrow> dt_Manager \<Rightarrow> bool" for exec :: "'w dt_exec" where
  create: "dt_Create exec m now db schema name query wh lag mode w = (w', Inr m') \<Longrightarrow> dt_step exec m m'"
| remove: "dt_Drop exec m db schema name w = (w', m', err) \<Longrightarrow> dt_step exec m m'"
| refresh: "dt_Refresh exec m now db schema name w = (w', m', err) \<Longrightarrow> dt_step exec m m'"
| start: "range_order (dt_tables m) ks \<Longrightarrow> dt_step exec m (dt_Start m ks)"
| stop: "range_order (dt_stopChs m) ks \<Longrightarrow> dt_step exec m (dt_Stop m ks)"
| tick: "dt_loops m ch = Some key \<Longrightarrow> dt_Refresh exec m now '''' '''' key w = (w', m', err) \<Longrightarrow> dt_step exec m m'"
| exit_loop: "dt_loops m ch = Some key \<Longrightarrow> ch \<in> dt_closed m \<or> dt_tables m key = None \<Longrightarrow>
    dt_step exec m (m\<lparr>dt_loops := (dt_loops m)(ch := None)\<rparr>)"

inductive dt_reachable :: "'w dt_exec \<Rightarrow> dt_Manager \<Rightarrow> bool" for exec :: "'w dt_exec" where
  init: "dt_reachable exec dt_NewManager"
| step: "dt_reachable exec m \<Longrightarrow> dt_step exec m m' \<Longrightarrow> dt_reachable exec m'"

text \<open>
  A registered channel is open and belongs to a table and to a running loop for its key; a running loop
  whose channel is open is the registered one of its key; channels are fresh.
\<close>

definition dt_registered :: "dt_Manager \<Rightarrow> string \<Rightarrow> nat \<Rightarrow> bool" where
  "dt_registered m key ch \<longleftrightarrow>
     ch < dt_next m \<and> ch \<notin> dt_closed m \<and> dt_loops m ch = Some key \<and> dt_tables m key \<noteq> None"

definition dt_loop_ok :: "dt_Manager \<Rightarrow> nat \<Rightarrow> string \<Rightarrow> bool" where
  "dt_loop_ok m ch key \<longleftrightarrow> ch < dt_next m \<and> (ch \<in> dt_closed m \<or> dt_stopChs m key = Some ch)"

definition dt_inv :: "dt_Manager \<Rightarrow> bool" where
  "dt_inv m \<longleftrightarrow>
     (\<forall>key ch. dt_stopChs m key = Some ch \<longrightarrow> dt_registered m key ch) \<and>
     (\<forall>ch key. dt_loops m ch = Some key \<longrightarrow> dt_loop_ok m ch key) \<and>
     (\<forall>ch \<in> dt_closed m. ch < dt_next m)"

lemmas dt_defs = dt_inv_def dt_registered_def dt_loop_ok_def

lemma dt_regD:
  assumes "dt_inv m" "dt_stopChs m key = Some ch"
  shows "ch < dt_next m" "ch \<notin> dt_closed m" "dt_loops m ch = Some key" "dt_tables m key \<noteq> None"
  using assms unfolding dt_defs by blast+

lemma dt_loopD:
  assumes "dt_inv m" "dt_loops m ch = Some key"
  shows "ch < dt_next m" "ch \<notin> dt_closed m \<Longrightarrow> dt_stopChs m key = Some ch"
  using assms unfolding dt_defs by blast+

lemma dt_closedD: "dt_inv m \<Longrightarrow> ch \<in> dt_closed m \<Longrightarrow> ch < dt_next m"
  unfolding dt_defs by blast

lemma dt_invI:
  assumes "\<And>key ch. dt_stopChs m key = Some ch \<Longrightarrow> dt_registered m key ch"
    and "\<And>ch key. dt_loops m ch = Some key \<Longrightarrow> dt_loop_ok m ch key"
    and "\<And>ch. ch \<in> dt_closed m \<Longrightarrow> ch < dt_next m"
  shows "dt_inv m"
  using assms by (simp add: dt_inv_def)

lemma start_loop_inv:
  assumes inv: "dt_inv m" and new: "dt_stopChs m key = None" "dt_tables m key \<noteq> None"
  shows "dt_inv (start_loop m key)"
proof (rule dt_invI, goal_cases)
  case (1 k c)
  show ?case
  proof (cases "k = key")
    case True
    with 1 new dt_closedD [OF inv, of "dt_next m"] show ?thesis by (auto simp: start_loop_def dt_registered_def)
  next
    case False
    with 1 have k: "dt_stopChs m k = Some c" by (simp add: start_loop_def)
    with dt_regD [OF inv k] show ?thesis by (auto simp: start_loop_def dt_registered_def)
  qed
next
  case (2 c k)
  show ?case
  proof (cases "c = dt_next m")
    case True
    with 2 show ?thesis by (simp add: start_loop_def dt_loop_ok_def)
  next
    case False
    with 2 have l: "dt_loops m c = Some k" by (simp add: start_loop_def)
    show ?thesis using dt_loopD [OF inv l] new by (cases "c \<in> dt_closed m") (auto simp: start_loop_def dt_loop_ok_def)
  qed
next
  case (3 c)
  then show ?case using dt_closedD [OF inv, of c] by (auto simp: start_loop_def)
qed

lemma close_loop_inv:
  assumes inv: "dt_inv m"
  shows "dt_inv (close_loop m key)"
proof (cases "dt_stopChs m key")
  case (Some ch)
  show ?thesis
  proof (rule dt_invI, goal_cases)
    case (1 k c)
    then have k: "dt_stopChs m k = Some c" "k \<noteq> key" using Some by (auto simp: close_loop_def split: if_splits)
    moreover have "c \<noteq> ch" using dt_regD(3) [OF inv k(1)] dt_regD(3) [OF inv Some] k(2) by auto
    ultimately show ?case using Some dt_regD [OF inv k(1)] by (auto simp: close_loop_def dt_registered_def)
  next
    case (2 c k)
    then have l: "dt_loops m c = Some k" using Some by (simp add: close_loop_def)
    with dt_loopD [OF inv l] Some show ?case by (auto simp: close_loop_def dt_loop_ok_def)
  next
    case (3 c)
    then show ?case using Some dt_closedD [OF inv, of c] dt_regD(1) [OF inv Some] by (auto simp: close_loop_def)
  qed
qed (use inv in \<open>simp add: close_loop_def\<close>)

lemma close_loop_simps [simp]:
  "dt_stopChs (close_loop m key) key = None" "dt_tables (close_loop m key) = dt_tables m"
  by (auto simp: close_loop_def split: option.split)

lemma start_loop_tables [simp]: "dt_tables (start_loop m key) = dt_tables m"
  by (simp add: start_loop_def)

lemma tables_inv:
  assumes "dt_inv m" "dt_stopChs m key = None \<or> x \<noteq> None"
  shows "dt_inv (m\<lparr>dt_tables := (dt_tables m)(key := x)\<rparr>)"
  using assms by (auto simp: dt_defs)

lemma dt_inv_unregistered: "dt_inv m \<Longrightarrow> dt_tables m key = None \<Longrightarrow> dt_stopChs m key = None"
  using dt_regD(4) by (metis not_None_eq)

lemma dt_Refresh_inv:
  assumes inv: "dt_inv m" and r: "dt_Refresh exec m now db schema name w = (w', m', err)"
  shows "dt_inv m'"
proof (cases "m' = m")
  case False
  then obtain lag where "m' = refresh_commit m now lag (refresh_key db schema name)"
    using r by (auto simp: dt_Refresh_def Let_def split: option.splits prod.splits)
  with tables_inv [OF inv] show ?thesis by (auto simp: refresh_commit_def inv split: option.splits)
qed (use inv in simp)

lemma dt_Start_inv:
  "dt_inv m \<Longrightarrow> (\<And>k. k \<in> set ks \<Longrightarrow> dt_tables m k \<noteq> None) \<Longrightarrow> dt_inv (dt_Start m ks)"
proof (induction ks arbitrary: m)
  case (Cons k ks)
  have "dt_inv (dt_start_one m k)"
    using Cons.prems start_loop_inv [of m k] by (auto simp: dt_start_one_def)
  moreover have "dt_tables (dt_start_one m k) = dt_tables m" by (simp add: dt_start_one_def)
  ultimately show ?case using Cons.IH [of "dt_start_one m k"] Cons.prems by (simp add: dt_Start_def)
qed (simp add: dt_Start_def)

lemma dt_Stop_inv: "dt_inv m \<Longrightarrow> dt_inv (dt_Stop m ks)"
  unfolding dt_Stop_def by (induction ks arbitrary: m) (auto intro: close_loop_inv)

lemma dt_step_inv:
  assumes "dt_step exec m m'" and inv: "dt_inv m"
  shows "dt_inv m'"
  using assms(1)
proof cases
  case (create now db schema name query wh lag mode w w')
  let ?key = "dt_tableKey db schema name"
  from create obtain dt where new: "dt_tables m ?key = None"
    and m': "m' = start_loop (m\<lparr>dt_tables := (dt_tables m)(?key \<mapsto> dt)\<rparr>) ?key"
    by (auto simp: dt_Create_def Let_def split: if_splits prod.splits option.splits)
  have "dt_stopChs m ?key = None" using dt_inv_unregistered [OF inv new] .
  with tables_inv [OF inv] show ?thesis unfolding m' by (intro start_loop_inv) auto
next
  case (remove db schema name w w' err)
  let ?key = "dt_tableKey db schema name"
  from remove have "m' = m \<or> m' = close_loop m ?key \<or>
      m' = (close_loop m ?key)\<lparr>dt_tables := (dt_tables m)(?key := None)\<rparr>"
    by (auto simp: dt_Drop_def Let_def split: prod.splits option.splits)
  then show ?thesis
    using inv close_loop_inv [OF inv, of ?key] tables_inv [OF close_loop_inv [OF inv, of ?key], of ?key None] by auto
next
  case (start ks)
  then show ?thesis using dt_Start_inv [OF inv, of ks] by (auto simp: range_order_def)
next
  case (exit_loop ch key)
  have free: "dt_stopChs m k \<noteq> Some ch" for k
  proof
    assume k: "dt_stopChs m k = Some ch"
    with dt_regD(3) [OF inv k] exit_loop(2) have "k = key" by simp
    with dt_regD(2,4) [OF inv k] exit_loop(3) show False by simp
  qed
  show ?thesis unfolding exit_loop(1)
  proof (rule dt_invI, goal_cases)
    case (1 k c)
    then have k: "dt_stopChs m k = Some c" by simp
    with free [of k] dt_regD [OF inv k] show ?case by (auto simp: dt_registered_def)
  next
    case (2 c k)
    then have l: "dt_loops m c = Some k" by (simp split: if_splits)
    with dt_loopD [OF inv l] show ?case by (auto simp: dt_loop_ok_def)
  next
    case (3 c)
    with dt_closedD [OF inv] show ?case by simp
  qed
qed (use inv dt_Refresh_inv dt_Stop_inv in auto)

lemma dt_reachable_inv: "dt_reachable exec m \<Longrightarrow> dt_inv m"
proof (induction rule: dt_reachable.induct)
  case init
  show ?case by (simp add: dt_defs dt_NewManager_def)
qed (rule dt_step_inv)

text \<open>
  C36. Whatever the clients and the loops do, in any order and with statements that fail or not: a table has at
  most one refresh loop that has not been told to stop, namely the one whose stop channel the manager
  holds, that loop is running, and no such loop outlives its table.
\<close>

theorem dynamic_loops_exact:
  assumes "dt_reachable exec m" "ch \<notin> dt_closed m"
  shows "(dt_loops m ch = Some key \<longleftrightarrow> dt_stopChs m key = Some ch) \<and>
    (dt_loops m ch = Some key \<longrightarrow> (\<exists>dt. dt_tables m key = Some dt))"
proof -
  note inv = dt_reachable_inv [OF assms(1)]
  show ?thesis using dt_regD(3,4) [OF inv] dt_loopD(2) [OF inv] assms(2) by blast
qed

definition sample_dt_exec :: "unit dt_exec" where
  "sample_dt_exec sql w = (w, if HasPrefix sql ''DROP'' then Some (ExecError ''locked'') else None)"

definition sample_dt :: dt_Manager where
  "sample_dt =
     start_loop (dt_NewManager\<lparr>dt_tables :=
       [''D.S.T'' \<mapsto> new_dynamic_table 10 ''d'' ''s'' ''t'' ''SELECT 1'' ''wh'' 60 ''AUTO'']\<rparr>) ''D.S.T''"

lemma sample_dt_create:
  "dt_Create sample_dt_exec dt_NewManager 10 ''d'' ''s'' ''t'' ''SELECT 1'' ''wh'' 60 ''AUTO'' () = ((), Ok sample_dt)"
proof -
  have k: "dt_tableKey ''d'' ''s'' ''t'' = ''D.S.T''" by code_simp
  show ?thesis unfolding dt_Create_def k by (simp add: sample_dt_def sample_dt_exec_def dt_NewManager_def HasPrefix_def Let_def)
qed

theorem dynamic_loops_exact_witness:
  "dt_reachable sample_dt_exec sample_dt \<and> dt_loops sample_dt 0 = Some ''D.S.T'' \<and> dt_stopChs sample_dt ''D.S.T'' = Some 0"
proof -
  have r: "dt_reachable sample_dt_exec sample_dt"
    using dt_reachable.step [OF dt_reachable.init dt_step.create [OF sample_dt_create]] .
  have "0 \<notin> dt_closed sample_dt" "dt_loops sample_dt 0 = Some ''D.S.T''"
    by (simp_all add: sample_dt_def start_loop_def dt_NewManager_def)
  with dynamic_loops_exact [OF r, of 0 "''D.S.T''"] r show ?thesis by simp
qed

text \<open>A drop that the engine refuses stops the loop of a table that stays registered: it is not refreshed any more.\<close>

lemma failed_drop_stops_loop:
  "\<exists>e. dt_Drop sample_dt_exec sample_dt ''d'' ''s'' ''t'' () = ((), close_loop sample_dt ''D.S.T'', Some e)"
  "dt_tables (close_loop sample_dt ''D.S.T'') ''D.S.T'' \<noteq> None" "dt_stopChs (close_loop sample_dt ''D.S.T'') ''D.S.T'' = None"
proof -
  have k: "dt_tableKey ''d'' ''s'' ''t'' = ''D.S.T''" by code_simp
  show "\<exists>e. dt_Drop sample_dt_exec sample_dt ''d'' ''s'' ''t'' () = ((), close_loop sample_dt ''D.S.T'', Some e)"
    unfolding dt_Drop_def k
    by (simp add: sample_dt_exec_def sample_dt_def start_loop_def dt_NewManager_def HasPrefix_def Let_def)
qed (simp_all add: sample_dt_def start_loop_def dt_NewManager_def)

end
