(* ===== verification/Matview.thy ===== *)
theory Matview
  imports Registry
begin

text \<open>
  Materialized views (\<^verbatim>\<open>matview/matview.go\<close>): a view is a table created from its query, refreshed by dropping and
  creating it again. \<open>exec\<close> runs a statement and \<open>query\<close>, when there is one, returns the columns of a query.
  The context that a background refresh runs under is a number; cancelling it removes the number from
  \<open>mv_active\<close>, and a loop whose context is not active ends.
\<close>

record MaterializedView =
  mv_Name :: string
  mv_Database :: string
  mv_Schema :: string
  mv_Query :: string
  mv_Columns :: "string list"
  mv_LastRefresh :: "time option"
  mv_IsSecure :: bool
  mv_ClusterBy :: "string list"
  mv_CreatedAt :: time

record MaterializedViewInfo =
  mvi_Name :: string
  mvi_Database :: string
  mvi_Schema :: string
  mvi_Query :: string
  mvi_IsSecure :: bool
  mvi_ClusterBy :: "string list"
  mvi_LastRefresh :: "time option"
  mvi_CreatedAt :: time

record mv_Manager =
  mv_views :: "string \<rightharpoonup> MaterializedView"
  mv_cancel :: "nat option"
  mv_active :: "nat set"
  mv_nextCtx :: nat

type_synonym 'w mv_exec = "string \<Rightarrow> 'w \<Rightarrow> 'w \<times> go_error option"
type_synonym 'w mv_query = "(string \<Rightarrow> 'w \<Rightarrow> 'w \<times> string list result) option"

definition mv_qualifiedName :: "string \<Rightarrow> string \<Rightarrow> string \<Rightarrow> string" where
  "mv_qualifiedName db schema name = dotted (ToUpper db) (ToUpper schema) (ToUpper name)"

definition mv_NewManager :: mv_Manager where
  "mv_NewManager = \<lparr>mv_views = Map.empty, mv_cancel = None, mv_active = {}, mv_nextCtx = 0\<rparr>"

definition discover_columns :: "'w mv_query \<Rightarrow> string \<Rightarrow> 'w \<Rightarrow> 'w \<times> string list" where
  "discover_columns query tableName w =
     (case query of
        None \<Rightarrow> (w, [])
      | Some q \<Rightarrow>
          (case q (''SELECT * FROM '' @ tableName @ '' LIMIT 0'') w of (w, Inl _) \<Rightarrow> (w, []) | (w, Inr cols) \<Rightarrow> (w, cols)))"

definition create_backing :: "string \<Rightarrow> string \<Rightarrow> string" where
  "create_backing tableName query = ''CREATE TABLE '' @ tableName @ '' AS ('' @ query @ '')''"

definition drop_backing :: "string \<Rightarrow> string" where
  "drop_backing tableName = ''DROP TABLE IF EXISTS '' @ tableName"

definition new_view :: "time \<Rightarrow> string \<Rightarrow> string \<Rightarrow> string \<Rightarrow> string \<Rightarrow> string list \<Rightarrow> bool \<Rightarrow> string list \<Rightarrow> MaterializedView" where
  "new_view now db schema name query columns isSecure clusterBy =
     \<lparr>mv_Name = ToUpper name, mv_Database = ToUpper db, mv_Schema = ToUpper schema, mv_Query = query,
      mv_Columns = columns, mv_LastRefresh = Some now, mv_IsSecure = isSecure, mv_ClusterBy = clusterBy,
      mv_CreatedAt = now\<rparr>"

definition mv_Create ::
  "'w mv_exec \<Rightarrow> 'w mv_query \<Rightarrow> mv_Manager \<Rightarrow> time \<Rightarrow> string \<Rightarrow> string \<Rightarrow> string \<Rightarrow> string \<Rightarrow> bool \<Rightarrow> string list \<Rightarrow> 'w \<Rightarrow>
     'w \<times> mv_Manager result"
where
  "mv_Create exec query m now db schema name sel isSecure clusterBy w =
     (let key = mv_qualifiedName db schema name
      in if mv_views m key \<noteq> None then (w, Err (AlreadyExists ''materialized view'' key))
         else (case exec (create_backing key sel) w of
           (w, Some e) \<Rightarrow> (w, Err (Wrap ''failed to materialize view'' e))
         | (w, None) \<Rightarrow>
             (let (w, columns) = discover_columns query key w
              in (w, Ok (m\<lparr>mv_views := (mv_views m)(key \<mapsto>
                    new_view now db schema name sel columns isSecure clusterBy)\<rparr>)))))"

definition mv_Drop ::
  "'w mv_exec \<Rightarrow> mv_Manager \<Rightarrow> string \<Rightarrow> string \<Rightarrow> string \<Rightarrow> 'w \<Rightarrow> 'w \<times> mv_Manager result" where
  "mv_Drop exec m db schema name w =
     (let key = mv_qualifiedName db schema name
      in if mv_views m key = None then (w, Err (DoesNotExist ''materialized view'' key))
         else (case exec (drop_backing key) w of
           (w, Some e) \<Rightarrow> (w, Err (Wrap ''failed to drop backing table'' e))
         | (w, None) \<Rightarrow> (w, Ok (m\<lparr>mv_views := (mv_views m)(key := None)\<rparr>))))"

definition mv_Refresh ::
  "'w mv_exec \<Rightarrow> mv_Manager \<Rightarrow> time \<Rightarrow> string \<Rightarrow> string \<Rightarrow> string \<Rightarrow> 'w \<Rightarrow> 'w \<times> mv_Manager result" where
  "mv_Refresh exec m now db schema name w =
     (let key = mv_qualifiedName db schema name
      in case mv_views m key of
           None \<Rightarrow> (w, Err (DoesNotExist ''materialized view'' key))
         | Some mv \<Rightarrow>
             (case exec (drop_backing key) w of
                (w, Some e) \<Rightarrow> (w, Err (Wrap ''failed to drop table during refresh'' e))
              | (w, None) \<Rightarrow>
                  (case exec (create_backing key (mv_Query mv)) w of
                     (w, Some e) \<Rightarrow> (w, Err (Wrap ''failed to recreate table during refresh'' e))
                   | (w, None) \<Rightarrow>
                       (w, Ok (m\<lparr>mv_views := (mv_views m)(key \<mapsto> mv\<lparr>mv_LastRefresh := Some now\<rparr>)\<rparr>)))))"

definition mv_Get :: "mv_Manager \<Rightarrow> string \<Rightarrow> string \<Rightarrow> string \<Rightarrow> MaterializedView result" where
  "mv_Get m db schema name =
     (let key = mv_qualifiedName db schema name
      in case mv_views m key of None \<Rightarrow> Err (DoesNotExist ''materialized view'' key) | Some mv \<Rightarrow> Ok mv)"

definition mv_info :: "MaterializedView \<Rightarrow> MaterializedViewInfo" where
  "mv_info mv =
     \<lparr>mvi_Name = mv_Name mv, mvi_Database = mv_Database mv, mvi_Schema = mv_Schema mv, mvi_Query = mv_Query mv,
      mvi_IsSecure = mv_IsSecure mv, mvi_ClusterBy = mv_ClusterBy mv, mvi_LastRefresh = mv_LastRefresh mv,
      mvi_CreatedAt = mv_CreatedAt mv\<rparr>"

definition mv_Show :: "mv_Manager \<Rightarrow> string list \<Rightarrow> string \<Rightarrow> string \<Rightarrow> MaterializedViewInfo list" where
  "mv_Show m ks db schema =
     (let prefix = ToUpper db @ ''.'' @ ToUpper schema @ ''.''
      in map (mv_info \<circ> snd) (filter (\<lambda>(key, mv). HasPrefix key prefix) (range_entries (mv_views m) ks)))"

subsection \<open>Background refresh\<close>

definition StartAutoRefresh :: "mv_Manager \<Rightarrow> mv_Manager" where
  "StartAutoRefresh m =
     m\<lparr>mv_active := insert (mv_nextCtx m) (case mv_cancel m of None \<Rightarrow> mv_active m | Some c \<Rightarrow> mv_active m - {c}),
       mv_cancel := Some (mv_nextCtx m), mv_nextCtx := Suc (mv_nextCtx m)\<rparr>"

text \<open>
  A tick copies the names under the lock and refreshes the views one by one without it; a refresh that
  fails is ignored. \<open>clock\<close> gives the time of each refresh.
\<close>

fun refresh_each ::
  "'w mv_exec \<Rightarrow> (nat \<Rightarrow> time) \<Rightarrow> nat \<Rightarrow> MaterializedView list \<Rightarrow> mv_Manager \<Rightarrow> 'w \<Rightarrow> 'w \<times> mv_Manager" where
  "refresh_each exec clock i [] m w = (w, m)"
| "refresh_each exec clock i (mv # mvs) m w =
     (case mv_Refresh exec m (clock i) (mv_Database mv) (mv_Schema mv) (mv_Name mv) w of
        (w, Inl _) \<Rightarrow> refresh_each exec clock (Suc i) mvs m w
      | (w, Inr m) \<Rightarrow> refresh_each exec clock (Suc i) mvs m w)"

definition refresh_tick :: "'w mv_exec \<Rightarrow> (nat \<Rightarrow> time) \<Rightarrow> mv_Manager \<Rightarrow> string list \<Rightarrow> 'w \<Rightarrow> 'w \<times> mv_Manager" where
  "refresh_tick exec clock m ks w = refresh_each exec clock 0 (range_values (mv_views m) ks) m w"

subsection \<open>Properties\<close>

text \<open>A view is filed under the key of its own names, so the tick refreshes the view it read.\<close>

definition mv_inv :: "mv_Manager \<Rightarrow> bool" where
  "mv_inv m \<longleftrightarrow> (\<forall>k v. mv_views m k = Some v \<longrightarrow> k = mv_qualifiedName (mv_Database v) (mv_Schema v) (mv_Name v)) \<and>
     mv_active m = set_option (mv_cancel m) \<and> (\<forall>c \<in> mv_active m. c < mv_nextCtx m)"

lemma mv_key_upper [simp]:
  "mv_qualifiedName (ToUpper db) (ToUpper schema) (ToUpper name) = mv_qualifiedName db schema name"
  by (simp add: mv_qualifiedName_def)

lemma mv_Create_inv: "mv_inv m \<Longrightarrow> mv_Create exec q m now db schema name sel sec cl w = (w', Ok m') \<Longrightarrow> mv_inv m'"
  by (auto simp: mv_Create_def mv_inv_def new_view_def Let_def split: if_splits prod.splits option.splits)

lemma mv_Drop_inv: "mv_inv m \<Longrightarrow> mv_Drop exec m db schema name w = (w', Ok m') \<Longrightarrow> mv_inv m'"
  by (auto simp: mv_Drop_def mv_inv_def Let_def split: if_splits prod.splits option.splits)

lemma mv_Refresh_inv: "mv_inv m \<Longrightarrow> mv_Refresh exec m now db schema name w = (w', Ok m') \<Longrightarrow> mv_inv m'"
  by (auto simp: mv_Refresh_def mv_inv_def Let_def split: if_splits prod.splits option.splits)

lemma StartAutoRefresh_inv: "mv_inv m \<Longrightarrow> mv_inv (StartAutoRefresh m)"
  by (auto simp: StartAutoRefresh_def mv_inv_def split: option.splits)

text \<open>At most one background refresh is active, the one started last.\<close>

lemma one_refresher: "mv_inv m \<Longrightarrow> mv_active (StartAutoRefresh m) = {mv_nextCtx m}"
  by (auto simp: StartAutoRefresh_def mv_inv_def split: option.splits)

lemma mv_create_then_get:
  "mv_Create exec q m now db schema name sel sec cl w = (w', Ok m') \<Longrightarrow>
     \<exists>columns. mv_Get m' db schema name = Ok (new_view now db schema name sel columns sec cl)"
  by (auto simp: mv_Create_def mv_Get_def Let_def split: if_splits prod.splits option.splits)

text \<open>
  A refresh whose CREATE fails has dropped the table already: the view stays registered without a table. The
  world here tells whether the table exists.
\<close>

definition sample_mv_exec :: "bool mv_exec" where
  "sample_mv_exec sql w =
     (if HasPrefix sql ''DROP'' then (False, None) else (w, Some (ExecError ''source table missing'')))"

lemma failed_refresh_loses_table:
  assumes "mv_views m (mv_qualifiedName db schema name) = Some mv"
  shows "\<exists>e. mv_Refresh sample_mv_exec m now db schema name True = (False, Err e)"
  using assms by (simp add: mv_Refresh_def sample_mv_exec_def drop_backing_def create_backing_def HasPrefix_def Let_def)

end
