(* ===== verification/Extfunc.thy ===== *)
theory Extfunc
  imports Registry
begin

text \<open>
  External functions (\<^verbatim>\<open>extfunc/extfunc.go\<close>): the registry of API integrations and functions, and the call of
  a function. \<open>marshal\<close>, \<open>unmarshal\<close> (JSON) and \<open>http\<close> (a POST with the given headers, which returns the
  status and the body) are arguments of \<open>extfunc_Call\<close>; values are of a type \<open>'v\<close> with \<open>of_index\<close> for row
  numbers and \<open>null\<close> for nil.
\<close>

record FuncArg =
  fa_Name :: string
  fa_Type :: string

record ExternalFunction =
  ef_Name :: string
  ef_Database :: string
  ef_Schema :: string
  ef_Args :: "FuncArg list"
  ef_ReturnType :: string
  ef_APIIntegration :: string
  ef_URL :: string
  ef_Headers :: "string \<rightharpoonup> string"
  ef_MaxBatchRows :: int
  ef_Compression :: string
  ef_CreatedAt :: time

record APIIntegration =
  api_Name :: string
  api_APIProvider :: string
  api_APIURL :: string
  api_APIKey :: string
  api_Enabled :: bool
  api_CreatedAt :: time

record FunctionInfo =
  fni_Name :: string
  fni_Database :: string
  fni_Schema :: string
  fni_ReturnType :: string
  fni_APIIntegration :: string
  fni_CreatedAt :: time

record IntegrationInfo =
  ini_Name :: string
  ini_APIProvider :: string
  ini_APIURL :: string
  ini_Enabled :: bool
  ini_CreatedAt :: time

record ext_Manager =
  ext_functions :: "string \<rightharpoonup> ExternalFunction"
  ext_integrations :: "string \<rightharpoonup> APIIntegration"

definition ext_NewManager :: ext_Manager where
  "ext_NewManager = \<lparr>ext_functions = Map.empty, ext_integrations = Map.empty\<rparr>"

definition funcKey :: "string \<Rightarrow> string \<Rightarrow> string \<Rightarrow> string" where
  "funcKey db schema name = ToUpper (dotted db schema name)"

definition new_integration :: "time \<Rightarrow> string \<Rightarrow> string \<Rightarrow> string \<Rightarrow> string \<Rightarrow> APIIntegration" where
  "new_integration now name provider url key =
     \<lparr>api_Name = name, api_APIProvider = provider, api_APIURL = url, api_APIKey = key, api_Enabled = True,
      api_CreatedAt = now\<rparr>"

definition CreateIntegration :: "ext_Manager \<Rightarrow> time \<Rightarrow> string \<Rightarrow> string \<Rightarrow> string \<Rightarrow> string \<Rightarrow> ext_Manager result" where
  "CreateIntegration m now name provider url key =
     (if name = '''' then Err (Invalid ''integration'' ''name cannot be empty'')
      else if ext_integrations m name \<noteq> None then Err (AlreadyExists ''integration'' name)
      else Ok (m\<lparr>ext_integrations := (ext_integrations m)(name \<mapsto> new_integration now name provider url key)\<rparr>))"

definition DropIntegration :: "ext_Manager \<Rightarrow> string \<Rightarrow> ext_Manager result" where
  "DropIntegration m name =
     (if ext_integrations m name = None then Err (DoesNotExist ''integration'' name)
      else Ok (m\<lparr>ext_integrations := (ext_integrations m)(name := None)\<rparr>))"

definition new_function ::
  "time \<Rightarrow> string \<Rightarrow> string \<Rightarrow> string \<Rightarrow> FuncArg list \<Rightarrow> string \<Rightarrow> string \<Rightarrow> string \<Rightarrow> ExternalFunction" where
  "new_function now db schema name args returnType integration url =
     \<lparr>ef_Name = name, ef_Database = db, ef_Schema = schema, ef_Args = args, ef_ReturnType = returnType,
      ef_APIIntegration = integration, ef_URL = url, ef_Headers = Map.empty, ef_MaxBatchRows = 100,
      ef_Compression = ''NONE'', ef_CreatedAt = now\<rparr>"

definition CreateFunction ::
  "ext_Manager \<Rightarrow> time \<Rightarrow> string \<Rightarrow> string \<Rightarrow> string \<Rightarrow> FuncArg list \<Rightarrow> string \<Rightarrow> string \<Rightarrow> string \<Rightarrow> ext_Manager result"
where
  "CreateFunction m now db schema name args returnType integration url =
     (let key = funcKey db schema name
      in if ext_functions m key \<noteq> None then Err (AlreadyExists ''function'' key)
         else if ext_integrations m integration = None then Err (DoesNotExist ''integration'' integration)
         else Ok (m\<lparr>ext_functions := (ext_functions m)(key \<mapsto>
                new_function now db schema name args returnType integration url)\<rparr>))"

definition DropFunction :: "ext_Manager \<Rightarrow> string \<Rightarrow> string \<Rightarrow> string \<Rightarrow> ext_Manager result" where
  "DropFunction m db schema name =
     (let key = funcKey db schema name
      in if ext_functions m key = None then Err (DoesNotExist ''function'' key)
         else Ok (m\<lparr>ext_functions := (ext_functions m)(key := None)\<rparr>))"

subsection \<open>Calls\<close>

definition numbered :: "(nat \<Rightarrow> 'v) \<Rightarrow> 'v list list \<Rightarrow> 'v list list" where
  "numbered of_index args = map (\<lambda>(i, row). of_index i # row) (List.enumerate 0 args)"

definition row_value :: "'v \<Rightarrow> 'v list \<Rightarrow> 'v" where
  "row_value null row = (if length row \<ge> 2 then row ! 1 else null)"

text \<open>The headers in the order they are set; a header of the function overrides the ones before.\<close>

definition call_headers :: "string \<Rightarrow> (string \<times> string) list \<Rightarrow> (string \<times> string) list" where
  "call_headers apiKey headers =
     (''Content-Type'', ''application/json'') #
     (if apiKey \<noteq> '''' then [(''sf-custom-api-key'', apiKey)] else []) @ headers"

definition extfunc_Call ::
  "('v list list \<Rightarrow> string result) \<Rightarrow> (string \<Rightarrow> 'v list list result) \<Rightarrow>
   (string \<Rightarrow> (string \<times> string) list \<Rightarrow> string \<Rightarrow> 'w \<Rightarrow> 'w \<times> (int \<times> string) result) \<Rightarrow> (nat \<Rightarrow> 'v) \<Rightarrow> 'v \<Rightarrow>
   ext_Manager \<Rightarrow> string list \<Rightarrow> string \<Rightarrow> string \<Rightarrow> string \<Rightarrow> 'v list list \<Rightarrow> 'w \<Rightarrow> 'w \<times> 'v list result"
where
  "extfunc_Call marshal unmarshal http of_index null m hs db schema name args w =
     (let key = funcKey db schema name
      in case ext_functions m key of
           None \<Rightarrow> (w, Err (DoesNotExist ''function'' key))
         | Some fn \<Rightarrow>
             (case ext_integrations m (ef_APIIntegration fn) of
                None \<Rightarrow> (w, Err (DoesNotExist ''integration'' (ef_APIIntegration fn)))
              | Some integration \<Rightarrow>
                  (let fullURL = (if ef_URL fn = '''' then api_APIURL integration else ef_URL fn)
                   in case marshal (numbered of_index args) of
                        Inl e \<Rightarrow> (w, Err (Wrap ''failed to marshal request'' e))
                      | Inr body \<Rightarrow>
                          (case http fullURL (call_headers (api_APIKey integration) (range_entries (ef_Headers fn) hs)) body w of
                             (w, Inl e) \<Rightarrow> (w, Err (Wrap ''external function call failed'' e))
                           | (w, Inr (status, respBody)) \<Rightarrow>
                               (if status \<noteq> 200 then (w, Err (Invalid ''external function returned status'' respBody))
                                else (case unmarshal respBody of
                                  Inl e \<Rightarrow> (w, Err (Wrap ''failed to unmarshal response'' e))
                                | Inr rows \<Rightarrow> (w, Ok (map (row_value null) rows))))))))"

definition ext_info :: "ExternalFunction \<Rightarrow> FunctionInfo" where
  "ext_info fn =
     \<lparr>fni_Name = ef_Name fn, fni_Database = ef_Database fn, fni_Schema = ef_Schema fn,
      fni_ReturnType = ef_ReturnType fn, fni_APIIntegration = ef_APIIntegration fn, fni_CreatedAt = ef_CreatedAt fn\<rparr>"

definition ShowFunctions :: "ext_Manager \<Rightarrow> string list \<Rightarrow> string \<Rightarrow> string \<Rightarrow> FunctionInfo list" where
  "ShowFunctions m ks db schema =
     (let prefix = ToUpper (db @ ''.'' @ schema @ ''.'')
      in map (ext_info \<circ> snd) (filter (\<lambda>(key, fn). HasPrefix key prefix) (range_entries (ext_functions m) ks)))"

definition api_info :: "APIIntegration \<Rightarrow> IntegrationInfo" where
  "api_info a =
     \<lparr>ini_Name = api_Name a, ini_APIProvider = api_APIProvider a, ini_APIURL = api_APIURL a,
      ini_Enabled = api_Enabled a, ini_CreatedAt = api_CreatedAt a\<rparr>"

definition ShowIntegrations :: "ext_Manager \<Rightarrow> string list \<Rightarrow> IntegrationInfo list" where
  "ShowIntegrations m ks = map api_info (range_values (ext_integrations m) ks)"

subsection \<open>Properties\<close>

definition create_integration :: "ext_Manager \<Rightarrow> string \<Rightarrow> time \<times> string \<times> string \<times> string \<Rightarrow> ext_Manager result" where
  "create_integration m name a = (case a of (now, provider, url, key) \<Rightarrow> CreateIntegration m now name provider url key)"

definition integration_entry :: "string \<Rightarrow> time \<times> string \<times> string \<times> string \<Rightarrow> APIIntegration" where
  "integration_entry name a = (case a of (now, provider, url, key) \<Rightarrow> new_integration now name provider url key)"

interpretation integrations_reg: registry ext_integrations create_integration DropIntegration "\<lambda>n. n" integration_entry
    "\<lambda>n _. n \<noteq> ''''"
  by unfold_locales
    (auto simp: create_integration_def integration_entry_def CreateIntegration_def DropIntegration_def split: if_splits)

text \<open>
  Any history of creating and dropping integrations acts like the same history on a map, and leaves the
  functions alone: a function outlives its integration, and a call of it then reports the missing one.
\<close>

lemma integrations_refine_map:
  "ext_integrations (reg_run create_integration DropIntegration m ops) =
     spec_run (\<lambda>n. n) integration_entry (\<lambda>n _. n \<noteq> '''') (ext_integrations m) ops"
  by (rule integrations_reg.run_refines_spec)

lemma call_without_integration:
  assumes "ext_functions m (funcKey db schema name) = Some fn" "ext_integrations m (ef_APIIntegration fn) = None"
  shows "extfunc_Call marshal unmarshal http of_index null m hs db schema name args w =
     (w, Err (DoesNotExist ''integration'' (ef_APIIntegration fn)))"
  using assms by (simp add: extfunc_Call_def)

text \<open>The answer decides how many values come back: nothing relates them to the rows that were sent.\<close>

lemma call_results_follow_answer:
  assumes "extfunc_Call marshal unmarshal http of_index null m hs db schema name args w = (w', Ok values)"
  shows "\<exists>body rows. unmarshal body = Ok rows \<and> values = map (row_value null) rows"
  using assms by (auto simp: extfunc_Call_def Let_def split: option.splits sum.splits prod.splits if_splits)

end
