(* ===== verification/Orch_Env.thy ===== *)
theory Orch_Env
  imports Session Stage Timetravel Engine Copyinto Cron
begin

text \<open>
  What the statement handlers of \<^verbatim>\<open>internal/orchestrator\<close> share: the result of a statement, the small helpers
  on identifiers, and the surroundings the handlers run in. \<open>orch_env\<close> collects them: the DuckDB driver, the
  file system, the clock and the library calls whose formats come from outside. Everything a handler does to
  the outside is a change of the world \<open>'w\<close>; \<^verbatim>\<open>time.Now()\<close> reads the world. \<open>order_of\<close> is the order in which
  a range loop visits the map that it names.
\<close>

text \<open>A cell of a result is a value of \<^verbatim>\<open>interface{}\<close>: built by a handler, or a value \<open>'v\<close> the driver returned.\<close>

datatype 'v qcell = CStr string | CInt int | CBool bool | CTime time | CNull | CDriver 'v

record 'v QueryResult =
  qr_Columns :: "string list"
  qr_Rows :: "'v qcell list list"
  qr_RowsAffected :: int
  qr_StatementType :: string

record ('w, 'h, 'v) orch_env =
  drv :: "('w, 'v) driver"
  fsys :: "('w, 'h) stage_os"
  os_Stat :: "string \<Rightarrow> 'w \<Rightarrow> string + int"
  now_of :: "'w \<Rightarrow> time"
  order_of :: "string \<Rightarrow> 'w \<Rightarrow> string list"
  option_order :: "(string \<rightharpoonup> string) \<Rightarrow> string list \<times> string list"
  url_Path :: "string \<Rightarrow> string + string"
  err_text :: "go_error \<Rightarrow> string"
  Parse_RFC3339 :: "string \<Rightarrow> string + time"
  list_time :: "time \<Rightarrow> string"
  load_zone :: "string \<Rightarrow> Location result"

subsection \<open>The surroundings as the subsystems see them\<close>

text \<open>The callbacks that \<^verbatim>\<open>cmd/miniflake/main.go\<close> installs run statements through the engine and keep the error only.\<close>

definition exec_error :: "('w, 'h, 'v) orch_env \<Rightarrow> string \<Rightarrow> 'w \<Rightarrow> 'w \<times> go_error option" where
  "exec_error env sql w =
     (case ExecNoResult (drv env) sql w of (w, Inl e) \<Rightarrow> (w, Some e) | (w, Inr _) \<Rightarrow> (w, None))"

definition pipe_exec :: "('w, 'h, 'v) orch_env \<Rightarrow> string \<Rightarrow> 'w \<Rightarrow> 'w \<times> string option" where
  "pipe_exec env sql w = map_prod id (map_option (err_text env)) (exec_error env sql w)"

definition copy_exec :: "('w, 'h, 'v) orch_env \<Rightarrow> string \<Rightarrow> 'w \<Rightarrow> 'w \<times> (string + int)" where
  "copy_exec env sql w = map_prod id (map_sum (err_text env) id) (ExecNoResult (drv env) sql w)"

text \<open>The time travel engine works on the same file system, and exports through the query engine.\<close>

definition tt_env :: "('w, 'h, 'v) orch_env \<Rightarrow> 'w tt_os" where
  "tt_env env =
     \<lparr>MkdirAll = (\<lambda>p w. map_prod id (map_option ExecError) (os_MkdirAll (fsys env) p w)),
      RemoveAll = (\<lambda>p w. map_prod id (map_option ExecError) (os_RemoveAll (fsys env) p w)),
      os_Remove = (\<lambda>p w. fst (Stage.os_Remove (fsys env) p w)),
      Querier_Execute = (\<lambda>q w. case engine_Execute (drv env) q [] w of
        (w, Inl e) \<Rightarrow> (w, Some e) | (w, Inr _) \<Rightarrow> (w, None))\<rparr>"

subsection \<open>Identifiers\<close>

definition quotes3 :: string where "quotes3 = [CHR 0x22, CHR 0x27, CHR 0x60]"

definition quotes2 :: string where "quotes2 = [CHR 0x22, CHR 0x27]"

definition cleanIdent :: "string \<Rightarrow> string" where
  "cleanIdent s = TrimRight (Trim (TrimSpace s) quotes3) '';''"

definition splitQualifiedName :: "string \<Rightarrow> string list" where
  "splitQualifiedName name = Split name (CHR ''.'')"

text \<open>The target of a CREATE or DROP TABLE: the parts of the name, completed from the session.\<close>

definition table_target :: "Session \<Rightarrow> string \<Rightarrow> string \<times> string \<times> string" where
  "table_target sess tableName =
     (case splitQualifiedName tableName of
        [db, schema, t] \<Rightarrow> (db, schema, t)
      | [schema, t] \<Rightarrow> (sess_Database sess, schema, t)
      | _ \<Rightarrow> (sess_Database sess, sess_Schema sess, tableName))"

text \<open>The target of a CREATE or DROP SCHEMA.\<close>

definition schema_target :: "Session \<Rightarrow> string \<Rightarrow> string \<times> string" where
  "schema_target sess name =
     (case SplitN2 name (CHR ''.'') of [db, s] \<Rightarrow> (db, s) | _ \<Rightarrow> (sess_Database sess, name))"

definition scopeOrSession :: "string \<Rightarrow> Session \<Rightarrow> string \<times> string" where
  "scopeOrSession scope sess =
     (let scope = TrimSpace scope
      in if scope = '''' then (sess_Database sess, sess_Schema sess)
         else case SplitN2 scope (CHR ''.'') of
                [db, schema] \<Rightarrow> (db, schema)
              | parts \<Rightarrow> (sess_Database sess, hd parts))"

definition qualifyIdent :: "string \<Rightarrow> Session \<Rightarrow> string \<times> string \<times> string" where
  "qualifyIdent ref sess =
     (case Split ref (CHR ''.'') of
        [db, schema, name] \<Rightarrow> (db, schema, name)
      | [schema, name] \<Rightarrow> (sess_Database sess, schema, name)
      | parts \<Rightarrow> (sess_Database sess, sess_Schema sess, hd parts))"

definition escapeStringLiteral :: "string \<Rightarrow> string" where
  "escapeStringLiteral s = ReplaceAll s [CHR 0x27] [CHR 0x27, CHR 0x27]"

subsection \<open>Results\<close>

definition table_result :: "string list \<Rightarrow> 'v qcell list list \<Rightarrow> string \<Rightarrow> 'v QueryResult" where
  "table_result cols rows ty = \<lparr>qr_Columns = cols, qr_Rows = rows, qr_RowsAffected = 0, qr_StatementType = ty\<rparr>"

definition status_as :: "string \<Rightarrow> string \<Rightarrow> 'v QueryResult" where
  "status_as ty status = table_result [''status''] [[CStr status]] ty"

definition statusResult :: "string \<Rightarrow> 'v QueryResult" where
  "statusResult status = status_as ''DDL'' status"

definition ddlResult :: "'v QueryResult" where
  "ddlResult = status_as ''DDL'' ''Statement executed successfully.''"

text \<open>A result is rectangular: every row has a cell for every column.\<close>

definition rectangular :: "'v QueryResult \<Rightarrow> bool" where
  "rectangular r \<longleftrightarrow> list_all (\<lambda>row. length row = length (qr_Columns r)) (qr_Rows r)"

lemma rectangular_table [simp]:
  "rectangular (table_result cols rows ty) \<longleftrightarrow> list_all (\<lambda>row. length row = length cols) rows"
  by (simp add: rectangular_def table_result_def)

lemma rectangular_status [simp]:
  "rectangular (status_as ty s)" "rectangular (statusResult s)" "rectangular ddlResult"
  by (simp_all add: status_as_def statusResult_def ddlResult_def)

text \<open>What the server expects of a result: it is rectangular, and the result of a DML statement has three columns.\<close>

definition fits :: "'v QueryResult \<Rightarrow> bool" where
  "fits r \<longleftrightarrow> rectangular r \<and> (qr_StatementType r = ''DML'' \<longrightarrow> length (qr_Columns r) = 3)"

lemma fits_table [simp]:
  "fits (table_result cols rows ty) \<longleftrightarrow>
     list_all (\<lambda>row. length row = length cols) rows \<and> (ty = ''DML'' \<longrightarrow> length cols = 3)"
  by (simp add: fits_def) (simp add: table_result_def)

lemma fits_status [simp]:
  "ty \<noteq> ''DML'' \<Longrightarrow> fits (status_as ty s)" "fits (statusResult s)" "fits ddlResult"
  by (simp_all add: status_as_def statusResult_def ddlResult_def)

subsection \<open>A concrete environment\<close>

text \<open>The world is the list of the calls made; every call succeeds, and the clock counts them.\<close>

definition sample_fs :: "(string list, unit) stage_os" where
  "sample_fs =
     \<lparr>os_MkdirAll = (\<lambda>p w. (w @ [''mkdir '' @ p], None)), os_RemoveAll = (\<lambda>p w. (w @ [''rmall '' @ p], None)),
      os_Remove = (\<lambda>p w. (w @ [''rm '' @ p], None)), os_Open = (\<lambda>p w. Inr ()),
      os_Create = (\<lambda>p w. (w @ [''create '' @ p], Inr ())), io_Copy = (\<lambda>a b w. (w, None)),
      os_Close = (\<lambda>h w. (w, None)), md5_hex = (\<lambda>h w. Some ''''), walk = (\<lambda>p w. []),
      re_compile = (\<lambda>r. Inr (\<lambda>s. True)), glob_match = (\<lambda>p s. Inr True)\<rparr>"

definition sample_driver :: "(string list, nat) driver" where
  "sample_driver =
     \<lparr>db_Exec = (\<lambda>q w. (w @ [q], Inr (Some 1))), db_Query = (\<lambda>q args w. (w @ [q], Inr ([''a''], [[7]], None))),
      as_string = (\<lambda>v. None), scan_string = (\<lambda>v. None)\<rparr>"

definition sample_env :: "(string list, unit, nat) orch_env" where
  "sample_env =
     \<lparr>drv = sample_driver, fsys = sample_fs, os_Stat = (\<lambda>p w. Inr 3), now_of = (\<lambda>w. int (length w)),
      order_of = (\<lambda>name w. []), option_order = (\<lambda>m. ([], [])), url_Path = (\<lambda>u. Inr (drop 7 u)),
      err_text = (\<lambda>e. ''error''), Parse_RFC3339 = (\<lambda>s. Inl ''time''), list_time = (\<lambda>t. ''''),
      load_zone = (\<lambda>z. Err (Invalid ''time zone'' z))\<rparr>"

definition sample_session :: Session where
  "sample_session =
     \<lparr>sess_ID = ''1'', sess_Token = ''t'', sess_Database = ''D'', sess_Schema = ''S'', sess_Warehouse = '''',
      sess_Role = ''PUBLIC'', sess_User = ''u'', sess_CreatedAt = 0, sess_LastActiveAt = 0\<rparr>"

end
