(* ===== verification/Stage_Commands.thy ===== *)
theory Stage_Commands
  imports Orch_Env
begin

text \<open>
  Statements that name a stage: the resolution of a stage reference (\<^verbatim>\<open>orchestrator/stageref.go\<close>), PUT and GET
  (\<^verbatim>\<open>orchestrator/putget.go\<close>), LIST and REMOVE (\<^verbatim>\<open>orchestrator/snowflake_handlers.go\<close>). They act on the stage
  manager and the file system only; user and table stages are created when a reference first names them, so
  the manager is returned too.
\<close>

subsection \<open>Stage references\<close>

definition splitStageRef :: "string \<Rightarrow> (string \<times> string) result" where
  "splitStageRef raw =
     (let raw = TrimSpace raw
      in if raw = '''' then Err (Invalid ''stage reference'' '''')
         else case Index raw ''/'' of
                Some idx \<Rightarrow> Ok (take idx raw, TrimPrefix (drop (idx + 1) raw) ''/'')
              | None \<Rightarrow> Ok (raw, ''''))"

definition resolveStageRef ::
  "('w, 'h, 'v) orch_env \<Rightarrow> stage_Manager \<Rightarrow> Session \<Rightarrow> string \<Rightarrow> 'w \<Rightarrow>
     'w \<times> stage_Manager \<times> (StageMeta \<times> string) result"
where
  "resolveStageRef env m sess ref w =
     (if ref = ''~'' then
        (let user = (if sess_User sess = '''' then ''DEFAULT'' else sess_User sess);
             (w, m, meta) = GetUserStage (fsys env) m (now_of env w) user w
         in (w, m, Ok (meta, ''~'')))
      else if HasPrefix ref ''%'' then
        (let (db, schema, table) = qualifyIdent (TrimPrefix ref ''%'') sess
         in if table = '''' then (w, m, Err (Invalid ''table stage reference'' ''''))
            else let (w, m, meta) = GetTableStage (fsys env) m (now_of env w) db schema table w
                 in (w, m, Ok (meta, ''%'' @ ToLower table)))
      else
        (let (db, schema, name) = qualifyIdent ref sess
         in if name = '''' then (w, m, Err (Invalid ''stage reference'' ''''))
            else case GetStage m db schema name of
                   Inl e \<Rightarrow> (w, m, Err e)
                 | Inr meta \<Rightarrow> (w, m, Ok (meta, ToLower name))))"

definition resolveStage ::
  "('w, 'h, 'v) orch_env \<Rightarrow> stage_Manager \<Rightarrow> Session \<Rightarrow> string \<Rightarrow> 'w \<Rightarrow>
     'w \<times> stage_Manager \<times> (StageMeta \<times> string \<times> string) result"
where
  "resolveStage env m sess raw w =
     (case splitStageRef (cleanIdent raw) of
        Inl e \<Rightarrow> (w, m, Err e)
      | Inr (ref, subpath) \<Rightarrow>
          (case resolveStageRef env m sess ref w of
             (w, m, Inl e) \<Rightarrow> (w, m, Err e)
           | (w, m, Inr (meta, namePrefix)) \<Rightarrow> (w, m, Ok (meta, subpath, namePrefix))))"

subsection \<open>PUT and GET\<close>

definition rePutStmt :: re where
  "rePutStmt = re_lit ''(?is)^~s*PUT~s+(~S+)~s+@(~S+)''"

definition reGetStmt :: re where
  "reGetStmt = re_lit ''(?is)^~s*GET~s+@(~S+)~s+(~S+)''"

definition fileURLToPath :: "('w, 'h, 'v) orch_env \<Rightarrow> string \<Rightarrow> string result" where
  "fileURLToPath env u =
     (if \<not> HasPrefix u ''file://'' then
        (if IsAbs u then Ok u else Err (Invalid ''file URL or absolute path required'' u))
      else map_sum ExecError id (url_Path env u))"

definition put_columns :: "string list" where
  "put_columns = [''source'', ''target'', ''source_size'', ''target_size'',
     ''source_compression'', ''target_compression'', ''status'', ''encryption'', ''message'']"

definition put_result :: "string \<Rightarrow> string \<Rightarrow> int \<Rightarrow> int \<Rightarrow> string \<Rightarrow> string \<Rightarrow> 'v QueryResult" where
  "put_result source target sourceSize targetSize status message =
     table_result put_columns
       [[CStr source, CStr target, CInt sourceSize, CInt targetSize,
         CStr ''NONE'', CStr ''NONE'', CStr status, CStr ''AUTO'', CStr message]] ''PUT''"

definition handlePut ::
  "('w, 'h, 'v) orch_env \<Rightarrow> stage_Manager \<Rightarrow> Session \<Rightarrow> string \<Rightarrow> 'w \<Rightarrow> 'w \<times> stage_Manager \<times> 'v QueryResult result"
where
  "handlePut env m sess putSQL w =
     (case FindStringSubmatch rePutStmt putSQL of
        None \<Rightarrow> (w, m, Err (Invalid ''PUT: unable to parse'' putSQL))
      | Some g \<Rightarrow>
          (case fileURLToPath env (Trim (g 1) quotes2) of
             Inl e \<Rightarrow> (w, m, Err (Wrap ''PUT'' e))
           | Inr localPath \<Rightarrow>
               (case resolveStage env m sess (Trim (g 2) quotes2) w of
                  (w, m, Inl e) \<Rightarrow> (w, m, Err (Wrap ''PUT'' e))
                | (w, m, Inr (meta, destSubPath, _)) \<Rightarrow>
                    (let destName = path_Base localPath;
                         destName = (if destSubPath \<noteq> '''' then destSubPath @ ''/'' @ destName else destName)
                     in case os_Stat env localPath w of
                          Inl e \<Rightarrow> (w, m, Err (Wrap ''PUT: stat'' (ExecError e)))
                        | Inr sourceSize \<Rightarrow>
                            (case PutMetaFile (fsys env) meta localPath destName w of
                               (w, Some e) \<Rightarrow>
                                 (w, m, Ok (put_result (path_Base localPath) destName sourceSize 0 ''ERROR'' (err_text env e)))
                             | (w, None) \<Rightarrow>
                                 (w, m, Ok (put_result (path_Base localPath) destName sourceSize sourceSize ''UPLOADED'' '''')))))))"

definition list_options :: "string \<Rightarrow> string \<Rightarrow> bool \<Rightarrow> ListOptions" where
  "list_options prefix regex checksum =
     \<lparr>lo_Prefix = prefix, lo_Pattern = '''', lo_Regex = regex, lo_Checksum = checksum\<rparr>"

fun get_files ::
  "('w, 'h, 'v) orch_env \<Rightarrow> StageMeta \<Rightarrow> string \<Rightarrow> FileInfo list \<Rightarrow> 'w \<Rightarrow> 'w \<times> 'v qcell list list"
where
  "get_files env meta localDir [] w = (w, [])"
| "get_files env meta localDir (f # fs) w =
     (let localPath = path_Join [localDir, path_Base (fi_Name f)];
          (w, err) = GetMetaFile (fsys env) meta (fi_Name f) localPath w;
          row = (case err of
                   Some e \<Rightarrow> [CStr (fi_Name f), CInt 0, CStr ''NONE'', CStr ''ERROR'', CStr (err_text env e)]
                 | None \<Rightarrow> [CStr localPath, CInt (fi_Size f), CStr ''NONE'', CStr ''DOWNLOADED'', CStr '''']);
          (w, rows) = get_files env meta localDir fs w
      in (w, row # rows))"

definition handleGet ::
  "('w, 'h, 'v) orch_env \<Rightarrow> stage_Manager \<Rightarrow> Session \<Rightarrow> string \<Rightarrow> 'w \<Rightarrow> 'w \<times> stage_Manager \<times> 'v QueryResult result"
where
  "handleGet env m sess getSQL w =
     (case FindStringSubmatch reGetStmt getSQL of
        None \<Rightarrow> (w, m, Err (Invalid ''GET: unable to parse'' getSQL))
      | Some g \<Rightarrow>
          (case fileURLToPath env (Trim (g 2) quotes2) of
             Inl e \<Rightarrow> (w, m, Err (Wrap ''GET'' e))
           | Inr localDir \<Rightarrow>
               (case resolveStage env m sess (Trim (g 1) quotes2) w of
                  (w, m, Inl e) \<Rightarrow> (w, m, Err (Wrap ''GET'' e))
                | (w, m, Inr (meta, srcSubPath, _)) \<Rightarrow>
                    (case ListMetaFiles (fsys env) meta (list_options srcSubPath '''' False) w of
                       Inl e \<Rightarrow> (w, m, Err (Wrap ''GET'' e))
                     | Inr files \<Rightarrow>
                         (case os_MkdirAll (fsys env) localDir w of
                            (w, Some e) \<Rightarrow> (w, m, Err (Wrap ''GET: create local dir'' (ExecError e)))
                          | (w, None) \<Rightarrow>
                              (let (w, rows) = get_files env meta localDir files w
                               in (w, m, Ok (table_result [''file'', ''size'', ''status_code'', ''status'', ''message''] rows ''GET''))))))))"

subsection \<open>LIST and REMOVE\<close>

definition reListStage :: re where
  "reListStage = re_lit ''(?i)^(?:LIST|LS)~s+@(~S+)''"

definition reRemoveStage :: re where
  "reRemoveStage = re_lit ''(?i)^(?:REMOVE|RM)~s+@(~S+)''"

definition reListPattern :: re where
  "reListPattern = re_lit ''(?i)~bPATTERN~s*=~s*`([^`]*)`''"

definition pattern_of :: "string \<Rightarrow> string" where
  "pattern_of sql = (case FindStringSubmatch reListPattern sql of Some g \<Rightarrow> g 1 | None \<Rightarrow> '''')"

definition handleListStage ::
  "('w, 'h, 'v) orch_env \<Rightarrow> stage_Manager \<Rightarrow> Session \<Rightarrow> string \<Rightarrow> 'w \<Rightarrow> 'w \<times> stage_Manager \<times> 'v QueryResult result"
where
  "handleListStage env m sess originalSQL w =
     (case FindStringSubmatch reListStage originalSQL of
        None \<Rightarrow> (w, m, Err (Invalid ''LIST: unable to parse'' originalSQL))
      | Some g \<Rightarrow>
          (case resolveStage env m sess (g 1) w of
             (w, m, Inl e) \<Rightarrow> (w, m, Err (Wrap ''LIST'' e))
           | (w, m, Inr (meta, subpath, namePrefix)) \<Rightarrow>
               (case ListMetaFiles (fsys env) meta (list_options subpath (pattern_of originalSQL) True) w of
                  Inl e \<Rightarrow> (w, m, Err e)
                | Inr files \<Rightarrow>
                    (w, m, Ok (table_result [''name'', ''size'', ''md5'', ''last_modified'']
                       (map (\<lambda>f. [CStr (namePrefix @ ''/'' @ fi_Name f), CInt (fi_Size f), CStr (fi_MD5 f),
                                  CStr (list_time env (fi_ModTime f))]) files) ''LIST'')))))"

fun remove_files ::
  "('w, 'h, 'v) orch_env \<Rightarrow> StageMeta \<Rightarrow> string \<Rightarrow> FileInfo list \<Rightarrow> 'w \<Rightarrow> 'w \<times> 'v qcell list list"
where
  "remove_files env meta namePrefix [] w = (w, [])"
| "remove_files env meta namePrefix (f # fs) w =
     (let (w, err) = RemoveMetaFile (fsys env) meta (fi_Name f) w;
          res = (case err of Some e \<Rightarrow> ''failed: '' @ err_text env e | None \<Rightarrow> ''removed'');
          (w, rows) = remove_files env meta namePrefix fs w
      in (w, [CStr (namePrefix @ ''/'' @ fi_Name f), CStr res] # rows))"

definition handleRemoveStage ::
  "('w, 'h, 'v) orch_env \<Rightarrow> stage_Manager \<Rightarrow> Session \<Rightarrow> string \<Rightarrow> 'w \<Rightarrow> 'w \<times> stage_Manager \<times> 'v QueryResult result"
where
  "handleRemoveStage env m sess originalSQL w =
     (case FindStringSubmatch reRemoveStage originalSQL of
        None \<Rightarrow> (w, m, Err (Invalid ''REMOVE: unable to parse'' originalSQL))
      | Some g \<Rightarrow>
          (case resolveStage env m sess (g 1) w of
             (w, m, Inl e) \<Rightarrow> (w, m, Err (Wrap ''REMOVE'' e))
           | (w, m, Inr (meta, subpath, namePrefix)) \<Rightarrow>
               (case ListMetaFiles (fsys env) meta (list_options subpath (pattern_of originalSQL) False) w of
                  Inl e \<Rightarrow> (w, m, Err (Wrap ''REMOVE'' e))
                | Inr files \<Rightarrow>
                    (let (w, rows) = remove_files env meta namePrefix files w
                     in (w, m, Ok (table_result [''name'', ''result''] rows ''REMOVE''))))))"

subsection \<open>Every form of a reference names the same stage\<close>

definition ident_like :: "string \<Rightarrow> bool" where
  "ident_like s \<longleftrightarrow> s \<noteq> [] \<and> list_all (\<lambda>c. is_alpha c \<or> is_digit c \<or> c = CHR ''_'') s"

text \<open>What may follow a reference: nothing, or a path that does not end in a character that is trimmed.\<close>

definition solid :: "char \<Rightarrow> bool" where
  "solid c \<longleftrightarrow> \<not> is_space c \<and> c \<notin> set quotes3 \<and> c \<noteq> CHR '';''"

definition path_tail :: "string \<Rightarrow> bool" where
  "path_tail t \<longleftrightarrow> t = [] \<or> hd t = CHR ''/'' \<and> solid (last t)"

lemma ident_char:
  assumes "is_alpha c \<or> is_digit c \<or> c = CHR ''_''"
  shows "solid c" "c \<noteq> CHR ''.''" "c \<noteq> CHR ''/''" "c \<noteq> CHR ''~''" "c \<noteq> CHR ''%''"
  using assms by (auto simp: solid_def quotes3_def is_space_def is_alpha_def is_digit_def Let_def)

lemma ident_like_chars:
  assumes "ident_like s"
  shows "s \<noteq> []" "dot_free s" "CHR ''/'' \<notin> set s" "CHR ''~'' \<notin> set s" "CHR ''%'' \<notin> set s" "\<forall>c \<in> set s. solid c"
proof -
  have c: "is_alpha c \<or> is_digit c \<or> c = CHR ''_''" if "c \<in> set s" for c
    using assms that by (simp add: ident_like_def list_all_iff)
  show "s \<noteq> []" using assms by (simp add: ident_like_def)
  show "dot_free s" "CHR ''/'' \<notin> set s" "CHR ''~'' \<notin> set s" "CHR ''%'' \<notin> set s" "\<forall>c \<in> set s. solid c"
    using ident_char [OF c] unfolding dot_free_def by blast+
qed

lemma trim_by_id: "s \<noteq> [] \<Longrightarrow> \<not> p (hd s) \<Longrightarrow> \<not> p (last s) \<Longrightarrow> trim_by p s = s"
proof -
  assume s: "s \<noteq> []" "\<not> p (hd s)" "\<not> p (last s)"
  then have "dropWhile p s = s" by (cases s) simp_all
  moreover from s have "dropWhile p (rev s) = rev s" by (cases s rule: rev_cases) simp_all
  ultimately show "trim_by p s = s" by (simp add: trim_by_def)
qed

lemma TrimRight_id: "s \<noteq> [] \<Longrightarrow> last s \<notin> set cs \<Longrightarrow> TrimRight s cs = s"
  by (cases s rule: rev_cases) (simp_all add: TrimRight_def)

lemma cleanIdent_id: "s \<noteq> [] \<Longrightarrow> solid (hd s) \<Longrightarrow> solid (last s) \<Longrightarrow> cleanIdent s = s"
  by (simp add: cleanIdent_def TrimSpace_def Trim_def trim_by_id TrimRight_id solid_def)

lemma Index_slash: "CHR ''/'' \<notin> set s \<Longrightarrow> Index s ''/'' = None" "CHR ''/'' \<notin> set s \<Longrightarrow> Index (s @ CHR ''/'' # t) ''/'' = Some (length s)"
  by (induction s) (auto simp: HasPrefix_def)

text \<open>A reference made of identifiers, dots and a leading percent sign is split off its path as it stands.\<close>

lemma split_reference:
  assumes "r \<noteq> []" "\<forall>c \<in> set r. solid c" "CHR ''/'' \<notin> set r" "path_tail t"
  shows "splitStageRef (cleanIdent (r @ t)) = Ok (r, TrimPrefix (drop 1 t) ''/'')"
proof -
  have ends: "r @ t \<noteq> []" "solid (hd (r @ t))" "solid (last (r @ t))"
    using assms by (auto simp: path_tail_def last_append hd_append)
  then have clean: "cleanIdent (r @ t) = r @ t" and space: "TrimSpace (r @ t) = r @ t"
    by (simp_all add: cleanIdent_id TrimSpace_def trim_by_id solid_def)
  show ?thesis
  proof (cases t)
    case Nil
    then show ?thesis using clean space assms
      by (simp add: splitStageRef_def Index_slash TrimPrefix_def HasPrefix_def)
  next
    case (Cons c u)
    with assms have "c = CHR ''/''" by (simp add: path_tail_def)
    then show ?thesis using clean space assms Cons by (simp add: splitStageRef_def Index_slash)
  qed
qed

lemma Split_dot: "dot_free a \<Longrightarrow> Split (a @ CHR ''.'' # r) (CHR ''.'') = a # Split r (CHR ''.'')"
  by (induction a) (auto simp: dot_free_def)

lemma qualifyIdent_forms:
  assumes "dot_free d" "dot_free s" "dot_free n"
  shows "qualifyIdent n sess = (sess_Database sess, sess_Schema sess, n)"
    "qualifyIdent (s @ ''.'' @ n) sess = (sess_Database sess, s, n)"
    "qualifyIdent (dotted d s n) sess = (d, s, n)"
  using assms Split_no_sep [of "CHR ''.''" n]
  by (simp_all add: qualifyIdent_def dotted_def Split_dot dot_free_def)

text \<open>The reference, qualified in the three ways.\<close>

definition ref_forms :: "Session \<Rightarrow> string \<Rightarrow> string list" where
  "ref_forms sess n = [n, sess_Schema sess @ ''.'' @ n, dotted (sess_Database sess) (sess_Schema sess) n]"

lemma ref_forms_props:
  assumes "ident_like (sess_Database sess)" "ident_like (sess_Schema sess)" "ident_like n" "r \<in> set (ref_forms sess n)"
  shows "r \<noteq> []" "\<forall>c \<in> set r. solid c" "CHR ''/'' \<notin> set r" "CHR ''~'' \<notin> set r" "CHR ''%'' \<notin> set r"
    "qualifyIdent r sess = (sess_Database sess, sess_Schema sess, n)"
proof -
  note facts = ident_like_chars [OF assms(1)] ident_like_chars [OF assms(2)] ident_like_chars [OF assms(3)]
  have "solid (CHR ''.'')" by (simp add: solid_def is_space_def quotes3_def)
  then show "r \<noteq> []" "\<forall>c \<in> set r. solid c" "CHR ''/'' \<notin> set r" "CHR ''~'' \<notin> set r" "CHR ''%'' \<notin> set r"
    using facts assms(4) by (auto simp: ref_forms_def dotted_def)
  show "qualifyIdent r sess = (sess_Database sess, sess_Schema sess, n)"
    using facts qualifyIdent_forms assms(4) by (auto simp: ref_forms_def)
qed

text \<open>
  C29. The forms of a reference to a stage agree, in the resolver that all statements share: with a session in database D and schema S, the
  references \<open>n\<close>, \<open>S.n\<close> and \<open>D.S.n\<close> (followed by any path) resolve to the stage registered for (D, S, n), with
  the path after the slash, and fail with the same error when there is none; and the references \<open>%n\<close>,
  \<open>%S.n\<close> and \<open>%D.S.n\<close> resolve to the stage of the table (D, S, n).
\<close>

theorem stage_refs_agree:
  assumes "ident_like (sess_Database sess)" "ident_like (sess_Schema sess)" "ident_like n"
    and "r \<in> set (ref_forms sess n)" "path_tail t"
  shows "resolveStage env m sess (r @ t) w =
      (w, m, case GetStage m (sess_Database sess) (sess_Schema sess) n of
               Inl e \<Rightarrow> Err e | Inr meta \<Rightarrow> Ok (meta, TrimPrefix (drop 1 t) ''/'', ToLower n)) \<and>
    resolveStage env m sess (''%'' @ r @ t) w =
      (case GetTableStage (fsys env) m (now_of env w) (sess_Database sess) (sess_Schema sess) n w of
         (w, m, meta) \<Rightarrow> (w, m, Ok (meta, TrimPrefix (drop 1 t) ''/'', ''%'' @ ToLower n)))"
proof
  note f = ref_forms_props [OF assms(1-4)]
  have n: "n \<noteq> []" using ident_like_chars(1) [OF assms(3)] .
  have split: "splitStageRef (cleanIdent (r @ t)) = Ok (r, TrimPrefix (drop 1 t) ''/'')"
    using split_reference f assms(5) by blast
  have "r \<noteq> ''~''" "\<not> HasPrefix r ''%''" using f by (auto simp: HasPrefix_iff)
  then show "resolveStage env m sess (r @ t) w =
      (w, m, case GetStage m (sess_Database sess) (sess_Schema sess) n of
               Inl e \<Rightarrow> Err e | Inr meta \<Rightarrow> Ok (meta, TrimPrefix (drop 1 t) ''/'', ToLower n))"
    using split f(6) n by (simp add: resolveStage_def resolveStageRef_def split: sum.split)
  have "\<forall>c \<in> set (''%'' @ r). solid c" "CHR ''/'' \<notin> set (''%'' @ r)"
    using f by (auto simp: solid_def is_space_def quotes3_def)
  then have "splitStageRef (cleanIdent ((''%'' @ r) @ t)) = Ok (''%'' @ r, TrimPrefix (drop 1 t) ''/'')"
    using split_reference [of "''%'' @ r" t] assms(5) by simp
  then show "resolveStage env m sess (''%'' @ r @ t) w =
      (case GetTableStage (fsys env) m (now_of env w) (sess_Database sess) (sess_Schema sess) n w of
         (w, m, meta) \<Rightarrow> (w, m, Ok (meta, TrimPrefix (drop 1 t) ''/'', ''%'' @ ToLower n)))"
    using f(6) n by (simp add: resolveStage_def resolveStageRef_def TrimPrefix_def split: prod.split)
qed

definition sample_manager :: stage_Manager where
  "sample_manager = \<lparr>baseDir = ''/s'', stages = [stageKey ''D'' ''S'' ''IN'' \<mapsto>
     new_stage ''/s'' 0 ''D'' ''S'' ''IN'' StageInternal '''']\<rparr>"

theorem stage_refs_agree_witness:
  "resolveStage sample_env sample_manager sample_session ''D.S.in/a/b.csv'' [] =
     ([], sample_manager, Ok (new_stage ''/s'' 0 ''D'' ''S'' ''IN'' StageInternal '''', ''a/b.csv'', ''in''))"
proof -
  have "''D.S.in'' \<in> set (ref_forms sample_session ''in'')" "path_tail ''/a/b.csv''"
    "ident_like (sess_Database sample_session)" "ident_like (sess_Schema sample_session)" "ident_like ''in''"
    by code_simp+
  moreover have "GetStage sample_manager (sess_Database sample_session) (sess_Schema sample_session) ''in'' =
      Ok (new_stage ''/s'' 0 ''D'' ''S'' ''IN'' StageInternal '''')" by code_simp
  moreover have "TrimPrefix (drop 1 ''/a/b.csv'') ''/'' = ''a/b.csv''" "ToLower ''in'' = ''in''" by code_simp+
  ultimately show ?thesis
    using stage_refs_agree [of sample_session "''in''" "''D.S.in''" "''/a/b.csv''" sample_env sample_manager "[]"]
    by simp
qed

text \<open>
  The file's comment lists \<open>[db.][schema.]%table\<close> as a form of table stage reference. The percent sign is only
  looked for in front: the stage of a table that no reference has named before is not found that way.
\<close>

lemma qualified_table_stage_not_found:
  "snd (snd (resolveStage sample_env sample_manager sample_session ''D.S.%t'' [])) = Err (DoesNotExist ''stage'' ''D.S.%T'')"
  by code_simp

subsection \<open>Rows fit the columns\<close>

lemma get_files_rows [simp]:
  "list_all (\<lambda>row. length row = Suc (Suc (Suc (Suc (Suc 0))))) (snd (get_files env meta dir fs w))"
  by (induction fs arbitrary: w) (simp_all add: Let_def case_prod_beta split: option.splits)

lemma remove_files_rows [simp]: "list_all (\<lambda>row. length row = Suc (Suc 0)) (snd (remove_files env meta p fs w))"
  by (induction fs arbitrary: w) (simp_all add: Let_def case_prod_beta)

lemma put_result_fits [simp]: "fits (put_result a b c d e f)"
  by (simp add: put_result_def put_columns_def)

lemma handlePut_fits: "handlePut env m sess sql w = (w', m', Ok r) \<Longrightarrow> fits r"
  by (auto simp: handlePut_def Let_def split: option.splits sum.splits prod.splits)

lemma handleGet_fits: "handleGet env m sess sql w = (w', m', Ok r) \<Longrightarrow> fits r"
  by (auto simp: handleGet_def case_prod_beta split: option.splits sum.splits prod.splits)

lemma handleListStage_fits: "handleListStage env m sess sql w = (w', m', Ok r) \<Longrightarrow> fits r"
  by (auto simp: handleListStage_def list_all_iff split: option.splits sum.splits prod.splits)

lemma handleRemoveStage_fits: "handleRemoveStage env m sess sql w = (w', m', Ok r) \<Longrightarrow> fits r"
  by (auto simp: handleRemoveStage_def case_prod_beta split: option.splits sum.splits prod.splits)

end
