(* ===== verification/Wire.thy ===== *)
theory Wire
  imports Stage_Commands
begin

text \<open>
  The wire format of the server (\<^verbatim>\<open>server/server.go\<close>, the helpers and the type mapping): Snowflake type names and
  their metadata, cells as strings, statement type ids, query failures, the session token of a request and query
  ids. A value that the driver returned is seen through its Go type: \<open>go_value\<close> has one constructor for each case
  of the type switches, and carries the \<^verbatim>\<open>%v\<close> text where the code prints the value with \<^verbatim>\<open>%v\<close>.
\<close>

unbundle bit_operations_syntax

subsection \<open>Values by their Go type\<close>

datatype go_value =
    VNil
  | VInt int
  | VFloat string
  | VBool bool
  | VTime time
  | VBytes "8 word list"
  | VOther string

text \<open>The cells of a result: the driver's values through \<open>view\<close>, the others by the type the handlers gave them.\<close>

fun cell_value :: "('v \<Rightarrow> go_value) \<Rightarrow> 'v qcell \<Rightarrow> go_value" where
  "cell_value view (CStr s) = VOther s"
| "cell_value view (CInt i) = VInt i"
| "cell_value view (CBool b) = VBool b"
| "cell_value view (CTime t) = VTime t"
| "cell_value view CNull = VNil"
| "cell_value view (CDriver v) = view v"

fun snowflakeTypeName :: "go_value \<Rightarrow> string" where
  "snowflakeTypeName (VInt _) = ''fixed''"
| "snowflakeTypeName (VFloat _) = ''real''"
| "snowflakeTypeName (VBool _) = ''boolean''"
| "snowflakeTypeName (VTime _) = ''timestamp_ntz''"
| "snowflakeTypeName (VBytes _) = ''binary''"
| "snowflakeTypeName VNil = ''text''"
| "snowflakeTypeName (VOther _) = ''text''"

record col_metadata =
  md_Length :: "int option"
  md_Precision :: "int option"
  md_Scale :: "int option"
  md_ByteLength :: "int option"

definition metadata :: "int option \<Rightarrow> int option \<Rightarrow> int option \<Rightarrow> int option \<Rightarrow> col_metadata" where
  "metadata l p s b = \<lparr>md_Length = l, md_Precision = p, md_Scale = s, md_ByteLength = b\<rparr>"

definition snowflakeColumnMetadata :: "string \<Rightarrow> col_metadata" where
  "snowflakeColumnMetadata typeName =
     (if typeName = ''fixed'' then metadata None (Some 38) (Some 0) None
      else if typeName = ''text'' then metadata (Some 16777216) None None (Some 16777216)
      else if typeName = ''binary'' then metadata (Some 8388608) None None (Some 8388608)
      else if typeName \<in> {''timestamp_ntz'', ''timestamp_ltz'', ''timestamp_tz'', ''time''} then
        metadata None (Some 0) (Some 9) None
      else metadata None None None None)"

record rowTypeField =
  rt_Name :: string
  rt_Type :: string
  rt_Meta :: col_metadata
  rt_Nullable :: bool

text \<open>The rowtype: the type of a column is the type of its value in the first row, text if there is none.\<close>

definition column_type :: "go_value list list \<Rightarrow> nat \<Rightarrow> string" where
  "column_type rows i =
     (case rows of
        [] \<Rightarrow> ''text''
      | row # _ \<Rightarrow> if i < length row then snowflakeTypeName (row ! i) else ''text'')"

definition row_type :: "string list \<Rightarrow> go_value list list \<Rightarrow> rowTypeField list" where
  "row_type cols rows =
     map (\<lambda>(i, col). let typeName = column_type rows i
                     in \<lparr>rt_Name = col, rt_Type = typeName, rt_Meta = snowflakeColumnMetadata typeName, rt_Nullable = True\<rparr>)
       (enumerate 0 cols)"

subsection \<open>Cells\<close>

text \<open>\<^verbatim>\<open>%0wd\<close> for a number that is not negative.\<close>

definition pad_zero :: "nat \<Rightarrow> string \<Rightarrow> string" where
  "pad_zero n s = replicate (n - length s) (CHR ''0'') @ s"

fun cellToString :: "go_value \<Rightarrow> string" where
  "cellToString VNil = ''null''"
| "cellToString (VTime t) =
     (let epoch = t div second; nanos = t mod second
      in if nanos = 0 then Itoa epoch @ ''.000000000''
         else Itoa epoch @ ''.'' @ pad_zero 9 (Itoa nanos))"
| "cellToString (VBytes bs) = hex_bytes bs"
| "cellToString (VBool b) = (if b then ''1'' else ''0'')"
| "cellToString (VInt i) = Itoa i"
| "cellToString (VFloat s) = s"
| "cellToString (VOther s) = s"

text \<open>A cell of the rowset is a JSON string, or null.\<close>

definition buildRowSet :: "go_value list list \<Rightarrow> string option list list" where
  "buildRowSet rows = map (map (\<lambda>cell. if cell = VNil then None else Some (cellToString cell))) rows"

subsection \<open>Statements\<close>

definition stmtSelect :: int where "stmtSelect = 0x1000"
definition stmtInsert :: int where "stmtInsert = 0x3100"
definition stmtUpdate :: int where "stmtUpdate = 0x3200"
definition stmtDelete :: int where "stmtDelete = 0x3300"
definition stmtMerge :: int where "stmtMerge = 0x3400"
definition stmtCopy :: int where "stmtCopy = 0x3600"
definition stmtAlterSess :: int where "stmtAlterSess = 0x4100"
definition stmtUse :: int where "stmtUse = 0x4300"
definition stmtShow :: int where "stmtShow = 0x4400"
definition stmtDescribe :: int where "stmtDescribe = 0x4500"
definition stmtTransaction :: int where "stmtTransaction = 0x5000"
definition stmtDDL :: int where "stmtDDL = 0x6000"

definition isQueryStatement :: "string \<Rightarrow> bool" where
  "isQueryStatement sql =
     (let upper = ToUpper (TrimSpace sql)
      in list_ex (HasPrefix upper) [''SELECT'', ''WITH'', ''SHOW'', ''DESC '', ''DESCRIBE'', ''EXPLAIN'', ''LIST''])"

definition use_type :: "string list \<Rightarrow> int" where
  "use_type rest =
     (case rest of
        [] \<Rightarrow> stmtUse
      | what # _ \<Rightarrow>
          if what = ''DATABASE'' then stmtUse + 1
          else if what = ''SCHEMA'' then stmtUse + 2
          else if what = ''WAREHOUSE'' then stmtUse + 3
          else stmtUse)"

definition statementTypeID :: "string \<Rightarrow> int" where
  "statementTypeID sql =
     (case Fields (ToUpper sql) of
        [] \<Rightarrow> 0
      | word # rest \<Rightarrow>
          (let first = TrimRight word '';(''
           in if first \<in> {''SELECT'', ''WITH''} then stmtSelect
              else if first = ''INSERT'' then stmtInsert
              else if first = ''UPDATE'' then stmtUpdate
              else if first = ''DELETE'' then stmtDelete
              else if first = ''MERGE'' then stmtMerge
              else if first = ''COPY'' then stmtCopy
              else if first = ''SHOW'' then stmtShow
              else if first \<in> {''DESC'', ''DESCRIBE''} then stmtDescribe
              else if first \<in> {''BEGIN'', ''START'', ''COMMIT'', ''ROLLBACK''} then stmtTransaction
              else if first \<in> {''CREATE'', ''DROP'', ''ALTER'', ''TRUNCATE'', ''UNDROP'', ''COMMENT'', ''GRANT'', ''REVOKE''} then
                (if first = ''ALTER'' \<and> rest \<noteq> [] \<and> hd rest = ''SESSION'' then stmtAlterSess else stmtDDL)
              else if first = ''USE'' then use_type rest
              else 0))"

subsection \<open>Failures\<close>

record failure_data =
  fd_queryId :: string
  fd_queryStatus :: string
  fd_sqlText :: string
  fd_sqlState :: "string option"

text \<open>The argument \<open>msg\<close> is the text of the error.\<close>

definition queryFailure :: "string \<Rightarrow> string \<Rightarrow> string \<Rightarrow> string \<times> string \<times> failure_data" where
  "queryFailure msg queryID sqlText =
     (let (code, msg, sqlState) =
            (if Contains msg ''Division by zero'' then (''100051'', ''Division by zero'', Some ''22012'')
             else (''002043'', msg, None))
      in (code, msg, \<lparr>fd_queryId = queryID, fd_queryStatus = ''FAILED_WITH_ERROR'', fd_sqlText = sqlText,
                      fd_sqlState = sqlState\<rparr>))"

subsection \<open>Headers and ids\<close>

definition hasGzipEncoding :: "string \<Rightarrow> bool" where
  "hasGzipEncoding header = list_ex (\<lambda>enc. EqualFold (TrimSpace enc) ''gzip'') (Split header (CHR '',''))"

definition token_prefix :: string where
  "token_prefix = ''Snowflake Token='' @ [CHR 0x22]"

text \<open>\<open>auth\<close> is the Authorization header, empty when it is missing.\<close>

definition extractToken :: "string \<Rightarrow> string" where
  "extractToken auth =
     (if auth = '''' then ''''
      else case Index auth token_prefix of
             None \<Rightarrow> ''''
           | Some idx \<Rightarrow>
               (let rest = drop (idx + length token_prefix) auth
                in case Index rest [CHR 0x22] of None \<Rightarrow> rest | Some end \<Rightarrow> take end rest))"

function hex_nat :: "nat \<Rightarrow> string" where
  "hex_nat n = (if n < 16 then [hex_digit n] else hex_nat (n div 16) @ [hex_digit (n mod 16)])"
  by pat_completeness auto

termination hex_nat
  by (relation "measure id") auto

declare hex_nat.simps [simp del]

text \<open>\<^verbatim>\<open>%0wx\<close>; the sign of a negative number counts for the width.\<close>

definition fmt_hex :: "nat \<Rightarrow> int \<Rightarrow> string" where
  "fmt_hex n i = (if i < 0 then ''-'' @ pad_zero (n - 1) (hex_nat (nat (- i))) else pad_zero n (hex_nat (nat i)))"

text \<open>The three readings of the clock are separate.\<close>

definition generateQueryID :: "time \<Rightarrow> time \<Rightarrow> time \<Rightarrow> string" where
  "generateQueryID t1 t2 t3 =
     fmt_hex 16 t1 @ ''-'' @ fmt_hex 4 ((t2 mod second) AND 0xffff) @ ''-'' @ fmt_hex 4 ((t3 div 1000) AND 0xffff)"


subsection \<open>What the answer of a query tells\<close>

text \<open>
  The columns of a result are typed when every row has one cell for each of them and no cell is of another type
  than the cell of the first row, nulls apart. The driver returns columns of one type; what the type name in the
  rowtype says is read off the first row alone, so that a column that starts with a null counts as text.
\<close>

definition columns_typed :: "string list \<Rightarrow> go_value list list \<Rightarrow> bool" where
  "columns_typed cols rows \<longleftrightarrow>
     (\<forall>row\<in>set rows. length row = length cols \<and>
        (\<forall>i<length cols. row ! i = VNil \<or> snowflakeTypeName (row ! i) = column_type rows i))"

lemma hex_digit_inj: "n < 16 \<Longrightarrow> m < 16 \<Longrightarrow> hex_digit n = hex_digit m \<Longrightarrow> n = m"
proof -
  have "distinct (map hex_digit [0..<16])" by code_simp
  then show "n < 16 \<Longrightarrow> m < 16 \<Longrightarrow> hex_digit n = hex_digit m \<Longrightarrow> n = m"
    by (simp add: distinct_map inj_on_def)
qed

lemma byte_halves:
  fixes b :: "8 word"
  shows "unat (drop_bit 4 b) < 16" "unat (b AND 15) < 16" "word_of_nat (16 * unat (drop_bit 4 b) + unat (b AND 15)) = b"
proof -
  have low: "unat (b AND 15) = unat b mod 16"
  proof -
    have "b AND 15 = take_bit 4 b" by (simp add: take_bit_eq_mask mask_eq_exp_minus_1)
    then show ?thesis by (simp add: take_bit_eq_mod unat_mod_distrib)
  qed
  have high: "unat (drop_bit 4 b) = unat b div 16"
    by (simp add: drop_bit_eq_div unat_div_distrib)
  have b: "unat b < 256" using unsigned_less [of b, where ?'a = nat] by simp
  with high show "unat (drop_bit 4 b) < 16" by simp
  from low show "unat (b AND 15) < 16" by simp
  have "16 * (unat b div 16) + unat b mod 16 = unat b" by simp
  with low high show "word_of_nat (16 * unat (drop_bit 4 b) + unat (b AND 15)) = b" by simp
qed

lemma hex_byte_inj:
  assumes "hex_byte b = hex_byte c"
  shows "b = c"
proof -
  have "unat (drop_bit 4 b) = unat (drop_bit 4 c)" "unat (b AND 15) = unat (c AND 15)"
    using assms byte_halves(1,2) by (auto simp: hex_byte_def intro: hex_digit_inj)
  then show ?thesis using byte_halves(3) [of b] byte_halves(3) [of c] by simp
qed

lemma hex_bytes_inj: "hex_bytes bs = hex_bytes cs \<Longrightarrow> bs = cs"
proof (induction bs arbitrary: cs)
  case Nil
  then show ?case by (cases cs) (simp_all add: hex_bytes_def hex_byte_def)
next
  case (Cons b bs)
  then obtain c cs' where cs: "cs = c # cs'" by (cases cs) (simp_all add: hex_bytes_def hex_byte_def)
  with Cons.prems have "hex_byte b = hex_byte c" "hex_bytes bs = hex_bytes cs'"
    by (simp_all add: hex_bytes_def hex_byte_def)
  with Cons.IH cs show ?case by (simp add: hex_byte_inj)
qed

lemma Itoa_inj: "Itoa i = Itoa j \<Longrightarrow> i = j"
proof -
  assume eq: "Itoa i = Itoa j"
  have minus: "CHR ''-'' \<notin> set (nat_digits n)" for n by (auto simp: is_digit_def dest!: nat_digits_all)
  have "nat_digits n = CHR ''-'' # nat_digits m \<Longrightarrow> False" for n m by (metis minus list.set_intros(1))
  with eq show "i = j" by (auto simp: Itoa_def dest!: nat_digits_inj sym [of "CHR ''-'' # _"] split: if_splits)
qed

lemma digits_val_zeros: "digits_val 0 (replicate n (CHR ''0'') @ s) = digits_val 0 s"
  by (induction n) (simp_all add: is_digit_def digit_val_def)

lemma pad_zero_inj: "0 \<le> i \<Longrightarrow> 0 \<le> j \<Longrightarrow> pad_zero n (Itoa i) = pad_zero n (Itoa j) \<Longrightarrow> i = j"
proof -
  assume "0 \<le> i" "0 \<le> j" "pad_zero n (Itoa i) = pad_zero n (Itoa j)"
  moreover have "digits_val 0 (pad_zero n (Itoa k)) = Some k" if "0 \<le> k" for k
    using that by (simp add: pad_zero_def digits_val_zeros Itoa_def digits_val_nat_digits)
  ultimately show "i = j" by (metis option.inject)
qed

lemma Itoa_no_dot: "c \<in> set (Itoa i) \<Longrightarrow> c \<noteq> CHR ''.''"
  by (auto simp: Itoa_def is_digit_def dest!: nat_digits_all split: if_splits)

lemma takeWhile_Itoa:
  "takeWhile (\<lambda>c. c \<noteq> CHR ''.'') (Itoa i @ CHR ''.'' # s) = Itoa i"
  "dropWhile (\<lambda>c. c \<noteq> CHR ''.'') (Itoa i @ CHR ''.'' # s) = CHR ''.'' # s"
  using Itoa_no_dot by (subst takeWhile_append2 dropWhile_append2; auto)+

text \<open>Both branches print the seconds, a point and the nanoseconds with nine digits.\<close>

lemma timestamp_cell: "cellToString (VTime t) = Itoa (t div second) @ CHR ''.'' # pad_zero 9 (Itoa (t mod second))"
proof -
  have "pad_zero 9 (Itoa 0) = ''000000000''" by code_simp
  then show ?thesis by (simp add: Let_def)
qed

lemma timestamp_cell_inj:
  assumes "cellToString (VTime t) = cellToString (VTime u)"
  shows "t = u"
proof -
  have "Itoa (t div second) = Itoa (u div second)"
    using arg_cong [OF assms, of "takeWhile (\<lambda>c. c \<noteq> CHR ''.'')"] by (simp only: timestamp_cell takeWhile_Itoa)
  then have epoch: "t div second = u div second" by (rule Itoa_inj)
  with assms have "pad_zero 9 (Itoa (t mod second)) = pad_zero 9 (Itoa (u mod second))"
    by (simp only: timestamp_cell) simp
  moreover have "0 \<le> t mod second" "0 \<le> u mod second" by (simp_all add: second_def)
  ultimately have "t mod second = u mod second" using pad_zero_inj by blast
  with epoch show "t = u" by (metis div_mult_mod_eq)
qed

lemma cell_of_type_inj:
  assumes "snowflakeTypeName v = snowflakeTypeName w" "v \<noteq> VNil" "w \<noteq> VNil" "cellToString v = cellToString w"
  shows "v = w"
  using assms
  by (cases v; cases w)
     (auto simp del: cellToString.simps(2) dest: Itoa_inj timestamp_cell_inj hex_bytes_inj split: if_splits)

lemma row_type_column:
  "i < length cols \<Longrightarrow> rt_Type (row_type cols rows ! i) = column_type rows i"
  by (simp add: row_type_def Let_def nth_enumerate_eq)

lemma buildRowSet_length: "length (buildRowSet rows) = length rows"
  by (simp add: buildRowSet_def)

lemma buildRowSet_cell:
  "r < length rows \<Longrightarrow> i < length (rows ! r) \<Longrightarrow>
     buildRowSet rows ! r ! i = (if rows ! r ! i = VNil then None else Some (cellToString (rows ! r ! i)))"
  by (simp add: buildRowSet_def)

text \<open>
  C21. The answer of a query determines the result. Two results with the same columns that are sent with the same
  rowtype and the same rowset are the same, cell by cell: integers of any size, booleans, timestamps before and
  after 1970 to the nanosecond, binary values, nulls, and floating-point numbers and every other value as the
  text they are printed with. The columns have to be typed: no cell may be of another type than the cell of the
  first row, which is where the rowtype takes the type of the column from; a column whose first cell is null
  counts as text.
\<close>

theorem answer_determines_result:
  assumes typed: "columns_typed cols rows" "columns_typed cols rows'"
      and rowtype: "row_type cols rows = row_type cols rows'"
      and rowset: "buildRowSet rows = buildRowSet rows'"
  shows "rows = rows'"
proof (rule nth_equalityI)
  show len: "length rows = length rows'" using rowset by (metis buildRowSet_length)
  fix r assume r: "r < length rows"
  with len typed have width: "length (rows ! r) = length cols" "length (rows' ! r) = length cols"
    by (simp_all add: columns_typed_def)
  show "rows ! r = rows' ! r"
  proof (rule nth_equalityI)
    show "length (rows ! r) = length (rows' ! r)" using width by simp
    fix i assume "i < length (rows ! r)"
    with width have i: "i < length cols" by simp
    have "column_type rows i = column_type rows' i" using rowtype i by (metis row_type_column)
    with typed r len i have types: "rows ! r ! i = VNil \<or> rows' ! r ! i = VNil \<or>
        snowflakeTypeName (rows ! r ! i) = snowflakeTypeName (rows' ! r ! i)"
      by (metis columns_typed_def nth_mem)
    have "buildRowSet rows ! r ! i = buildRowSet rows' ! r ! i" using rowset by simp
    with r len i width types show "rows ! r ! i = rows' ! r ! i"
      by (auto simp: buildRowSet_cell split: if_splits intro: cell_of_type_inj)
  qed
qed

definition sample_rows :: "time \<Rightarrow> go_value list list" where
  "sample_rows t = [[VInt 1, VTime (- 500000000)], [VNil, VTime t]]"

theorem answer_determines_result_witness:
  "columns_typed [''A'', ''T''] (sample_rows 0) \<and> columns_typed [''A'', ''T''] (sample_rows (- 1)) \<and>
   map rt_Type (row_type [''A'', ''T''] (sample_rows 0)) = [''fixed'', ''timestamp_ntz''] \<and>
   row_type [''A'', ''T''] (sample_rows 0) = row_type [''A'', ''T''] (sample_rows (- 1)) \<and>
   buildRowSet (sample_rows 0) = [[Some ''1'', Some ''-1.500000000''], [None, Some ''0.000000000'']] \<and>
   buildRowSet (sample_rows 0) \<noteq> buildRowSet (sample_rows (- 1))"
proof (intro conjI)
  have typed: "columns_typed [''A'', ''T''] (sample_rows t)" for t
    unfolding sample_rows_def columns_typed_def column_type_def by (auto simp: less_Suc_eq)
  then show "columns_typed [''A'', ''T''] (sample_rows 0)" "columns_typed [''A'', ''T''] (sample_rows (- 1))"
    by this+
  show "map rt_Type (row_type [''A'', ''T''] (sample_rows 0)) = [''fixed'', ''timestamp_ntz'']"
    by (simp add: sample_rows_def row_type_def column_type_def Let_def)
  show rowtype: "row_type [''A'', ''T''] (sample_rows 0) = row_type [''A'', ''T''] (sample_rows (- 1))"
    by (simp add: sample_rows_def row_type_def column_type_def)
  have "cellToString (VTime (- 500000000)) = ''-1.500000000''"
    by (simp add: second_def Itoa_def nat_digits.simps pad_zero_def) code_simp
  moreover have "cellToString (VTime 0) = ''0.000000000''" "cellToString (VInt 1) = ''1''" by code_simp+
  ultimately show "buildRowSet (sample_rows 0) =
      [[Some ''1'', Some ''-1.500000000''], [None, Some ''0.000000000'']]"
    by (simp add: sample_rows_def buildRowSet_def del: cellToString.simps)
  have "sample_rows 0 \<noteq> sample_rows (- 1)" by (simp add: sample_rows_def)
  then show "buildRowSet (sample_rows 0) \<noteq> buildRowSet (sample_rows (- 1))"
    using answer_determines_result [OF typed typed rowtype] by blast
qed

text \<open>
  A column that starts with a null is announced as text, so that a number in a later row is not told from a
  string: the condition on the columns is needed.
\<close>

lemma null_first_row_loses_type:
  "row_type [''A''] [[VNil], [VInt 1]] = row_type [''A''] [[VNil], [VOther ''1'']]"
  "buildRowSet [[VNil], [VInt 1]] = buildRowSet [[VNil], [VOther ''1'']]"
  "rt_Type (hd (row_type [''A''] [[VNil], [VInt 1]])) = ''text''"
  by code_simp+

text \<open>\<^verbatim>\<open>handleV2Statements\<close> uses \<^verbatim>\<open>cellToString\<close> for null too, so that its rowset does not tell it from a text.\<close>

lemma v2_null_is_text: "cellToString VNil = cellToString (VOther ''null'')"
  by simp

text \<open>The token of an authorization header written the way the drivers write it.\<close>

definition auth_header :: "string \<Rightarrow> string" where
  "auth_header token = token_prefix @ token @ [CHR 0x22]"

lemma Index_prefix: "Index (p @ s) p = Some 0"
  by (cases "p @ s") (auto simp: HasPrefix_def, metis HasPrefix_append HasPrefix_def list.size(3) take0)

lemma Index_single: "c \<notin> set s \<Longrightarrow> Index (s @ c # t) [c] = Some (length s)"
  by (induction s) auto

lemma extractToken_header: "CHR 0x22 \<notin> set token \<Longrightarrow> extractToken (auth_header token) = token"
  by (simp add: extractToken_def auth_header_def Index_prefix Index_single)

end
