(* ===== verification/Parameters.thy ===== *)
theory Parameters
  imports Orch_Env
begin

text \<open>
  SHOW PARAMETERS (\<^verbatim>\<open>orchestrator/snowflake_handlers.go\<close>): the tables of session and account parameters, the
  typed defaults a login returns, and the filter by a LIKE pattern, which the code translates into a regular
  expression. The translation is proved to compute the LIKE predicate.
\<close>

record snowflakeParameter =
  par_Key :: string
  par_Value :: string
  par_Default :: string
  par_Level :: string
  par_Description :: string
  par_Type :: string

definition param :: "string \<Rightarrow> string \<Rightarrow> string \<Rightarrow> string \<Rightarrow> string \<Rightarrow> string \<Rightarrow> snowflakeParameter" where
  "param key val def level description type =
     \<lparr>par_Key = key, par_Value = val, par_Default = def, par_Level = level, par_Description = description,
      par_Type = type\<rparr>"

definition defaultSessionParameters :: "snowflakeParameter list" where
  "defaultSessionParameters = [
     param ''ABORT_DETACHED_QUERY'' ''false'' ''false'' '''' ''abort queries when the client disconnects'' ''BOOLEAN'',
     param ''AUTOCOMMIT'' ''true'' ''true'' '''' ''autocommit mode'' ''BOOLEAN'',
     param ''BINARY_OUTPUT_FORMAT'' ''HEX'' ''HEX'' '''' ''display format for binary'' ''STRING'',
     param ''CLIENT_RESULT_CHUNK_SIZE'' ''160'' ''160'' '''' ''result chunk size in MB'' ''NUMBER'',
     param ''CLIENT_SESSION_KEEP_ALIVE'' ''false'' ''false'' '''' ''keep session alive between requests'' ''BOOLEAN'',
     param ''CLIENT_SESSION_KEEP_ALIVE_HEARTBEAT_FREQUENCY'' ''3600'' ''3600'' '''' ''heartbeat frequency in seconds'' ''NUMBER'',
     param ''DATE_OUTPUT_FORMAT'' ''YYYY-MM-DD'' ''YYYY-MM-DD'' '''' ''display format for date'' ''STRING'',
     param ''ERROR_ON_NONDETERMINISTIC_MERGE'' ''true'' ''true'' '''' ''error on nondeterministic MERGE'' ''BOOLEAN'',
     param ''ERROR_ON_NONDETERMINISTIC_UPDATE'' ''false'' ''false'' '''' ''error on nondeterministic UPDATE'' ''BOOLEAN'',
     param ''GEOGRAPHY_OUTPUT_FORMAT'' ''GeoJSON'' ''GeoJSON'' '''' ''display format for GEOGRAPHY'' ''STRING'',
     param ''JSON_INDENT'' ''2'' ''2'' '''' ''indent for JSON output'' ''NUMBER'',
     param ''LOCK_TIMEOUT'' ''43200'' ''43200'' '''' ''lock timeout in seconds'' ''NUMBER'',
     param ''QUERY_TAG'' '''' '''' '''' ''query tag'' ''STRING'',
     param ''QUOTED_IDENTIFIERS_IGNORE_CASE'' ''false'' ''false'' '''' ''case-insensitive quoted identifiers'' ''BOOLEAN'',
     param ''ROWS_PER_RESULTSET'' ''0'' ''0'' '''' ''max rows per result set (0 = unlimited)'' ''NUMBER'',
     param ''SIMULATED_DATA_SHARING_CONSUMER'' '''' '''' '''' ''simulated data sharing consumer'' ''STRING'',
     param ''STATEMENT_TIMEOUT_IN_SECONDS'' ''172800'' ''172800'' '''' ''statement timeout in seconds'' ''NUMBER'',
     param ''TIMESTAMP_LTZ_OUTPUT_FORMAT'' '''' '''' '''' ''display format for TIMESTAMP_LTZ'' ''STRING'',
     param ''TIMESTAMP_NTZ_OUTPUT_FORMAT'' ''YYYY-MM-DD HH24:MI:SS.FF3'' ''YYYY-MM-DD HH24:MI:SS.FF3'' '''' ''display format for TIMESTAMP_NTZ'' ''STRING'',
     param ''TIMESTAMP_OUTPUT_FORMAT'' ''YYYY-MM-DD HH24:MI:SS.FF3 TZHTZM'' ''YYYY-MM-DD HH24:MI:SS.FF3 TZHTZM'' '''' ''display format for timestamps'' ''STRING'',
     param ''TIMESTAMP_TZ_OUTPUT_FORMAT'' '''' '''' '''' ''display format for TIMESTAMP_TZ'' ''STRING'',
     param ''TIMEZONE'' ''America/Los_Angeles'' ''America/Los_Angeles'' '''' ''time zone'' ''STRING'',
     param ''TIME_INPUT_FORMAT'' ''AUTO'' ''AUTO'' '''' ''input format for time'' ''STRING'',
     param ''TIME_OUTPUT_FORMAT'' ''HH24:MI:SS'' ''HH24:MI:SS'' '''' ''display format for time'' ''STRING'',
     param ''TRANSACTION_ABORT_ON_ERROR'' ''false'' ''false'' '''' ''abort transaction on statement error'' ''BOOLEAN'',
     param ''TWO_DIGIT_CENTURY_START'' ''1970'' ''1970'' '''' ''century start for two-digit years'' ''NUMBER'',
     param ''UNSUPPORTED_DDL_ACTION'' ''ignore'' ''ignore'' '''' ''action on unsupported DDL'' ''STRING'',
     param ''USE_CACHED_RESULT'' ''true'' ''true'' '''' ''reuse cached query results'' ''BOOLEAN'']"

definition defaultAccountParameters :: "snowflakeParameter list" where
  "defaultAccountParameters = [
     param ''MAX_CONCURRENCY_LEVEL'' ''8'' ''8'' '''' ''max concurrency level'' ''NUMBER'',
     param ''PERIODIC_DATA_REKEYING'' ''true'' ''true'' '''' ''periodic data rekeying'' ''BOOLEAN'']"

subsection \<open>The defaults of a session\<close>

text \<open>\<^verbatim>\<open>strconv.ParseInt\<close> in base 10 with 64 bits accepts what \<^verbatim>\<open>strconv.Atoi\<close> accepts.\<close>

datatype pvalue = PString string | PBool bool | PInt int

definition param_value :: "snowflakeParameter \<Rightarrow> pvalue" where
  "param_value p =
     (if par_Type p = ''BOOLEAN'' then PBool (EqualFold (par_Value p) ''true'')
      else if par_Type p = ''NUMBER'' then
        (case Atoi (par_Value p) of Some n \<Rightarrow> PInt n | None \<Rightarrow> PString (par_Value p))
      else PString (par_Value p))"

definition DefaultSessionParameters :: "(string \<times> pvalue) list" where
  "DefaultSessionParameters = map (\<lambda>p. (par_Key p, param_value p)) defaultSessionParameters"

subsection \<open>The LIKE filter\<close>

definition like_specials :: string where
  "like_specials = ''.+*?()[]{}^$|'' @ [CHR 0x5C]"

definition like_piece :: "char \<Rightarrow> string" where
  "like_piece c =
     (if c = CHR ''%'' then ''.*''
      else if c = CHR ''_'' then ''.''
      else if c \<in> set like_specials then [CHR 0x5C, c]
      else [c])"

definition matchLike :: "string \<Rightarrow> string \<Rightarrow> bool" where
  "matchLike pattern val =
     (let pattern = ToUpper pattern; val = ToUpper val
      in case re_Compile (''(?s)^'' @ concat (map like_piece pattern) @ ''$'') of
           None \<Rightarrow> False
         | Some r \<Rightarrow> MatchString r val)"

definition listParameters :: "string \<Rightarrow> string \<Rightarrow> snowflakeParameter list" where
  "listParameters likePattern scope =
     (let params = defaultSessionParameters @ (if EqualFold scope ''ACCOUNT'' then defaultAccountParameters else [])
      in if likePattern = '''' then params else filter (\<lambda>p. matchLike likePattern (par_Key p)) params)"

definition handleShowParameters :: "string \<Rightarrow> string \<Rightarrow> 'v QueryResult result" where
  "handleShowParameters likePattern scope =
     (let scope = ToUpper (TrimSpace scope);
          scope = (if scope = '''' then ''SESSION'' else scope)
      in if scope \<in> set [''SESSION'', ''ACCOUNT'', ''USER'', ''WAREHOUSE'', ''DATABASE'', ''SCHEMA'', ''TASK'', ''TABLE'']
         then Ok (table_result [''key'', ''value'', ''default'', ''level'', ''description'', ''type'']
                (map (\<lambda>p. [CStr (par_Key p), CStr (par_Value p), CStr (par_Default p), CStr (par_Level p),
                           CStr (par_Description p), CStr (par_Type p)]) (listParameters likePattern scope)) ''SHOW'')
         else Err (Invalid ''SHOW PARAMETERS: unsupported scope'' scope))"

lemma handleShowParameters_fits: "handleShowParameters pat scope = Ok r \<Longrightarrow> fits r"
  by (auto simp: handleShowParameters_def Let_def list_all_iff split: if_splits)

subsection \<open>The translated pattern computes LIKE\<close>

fun like :: "string \<Rightarrow> string \<Rightarrow> bool" where
  "like [] s = (s = [])"
| "like (c # p) [] = (c = CHR ''%'' \<and> like p [])"
| "like (c # p) (x # s) =
     (if c = CHR ''%'' then like p (x # s) \<or> like (c # p) s else (c = CHR ''_'' \<or> c = x) \<and> like p s)"

definition like_tokens :: "char \<Rightarrow> re_token list" where
  "like_tokens c =
     (if c = CHR ''%'' then [TDot, TStar True] else if c = CHR ''_'' then [TDot] else [TClass False [IChar c]])"

definition like_re :: "char \<Rightarrow> re" where
  "like_re c =
     (if c = CHR ''%'' then Star True (Dot True) else if c = CHR ''_'' then Dot True else Cls False False [IChar c])"

lemma like_piece_hd: "lazy_suffix (concat (map like_piece p) @ ''$'') = (True, concat (map like_piece p) @ ''$'')"
  by (cases p) (auto simp: lazy_suffix_def like_piece_def like_specials_def)

lemma re_tokens_literal:
  assumes "c \<notin> set like_specials" shows "re_tokens (c # s) = map_option ((#) (TClass False [IChar c])) (re_tokens s)"
  using assms by (auto simp: re_token_at_def like_specials_def split: option.split)

lemma re_tokens_escaped:
  assumes "c \<in> set like_specials"
  shows "re_tokens (CHR 0x5C # c # s) = map_option ((#) (TClass False [IChar c])) (re_tokens s)"
  using assms by (auto simp: re_token_at_def re_escape_def re_class_escape_def like_specials_def split: option.split)

lemma like_tokens_read:
  "re_tokens (concat (map like_piece p) @ ''$'') = Some (concat (map like_tokens p) @ [TEol])"
proof (induction p)
  case Nil
  show ?case by (simp add: re_token_at_def)
next
  case (Cons c p)
  consider "c = CHR ''%''" | "c = CHR ''_''" | "c \<noteq> CHR ''%''" "c \<noteq> CHR ''_''" "c \<in> set like_specials"
    | "c \<noteq> CHR ''%''" "c \<noteq> CHR ''_''" "c \<notin> set like_specials" by blast
  then show ?case
  proof cases
    case 1
    then have "concat (map like_piece (c # p)) @ ''$'' = CHR ''.'' # CHR ''*'' # concat (map like_piece p) @ ''$''"
      "concat (map like_tokens (c # p)) = TDot # TStar True # concat (map like_tokens p)"
      by (simp_all add: like_piece_def like_tokens_def)
    then show ?thesis using Cons like_piece_hd [of p] by (simp add: re_token_at_def)
  next
    case 2
    then show ?thesis using Cons by (simp add: like_piece_def like_tokens_def re_token_at_def)
  next
    case 3
    then show ?thesis using Cons
      by (simp add: like_piece_def like_tokens_def re_tokens_escaped del: re_tokens.simps)
  next
    case 4
    then show ?thesis using Cons
      by (simp add: like_piece_def like_tokens_def re_tokens_literal del: re_tokens.simps)
  qed
qed

lemma like_parse:
  "re_parse False True (concat (map like_tokens p) @ [TEol]) 0 [] None xs =
     Some (re_cats (Eol # rev (map like_re p) @ xs) Eps)"
  by (induction p arbitrary: xs) (simp_all add: re_body_def like_tokens_def like_re_def)

lemma like_compiled:
  "re_Compile (''(?s)^'' @ concat (map like_piece p) @ ''$'') = Some (re_cats (rev (map like_re p) @ [Bol]) Eol)"
proof -
  have "re_tokens (CHR ''^'' # concat (map like_piece p) @ ''$'') = Some (TBol # concat (map like_tokens p) @ [TEol])"
    using like_tokens_read [of p] by (simp add: re_token_at_def)
  then show ?thesis by (simp add: re_Compile_def like_parse)
qed

lemma re_cats_foldr: "acc \<noteq> Eps \<Longrightarrow> re_cats (rev xs) acc = foldr Cat xs acc"
proof (induction xs rule: rev_induct)
  case (snoc x xs)
  have "re_cats (x # rev xs) acc = re_cats (rev xs) (Cat x acc)" using snoc.prems by (cases acc) simp_all
  moreover have "re_cats (rev xs) a = foldr Cat xs a" if "a \<noteq> Eps" for a
    using that
  proof (induction xs arbitrary: a rule: rev_induct)
    case (snoc y ys)
    have "re_cats (y # rev ys) a = re_cats (rev ys) (Cat y a)" using snoc.prems by (cases a) simp_all
    then show ?case using snoc.IH [of "Cat y a"] by simp
  qed simp
  ultimately show ?case by simp
qed simp

text \<open>A greedy repetition of the dot matches whatever the rest of the expression needs it to match.\<close>

lemma rmatch_any:
  assumes "\<And>q t. rmatch k q t c \<noteq> None \<longleftrightarrow> P t"
  shows "rmatch (Run (Star True (Dot True)) # k) q s c \<noteq> None \<longleftrightarrow> (\<exists>u t. s = u @ t \<and> P t)"
proof (induction s arbitrary: q)
  case Nil
  show ?case using assms [of q "[]"] by (auto split: option.splits)
next
  case (Cons x s)
  have "rmatch (Run (Star True (Dot True)) # k) q (x # s) c \<noteq> None \<longleftrightarrow>
      rmatch (Run (Star True (Dot True)) # k) (Some x) s c \<noteq> None \<or> rmatch k q (x # s) c \<noteq> None"
    by (simp add: option.case_eq_if del: not_None_eq)
  also have "\<dots> \<longleftrightarrow> (\<exists>u t. s = u @ t \<and> P t) \<or> P (x # s)" using Cons.IH assms by blast
  also have "\<dots> \<longleftrightarrow> (\<exists>u t. x # s = u @ t \<and> P t)" by (metis Cons_eq_append_conv append_Cons append_Nil)
  finally show ?case .
qed

lemma like_percent: "like (CHR ''%'' # p) s \<longleftrightarrow> (\<exists>u t. s = u @ t \<and> like p t)"
proof (induction s)
  case (Cons x s)
  then show ?case by (simp only: like.simps if_True) (metis Cons_eq_append_conv append_Cons append_Nil)
qed simp

lemma rmatch_like: "rmatch [Run (foldr Cat (map like_re p) Eol)] q s c \<noteq> None \<longleftrightarrow> like p s"
proof (induction p arbitrary: q s)
  case (Cons a p)
  show ?case
  proof (cases "a = CHR ''%''")
    case True
    then have "rmatch [Run (foldr Cat (map like_re (a # p)) Eol)] q s c =
        rmatch [Run (Star True (Dot True)), Run (foldr Cat (map like_re p) Eol)] q s c"
      by (simp add: like_re_def del: rmatch.simps(9))
    moreover have "rmatch [Run (Star True (Dot True)), Run (foldr Cat (map like_re p) Eol)] q s c \<noteq> None \<longleftrightarrow>
        (\<exists>u t. s = u @ t \<and> like p t)"
      by (rule rmatch_any) (rule Cons.IH)
    ultimately show ?thesis unfolding True like_percent by simp
  next
    case False
    then have "like_re a = Dot True \<and> a = CHR ''_'' \<or> like_re a = Cls False False [IChar a] \<and> a \<noteq> CHR ''_''"
      by (simp add: like_re_def)
    then have step: "rmatch [Run (foldr Cat (map like_re (a # p)) Eol)] q s c =
        (case s of [] \<Rightarrow> None | x # t \<Rightarrow> if a = CHR ''_'' \<or> a = x
           then rmatch [Run (foldr Cat (map like_re p) Eol)] (Some x) t c else None)"
      by (cases s) (auto simp: in_class_def)
    show ?thesis unfolding step using Cons.IH False by (cases s) simp_all
  qed
qed simp

lemma Bol_first: "find_re (Cat Bol r) (Some y) s = None"
  by (induction s arbitrary: y) (simp_all add: find_re.simps rmatch_at_def)

text \<open>
  C28. The filter of SHOW PARAMETERS computes SQL's LIKE, ignoring case: the expression the code builds for a
  pattern always compiles, whatever characters the pattern contains, and matches exactly the names that the
  pattern describes, where \<open>%\<close> stands for any text, \<open>_\<close> for one character and any other character for itself.
\<close>

theorem matchLike_is_like: "matchLike pattern val \<longleftrightarrow> like (ToUpper pattern) (ToUpper val)"
proof -
  let ?p = "ToUpper pattern" and ?v = "ToUpper val"
  have "matchLike pattern val \<longleftrightarrow> MatchString (Cat Bol (foldr Cat (map like_re ?p) Eol)) ?v"
    using re_cats_foldr [of Eol "Bol # map like_re ?p"] unfolding matchLike_def Let_def like_compiled by simp
  also have "\<dots> \<longleftrightarrow> rmatch [Run (foldr Cat (map like_re ?p) Eol)] None ?v [] \<noteq> None"
    unfolding MatchString_def
    by (subst find_re.simps) (auto simp: rmatch_at_def Bol_first split: option.splits list.splits)
  finally show ?thesis by (simp only: rmatch_like)
qed

end
