(* ===== verification/Orch_Handlers.thy ===== *)
theory Orch_Handlers
  imports Stage_Commands Parameters Catalog Streams Task Snowpipe Rbac Clone Udf Rewrite_Rules
begin

text \<open>
  The orchestrator (\<^verbatim>\<open>orchestrator/orchestrator.go\<close>, \<^verbatim>\<open>orchestrator/snowflake_handlers.go\<close>): the record of all
  subsystems and the handlers of the statements that the rewriter turned into markers. A handler receives
  the surroundings, the orchestrator, the session, what the marker captured and the world; it returns the
  world, the orchestrator and the result or error. Every subsystem is present, as \<^verbatim>\<open>main.go\<close> wires them, so the
  code's tests for a nil subsystem always succeed.
\<close>

record ('w, 'd) Orchestrator =
  o_engine :: Engine
  o_catalog :: Catalog
  o_stageMgr :: stage_Manager
  o_streamEng :: "'d stream_Engine"
  o_taskSched :: "'w Scheduler"
  o_timeTravelEng :: tt_Engine
  o_cloneEng :: clone_Engine
  o_udfReg :: udf_Registry
  o_rbacEng :: rbac_Engine
  o_snowpipeEng :: pipe_Engine

type_synonym ('w, 'v, 'd) outcome = "'w \<times> ('w, 'd) Orchestrator \<times> 'v QueryResult result"

text \<open>The shape of most handlers: run an operation of a subsystem, return its error or store its new state.\<close>

definition commit ::
  "'w \<Rightarrow> ('w, 'd) Orchestrator \<Rightarrow> ('s \<Rightarrow> ('w, 'd) Orchestrator) \<Rightarrow> 's result \<Rightarrow> 'v QueryResult \<Rightarrow> ('w, 'v, 'd) outcome" where
  "commit w orc put r res = (case r of Inl e \<Rightarrow> (w, orc, Err e) | Inr s \<Rightarrow> (w, put s, Ok res))"

text \<open>Dropping with IF EXISTS: an error becomes a status.\<close>

definition commit_drop ::
  "'w \<Rightarrow> ('w, 'd) Orchestrator \<Rightarrow> ('s \<Rightarrow> ('w, 'd) Orchestrator) \<Rightarrow> 's result \<Rightarrow> string \<Rightarrow> bool \<Rightarrow> ('w, 'v, 'd) outcome" where
  "commit_drop w orc put r what ifExists =
     (case r of
        Inl e \<Rightarrow> (w, orc, if ifExists then Ok (statusResult (what @ '' does not exist (IF EXISTS).'')) else Err e)
      | Inr s \<Rightarrow> (w, put s, Ok (statusResult (what @ '' successfully dropped.''))))"

definition set_streams :: "('w, 'd) Orchestrator \<Rightarrow> 'd stream_Engine \<Rightarrow> ('w, 'd) Orchestrator" where
  "set_streams orc s = orc\<lparr>o_streamEng := s\<rparr>"

definition set_tasks :: "('w, 'd) Orchestrator \<Rightarrow> 'w Scheduler \<Rightarrow> ('w, 'd) Orchestrator" where
  "set_tasks orc s = orc\<lparr>o_taskSched := s\<rparr>"

definition set_pipes :: "('w, 'd) Orchestrator \<Rightarrow> pipe_Engine \<Rightarrow> ('w, 'd) Orchestrator" where
  "set_pipes orc s = orc\<lparr>o_snowpipeEng := s\<rparr>"

definition set_stages :: "('w, 'd) Orchestrator \<Rightarrow> stage_Manager \<Rightarrow> ('w, 'd) Orchestrator" where
  "set_stages orc s = orc\<lparr>o_stageMgr := s\<rparr>"

text \<open>The stage commands work on the stage manager alone.\<close>

definition on_stages ::
  "('w, 'd) Orchestrator \<Rightarrow> 'w \<times> stage_Manager \<times> 'v QueryResult result \<Rightarrow> ('w, 'v, 'd) outcome" where
  "on_stages orc r = (case r of (w, m, res) \<Rightarrow> (w, set_stages orc m, res))"

subsection \<open>Streams\<close>

definition reParseCreateStream :: re where
  "reParseCreateStream =
     re_lit ''(?is)CREATE~s+(OR~s+REPLACE~s+)?STREAM~s+(~S+)~s+ON~s+TABLE~s+(~S+)(?:~s+APPEND_ONLY~s*=~s*TRUE)?''"

definition handleCreateStream ::
  "('w, 'h, 'v) orch_env \<Rightarrow> ('w, 'd) Orchestrator \<Rightarrow> Session \<Rightarrow> string \<Rightarrow> 'w \<Rightarrow> ('w, 'v, 'd) outcome" where
  "handleCreateStream env orc sess originalSQL w =
     (case FindStringSubmatch reParseCreateStream originalSQL of
        None \<Rightarrow> (w, orc, Err (Invalid ''CREATE STREAM: unable to parse'' originalSQL))
      | Some m \<Rightarrow>
          (let streamName = Trim (m 2) quotes2;
               tableName = Trim (m 3) quotes2;
               streamType = (if Contains (ToUpper originalSQL) ''APPEND_ONLY'' then ''APPEND_ONLY'' else ''STANDARD'')
           in commit w orc (set_streams orc)
                (CreateStream (o_streamEng orc) (now_of env w) (sess_Database sess) (sess_Schema sess)
                   streamName tableName streamType)
                (statusResult (''Stream '' @ streamName @ '' successfully created.''))))"

definition handleDropStream ::
  "('w, 'd) Orchestrator \<Rightarrow> Session \<Rightarrow> string \<Rightarrow> bool \<Rightarrow> 'w \<Rightarrow> ('w, 'v, 'd) outcome" where
  "handleDropStream orc sess name ifExists w =
     commit_drop w orc (set_streams orc) (DropStream (o_streamEng orc) (sess_Database sess) (sess_Schema sess) name)
       (''Stream '' @ name) ifExists"

definition stream_row :: "StreamInfo \<Rightarrow> 'v qcell list" where
  "stream_row s =
     [CTime (sti_CreatedAt s), CStr (sti_Name s), CStr (sti_DatabaseName s), CStr (sti_SchemaName s),
      CStr (sti_TableName s), CStr (sti_Type s), CBool (sti_Stale s)]"

definition handleShowStreams ::
  "('w, 'h, 'v) orch_env \<Rightarrow> ('w, 'd) Orchestrator \<Rightarrow> Session \<Rightarrow> string \<Rightarrow> 'w \<Rightarrow> ('w, 'v, 'd) outcome" where
  "handleShowStreams env orc sess scope w =
     (let (db, schema) = scopeOrSession scope sess;
          infos = ShowStreams (o_streamEng orc) db schema (order_of env ''streams'' w)
      in (w, orc, Ok (table_result
           [''created_on'', ''name'', ''database_name'', ''schema_name'', ''table_name'', ''type'', ''stale'']
           (map stream_row infos) ''SHOW'')))"

subsection \<open>Tasks\<close>

definition reParseCreateTask :: re where
  "reParseCreateTask = re_lit ''(?is)CREATE~s+(OR~s+REPLACE~s+)?TASK~s+(~S+)''"

definition reTaskWarehouse :: re where "reTaskWarehouse = re_lit ''(?is)WAREHOUSE~s*=~s*(~S+)''"

definition reTaskSchedule :: re where "reTaskSchedule = re_lit ''(?is)SCHEDULE~s*=~s*`([^`]+)`''"

definition reTaskAfter :: re where "reTaskAfter = re_lit ''(?is)~bAFTER~s+(~S+?)(?:~s|$)''"

definition reTaskWhen :: re where "reTaskWhen = re_lit ''(?is)~bWHEN~s+(.+?)~s+AS~s+''"

definition reTaskAs :: re where "reTaskAs = re_lit ''(?is)~bAS~s+(.+)$''"

text \<open>The first group of an expression, or the empty string if it does not match.\<close>

definition group1 :: "re \<Rightarrow> string \<Rightarrow> string" where
  "group1 r sql = (case FindStringSubmatch r sql of None \<Rightarrow> '''' | Some m \<Rightarrow> m 1)"

definition handleCreateTask ::
  "('w, 'h, 'v) orch_env \<Rightarrow> ('w, 'd) Orchestrator \<Rightarrow> Session \<Rightarrow> string \<Rightarrow> 'w \<Rightarrow> ('w, 'v, 'd) outcome" where
  "handleCreateTask env orc sess originalSQL w =
     (case FindStringSubmatch reParseCreateTask originalSQL of
        None \<Rightarrow> (w, orc, Err (Invalid ''CREATE TASK: unable to parse name from'' originalSQL))
      | Some m \<Rightarrow>
          (let name = Trim (m 2) quotes2;
               warehouse = Trim (group1 reTaskWarehouse originalSQL) quotes2;
               schedule = group1 reTaskSchedule originalSQL;
               predecessor = Trim (group1 reTaskAfter originalSQL) quotes2;
               whenCond = TrimSpace (group1 reTaskWhen originalSQL);
               body = TrimSpace (group1 reTaskAs originalSQL)
           in if body = '''' then (w, orc, Err (Invalid ''CREATE TASK: missing AS body'' name))
              else commit w orc (set_tasks orc)
                (CreateTask (load_zone env) (o_taskSched orc) (now_of env w) (sess_Database sess) (sess_Schema sess)
                   name body schedule warehouse predecessor whenCond)
                (statusResult (''Task '' @ name @ '' successfully created.''))))"

definition handleDropTask ::
  "('w, 'd) Orchestrator \<Rightarrow> Session \<Rightarrow> string \<Rightarrow> bool \<Rightarrow> 'w \<Rightarrow> ('w, 'v, 'd) outcome" where
  "handleDropTask orc sess name ifExists w =
     commit_drop w orc (set_tasks orc) (DropTask (o_taskSched orc) (sess_Database sess) (sess_Schema sess) name)
       (''Task '' @ name) ifExists"

definition handleAlterTask :: "('w, 'd) Orchestrator \<Rightarrow> Session \<Rightarrow> string \<Rightarrow> string \<Rightarrow> 'w \<Rightarrow> ('w, 'v, 'd) outcome" where
  "handleAlterTask orc sess name action w =
     (let state = (if ToUpper action = ''RESUME'' then Some TaskStarted
                   else if ToUpper action = ''SUSPEND'' then Some TaskSuspended else None)
      in case state of
           None \<Rightarrow> (w, orc, Err (Invalid (''ALTER TASK '' @ name) action))
         | Some st \<Rightarrow>
             commit w orc (set_tasks orc) (AlterTask (o_taskSched orc) (sess_Database sess) (sess_Schema sess) name st)
               (statusResult (''Task '' @ name @ '' successfully '' @ ToLower action @ ''ed.'')))"

definition task_state_text :: "TaskState \<Rightarrow> string" where
  "task_state_text st = (case st of TaskStarted \<Rightarrow> ''started'' | TaskSuspended \<Rightarrow> ''suspended'')"

definition time_cell :: "time option \<Rightarrow> 'v qcell" where
  "time_cell t = (case t of None \<Rightarrow> CNull | Some x \<Rightarrow> CTime x)"

definition task_row :: "TaskInfo \<Rightarrow> 'v qcell list" where
  "task_row t =
     [CTime (ti_CreatedAt t), CStr (ti_Name t), CStr (ti_DatabaseName t), CStr (ti_SchemaName t),
      CStr (ti_Warehouse t), CStr (ti_Schedule t), CStr (task_state_text (ti_State t)), CStr (ti_Predecessor t),
      time_cell (ti_LastRunAt t), time_cell (ti_NextRunAt t)]"

definition handleShowTasks ::
  "('w, 'h, 'v) orch_env \<Rightarrow> ('w, 'd) Orchestrator \<Rightarrow> Session \<Rightarrow> string \<Rightarrow> 'w \<Rightarrow> ('w, 'v, 'd) outcome" where
  "handleShowTasks env orc sess scope w =
     (let (db, schema) = scopeOrSession scope sess;
          infos = ShowTasks (o_taskSched orc) db schema (order_of env ''tasks'' w)
      in (w, orc, Ok (table_result
           [''created_on'', ''name'', ''database_name'', ''schema_name'', ''warehouse'', ''schedule'', ''state'',
            ''predecessor'', ''last_run_at'', ''next_run_at'']
           (map task_row infos) ''SHOW'')))"

definition handleExecuteTask ::
  "('w, 'h, 'v) orch_env \<Rightarrow> ('w, 'd) Orchestrator \<Rightarrow> Session \<Rightarrow> string \<Rightarrow> 'w \<Rightarrow> ('w, 'v, 'd) outcome" where
  "handleExecuteTask env orc sess name w =
     (case GetTask (o_taskSched orc) (sess_Database sess) (sess_Schema sess) name of
        Inl e \<Rightarrow> (w, orc, Err e)
      | Inr t \<Rightarrow>
          (case ExecNoResult (drv env) (t_SQLText t) w of
             (w, Inl e) \<Rightarrow> (w, orc, Err (Wrap (''EXECUTE TASK '' @ name) e))
           | (w, Inr _) \<Rightarrow> (w, orc, Ok (statusResult (''Task '' @ name @ '' executed.'')))))"

subsection \<open>Pipes\<close>

definition reParseCreatePipe :: re where
  "reParseCreatePipe = re_lit ''(?is)CREATE~s+(OR~s+REPLACE~s+)?PIPE~s+(~S+)''"

definition rePipeAutoIngest :: re where "rePipeAutoIngest = re_lit ''(?is)AUTO_INGEST~s*=~s*TRUE''"

definition rePipeAs :: re where "rePipeAs = re_lit ''(?is)~bAS~s+(.+)$''"

definition handleCreatePipe ::
  "('w, 'h, 'v) orch_env \<Rightarrow> ('w, 'd) Orchestrator \<Rightarrow> Session \<Rightarrow> string \<Rightarrow> 'w \<Rightarrow> ('w, 'v, 'd) outcome" where
  "handleCreatePipe env orc sess originalSQL w =
     (case FindStringSubmatch reParseCreatePipe originalSQL of
        None \<Rightarrow> (w, orc, Err (Invalid ''CREATE PIPE: unable to parse name from'' originalSQL))
      | Some m \<Rightarrow>
          (let name = Trim (m 2) quotes2;
               autoIngest = MatchString rePipeAutoIngest originalSQL;
               copyStmt = TrimSpace (group1 rePipeAs originalSQL)
           in if copyStmt = '''' then (w, orc, Err (Invalid ''CREATE PIPE: missing AS copy_statement'' name))
              else commit w orc (set_pipes orc)
                (CreatePipe (o_snowpipeEng orc) (now_of env w) (sess_Database sess) (sess_Schema sess) name copyStmt autoIngest)
                (statusResult (''Pipe '' @ name @ '' successfully created.''))))"

definition handleDropPipe ::
  "('w, 'd) Orchestrator \<Rightarrow> Session \<Rightarrow> string \<Rightarrow> bool \<Rightarrow> 'w \<Rightarrow> ('w, 'v, 'd) outcome" where
  "handleDropPipe orc sess name ifExists w =
     commit_drop w orc (set_pipes orc) (DropPipe (o_snowpipeEng orc) (sess_Database sess) (sess_Schema sess) name)
       (''Pipe '' @ name) ifExists"

definition pipe_state_text :: "PipeState \<Rightarrow> string" where
  "pipe_state_text st =
     (case st of PipeRunning \<Rightarrow> ''RUNNING'' | PipePaused \<Rightarrow> ''PAUSED'' | PipeStopped \<Rightarrow> ''STOPPED_BY_SNOWFLAKE'')"

definition pipe_row :: "PipeInfo \<Rightarrow> 'v qcell list" where
  "pipe_row p =
     [CTime (pi_CreatedAt p), CStr (pi_Name p), CStr (pi_Database p), CStr (pi_Schema p), CStr (pi_Definition p),
      CStr (pipe_state_text (pi_State p))]"

definition handleShowPipes ::
  "('w, 'h, 'v) orch_env \<Rightarrow> ('w, 'd) Orchestrator \<Rightarrow> Session \<Rightarrow> string \<Rightarrow> 'w \<Rightarrow> ('w, 'v, 'd) outcome" where
  "handleShowPipes env orc sess scope w =
     (let (db, schema) = scopeOrSession scope sess;
          infos = ShowPipes (o_snowpipeEng orc) db schema (order_of env ''pipes'' w)
      in (w, orc, Ok (table_result
           [''created_on'', ''name'', ''database_name'', ''schema_name'', ''definition'', ''state'']
           (map pipe_row infos) ''SHOW'')))"

text \<open>The entry point of the server for the files of a pipe; \<open>clock\<close> gives the times at which the files are loaded.\<close>

definition InsertPipeFiles ::
  "('w, 'h, 'v) orch_env \<Rightarrow> (nat \<Rightarrow> time) \<Rightarrow> ('w, 'd) Orchestrator \<Rightarrow> string \<Rightarrow> string \<Rightarrow> string \<Rightarrow> string list \<Rightarrow> 'w \<Rightarrow>
     'w \<times> ('w, 'd) Orchestrator \<times> go_error option"
where
  "InsertPipeFiles env clock orc db schema pipeName files w =
     (case InsertFiles (pipe_exec env) clock (o_snowpipeEng orc) db schema pipeName files w of
        (w, Inl e) \<Rightarrow> (w, orc, Some e) | (w, Inr p) \<Rightarrow> (w, set_pipes orc p, None))"

subsection \<open>Time travel\<close>

definition restore_sql :: "string \<Rightarrow> string \<Rightarrow> string" where
  "restore_sql tableName key =
     ''CREATE TABLE '' @ tableName @ '' AS SELECT * FROM read_parquet('' @ [CHR 0x27] @ escapeStringLiteral key @
     [CHR 0x27] @ '')''"

definition handleUndropTable ::
  "('w, 'h, 'v) orch_env \<Rightarrow> ('w, 'd) Orchestrator \<Rightarrow> Session \<Rightarrow> string \<Rightarrow> 'w \<Rightarrow> ('w, 'v, 'd) outcome" where
  "handleUndropTable env orc sess tableName w =
     (let tableName = Trim tableName quotes2
      in case Undrop (o_timeTravelEng orc) (sess_Database sess) (sess_Schema sess) tableName of
           Inl e \<Rightarrow> (w, orc, Err (Wrap (''UNDROP TABLE '' @ tableName) e))
         | Inr snapshotKey \<Rightarrow>
             (case ExecNoResult (drv env) (restore_sql tableName snapshotKey) w of
                (w, Inl e) \<Rightarrow> (w, orc, Err (Wrap (''UNDROP TABLE '' @ tableName @ '': restore failed'') e))
              | (w, Inr _) \<Rightarrow> (w, orc, Ok (statusResult (''Table '' @ tableName @ '' successfully restored.'')))))"

definition reMarkerAtOffset :: re where
  "reMarkerAtOffset = re_lit ''(?s)/~*~s*MINIFLAKE_AT_OFFSET~s+(~S+)~s+(-?~d+)~s*~*/''"

definition reMarkerAtTimestamp :: re where
  "reMarkerAtTimestamp = re_lit ''(?s)/~*~s*MINIFLAKE_AT_TIMESTAMP~s+(~S+)~s+(~S+)~s*~*/''"

text \<open>
  The replacement functions keep the first error in a variable and leave the text alone from then on. The
  fold carries that variable; \<open>None\<close> is the panic of indexing the submatches of no match.
\<close>

fun expand_pieces ::
  "(string \<Rightarrow> string result option) \<Rightarrow> (string \<times> string \<times> caps) list \<Rightarrow> go_error option \<Rightarrow>
     (string \<times> go_error option) option"
where
  "expand_pieces f [] err = Some ('''', err)"
| "expand_pieces f ((pre, m, c) # ps) (Some e) =
     map_option (\<lambda>(s, err). (pre @ m @ s, err)) (expand_pieces f ps (Some e))"
| "expand_pieces f ((pre, m, c) # ps) None =
     (case f m of
        None \<Rightarrow> None
      | Some (Inl e) \<Rightarrow> map_option (\<lambda>(s, err). (pre @ m @ s, err)) (expand_pieces f ps (Some e))
      | Some (Inr t) \<Rightarrow> map_option (\<lambda>(s, err). (pre @ t @ s, err)) (expand_pieces f ps None))"

definition expand_with :: "re \<Rightarrow> (string \<Rightarrow> string result option) \<Rightarrow> string \<Rightarrow> (string \<times> go_error option) option" where
  "expand_with r f sql =
     (let (ps, rest) = re_pieces r None sql
      in map_option (\<lambda>(s, err). (s @ rest, err)) (expand_pieces f ps None))"

text \<open>\<^verbatim>\<open>fmt.Sscanf\<close> leaves the variable at zero when the number does not fit; negating the least integer wraps.\<close>

definition offset_seconds :: "string \<Rightarrow> int" where
  "offset_seconds s = (let n = (case Atoi s of Some n \<Rightarrow> n | None \<Rightarrow> 0) in if n < 0 then wrap64 (- n) else n)"

definition parquet_ref :: "string \<Rightarrow> string" where
  "parquet_ref file = ''read_parquet('' @ [CHR 0x27] @ escapeStringLiteral file @ [CHR 0x27] @ '')''"

definition at_offset :: "tt_Engine \<Rightarrow> Session \<Rightarrow> time \<Rightarrow> string \<Rightarrow> string result option" where
  "at_offset tt sess now match =
     map_option (\<lambda>m. case QueryAtOffset tt now (sess_Database sess) (sess_Schema sess) (Trim (m 1) quotes2) (offset_seconds (m 2)) of
         Inl e \<Rightarrow> Err (Wrap ''AT(OFFSET)'' e) | Inr file \<Rightarrow> Ok (parquet_ref file))
       (FindStringSubmatch reMarkerAtOffset match)"

definition at_timestamp :: "('w, 'h, 'v) orch_env \<Rightarrow> tt_Engine \<Rightarrow> Session \<Rightarrow> string \<Rightarrow> string result option" where
  "at_timestamp env tt sess match =
     map_option (\<lambda>m. case Parse_RFC3339 env (m 2) of
         Inl e \<Rightarrow> Err (Wrap ''AT(TIMESTAMP)'' (ExecError e))
       | Inr ts \<Rightarrow>
           (case QueryAtTimestamp tt (sess_Database sess) (sess_Schema sess) (Trim (m 1) quotes2) ts of
              Inl e \<Rightarrow> Err (Wrap ''AT(TIMESTAMP)'' e) | Inr file \<Rightarrow> Ok (parquet_ref file)))
       (FindStringSubmatch reMarkerAtTimestamp match)"

definition expandTimeTravelMarkers ::
  "('w, 'h, 'v) orch_env \<Rightarrow> tt_Engine \<Rightarrow> Session \<Rightarrow> string \<Rightarrow> 'w \<Rightarrow> (string \<times> go_error option) option" where
  "expandTimeTravelMarkers env tt sess sql w =
     (case expand_with reMarkerAtOffset (at_offset tt sess (now_of env w)) sql of
        None \<Rightarrow> None
      | Some (sql, Some e) \<Rightarrow> Some (sql, Some e)
      | Some (sql, None) \<Rightarrow> expand_with reMarkerAtTimestamp (at_timestamp env tt sess) sql)"

end
