(* ===== verification/Orchestrator.thy ===== *)
theory Orchestrator
  imports Orch_Handlers
begin

text \<open>
  Dispatch of a statement (\<^verbatim>\<open>orchestrator/orchestrator.go\<close>): rewriting, markers, definitions, changes,
  transactions, queries, and the reset of all subsystems. A chain of tests with regular expressions is a list
  of routes: the first expression that matches decides, and its submatches go to the handler.
\<close>

fun route :: "(re \<times> ((nat \<Rightarrow> string) \<Rightarrow> 'a)) list \<Rightarrow> string \<Rightarrow> 'a option" where
  "route [] sql = None"
| "route ((r, h) # rs) sql = (case FindStringSubmatch r sql of Some m \<Rightarrow> Some (h m) | None \<Rightarrow> route rs sql)"

subsection \<open>Markers\<close>

definition reMarkerUse :: re where
  "reMarkerUse = re_lit ''(?s)/~*~s*MINIFLAKE_USE_(DATABASE|SCHEMA|WAREHOUSE|ROLE)~s+(~S+)~s*~*/''"
definition reMarkerCopyInto :: re where
  "reMarkerCopyInto = re_lit ''(?s)/~*~s*MINIFLAKE_COPY_INTO~s+(.*?)~s*~*/''"
definition reMarkerPut :: re where
  "reMarkerPut = re_lit ''(?s)/~*~s*MINIFLAKE_PUT~s+(.*?)~s*~*/''"
definition reMarkerGet :: re where
  "reMarkerGet = re_lit ''(?s)/~*~s*MINIFLAKE_GET~s+(.*?)~s*~*/''"
definition reMarkerList :: re where
  "reMarkerList = re_lit ''(?s)/~*~s*MINIFLAKE_LIST~s+(.*?)~s*~*/''"
definition reMarkerRemove :: re where
  "reMarkerRemove = re_lit ''(?s)/~*~s*MINIFLAKE_REMOVE~s+(.*?)~s*~*/''"
definition reMarkerCreateStream :: re where
  "reMarkerCreateStream = re_lit ''(?s)/~*~s*MINIFLAKE_CREATE_STREAM~s+(.*?)~s*~*/''"
definition reMarkerDropStream :: re where
  "reMarkerDropStream = re_lit ''(?s)/~*~s*MINIFLAKE_DROP_STREAM~s+(~S+)~s+([01])~s*~*/''"
definition reMarkerShowStreams :: re where
  "reMarkerShowStreams = re_lit ''(?s)/~*~s*MINIFLAKE_SHOW_STREAMS~s*(~S*)~s*~*/''"
definition reMarkerCreateTask :: re where
  "reMarkerCreateTask = re_lit ''(?s)/~*~s*MINIFLAKE_CREATE_TASK~s+(.*?)~s*~*/''"
definition reMarkerDropTask :: re where
  "reMarkerDropTask = re_lit ''(?s)/~*~s*MINIFLAKE_DROP_TASK~s+(~S+)~s+([01])~s*~*/''"
definition reMarkerAlterTask :: re where
  "reMarkerAlterTask = re_lit ''(?s)/~*~s*MINIFLAKE_ALTER_TASK~s+(~S+)~s+(RESUME|SUSPEND)~s*~*/''"
definition reMarkerShowTasks :: re where
  "reMarkerShowTasks = re_lit ''(?s)/~*~s*MINIFLAKE_SHOW_TASKS~s*(~S*)~s*~*/''"
definition reMarkerExecuteTask :: re where
  "reMarkerExecuteTask = re_lit ''(?s)/~*~s*MINIFLAKE_EXECUTE_TASK~s+(~S+)~s*~*/''"
definition reMarkerCreatePipe :: re where
  "reMarkerCreatePipe = re_lit ''(?s)/~*~s*MINIFLAKE_CREATE_PIPE~s+(.*?)~s*~*/''"
definition reMarkerDropPipe :: re where
  "reMarkerDropPipe = re_lit ''(?s)/~*~s*MINIFLAKE_DROP_PIPE~s+(~S+)~s+([01])~s*~*/''"
definition reMarkerShowPipes :: re where
  "reMarkerShowPipes = re_lit ''(?s)/~*~s*MINIFLAKE_SHOW_PIPES~s*(~S*)~s*~*/''"
definition reMarkerShowParameters :: re where
  "reMarkerShowParameters = re_lit ''(?s)/~*~s*MINIFLAKE_SHOW_PARAMETERS~s+(~S+)~s+~|~s*(.*?)~s*~*/''"
definition reMarkerUndropTable :: re where
  "reMarkerUndropTable = re_lit ''(?s)/~*~s*MINIFLAKE_UNDROP_TABLE~s+(~S+)~s*~*/''"

text \<open>
  USE is the only statement that changes the session. The kind comes from the marker, so it is one of four;
  any other would be left unhandled.
\<close>

definition handleUse ::
  "('w, 'd) Orchestrator \<Rightarrow> Session \<Rightarrow> string \<Rightarrow> string \<Rightarrow> (('w, 'd) Orchestrator \<times> Session \<times> 'v QueryResult result) option" where
  "handleUse orc sess kind name =
     (let done = status_as ''USE'' ''Statement executed successfully.''
      in if kind = ''DATABASE'' then
           Some (orc\<lparr>o_engine := SetCurrentDatabase (o_engine orc) name\<rparr>, sess\<lparr>sess_Database := name\<rparr>, Ok done)
         else if kind = ''SCHEMA'' then
           Some (orc\<lparr>o_engine := SetCurrentSchema (o_engine orc) name\<rparr>, sess\<lparr>sess_Schema := name\<rparr>, Ok done)
         else if kind = ''WAREHOUSE'' then Some (orc, sess\<lparr>sess_Warehouse := name\<rparr>, Ok done)
         else if kind = ''ROLE'' then Some (orc, sess\<lparr>sess_Role := name\<rparr>, Ok done)
         else None)"

definition copy_row :: "CopyResult \<Rightarrow> 'v qcell list" where
  "copy_row r =
     [CStr (cr_File r), CStr (cr_Status r), CInt (cr_RowsLoaded r), CInt (cr_RowsParsed r),
      CInt (cr_ErrorsSeen r), CStr (cr_FirstError r)]"

definition copy_run ::
  "('w, 'h, 'v) orch_env \<Rightarrow> Direction \<Rightarrow> string \<Rightarrow> StageMeta \<Rightarrow> string \<Rightarrow> FileFormat \<Rightarrow> CopyOptions \<Rightarrow> 'w \<Rightarrow>
     'w \<times> CopyResult list \<times> go_error option"
where
  "copy_run env direction tableName meta subPath format options w =
     (case direction of
        LoadIntoTable \<Rightarrow> ExecuteLoad (fsys env) (copy_exec env) tableName meta subPath format options w
      | UnloadToStage \<Rightarrow>
          ExecuteUnload (fsys env) (copy_exec env) (\<lambda>p w. case os_Stat env p w of Inl _ \<Rightarrow> None | Inr n \<Rightarrow> Some n)
            tableName meta subPath format options w)"

definition handleCopyInto ::
  "('w, 'h, 'v) orch_env \<Rightarrow> ('w, 'd) Orchestrator \<Rightarrow> Session \<Rightarrow> string \<Rightarrow> 'w \<Rightarrow> ('w, 'v, 'd) outcome" where
  "handleCopyInto env orc sess text w =
     (case ParseCopyStatement (option_order env) (TrimSpace text) of
        Inl e \<Rightarrow> (w, orc, Err (Wrap ''COPY INTO'' e))
      | Inr (direction, tableName, stagePath, format, options) \<Rightarrow>
          (case resolveStage env (o_stageMgr orc) sess stagePath w of
             (w, m, Inl e) \<Rightarrow> (w, set_stages orc m, Err (Wrap ''COPY INTO'' e))
           | (w, m, Inr (meta, subPath, _)) \<Rightarrow>
               (case copy_run env direction tableName meta subPath format options w of
                  (w, results, Some e) \<Rightarrow> (w, set_stages orc m, Err e)
                | (w, results, None) \<Rightarrow>
                    (w, set_stages orc m, Ok (table_result
                       [''file'', ''status'', ''rows_loaded'', ''rows_parsed'', ''errors_seen'', ''first_error'']
                       (map copy_row results) ''COPY'')))))"

definition with_session :: "Session \<Rightarrow> ('w, 'v, 'd) outcome \<Rightarrow> ('w \<times> ('w, 'd) Orchestrator \<times> Session \<times> 'v QueryResult result) option" where
  "with_session sess out = (case out of (w, orc, r) \<Rightarrow> Some (w, orc, sess, r))"

definition use_route ::
  "('w, 'd) Orchestrator \<Rightarrow> Session \<Rightarrow> 'w \<Rightarrow> (nat \<Rightarrow> string) \<Rightarrow>
     ('w \<times> ('w, 'd) Orchestrator \<times> Session \<times> 'v QueryResult result) option"
where
  "use_route orc sess w m =
     map_option (Pair w) (handleUse orc sess (ToUpper (m 1)) (Trim (m 2) (quotes3 @ '' '')))"

text \<open>The handlers behind the markers, in the order in which the code tries them.\<close>

definition marker_handlers ::
  "('w, 'h, 'v) orch_env \<Rightarrow> ('w, 'd) Orchestrator \<Rightarrow> Session \<Rightarrow> 'w \<Rightarrow> (re \<times> ((nat \<Rightarrow> string) \<Rightarrow> ('w, 'v, 'd) outcome)) list" where
  "marker_handlers env orc sess w =
     [(reMarkerCopyInto, \<lambda>m. handleCopyInto env orc sess (m 1) w),
      (reMarkerPut, \<lambda>m. on_stages orc (handlePut env (o_stageMgr orc) sess (m 1) w)),
      (reMarkerGet, \<lambda>m. on_stages orc (handleGet env (o_stageMgr orc) sess (m 1) w)),
      (reMarkerList, \<lambda>m. on_stages orc (handleListStage env (o_stageMgr orc) sess (m 1) w)),
      (reMarkerRemove, \<lambda>m. on_stages orc (handleRemoveStage env (o_stageMgr orc) sess (m 1) w)),
      (reMarkerCreateStream, \<lambda>m. handleCreateStream env orc sess (m 1) w),
      (reMarkerDropStream, \<lambda>m. handleDropStream orc sess (m 1) (m 2 = ''1'') w),
      (reMarkerShowStreams, \<lambda>m. handleShowStreams env orc sess (m 1) w),
      (reMarkerCreateTask, \<lambda>m. handleCreateTask env orc sess (m 1) w),
      (reMarkerDropTask, \<lambda>m. handleDropTask orc sess (m 1) (m 2 = ''1'') w),
      (reMarkerAlterTask, \<lambda>m. handleAlterTask orc sess (m 1) (m 2) w),
      (reMarkerShowTasks, \<lambda>m. handleShowTasks env orc sess (m 1) w),
      (reMarkerExecuteTask, \<lambda>m. handleExecuteTask env orc sess (m 1) w),
      (reMarkerCreatePipe, \<lambda>m. handleCreatePipe env orc sess (m 1) w),
      (reMarkerDropPipe, \<lambda>m. handleDropPipe orc sess (m 1) (m 2 = ''1'') w),
      (reMarkerShowPipes, \<lambda>m. handleShowPipes env orc sess (m 1) w),
      (reMarkerShowParameters, \<lambda>m. (w, orc, handleShowParameters (m 2) (m 1))),
      (reMarkerUndropTable, \<lambda>m. handleUndropTable env orc sess (m 1) w)]"

definition handleSpecialMarkers ::
  "('w, 'h, 'v) orch_env \<Rightarrow> ('w, 'd) Orchestrator \<Rightarrow> Session \<Rightarrow> string \<Rightarrow> 'w \<Rightarrow>
     ('w \<times> ('w, 'd) Orchestrator \<times> Session \<times> 'v QueryResult result) option"
where
  "handleSpecialMarkers env orc sess sql w =
     (case FindStringSubmatch reMarkerUse sql of
        Some m \<Rightarrow> use_route orc sess w m
      | None \<Rightarrow> (case route (marker_handlers env orc sess w) sql of
          None \<Rightarrow> None | Some out \<Rightarrow> with_session sess out))"

subsection \<open>Definitions of objects\<close>

definition reCreateDatabase :: re where
  "reCreateDatabase = re_lit ''(?i)^CREATE~s+(OR~s+REPLACE~s+)?DATABASE~s+(IF~s+NOT~s+EXISTS~s+)?(~S+)''"
definition reDropDatabase :: re where
  "reDropDatabase = re_lit ''(?i)^DROP~s+DATABASE~s+(IF~s+EXISTS~s+)?(~S+)''"
definition reCreateSchema :: re where
  "reCreateSchema = re_lit ''(?i)^CREATE~s+(OR~s+REPLACE~s+)?SCHEMA~s+(IF~s+NOT~s+EXISTS~s+)?(~S+)''"
definition reDropSchema :: re where
  "reDropSchema = re_lit ''(?i)^DROP~s+SCHEMA~s+(IF~s+EXISTS~s+)?(~S+)''"
definition reCreateTable :: re where
  "reCreateTable = re_lit ''(?i)^CREATE~s+(OR~s+REPLACE~s+)?(TEMPORARY~s+|TRANSIENT~s+)?TABLE~s+(IF~s+NOT~s+EXISTS~s+)?(~S+)''"
definition reDropTable :: re where
  "reDropTable = re_lit ''(?i)^DROP~s+TABLE~s+(IF~s+EXISTS~s+)?(~S+)''"
definition reCreateView :: re where
  "reCreateView = re_lit ''(?i)^CREATE~s+(OR~s+REPLACE~s+)?VIEW~s+''"
definition reCreateStream :: re where
  "reCreateStream = re_lit ''(?i)^CREATE~s+(OR~s+REPLACE~s+)?STREAM~s+(IF~s+NOT~s+EXISTS~s+)?(~S+)~s+ON~s+TABLE~s+(~S+)''"
definition reDropStream :: re where
  "reDropStream = re_lit ''(?i)^DROP~s+STREAM~s+(IF~s+EXISTS~s+)?(~S+)''"
definition reCreateTask :: re where
  "reCreateTask = re_lit ''(?i)^CREATE~s+(OR~s+REPLACE~s+)?TASK~s+(IF~s+NOT~s+EXISTS~s+)?(~S+)''"
definition reDropTask :: re where
  "reDropTask = re_lit ''(?i)^DROP~s+TASK~s+(IF~s+EXISTS~s+)?(~S+)''"
definition reAlterTaskResume :: re where
  "reAlterTaskResume = re_lit ''(?i)^ALTER~s+TASK~s+(~S+)~s+RESUME''"
definition reAlterTaskSusp :: re where
  "reAlterTaskSusp = re_lit ''(?i)^ALTER~s+TASK~s+(~S+)~s+SUSPEND''"
definition reCreatePipe :: re where
  "reCreatePipe = re_lit ''(?i)^CREATE~s+(OR~s+REPLACE~s+)?PIPE~s+(IF~s+NOT~s+EXISTS~s+)?(~S+)''"
definition reDropPipe :: re where
  "reDropPipe = re_lit ''(?i)^DROP~s+PIPE~s+(IF~s+EXISTS~s+)?(~S+)''"
definition reCreateStage :: re where
  "reCreateStage = re_lit ''(?i)^CREATE~s+(OR~s+REPLACE~s+)?STAGE~s+(IF~s+NOT~s+EXISTS~s+)?(~S+)''"
definition reDropStage :: re where
  "reDropStage = re_lit ''(?i)^DROP~s+STAGE~s+(IF~s+EXISTS~s+)?(~S+)''"
definition reCreateFunc :: re where
  "reCreateFunc = re_lit ''(?i)^CREATE~s+(OR~s+REPLACE~s+)?(FUNCTION|PROCEDURE)~s+(~S+)''"
definition reGrant :: re where
  "reGrant = re_lit ''(?i)^GRANT~s+(~S+)~s+ON~s+(~S+)~s+(~S+)~s+TO~s+ROLE~s+(~S+)''"
definition reRevoke :: re where
  "reRevoke = re_lit ''(?i)^REVOKE~s+(~S+)~s+ON~s+(~S+)~s+(~S+)~s+FROM~s+ROLE~s+(~S+)''"
definition reCreateRole :: re where
  "reCreateRole = re_lit ''(?i)^CREATE~s+ROLE~s+(IF~s+NOT~s+EXISTS~s+)?(~S+)''"
definition reCloneTable :: re where
  "reCloneTable = re_lit ''(?i)^CREATE~s+(OR~s+REPLACE~s+)?TABLE~s+(~S+)~s+CLONE~s+(~S+)''"

text \<open>
  Each branch of \<^verbatim>\<open>handleDDL\<close> is a function of the submatches \<open>m\<close> of its expression. \<open>says_exists\<close> is the test
  for the words "already exists" in the message, and of \<^verbatim>\<open>errors.Is\<close> for the error of an existing stage.
\<close>

definition says_exists :: "go_error \<Rightarrow> bool" where
  "says_exists e = (case e of AlreadyExists _ _ \<Rightarrow> True | _ \<Rightarrow> False)"

definition ddl_clone ::
  "('w, 'h, 'v) orch_env \<Rightarrow> ('w, 'd) Orchestrator \<Rightarrow> Session \<Rightarrow> 'w \<Rightarrow> (nat \<Rightarrow> string) \<Rightarrow> ('w, 'v, 'd) outcome" where
  "ddl_clone env orc sess w m =
     (let dst = cleanIdent (m 2); src = cleanIdent (m 3); db = sess_Database sess; schema = sess_Schema sess
      in case CloneTable (exec_error env) (o_cloneEng orc) (now_of env w) db schema src db schema dst w of
           (w, r) \<Rightarrow> commit w orc (\<lambda>c. orc\<lparr>o_cloneEng := c\<rparr>) r ddlResult)"

definition ddl_create_database ::
  "('w, 'h, 'v) orch_env \<Rightarrow> ('w, 'd) Orchestrator \<Rightarrow> Session \<Rightarrow> 'w \<Rightarrow> (nat \<Rightarrow> string) \<Rightarrow> ('w, 'v, 'd) outcome" where
  "ddl_create_database env orc sess w m =
     (let name = cleanIdent (m 3); r = CreateDatabase (o_catalog orc) (now_of env w) name (sess_Role sess)
      in case r of
           Inl e \<Rightarrow>
             if m 2 = '''' \<and> \<not> says_exists e then (w, orc, Err e)
             else (fst (AttachDatabase (drv env) (o_engine orc) name w), orc, Ok ddlResult)
         | Inr c \<Rightarrow> (fst (AttachDatabase (drv env) (o_engine orc) name w), orc\<lparr>o_catalog := c\<rparr>, Ok ddlResult))"

definition ddl_drop_database ::
  "('w, 'd) Orchestrator \<Rightarrow> 'w \<Rightarrow> (nat \<Rightarrow> string) \<Rightarrow> ('w, 'v, 'd) outcome" where
  "ddl_drop_database orc w m =
     (w, orc\<lparr>o_catalog := ignore_error (o_catalog orc) (DropDatabase (o_catalog orc) (cleanIdent (m 2)))\<rparr>, Ok ddlResult)"

definition ddl_create_schema ::
  "('w, 'h, 'v) orch_env \<Rightarrow> ('w, 'd) Orchestrator \<Rightarrow> Session \<Rightarrow> string \<Rightarrow> 'w \<Rightarrow> (nat \<Rightarrow> string) \<Rightarrow> ('w, 'v, 'd) outcome" where
  "ddl_create_schema env orc sess sql w m =
     (let (db, name) = schema_target sess (cleanIdent (m 3));
          (w, r) = ExecNoResult (drv env) sql w;
          done = (w, orc\<lparr>o_catalog := ignore_error (o_catalog orc)
                    (CreateSchema (o_catalog orc) (now_of env w) db name (sess_Role sess))\<rparr>, Ok ddlResult)
      in case r of
           Inl e \<Rightarrow> if m 2 = '''' then (w, orc, Err e) else done
         | Inr _ \<Rightarrow> done)"

definition ddl_drop_schema ::
  "('w, 'h, 'v) orch_env \<Rightarrow> ('w, 'd) Orchestrator \<Rightarrow> Session \<Rightarrow> string \<Rightarrow> 'w \<Rightarrow> (nat \<Rightarrow> string) \<Rightarrow> ('w, 'v, 'd) outcome" where
  "ddl_drop_schema env orc sess sql w m =
     (let (db, name) = schema_target sess (cleanIdent (m 2))
      in (fst (ExecNoResult (drv env) sql w),
          orc\<lparr>o_catalog := ignore_error (o_catalog orc) (DropSchema (o_catalog orc) db name)\<rparr>, Ok ddlResult))"

definition named_table :: "string \<Rightarrow> TableMeta" where
  "named_table name =
     \<lparr>tbl_Name = name, tbl_Columns = [], tbl_ClusterBy = [], tbl_Comment = '''', tbl_IsTemporary = False,
      tbl_IsTransient = False, tbl_CreatedAt = None, tbl_Owner = ''''\<rparr>"

definition ddl_create_table ::
  "('w, 'h, 'v) orch_env \<Rightarrow> ('w, 'd) Orchestrator \<Rightarrow> Session \<Rightarrow> string \<Rightarrow> 'w \<Rightarrow> (nat \<Rightarrow> string) \<Rightarrow> ('w, 'v, 'd) outcome" where
  "ddl_create_table env orc sess sql w m =
     (case ExecNoResult (drv env) sql w of
        (w, Inl e) \<Rightarrow> (w, orc, Err e)
      | (w, Inr _) \<Rightarrow>
          (let (db, schema, tableName) = table_target sess (cleanIdent (m 4))
           in (w, orc\<lparr>o_catalog := ignore_error (o_catalog orc)
                  (RegisterTable (o_catalog orc) (now_of env w) db schema (named_table tableName))\<rparr>, Ok ddlResult)))"

text \<open>A snapshot is captured before the table is dropped; its errors are ignored.\<close>

definition capture ::
  "('w, 'h, 'v) orch_env \<Rightarrow> ('w, 'd) Orchestrator \<Rightarrow> string \<Rightarrow> string \<Rightarrow> string \<Rightarrow> 'w \<Rightarrow> 'w \<times> ('w, 'd) Orchestrator" where
  "capture env orc db schema table w =
     (case CaptureSnapshot (tt_env env) (o_timeTravelEng orc) (now_of env w) db schema table w of
        (w, r) \<Rightarrow> (w, orc\<lparr>o_timeTravelEng := ignore_error (o_timeTravelEng orc) r\<rparr>))"

definition ddl_drop_table ::
  "('w, 'h, 'v) orch_env \<Rightarrow> ('w, 'd) Orchestrator \<Rightarrow> Session \<Rightarrow> string \<Rightarrow> 'w \<Rightarrow> (nat \<Rightarrow> string) \<Rightarrow> ('w, 'v, 'd) outcome" where
  "ddl_drop_table env orc sess sql w m =
     (let (db, schema, tableName) = table_target sess (cleanIdent (m 2));
          (w, orc) = capture env orc db schema tableName w;
          (w, r) = ExecNoResult (drv env) sql w;
          done = (w, orc\<lparr>o_catalog := ignore_error (o_catalog orc) (DropTable (o_catalog orc) db schema tableName)\<rparr>,
                  Ok ddlResult)
      in case r of
           Inl e \<Rightarrow> if m 1 = '''' then (w, orc, Err e) else done
         | Inr _ \<Rightarrow> done)"

definition ddl_create_view ::
  "('w, 'h, 'v) orch_env \<Rightarrow> ('w, 'd) Orchestrator \<Rightarrow> string \<Rightarrow> 'w \<Rightarrow> ('w, 'v, 'd) outcome" where
  "ddl_create_view env orc sql w =
     (case ExecNoResult (drv env) sql w of (w, Inl e) \<Rightarrow> (w, orc, Err e) | (w, Inr _) \<Rightarrow> (w, orc, Ok ddlResult))"

definition ddl_create_stream ::
  "('w, 'h, 'v) orch_env \<Rightarrow> ('w, 'd) Orchestrator \<Rightarrow> Session \<Rightarrow> 'w \<Rightarrow> (nat \<Rightarrow> string) \<Rightarrow> ('w, 'v, 'd) outcome" where
  "ddl_create_stream env orc sess w m =
     commit w orc (set_streams orc)
       (CreateStream (o_streamEng orc) (now_of env w) (sess_Database sess) (sess_Schema sess) (cleanIdent (m 3))
          (cleanIdent (m 4)) ''STANDARD'') ddlResult"

definition ddl_drop_stream :: "('w, 'd) Orchestrator \<Rightarrow> Session \<Rightarrow> 'w \<Rightarrow> (nat \<Rightarrow> string) \<Rightarrow> ('w, 'v, 'd) outcome" where
  "ddl_drop_stream orc sess w m =
     commit w orc (set_streams orc)
       (DropStream (o_streamEng orc) (sess_Database sess) (sess_Schema sess) (cleanIdent (m 2))) ddlResult"

definition ddl_create_task ::
  "('w, 'h, 'v) orch_env \<Rightarrow> ('w, 'd) Orchestrator \<Rightarrow> Session \<Rightarrow> 'w \<Rightarrow> (nat \<Rightarrow> string) \<Rightarrow> ('w, 'v, 'd) outcome" where
  "ddl_create_task env orc sess w m =
     commit w orc (set_tasks orc)
       (CreateTask (load_zone env) (o_taskSched orc) (now_of env w) (sess_Database sess) (sess_Schema sess)
          (cleanIdent (m 3)) '''' '''' '''' '''' '''') ddlResult"

definition ddl_drop_task :: "('w, 'd) Orchestrator \<Rightarrow> Session \<Rightarrow> 'w \<Rightarrow> (nat \<Rightarrow> string) \<Rightarrow> ('w, 'v, 'd) outcome" where
  "ddl_drop_task orc sess w m =
     commit w orc (set_tasks orc)
       (DropTask (o_taskSched orc) (sess_Database sess) (sess_Schema sess) (cleanIdent (m 2))) ddlResult"

definition ddl_alter_task :: "('w, 'd) Orchestrator \<Rightarrow> Session \<Rightarrow> 'w \<Rightarrow> TaskState \<Rightarrow> (nat \<Rightarrow> string) \<Rightarrow> ('w, 'v, 'd) outcome" where
  "ddl_alter_task orc sess w st m =
     commit w orc (set_tasks orc)
       (AlterTask (o_taskSched orc) (sess_Database sess) (sess_Schema sess) (cleanIdent (m 1)) st) ddlResult"

definition ddl_create_pipe ::
  "('w, 'h, 'v) orch_env \<Rightarrow> ('w, 'd) Orchestrator \<Rightarrow> Session \<Rightarrow> 'w \<Rightarrow> (nat \<Rightarrow> string) \<Rightarrow> ('w, 'v, 'd) outcome" where
  "ddl_create_pipe env orc sess w m =
     commit w orc (set_pipes orc)
       (CreatePipe (o_snowpipeEng orc) (now_of env w) (sess_Database sess) (sess_Schema sess) (cleanIdent (m 3)) '''' False)
       ddlResult"

definition ddl_drop_pipe :: "('w, 'd) Orchestrator \<Rightarrow> Session \<Rightarrow> 'w \<Rightarrow> (nat \<Rightarrow> string) \<Rightarrow> ('w, 'v, 'd) outcome" where
  "ddl_drop_pipe orc sess w m =
     commit w orc (set_pipes orc)
       (DropPipe (o_snowpipeEng orc) (sess_Database sess) (sess_Schema sess) (cleanIdent (m 2))) ddlResult"

definition ddl_create_stage ::
  "('w, 'h, 'v) orch_env \<Rightarrow> ('w, 'd) Orchestrator \<Rightarrow> Session \<Rightarrow> 'w \<Rightarrow> (nat \<Rightarrow> string) \<Rightarrow> ('w, 'v, 'd) outcome" where
  "ddl_create_stage env orc sess w m =
     (let name = cleanIdent (m 3); db = sess_Database sess; schema = sess_Schema sess; mgr = o_stageMgr orc;
          (w, mgr) = (if m 1 \<noteq> '''' then
                        (case DropStage (fsys env) mgr db schema name w of (w, r) \<Rightarrow> (w, ignore_error mgr r))
                      else (w, mgr));
          orc = set_stages orc mgr
      in case CreateStage (fsys env) mgr (now_of env w) db schema name StageInternal '''' w of
           (w, Inl e) \<Rightarrow> (w, orc, if m 2 \<noteq> '''' \<and> says_exists e then Ok ddlResult else Err e)
         | (w, Inr mgr) \<Rightarrow> (w, set_stages orc mgr, Ok ddlResult))"

definition ddl_drop_stage ::
  "('w, 'h, 'v) orch_env \<Rightarrow> ('w, 'd) Orchestrator \<Rightarrow> Session \<Rightarrow> 'w \<Rightarrow> (nat \<Rightarrow> string) \<Rightarrow> ('w, 'v, 'd) outcome" where
  "ddl_drop_stage env orc sess w m =
     (case DropStage (fsys env) (o_stageMgr orc) (sess_Database sess) (sess_Schema sess) (cleanIdent (m 2)) w of
        (w, Inl e) \<Rightarrow> (w, orc, if m 1 = '''' then Err e else Ok ddlResult)
      | (w, Inr mgr) \<Rightarrow> (w, set_stages orc mgr, Ok ddlResult))"

definition ddl_create_func ::
  "('w, 'h, 'v) orch_env \<Rightarrow> ('w, 'd) Orchestrator \<Rightarrow> Session \<Rightarrow> string \<Rightarrow> 'w \<Rightarrow> (nat \<Rightarrow> string) \<Rightarrow> ('w, 'v, 'd) outcome" where
  "ddl_create_func env orc sess sql w m =
     commit w orc (\<lambda>r. orc\<lparr>o_udfReg := r\<rparr>)
       (Register (o_udfReg orc) (now_of env w)
          \<lparr>u_Name = cleanIdent (m 3), u_Database = sess_Database sess, u_Schema = sess_Schema sess, u_Language = LangSQL,
           u_Args = [], u_ReturnType = '''', u_Body = sql, u_IsProc = False, u_CreatedAt = None\<rparr>) ddlResult"

definition ddl_grant :: "('w, 'h, 'v) orch_env \<Rightarrow> ('w, 'd) Orchestrator \<Rightarrow> 'w \<Rightarrow> (nat \<Rightarrow> string) \<Rightarrow> ('w, 'v, 'd) outcome" where
  "ddl_grant env orc w m =
     commit w orc (\<lambda>r. orc\<lparr>o_rbacEng := r\<rparr>)
       (GrantPrivilege (o_rbacEng orc) (now_of env w) (ToUpper (m 1)) (ToUpper (m 2)) (cleanIdent (m 3)) (cleanIdent (m 4)) False)
       ddlResult"

definition ddl_revoke :: "('w, 'd) Orchestrator \<Rightarrow> 'w \<Rightarrow> (nat \<Rightarrow> string) \<Rightarrow> ('w, 'v, 'd) outcome" where
  "ddl_revoke orc w m =
     commit w orc (\<lambda>r. orc\<lparr>o_rbacEng := r\<rparr>)
       (RevokePrivilege (o_rbacEng orc) (ToUpper (m 1)) (ToUpper (m 2)) (cleanIdent (m 3)) (cleanIdent (m 4))) ddlResult"

definition ddl_create_role :: "('w, 'h, 'v) orch_env \<Rightarrow> ('w, 'd) Orchestrator \<Rightarrow> 'w \<Rightarrow> (nat \<Rightarrow> string) \<Rightarrow> ('w, 'v, 'd) outcome" where
  "ddl_create_role env orc w m =
     commit w orc (\<lambda>r. orc\<lparr>o_rbacEng := r\<rparr>) (CreateRole (o_rbacEng orc) (now_of env w) (cleanIdent (m 2))) ddlResult"

definition ddl_handlers ::
  "('w, 'h, 'v) orch_env \<Rightarrow> ('w, 'd) Orchestrator \<Rightarrow> Session \<Rightarrow> string \<Rightarrow> 'w \<Rightarrow>
     (re \<times> ((nat \<Rightarrow> string) \<Rightarrow> ('w, 'v, 'd) outcome)) list"
where
  "ddl_handlers env orc sess sql w =
     [(reCloneTable, ddl_clone env orc sess w),
      (reCreateDatabase, ddl_create_database env orc sess w),
      (reDropDatabase, ddl_drop_database orc w),
      (reCreateSchema, ddl_create_schema env orc sess sql w),
      (reDropSchema, ddl_drop_schema env orc sess sql w),
      (reCreateTable, ddl_create_table env orc sess sql w),
      (reDropTable, ddl_drop_table env orc sess sql w),
      (reCreateView, \<lambda>m. ddl_create_view env orc sql w),
      (reCreateStream, ddl_create_stream env orc sess w),
      (reDropStream, ddl_drop_stream orc sess w),
      (reCreateTask, ddl_create_task env orc sess w),
      (reDropTask, ddl_drop_task orc sess w),
      (reAlterTaskResume, ddl_alter_task orc sess w TaskStarted),
      (reAlterTaskSusp, ddl_alter_task orc sess w TaskSuspended),
      (reCreatePipe, ddl_create_pipe env orc sess w),
      (reDropPipe, ddl_drop_pipe orc sess w),
      (reCreateStage, ddl_create_stage env orc sess w),
      (reDropStage, ddl_drop_stage env orc sess w),
      (reCreateFunc, ddl_create_func env orc sess sql w),
      (reGrant, ddl_grant env orc w),
      (reRevoke, ddl_revoke orc w),
      (reCreateRole, ddl_create_role env orc w)]"

definition handleDDL ::
  "('w, 'h, 'v) orch_env \<Rightarrow> ('w, 'd) Orchestrator \<Rightarrow> Session \<Rightarrow> string \<Rightarrow> 'w \<Rightarrow> ('w, 'v, 'd) outcome option" where
  "handleDDL env orc sess sql w = route (ddl_handlers env orc sess sql w) sql"

subsection \<open>Changes, transactions and queries\<close>

definition reInsertInto :: re where "reInsertInto = re_lit ''(?i)^INSERT~s+INTO~s+(~S+)''"
definition reUpdateTbl :: re where "reUpdateTbl = re_lit ''(?i)^UPDATE~s+(~S+)''"
definition reDeleteFrom :: re where "reDeleteFrom = re_lit ''(?i)^DELETE~s+FROM~s+(~S+)''"
definition reMergeInto :: re where "reMergeInto = re_lit ''(?i)^MERGE~s+INTO~s+(~S+)''"

definition extractTableFromDML :: "string \<Rightarrow> string" where
  "extractTableFromDML upper =
     (case route (map (\<lambda>r. (r, \<lambda>m. last (Split (m 1) (CHR ''.'')))) [reInsertInto, reUpdateTbl, reDeleteFrom, reMergeInto]) upper of
        Some t \<Rightarrow> t | None \<Rightarrow> '''')"

definition starts_with_any :: "string list \<Rightarrow> string \<Rightarrow> bool" where
  "starts_with_any ps s \<longleftrightarrow> list_ex (HasPrefix s) ps"

definition dml_action :: "string \<Rightarrow> ChangeType" where
  "dml_action upper =
     (if HasPrefix upper ''UPDATE'' then ChangeUpdate else if HasPrefix upper ''DELETE'' then ChangeDelete else ChangeInsert)"

definition dml_change :: "string \<Rightarrow> 'd ChangeRecord" where
  "dml_change upper =
     \<lparr>cr_Action = dml_action upper, cr_IsUpdate = False, cr_RowID = '''', cr_Data = Map.empty, cr_Timestamp = None\<rparr>"

definition record_dml ::
  "('w, 'h, 'v) orch_env \<Rightarrow> ('w, 'd) Orchestrator \<Rightarrow> Session \<Rightarrow> string \<Rightarrow> 'w \<Rightarrow> ('w, 'd) Orchestrator" where
  "record_dml env orc sess upper w =
     (let tableName = extractTableFromDML upper
      in if tableName = '''' then orc
         else set_streams orc (RecordChange (o_streamEng orc) (now_of env w) (sess_Database sess) (sess_Schema sess)
                tableName (dml_change upper)))"

definition dml_result :: "int \<Rightarrow> 'v QueryResult" where
  "dml_result affected =
     (table_result [''number of rows inserted'', ''number of rows updated'', ''number of rows deleted'']
        [[CInt affected, CInt 0, CInt 0]] ''DML'')\<lparr>qr_RowsAffected := affected\<rparr>"

definition handleDML ::
  "('w, 'h, 'v) orch_env \<Rightarrow> ('w, 'd) Orchestrator \<Rightarrow> Session \<Rightarrow> string \<Rightarrow> string \<Rightarrow> 'w \<Rightarrow> ('w, 'v, 'd) outcome option" where
  "handleDML env orc sess sql upper w =
     (if \<not> starts_with_any [''INSERT'', ''UPDATE'', ''DELETE'', ''MERGE''] upper then None
      else
        let tbl = extractTableFromDML upper;
            (w, orc) = (if tbl \<noteq> '''' then capture env orc (sess_Database sess) (sess_Schema sess) tbl w else (w, orc))
        in Some (case ExecNoResult (drv env) sql w of
             (w, Inl e) \<Rightarrow> (w, orc, Err e)
           | (w, Inr affected) \<Rightarrow> (w, record_dml env orc sess upper w, Ok (dml_result affected))))"

definition handleTransaction ::
  "('w, 'h, 'v) orch_env \<Rightarrow> ('w, 'd) Orchestrator \<Rightarrow> string \<Rightarrow> string \<Rightarrow> 'w \<Rightarrow> ('w, 'v, 'd) outcome option" where
  "handleTransaction env orc sql upper w =
     (if \<not> starts_with_any [''BEGIN'', ''COMMIT'', ''ROLLBACK''] upper then None
      else Some (case ExecNoResult (drv env) sql w of
             (w, Inl e) \<Rightarrow> (w, orc, Err e)
           | (w, Inr _) \<Rightarrow> (w, orc, Ok (status_as ''TRANSACTION'' ''Statement executed successfully.''))))"

definition handleQuery ::
  "('w, 'h, 'v) orch_env \<Rightarrow> ('w, 'd) Orchestrator \<Rightarrow> string \<Rightarrow> string \<Rightarrow> 'w \<Rightarrow> ('w, 'v, 'd) outcome option" where
  "handleQuery env orc sql upper w =
     (if \<not> starts_with_any [''SELECT'', ''SHOW'', ''DESCRIBE'', ''DESC '', ''EXPLAIN'', ''LIST'', ''WITH''] upper then None
      else Some (case engine_Execute (drv env) sql [] w of
             (w, Inl e) \<Rightarrow> (w, orc, Err e)
           | (w, Inr (cols, rows)) \<Rightarrow> (w, orc, Ok (table_result cols (map (map CDriver) rows) ''SELECT''))))"

definition fallback :: "('w, 'h, 'v) orch_env \<Rightarrow> ('w, 'd) Orchestrator \<Rightarrow> string \<Rightarrow> 'w \<Rightarrow> ('w, 'v, 'd) outcome" where
  "fallback env orc sql w =
     (case ExecNoResult (drv env) sql w of
        (w, Inl e) \<Rightarrow> (w, orc, Err (Wrap ''orchestrator: exec'' e))
      | (w, Inr affected) \<Rightarrow> (w, orc, Ok ((table_result [] [] ''UNKNOWN'')\<lparr>qr_RowsAffected := affected\<rparr>)))"

text \<open>The steps after the markers: the first handler that takes the statement decides.\<close>

definition dispatch ::
  "('w, 'h, 'v) orch_env \<Rightarrow> ('w, 'd) Orchestrator \<Rightarrow> Session \<Rightarrow> string \<Rightarrow> 'w \<Rightarrow> ('w, 'v, 'd) outcome" where
  "dispatch env orc sess sql w =
     (let upper = ToUpper (TrimSpace sql)
      in case handleDDL env orc sess sql w of Some out \<Rightarrow> out | None \<Rightarrow>
         (case handleDML env orc sess sql upper w of Some out \<Rightarrow> out | None \<Rightarrow>
         (case handleTransaction env orc sql upper w of Some out \<Rightarrow> out | None \<Rightarrow>
         (case handleQuery env orc sql upper w of Some out \<Rightarrow> out | None \<Rightarrow> fallback env orc sql w))))"

text \<open>The entry point. \<open>None\<close> is a run that does not return, because a rewriting rule panics or loops.\<close>

definition orch_ExecuteSQL ::
  "('w, 'h, 'v) orch_env \<Rightarrow> ('w, 'd) Orchestrator \<Rightarrow> Session \<Rightarrow> string \<Rightarrow> 'w \<Rightarrow>
     ('w \<times> ('w, 'd) Orchestrator \<times> Session \<times> 'v QueryResult result) option"
where
  "orch_ExecuteSQL env orc sess sql w =
     (let sql = TrimSpace sql
      in if sql = '''' then Some (w, orc, sess, Ok (table_result [] [] ''EMPTY''))
         else case Rewrite sql of
                None \<Rightarrow> None
              | Some rewritten \<Rightarrow>
                  (case handleSpecialMarkers env orc sess rewritten w of
                     Some out \<Rightarrow> Some out
                   | None \<Rightarrow>
                       (case expandTimeTravelMarkers env (o_timeTravelEng orc) sess rewritten w of
                          None \<Rightarrow> None
                        | Some (_, Some e) \<Rightarrow> Some (w, orc, sess, Err e)
                        | Some (expanded, None) \<Rightarrow> with_session sess (dispatch env orc sess expanded w))))"

subsection \<open>Reset\<close>

text \<open>The subsystems are reset one after the other; the first error stops it, and what was reset stays reset.\<close>

definition orch_Reset ::
  "('w, 'h, 'v) orch_env \<Rightarrow> ('w, 'd) Orchestrator \<Rightarrow> 'w \<Rightarrow> 'w \<times> ('w, 'd) Orchestrator \<times> go_error option" where
  "orch_Reset env orc w =
     (case engine_Reset (drv env) (o_engine orc) w of
        (w, e, Some err) \<Rightarrow> (w, orc\<lparr>o_engine := e\<rparr>, Some err)
      | (w, e, None) \<Rightarrow>
          (let orc = orc\<lparr>o_engine := e, o_catalog := catalog_Reset (now_of env w) (o_catalog orc)\<rparr>
           in case stage_Reset (fsys env) (o_stageMgr orc) w of
                (w, m, Some err) \<Rightarrow> (w, set_stages orc m, Some err)
              | (w, m, None) \<Rightarrow>
                  (let orc = (set_stages orc m)
                         \<lparr>o_streamEng := stream_Reset (o_streamEng orc), o_taskSched := task_Reset (o_taskSched orc)\<rparr>
                   in case tt_Reset (tt_env env) (o_timeTravelEng orc) w of
                        (t, w, Some err) \<Rightarrow> (w, orc\<lparr>o_timeTravelEng := t\<rparr>, Some err)
                      | (t, w, None) \<Rightarrow>
                          (w, orc\<lparr>o_timeTravelEng := t, o_cloneEng := clone_Reset (o_cloneEng orc),
                                 o_udfReg := udf_Reset (o_udfReg orc),
                                 o_rbacEng := rbac_Reset (now_of env w) (o_rbacEng orc),
                                 o_snowpipeEng := pipe_Reset (o_snowpipeEng orc)\<rparr>, None))))"

text \<open>
  The orchestrator as \<^verbatim>\<open>main.go\<close> builds it. The callback that it installs on the task scheduler reads the stream engine that
  the orchestrator holds too; so the scheduler runs with the callback on the streams of the moment
  (\<open>wired_scheduler\<close>), and one tick of its loop is \<open>orch_tick\<close>.
\<close>

definition wired_scheduler :: "('w, 'd) Orchestrator \<Rightarrow> 'w Scheduler" where
  "wired_scheduler orc =
     SetStreamHasDataFn (o_taskSched orc) (Some (\<lambda>db schema name w. HasData (o_streamEng orc) db schema name))"

definition orch_tick ::
  "('w, 'h, 'v) orch_env \<Rightarrow> ('w, 'd) Orchestrator \<Rightarrow> string list \<Rightarrow> (string \<Rightarrow> string list) \<Rightarrow> nat \<Rightarrow> time \<Rightarrow> 'w \<Rightarrow>
     ('w \<times> ('w, 'd) Orchestrator \<times> string list) option"
where
  "orch_tick env orc ks ord fuel now w =
     map_option (\<lambda>(s, w, log). (w, set_tasks orc ((o_taskSched orc)\<lparr>tasks := tasks s\<rparr>), log))
       (tick (load_zone env) (wired_scheduler orc) ks ord fuel now w)"

definition orch_New ::
  "string \<Rightarrow> string \<Rightarrow> (string \<Rightarrow> 'w \<Rightarrow> 'w) \<Rightarrow> 'w has_data option \<Rightarrow> time \<Rightarrow> time \<Rightarrow> ('w, 'd) Orchestrator" where
  "orch_New dir stageDir exec hasData now1 now2 =
     \<lparr>o_engine = new_engine dir, o_catalog = catalog_Init catalog_New now1,
      o_stageMgr = stage_NewManager stageDir, o_streamEng = stream_NewEngine,
      o_taskSched = SetStreamHasDataFn (NewScheduler exec) hasData,
      o_timeTravelEng = tt_NewEngine (path_Join [dir, ''snapshots'']) (7 * 24 * hour),
      o_cloneEng = clone_NewEngine, o_udfReg = udf_NewRegistry, o_rbacEng = rbac_Init NewEngine now2,
      o_snowpipeEng = pipe_NewEngine\<rparr>"

end
