(* ===== verification/Statement_Executor.thy ===== *)
theory Statement_Executor
  imports Orch_Env
begin

text \<open>
  The interface between the server and the orchestrator: something that executes statements on a state. The locale
  \<open>statement_executor\<close> states what the server relies on, and derives what it needs for a batch of statements: the
  batch returns, runs in order up to the first failure, keeps invariants and identities, and its result has the
  shape of a table. \<open>Orch_Props\<close> interprets it on the orchestrator.
\<close>

type_synonym ('s, 'v) executor = "'s \<Rightarrow> string \<Rightarrow> ('s \<times> 'v QueryResult result) option"

text \<open>
  The loop of \<^verbatim>\<open>executeStatements\<close> in \<^verbatim>\<open>server.go\<close> over any executor: \<open>affected\<close> is the sum so far, \<open>prev\<close> the last result.
\<close>

definition not_dml :: go_error where
  "not_dml = NotAllowed ''array binding'' ''is only supported for DML statements''"

fun batch :: "('s, 'v) executor \<Rightarrow> string list \<Rightarrow> int \<Rightarrow> 'v QueryResult option \<Rightarrow> 's \<Rightarrow> ('s \<times> 'v QueryResult result) option" where
  "batch exec [] affected prev st =
     map_option (\<lambda>res. (st, Ok (res\<lparr>qr_RowsAffected := affected, qr_Rows := [[CInt affected, CInt 0, CInt 0]]\<rparr>))) prev"
| "batch exec (stmt # stmts) affected prev st =
     (case exec st stmt of
        None \<Rightarrow> None
      | Some (st, Inl e) \<Rightarrow> Some (st, Err e)
      | Some (st, Inr res) \<Rightarrow>
          if qr_StatementType res \<noteq> ''DML'' then Some (st, Err not_dml)
          else batch exec stmts (wrap64 (affected + qr_RowsAffected res)) (Some res) st)"

text \<open>The statements run one after the other, each on the state the one before left.\<close>

inductive runs :: "('s, 'v) executor \<Rightarrow> 's \<Rightarrow> string list \<Rightarrow> 'v QueryResult list \<Rightarrow> 's \<Rightarrow> bool"
  for exec :: "('s, 'v) executor" where
  none: "runs exec st [] [] st"
| one: "exec st stmt = Some (st1, Ok res) \<Longrightarrow> runs exec st1 stmts rs st' \<Longrightarrow> runs exec st (stmt # stmts) (res # rs) st'"

definition all_dml :: "'v QueryResult list \<Rightarrow> bool" where
  "all_dml rs = list_all (\<lambda>res. qr_StatementType res = ''DML'') rs"

text \<open>The batch stopped at the first statement that failed or that was no DML statement.\<close>

definition stopped :: "('s, 'v) executor \<Rightarrow> 's \<Rightarrow> string list \<Rightarrow> 's \<Rightarrow> go_error \<Rightarrow> bool" where
  "stopped exec st stmts st' e \<longleftrightarrow>
     (\<exists>pre stmt post rs st1. stmts = pre @ stmt # post \<and> runs exec st pre rs st1 \<and> all_dml rs \<and>
        (exec st1 stmt = Some (st', Err e) \<or>
         (\<exists>res. exec st1 stmt = Some (st', Ok res) \<and> qr_StatementType res \<noteq> ''DML'' \<and> e = not_dml)))"

lemma stopped_first:
  assumes "exec st stmt = Some (st', Err e) \<or>
    (\<exists>res. exec st stmt = Some (st', Ok res) \<and> qr_StatementType res \<noteq> ''DML'' \<and> e = not_dml)"
  shows "stopped exec st (stmt # stmts) st' e"
proof -
  have "stmt # stmts = [] @ stmt # stmts" "runs exec st [] [] st" "all_dml []"
    by (simp_all add: runs.none all_dml_def)
  with assms show ?thesis unfolding stopped_def by blast
qed

lemma stopped_later:
  assumes "exec st stmt = Some (st1, Ok res)" "qr_StatementType res = ''DML''" "stopped exec st1 stmts st' e"
  shows "stopped exec st (stmt # stmts) st' e"
proof -
  from assms(3) obtain pre s post rs st2 where *: "stmts = pre @ s # post" "runs exec st1 pre rs st2" "all_dml rs"
    and fin: "exec st2 s = Some (st', Err e) \<or>
      (\<exists>res. exec st2 s = Some (st', Ok res) \<and> qr_StatementType res \<noteq> ''DML'' \<and> e = not_dml)"
    unfolding stopped_def by blast
  have "stmt # stmts = (stmt # pre) @ s # post" using *(1) by simp
  moreover have "runs exec st (stmt # pre) (res # rs) st2" using *(2) assms(1) by (rule runs.one [rotated])
  moreover have "all_dml (res # rs)" using *(3) assms(2) by (simp add: all_dml_def)
  ultimately show ?thesis using fin unfolding stopped_def by blast
qed

lemma wrap64_acc: "wrap64 (wrap64 a + b) = wrap64 (a + b)"
  by (simp add: wrap64_def) (simp add: algebra_simps mod_simps)

lemma wrap64_wrap64: "wrap64 (wrap64 a) = wrap64 a"
  using wrap64_acc [of a 0] by simp

text \<open>A batch runs in order: this holds for every executor.\<close>

lemma batch_in_order:
  assumes "batch exec stmts n prev st = Some (st', r)" "n = wrap64 n"
  shows "case r of
      Inr res \<Rightarrow> (\<exists>rs. runs exec st stmts rs st' \<and> all_dml rs \<and>
        qr_RowsAffected res = wrap64 (n + sum_list (map qr_RowsAffected rs)) \<and>
        qr_Rows res = [[CInt (qr_RowsAffected res), CInt 0, CInt 0]])
    | Inl e \<Rightarrow> stopped exec st stmts st' e"
  using assms
proof (induction stmts arbitrary: n prev st)
  case Nil
  then show ?case by (auto simp: all_dml_def intro!: exI [of _ "[]"] runs.none)
next
  case (Cons stmt stmts)
  then obtain st1 r1 where one: "exec st stmt = Some (st1, r1)" by (auto split: option.splits)
  show ?case
  proof (cases "\<exists>res. r1 = Ok res \<and> qr_StatementType res = ''DML''")
    case True
    then obtain res where res: "r1 = Ok res" "qr_StatementType res = ''DML''" by blast
    with one Cons.prems(1) have rest: "batch exec stmts (wrap64 (n + qr_RowsAffected res)) (Some res) st1 = Some (st', r)"
      by simp
    note IH = Cons.IH [OF rest wrap64_wrap64 [symmetric]]
    show ?thesis
    proof (cases r)
      case (Inl e)
      with IH one res show ?thesis by (auto intro: stopped_later)
    next
      case (Inr out)
      with IH obtain rs where rs: "runs exec st1 stmts rs st'" "all_dml rs"
          "qr_RowsAffected out = wrap64 (n + (qr_RowsAffected res + sum_list (map qr_RowsAffected rs)))"
          "qr_Rows out = [[CInt (qr_RowsAffected out), CInt 0, CInt 0]]"
        by (auto simp: wrap64_acc add.assoc)
      have "runs exec st (stmt # stmts) (res # rs) st'" using one res(1) rs(1) by (auto intro: runs.one)
      with rs res(2) Inr show ?thesis by (auto simp: all_dml_def intro!: exI [of _ "res # rs"])
    qed
  next
    case False
    with one Cons.prems(1) have "\<exists>e. r = Err e \<and> stopped exec st (stmt # stmts) st' e"
      by (cases r1) (auto split: if_splits intro: stopped_first)
    then show ?thesis by auto
  qed
qed

subsection \<open>The contract\<close>

locale statement_executor =
  fixes exec :: "('s, 'v) executor"
    and returns :: "string \<Rightarrow> bool"
    and tables :: bool
    and good :: "'s \<Rightarrow> bool"
    and ident :: "'s \<Rightarrow> 'i"
  assumes exec_returns: "exec st s = None \<longleftrightarrow> \<not> returns s"
    and exec_fits: "tables \<Longrightarrow> exec st s = Some (st', Ok res) \<Longrightarrow> fits res"
    and exec_good: "good st \<Longrightarrow> exec st s = Some (st', r) \<Longrightarrow> good st'"
    and exec_ident: "exec st s = Some (st', r) \<Longrightarrow> ident st' = ident st"
begin

lemma batch_returns:
  "(\<And>s. s \<in> set stmts \<Longrightarrow> returns s) \<Longrightarrow> stmts \<noteq> [] \<or> prev \<noteq> None \<Longrightarrow> batch exec stmts n prev st \<noteq> None"
proof (induction stmts arbitrary: n prev st)
  case (Cons s stmts)
  have "exec st s \<noteq> None" using Cons.prems(1) [of s] exec_returns by simp
  then obtain st1 r1 where "exec st s = Some (st1, r1)" by auto
  with Cons show ?case by (cases r1) auto
qed auto

lemma batch_fits:
  assumes tables
  shows "batch exec stmts n prev st = Some (st', Ok res) \<Longrightarrow> (\<And>r. prev = Some r \<Longrightarrow> length (qr_Columns r) = 3) \<Longrightarrow> rectangular res"
proof (induction stmts arbitrary: n prev st)
  case Nil
  then show ?case by (auto simp: rectangular_def)
next
  case (Cons s stmts)
  then obtain st1 r where one: "exec st s = Some (st1, Ok r)" and dml: "qr_StatementType r = ''DML''"
    and rest: "batch exec stmts (wrap64 (n + qr_RowsAffected r)) (Some r) st1 = Some (st', Ok res)"
    by (auto split: option.splits sum.splits if_splits)
  have "length (qr_Columns r) = 3" using exec_fits [OF assms one] dml by (simp add: fits_def)
  then show ?case using Cons.IH [OF rest] by simp
qed

lemma batch_keeps:
  "batch exec stmts n prev st = Some (st', r) \<Longrightarrow> (good st \<longrightarrow> good st') \<and> ident st' = ident st"
proof (induction stmts arbitrary: n prev st)
  case (Cons s stmts)
  then obtain st1 r1 where one: "exec st s = Some (st1, r1)" by (auto split: option.splits)
  from exec_good [OF _ one] exec_ident [OF one] have "(good st \<longrightarrow> good st1) \<and> ident st1 = ident st" by blast
  with Cons one show ?case by (auto split: sum.splits if_splits)
qed auto

end

end
