(* ===== verification/Dml_Target.thy ===== *)
theory Dml_Target
  imports Orchestrator
begin

text \<open>
  The table that a statement changes, as \<^verbatim>\<open>extractTableFromDML\<close> finds it with regular expressions, and as the grammar of
  the statements says it. For plain names that a blank or the end of the statement follows the two agree.
\<close>

subsection \<open>The shape of the expressions\<close>

definition isp :: re where "isp = Cls True False [ISpace]"
definition inot :: re where "inot = Cls True False [INotSpace]"

fun ilit :: "string \<Rightarrow> re \<Rightarrow> re" where
  "ilit [] r = r"
| "ilit (c # cs) r = Cat (Cls True False [IChar c]) (ilit cs r)"

definition blanks :: "re \<Rightarrow> re" where "blanks r = Cat isp (Cat (Star True isp) r)"
definition name_re :: re where "name_re = Grp 1 (Cat inot (Star True inot))"

lemma dml_expressions:
  "reInsertInto = Cat Bol (ilit ''INSERT'' (blanks (ilit ''INTO'' (blanks name_re))))"
  "reUpdateTbl = Cat Bol (ilit ''UPDATE'' (blanks name_re))"
  "reDeleteFrom = Cat Bol (ilit ''DELETE'' (blanks (ilit ''FROM'' (blanks name_re))))"
  "reMergeInto = Cat Bol (ilit ''MERGE'' (blanks (ilit ''INTO'' (blanks name_re))))"
  by code_simp+

subsection \<open>Matching\<close>

lemma re_space_upper [simp]: "Go_Regexp.re_space (upper_char c) = Go_Regexp.re_space c"
  "Go_Regexp.re_space (lower_char c) = Go_Regexp.re_space c"
  by (auto simp: Go_Regexp.re_space_def upper_char_def lower_char_def Let_def)

lemma in_class_isp [simp]: "in_class True False [ISpace] c \<longleftrightarrow> Go_Regexp.re_space c"
  "in_class True False [INotSpace] c \<longleftrightarrow> \<not> Go_Regexp.re_space c"
  by (simp_all add: in_class_def)

lemma in_class_self [simp]: "in_class True False [IChar c] c"
  by (simp add: in_class_def)

lemma rmatch_cat: "rmatch (Run (Cat a b) # k) p s c = rmatch (Run a # Run b # k) p s c"
  by simp

lemma rmatch_grp: "rmatch (Run (Grp n a) # k) p s c = rmatch (Run a # CloseG n s # k) p s c"
  by simp

lemma rmatch_isp: "rmatch (Run isp # k) p s c =
    (case s of [] \<Rightarrow> None | x # s' \<Rightarrow> if Go_Regexp.re_space x then rmatch k (Some x) s' c else None)"
  by (simp add: isp_def split: list.split)

lemma rmatch_inot: "rmatch (Run inot # k) p s c =
    (case s of [] \<Rightarrow> None | x # s' \<Rightarrow> if Go_Regexp.re_space x then None else rmatch k (Some x) s' c)"
  by (simp add: inot_def split: list.split)

lemma rmatch_ilit: "(\<And>p. rmatch (Run r # k) p s c = Some q) \<Longrightarrow> rmatch (Run (ilit cs r) # k) p (cs @ s) c = Some q"
  by (induction cs arbitrary: p) auto

definition blank_run :: "string \<Rightarrow> bool" where
  "blank_run b \<longleftrightarrow> b \<noteq> '''' \<and> list_all Go_Regexp.re_space b"

lemma rmatch_blank_star:
  assumes "list_all Go_Regexp.re_space u" "v \<noteq> []" "\<not> Go_Regexp.re_space (hd v)" "\<And>p. rmatch k p v c = Some q"
  shows "rmatch (Run (Star True isp) # k) p (u @ v) c = Some q"
  using assms(1)
proof (induction u arbitrary: p)
  case Nil
  have "rmatch (Run isp # Again (length v) True isp # k) p v c = None"
    using assms(2,3) by (cases v) (auto simp: rmatch_isp)
  with assms(4) show ?case by simp
qed (simp add: rmatch_isp)

lemma rmatch_blanks:
  assumes "blank_run b" "v \<noteq> []" "\<not> Go_Regexp.re_space (hd v)" "\<And>p. rmatch (Run r # k) p v c = Some q"
  shows "rmatch (Run (blanks r) # k) p (b @ v) c = Some q"
proof -
  from assms(1) obtain x u where b: "b = x # u" "Go_Regexp.re_space x" "list_all Go_Regexp.re_space u"
    by (cases b) (auto simp: blank_run_def)
  have "rmatch (Run (Star True isp) # Run r # k) p (u @ v) c = Some q" for p
    by (rule rmatch_blank_star) (use b assms in auto)
  with b(2) show ?thesis by (simp only: b(1) blanks_def rmatch_cat rmatch_isp append.simps list.case if_True)
qed

text \<open>What may follow a name: a blank, or nothing.\<close>

definition blank_after :: "string \<Rightarrow> bool" where
  "blank_after s \<longleftrightarrow> s = '''' \<or> Go_Regexp.re_space (hd s)"

lemma rmatch_word_star:
  assumes "list_all (\<lambda>x. \<not> Go_Regexp.re_space x) t" "blank_after v" "\<And>p. rmatch k p v c = Some q"
  shows "rmatch (Run (Star True inot) # k) p (t @ v) c = Some q"
  using assms(1)
proof (induction t arbitrary: p)
  case Nil
  have "rmatch (Run inot # Again (length v) True inot # k) p v c = None"
    using assms(2) by (cases v) (auto simp: rmatch_inot blank_after_def)
  with assms(3) show ?case by simp
qed (simp add: rmatch_inot)

lemma rmatch_name:
  assumes "t \<noteq> ''''" "list_all (\<lambda>x. \<not> Go_Regexp.re_space x) t" "blank_after v"
  shows "rmatch [Run name_re] p (t @ v) [] = Some (v, [(1, t)])"
proof -
  obtain x u where t: "t = x # u" using assms(1) by (cases t) auto
  have "rmatch [Run (Star True inot), CloseG 1 (t @ v)] p (u @ v) [] = Some (v, [(1, t)])" for p
    by (rule rmatch_word_star) (use assms t in auto)
  moreover have "\<not> Go_Regexp.re_space x" using assms(2) t by simp
  ultimately show ?thesis by (simp only: name_re_def rmatch_grp rmatch_cat t rmatch_inot append.simps list.case if_False)
qed

text \<open>An expression that starts with the anchor matches at the start of the text or nowhere.\<close>

lemma find_anchored: "find_re (Cat Bol r) (Some x) s = None"
proof (induction s arbitrary: x)
  case Nil
  show ?case by (subst find_re.simps) (simp add: rmatch_at_def)
next
  case (Cons y s)
  then show ?case by (subst find_re.simps) (simp add: rmatch_at_def)
qed

lemma anchored_None:
  assumes "rmatch [Run r] None s [] = None"
  shows "FindStringSubmatch (Cat Bol r) s = None"
proof -
  have "find_re (Cat Bol r) None s = None"
    by (cases s; subst find_re.simps) (use assms in \<open>simp_all add: rmatch_at_def find_anchored\<close>)
  then show ?thesis by (simp add: FindStringSubmatch_def)
qed

lemma anchored_Some:
  assumes "rmatch [Run r] None s [] = Some (v, [(1, t)])"
  shows "\<exists>m. FindStringSubmatch (Cat Bol r) s = Some m \<and> m 1 = t"
proof -
  have "rmatch_at (Cat Bol r) None s = Some (v, [(1, t)])" using assms by (simp add: rmatch_at_def)
  then show ?thesis by (simp add: FindStringSubmatch_def find_re.simps [of _ _ s] re_group_def)
qed

subsection \<open>The grammar of the target\<close>

definition ident_char :: "char \<Rightarrow> bool" where
  "ident_char c \<longleftrightarrow> is_alpha c \<or> is_digit c \<or> c = CHR ''_'' \<or> c = CHR ''$''"

definition plain_name :: "string \<Rightarrow> bool" where
  "plain_name t \<longleftrightarrow> t \<noteq> '''' \<and> list_all ident_char t"

text \<open>
  A statement in upper case, with the kind of change it makes and the table it names. A MERGE counts as an insert,
  as in \<^verbatim>\<open>handleDML\<close>.
\<close>

inductive dml_statement :: "string \<Rightarrow> ChangeType \<Rightarrow> string \<Rightarrow> bool" where
  insert: "blank_run a \<Longrightarrow> blank_run b \<Longrightarrow> plain_name t \<Longrightarrow> blank_after rest \<Longrightarrow>
    dml_statement (''INSERT'' @ a @ ''INTO'' @ b @ t @ rest) ChangeInsert t"
| update: "blank_run a \<Longrightarrow> plain_name t \<Longrightarrow> blank_after rest \<Longrightarrow> dml_statement (''UPDATE'' @ a @ t @ rest) ChangeUpdate t"
| delete: "blank_run a \<Longrightarrow> blank_run b \<Longrightarrow> plain_name t \<Longrightarrow> blank_after rest \<Longrightarrow>
    dml_statement (''DELETE'' @ a @ ''FROM'' @ b @ t @ rest) ChangeDelete t"
| merge: "blank_run a \<Longrightarrow> blank_run b \<Longrightarrow> plain_name t \<Longrightarrow> blank_after rest \<Longrightarrow>
    dml_statement (''MERGE'' @ a @ ''INTO'' @ b @ t @ rest) ChangeInsert t"

lemma ident_char_facts: "ident_char c \<Longrightarrow> \<not> Go_Regexp.re_space c \<and> c \<noteq> CHR ''.''"
  by (auto simp: ident_char_def is_alpha_def is_digit_def Go_Regexp.re_space_def Let_def)

lemma plain_name_facts:
  assumes "plain_name t"
  shows "t \<noteq> ''''" "list_all (\<lambda>x. \<not> Go_Regexp.re_space x) t" "t @ v \<noteq> ''''" "\<not> Go_Regexp.re_space (hd (t @ v))" "CHR ''.'' \<notin> set t"
proof -
  from assms show "t \<noteq> ''''" "t @ v \<noteq> ''''" by (simp_all add: plain_name_def)
  from assms have all: "\<not> Go_Regexp.re_space c \<and> c \<noteq> CHR ''.''" if "c \<in> set t" for c
    using that ident_char_facts by (auto simp: plain_name_def list_all_iff)
  then show "list_all (\<lambda>x. \<not> Go_Regexp.re_space x) t" "CHR ''.'' \<notin> set t" by (auto simp: list_all_iff)
  show "\<not> Go_Regexp.re_space (hd (t @ v))" using all [of "hd t"] \<open>t \<noteq> ''''\<close> by simp
qed

lemma rmatch_target: "blank_run b \<Longrightarrow> plain_name t \<Longrightarrow> blank_after v \<Longrightarrow>
    rmatch [Run (blanks name_re)] p (b @ t @ v) [] = Some (v, [(1, t)])"
  by (intro rmatch_blanks rmatch_name plain_name_facts)

lemma rmatch_two_words:
  assumes "blank_run a" "blank_run b" "plain_name t" "blank_after v" "cs2 \<noteq> ''''" "\<not> Go_Regexp.re_space (hd cs2)"
  shows "rmatch [Run (ilit cs1 (blanks (ilit cs2 (blanks name_re))))] p (cs1 @ a @ cs2 @ b @ t @ v) [] = Some (v, [(1, t)])"
  using assms by (intro rmatch_ilit rmatch_blanks rmatch_target) auto

lemma rmatch_other_verb: "\<not> in_class True False [IChar c] x \<Longrightarrow> rmatch [Run (ilit (c # cs) r)] p (x # s) [] = None"
  by simp

lemma other_verbs:
  "\<not> in_class True False [IChar (CHR ''I'')] x \<Longrightarrow> FindStringSubmatch reInsertInto (x # s) = None"
  "\<not> in_class True False [IChar (CHR ''U'')] x \<Longrightarrow> FindStringSubmatch reUpdateTbl (x # s) = None"
  "\<not> in_class True False [IChar (CHR ''D'')] x \<Longrightarrow> FindStringSubmatch reDeleteFrom (x # s) = None"
  unfolding dml_expressions by (simp_all add: anchored_None)

lemma last_plain: "CHR ''.'' \<notin> set t \<Longrightarrow> last (Split t (CHR ''.'')) = t"
proof -
  assume "CHR ''.'' \<notin> set t"
  then have "Split t (CHR ''.'') = [t]" by (induction t) auto
  then show ?thesis by simp
qed

lemma letters: "\<not> in_class True False [IChar (CHR ''I'')] (CHR ''U'')" "\<not> in_class True False [IChar (CHR ''I'')] (CHR ''D'')"
  "\<not> in_class True False [IChar (CHR ''I'')] (CHR ''M'')" "\<not> in_class True False [IChar (CHR ''U'')] (CHR ''D'')"
  "\<not> in_class True False [IChar (CHR ''U'')] (CHR ''M'')" "\<not> in_class True False [IChar (CHR ''D'')] (CHR ''M'')"
  by code_simp+

lemma dml_statement_target:
  "dml_statement upper act t \<Longrightarrow> extractTableFromDML upper = t \<and> dml_action upper = act"
proof (induction rule: dml_statement.induct)
  case (insert a b t rest)
  from anchored_Some [OF rmatch_two_words [OF insert, of "''INTO''" "''INSERT''" None]] obtain m where
    "FindStringSubmatch reInsertInto (''INSERT'' @ a @ ''INTO'' @ b @ t @ rest) = Some m" "m 1 = t"
    by (auto simp: dml_expressions Go_Regexp.re_space_def)
  then show ?case by (simp add: extractTableFromDML_def last_plain plain_name_facts [OF insert(3)] dml_action_def)
next
  case (update a t rest)
  have "rmatch [Run (ilit ''UPDATE'' (blanks name_re))] None (''UPDATE'' @ a @ t @ rest) [] = Some (rest, [(1, t)])"
    by (intro rmatch_ilit rmatch_target update)
  from anchored_Some [OF this] obtain m where
    "FindStringSubmatch reUpdateTbl (''UPDATE'' @ a @ t @ rest) = Some m" "m 1 = t"
    by (auto simp: dml_expressions)
  then show ?case
    by (simp add: extractTableFromDML_def last_plain plain_name_facts [OF update(2)] dml_action_def other_verbs letters)
next
  case (delete a b t rest)
  from anchored_Some [OF rmatch_two_words [OF delete, of "''FROM''" "''DELETE''" None]] obtain m where
    "FindStringSubmatch reDeleteFrom (''DELETE'' @ a @ ''FROM'' @ b @ t @ rest) = Some m" "m 1 = t"
    by (auto simp: dml_expressions Go_Regexp.re_space_def)
  then show ?case
    by (simp add: extractTableFromDML_def last_plain plain_name_facts [OF delete(3)] dml_action_def other_verbs letters)
next
  case (merge a b t rest)
  from anchored_Some [OF rmatch_two_words [OF merge, of "''INTO''" "''MERGE''" None]] obtain m where
    "FindStringSubmatch reMergeInto (''MERGE'' @ a @ ''INTO'' @ b @ t @ rest) = Some m" "m 1 = t"
    by (auto simp: dml_expressions Go_Regexp.re_space_def)
  then show ?case
    by (simp add: extractTableFromDML_def last_plain plain_name_facts [OF merge(3)] dml_action_def other_verbs letters)
qed

end
