(* ===== verification/Orch_Props.thy ===== *)
theory Orch_Props
  imports Orchestrator Go_Regexp_Lang Statement_Executor Dml_Target
begin

text \<open>
  What the orchestrator promises, whatever the statement: it returns, its results are rectangular, the identity
  of the session is kept, every subsystem moves by its own operations only, a change of a table reaches the
  streams of the table once, a dropped table can be restored from the snapshot taken when it was dropped,
  and a reset leaves every subsystem as a fresh start does.
\<close>

lemma route_in:
  "route rs sql = Some x \<Longrightarrow> \<exists>r h m. (r, h) \<in> set rs \<and> FindStringSubmatch r sql = Some m \<and> x = h m"
proof (induction rs)
  case (Cons p rs)
  obtain r h where "p = (r, h)" by fastforce
  with Cons show ?case by (cases "FindStringSubmatch r sql") auto
qed simp

text \<open>A property of all routes is a property of the result.\<close>

lemma route_all: "route rs sql = Some x \<Longrightarrow> list_all (\<lambda>(r, h). \<forall>m. P (h m)) rs \<Longrightarrow> P x"
  by (auto dest!: route_in simp: list_all_iff)

text \<open>
  A statement ends in one of the handlers: what holds of the results of all handlers holds of the statement.
\<close>

lemma dispatch_cases:
  assumes "\<And>out. handleDDL env orc sess sql w = Some out \<Longrightarrow> P out"
    and "\<And>upper out. handleDML env orc sess sql upper w = Some out \<Longrightarrow> P out"
    and "\<And>upper out. handleTransaction env orc sql upper w = Some out \<Longrightarrow> P out"
    and "\<And>upper out. handleQuery env orc sql upper w = Some out \<Longrightarrow> P out"
    and "P (fallback env orc sql w)"
  shows "P (dispatch env orc sess sql w)"
  unfolding dispatch_def Let_def using assms by (auto split: option.splits)

lemma ExecuteSQL_cases:
  assumes run: "orch_ExecuteSQL env orc sess sql w = Some (w', orc', sess', r)"
  obtains (empty) "w' = w" "orc' = orc" "sess' = sess" "r = Ok (table_result [] [] ''EMPTY'')"
  | (use) kind name where "handleUse orc sess kind name = Some (orc', sess', r)" "w' = w"
  | (marker) t where "route (marker_handlers env orc sess w) t = Some (w', orc', r)" "sess' = sess"
  | (at_error) e where "w' = w" "orc' = orc" "sess' = sess" "r = Err e"
  | (plain) t where "dispatch env orc sess t w = (w', orc', r)" "sess' = sess"
proof (cases "TrimSpace sql = ''''")
  case True
  with run show ?thesis by (intro empty) (simp_all add: orch_ExecuteSQL_def)
next
  case False
  with run obtain t where t: "Rewrite (TrimSpace sql) = Some t"
    by (auto simp: orch_ExecuteSQL_def Let_def split: option.splits)
  show ?thesis
  proof (cases "handleSpecialMarkers env orc sess t w")
    case None
    with run False t show ?thesis
      by (auto simp: orch_ExecuteSQL_def Let_def with_session_def split: option.splits prod.splits intro: at_error plain)
  next
    case (Some out)
    with run False t have out: "handleSpecialMarkers env orc sess t w = Some (w', orc', sess', r)"
      by (simp add: orch_ExecuteSQL_def)
    show ?thesis
    proof (cases "FindStringSubmatch reMarkerUse t")
      case None
      with out show ?thesis
        by (auto simp: handleSpecialMarkers_def with_session_def split: option.splits prod.splits intro: marker)
    next
      case (Some m)
      with out show ?thesis
        by (auto simp: handleSpecialMarkers_def use_route_def intro: use)
    qed
  qed
qed

subsection \<open>Statements return\<close>

lemma expand_pieces_total: "(\<And>b m c. (b, m, c) \<in> set ps \<Longrightarrow> f m \<noteq> None) \<Longrightarrow> expand_pieces f ps err \<noteq> None"
proof (induction f ps err rule: expand_pieces.induct)
  case (2 f pre m c ps e)
  have "expand_pieces f ps (Some e) \<noteq> None" by (rule "2.IH") (use "2.prems" in auto)
  then show ?case by simp
next
  case (3 f pre m c ps)
  have "f m \<noteq> None" by (rule "3.prems" [of pre m c]) simp
  then obtain x where x: "f m = Some x" by blast
  have rest: "f m' \<noteq> None" if "(b, m', c') \<in> set ps" for b m' c'
    using that by (intro "3.prems" [of b m' c']) simp
  show ?case
  proof (cases x)
    case (Inl e)
    then show ?thesis using "3.IH"(1) [OF x Inl] rest x by auto
  next
    case (Inr t)
    then show ?thesis using "3.IH"(2) [OF x Inr] rest x by auto
  qed
qed simp

lemma expand_with_total:
  assumes "rematchable r" "\<And>m. FindStringSubmatch r m \<noteq> None \<Longrightarrow> f m \<noteq> None"
  shows "expand_with r f sql \<noteq> None"
proof -
  obtain ps t where ps: "re_pieces r None sql = (ps, t)" by fastforce
  have "expand_pieces f ps None \<noteq> None"
    by (rule expand_pieces_total) (use pieces_rematch [OF assms(1) ps] assms(2) in blast)
  with ps show ?thesis by (auto simp: expand_with_def)
qed

lemma expand_offset_total: "expand_with reMarkerAtOffset (at_offset tt sess now) sql \<noteq> None"
  by (rule expand_with_total) (code_simp, simp add: at_offset_def)

lemma expand_timestamp_total: "expand_with reMarkerAtTimestamp (at_timestamp env tt sess) sql \<noteq> None"
  by (rule expand_with_total) (code_simp, simp add: at_timestamp_def)

lemma expandTimeTravelMarkers_total: "\<exists>s e. expandTimeTravelMarkers env tt sess sql w = Some (s, e)"
proof -
  obtain s e where "expand_with reMarkerAtOffset (at_offset tt sess (now_of env w)) sql = Some (s, e)"
    using expand_offset_total by fastforce
  moreover obtain s' e' where "expand_with reMarkerAtTimestamp (at_timestamp env tt sess) s = Some (s', e')"
    using expand_timestamp_total by fastforce
  ultimately show ?thesis by (cases e) (simp_all add: expandTimeTravelMarkers_def)
qed

lemma orch_returns:
  "orch_ExecuteSQL env orc sess sql w = None \<longleftrightarrow> Rewrite (TrimSpace sql) = None"
proof -
  have nil: "Rewrite '''' \<noteq> None" by (simp add: Rewrite_def TrimSpace_def trim_by_def)
  show ?thesis
  proof (cases "Rewrite (TrimSpace sql)")
    case None
    with nil have "TrimSpace sql \<noteq> ''''" by auto
    with None show ?thesis by (simp add: orch_ExecuteSQL_def)
  next
    case (Some t)
    obtain s e where "expandTimeTravelMarkers env (o_timeTravelEng orc) sess t w = Some (s, e)"
      using expandTimeTravelMarkers_total [of env "o_timeTravelEng orc" sess t w] by blast
    with Some show ?thesis
      by (cases e) (auto simp: orch_ExecuteSQL_def Let_def with_session_def split: option.split prod.split)
  qed
qed

text \<open>
  The orchestrator never panics and never hangs by itself: a statement returns a result or an error exactly
  when the rewriter returns, whatever the state of the subsystems, the SQL engine and the file system do. In
  particular taking the submatches of a time travel marker again never fails.
\<close>

theorem ExecuteSQL_returns:
  "orch_ExecuteSQL env orc sess sql w = None \<longleftrightarrow> Rewrite (TrimSpace sql) = None"
  by (rule orch_returns)

subsection \<open>The session\<close>

definition same_identity :: "Session \<Rightarrow> Session \<Rightarrow> bool" where
  "same_identity s s' \<longleftrightarrow> sess_ID s' = sess_ID s \<and> sess_Token s' = sess_Token s \<and> sess_User s' = sess_User s \<and>
     sess_CreatedAt s' = sess_CreatedAt s \<and> sess_LastActiveAt s' = sess_LastActiveAt s"

lemma session_kept:
  assumes "orch_ExecuteSQL env orc sess sql w = Some (w', orc', sess', r)"
  shows "same_identity sess sess' \<and>
    (sess' = sess \<or> (\<exists>name. sess' \<in> {sess\<lparr>sess_Database := name\<rparr>, sess\<lparr>sess_Schema := name\<rparr>,
       sess\<lparr>sess_Warehouse := name\<rparr>, sess\<lparr>sess_Role := name\<rparr>} \<and> r = Ok (status_as ''USE'' ''Statement executed successfully.'')))"
  using assms
proof (cases rule: ExecuteSQL_cases)
  case (use kind name)
  then show ?thesis
    by (auto simp: handleUse_def Let_def same_identity_def split: if_splits)
qed (simp_all add: same_identity_def)

text \<open>
  No statement changes who a session belongs to: after any statement, successful or not, the session has
  the same id, token, user and times; only a USE statement changes it at all, and then exactly one of
  database, schema, warehouse and role.
\<close>

theorem session_identity_kept:
  assumes "orch_ExecuteSQL env orc sess sql w = Some (w', orc', sess', r)"
  shows "same_identity sess sess' \<and>
    (sess' = sess \<or> (\<exists>name. sess' \<in> {sess\<lparr>sess_Database := name\<rparr>, sess\<lparr>sess_Schema := name\<rparr>,
       sess\<lparr>sess_Warehouse := name\<rparr>, sess\<lparr>sess_Role := name\<rparr>} \<and> r = Ok (status_as ''USE'' ''Statement executed successfully.'')))"
  using assms by (rule session_kept)

subsection \<open>Results are rectangular\<close>

definition rect_out :: "('w, 'v, 'd) outcome \<Rightarrow> bool" where
  "rect_out out \<longleftrightarrow> (\<forall>r. snd (snd out) = Ok r \<longrightarrow> fits r)"

lemma rect_out_simps [simp]:
  "rect_out (w, orc, Err e)" "rect_out (w, orc, Ok r) \<longleftrightarrow> fits r"
  by (simp_all add: rect_out_def)

lemma rect_commit [simp]:
  "fits res \<Longrightarrow> rect_out (commit w orc put r res)" "rect_out (commit_drop w orc put r' what b)"
  by (simp_all add: rect_out_def commit_def commit_drop_def split: sum.split)

lemma rect_on_stages: "(\<And>w' m' r. out = (w', m', Ok r) \<Longrightarrow> fits r) \<Longrightarrow> rect_out (on_stages orc out)"
  by (cases out) (auto simp: on_stages_def rect_out_def)

lemma rect_rows [simp]:
  "length (stream_row s) = 7" "length (task_row t) = 10" "length (pipe_row p) = 6" "length (copy_row c) = 6"
  by (simp_all add: stream_row_def task_row_def pipe_row_def copy_row_def)

named_theorems rect_intros \<open>handlers with rectangular results\<close>

lemma rect_handleCopyInto [rect_intros]: "rect_out (handleCopyInto env orc sess t w)"
  by (auto simp: handleCopyInto_def list_all_iff split: sum.split prod.split option.split)

lemma rect_stage_handlers [rect_intros]:
  "rect_out (on_stages orc (handlePut env m sess t w))" "rect_out (on_stages orc (handleGet env m sess t w))"
  "rect_out (on_stages orc (handleListStage env m sess t w))" "rect_out (on_stages orc (handleRemoveStage env m sess t w))"
  by (rule rect_on_stages; erule handlePut_fits handleGet_fits handleListStage_fits
      handleRemoveStage_fits)+

lemma rect_stream_handlers [rect_intros]:
  "rect_out (handleCreateStream env orc sess t w)" "rect_out (handleDropStream orc sess t b w)"
  "rect_out (handleShowStreams env orc sess t w)"
  by (simp_all add: handleCreateStream_def handleDropStream_def handleShowStreams_def Let_def list_all_iff
      split: option.split prod.split)

lemma rect_task_handlers [rect_intros]:
  "rect_out (handleCreateTask env orc sess t w)" "rect_out (handleDropTask orc sess t b w)"
  "rect_out (handleAlterTask orc sess t a w)" "rect_out (handleShowTasks env orc sess t w)"
  "rect_out (handleExecuteTask env orc sess t w)"
  by (simp_all add: handleCreateTask_def handleDropTask_def handleAlterTask_def handleShowTasks_def handleExecuteTask_def
      Let_def list_all_iff split: option.split prod.split sum.split)

lemma rect_pipe_handlers [rect_intros]:
  "rect_out (handleCreatePipe env orc sess t w)" "rect_out (handleDropPipe orc sess t b w)"
  "rect_out (handleShowPipes env orc sess t w)"
  by (simp_all add: handleCreatePipe_def handleDropPipe_def handleShowPipes_def Let_def list_all_iff
      split: option.split prod.split)

lemma rect_other_handlers [rect_intros]:
  "rect_out (handleUndropTable env orc sess t w)" "rect_out (w, orc, handleShowParameters p s)"
  "rect_out (fallback env orc t w)"
  using handleShowParameters_fits
  by (auto simp: handleUndropTable_def fallback_def Let_def rect_out_def fits_def rectangular_def table_result_def status_as_def
      statusResult_def split: prod.splits sum.splits)

lemma rect_marker_handlers: "list_all (\<lambda>(r, h). \<forall>m. rect_out (h m)) (marker_handlers env orc sess w)"
  by (simp add: marker_handlers_def rect_intros)

lemma rect_ddl [rect_intros]:
  "rect_out (ddl_clone env orc sess w m)" "rect_out (ddl_create_database env orc sess w m)"
  "rect_out (ddl_drop_database orc w m)" "rect_out (ddl_create_schema env orc sess t w m)"
  "rect_out (ddl_drop_schema env orc sess t w m)" "rect_out (ddl_create_table env orc sess t w m)"
  "rect_out (ddl_drop_table env orc sess t w m)" "rect_out (ddl_create_view env orc t w)"
  "rect_out (ddl_create_stream env orc sess w m)" "rect_out (ddl_drop_stream orc sess w m)"
  "rect_out (ddl_create_task env orc sess w m)" "rect_out (ddl_drop_task orc sess w m)"
  "rect_out (ddl_alter_task orc sess w st m)" "rect_out (ddl_create_pipe env orc sess w m)"
  "rect_out (ddl_drop_pipe orc sess w m)" "rect_out (ddl_create_stage env orc sess w m)"
  "rect_out (ddl_drop_stage env orc sess w m)" "rect_out (ddl_create_func env orc sess t w m)"
  "rect_out (ddl_grant env orc w m)" "rect_out (ddl_revoke orc w m)" "rect_out (ddl_create_role env orc w m)"
  by (simp_all add: ddl_clone_def ddl_create_database_def ddl_drop_database_def ddl_create_schema_def ddl_drop_schema_def
      ddl_create_table_def ddl_drop_table_def ddl_create_view_def ddl_create_stream_def ddl_drop_stream_def
      ddl_create_task_def ddl_drop_task_def ddl_alter_task_def ddl_create_pipe_def ddl_drop_pipe_def ddl_create_stage_def
      ddl_drop_stage_def ddl_create_func_def ddl_grant_def ddl_revoke_def ddl_create_role_def Let_def case_prod_beta
      split: sum.split prod.split)

lemma rect_ddl_handlers: "list_all (\<lambda>(r, h). \<forall>m. rect_out (h m)) (ddl_handlers env orc sess t w)"
  by (simp add: ddl_handlers_def rect_intros)

text \<open>The driver returns rows with a value for every column.\<close>

definition rows_fit :: "('w, 'v) driver \<Rightarrow> bool" where
  "rows_fit d \<longleftrightarrow> (\<forall>q args w w' cols rows e. db_Query d q args w = (w', Inr (cols, rows, e)) \<longrightarrow>
     list_all (\<lambda>row. length row = length cols) rows)"

lemma rect_handleQuery: "rows_fit (drv env) \<Longrightarrow> handleQuery env orc t u w = Some out \<Longrightarrow> rect_out out"
  by (fastforce simp: handleQuery_def engine_Execute_def rows_fit_def list_all_iff split: if_splits sum.splits prod.splits option.splits)

lemma rect_handleDML: "handleDML env orc sess t u w = Some out \<Longrightarrow> rect_out out"
  by (auto simp: handleDML_def dml_result_def table_result_def fits_def rectangular_def Let_def case_prod_beta split: if_splits sum.splits prod.splits)

lemma rect_handleTransaction: "handleTransaction env orc t u w = Some out \<Longrightarrow> rect_out out"
  by (auto simp: handleTransaction_def split: if_splits sum.splits prod.splits)

lemma result_fits:
  assumes "rows_fit (drv env)" and "orch_ExecuteSQL env orc sess sql w = Some (w', orc', sess', Ok r)"
  shows "fits r"
  using assms(2)
proof (cases rule: ExecuteSQL_cases)
  case (use kind name)
  then show ?thesis by (auto simp: handleUse_def Let_def split: if_splits)
next
  case (marker t)
  then show ?thesis using route_all [OF _ rect_marker_handlers] by fastforce
next
  case (plain t)
  have "rect_out (dispatch env orc sess t w)"
    by (rule dispatch_cases)
      (auto simp: handleDDL_def rect_intros intro: rect_handleDML rect_handleTransaction rect_handleQuery [OF assms(1)]
        dest: route_all [OF _ rect_ddl_handlers])
  with plain show ?thesis by simp
qed simp_all

text \<open>
  Every result is rectangular: whichever of the handlers answers a statement, each row of the result
  has exactly one cell for each column, given that the rows of the driver have. The server relies on this when
  it encodes rows by the columns.
\<close>

theorem results_rectangular:
  assumes "rows_fit (drv env)" and "orch_ExecuteSQL env orc sess sql w = Some (w', orc', sess', Ok r)"
  shows "rectangular r"
  using result_fits [OF assms] by (simp add: fits_def)

subsection \<open>Subsystems move by their own operations\<close>

text \<open>
  From \<open>orc\<close> to \<open>orc'\<close> the catalog, the streams, the roles and the pipes made steps of their own step relations
  only. The properties of their theories then hold of the whole program.
\<close>

definition moves :: "('w, 'h, 'v) orch_env \<Rightarrow> ('w, 'd) Orchestrator \<Rightarrow> ('w, 'd) Orchestrator \<Rightarrow> bool" where
  "moves env orc orc' \<longleftrightarrow>
     catalog_step\<^sup>*\<^sup>* (o_catalog orc) (o_catalog orc') \<and> stream_step\<^sup>*\<^sup>* (o_streamEng orc) (o_streamEng orc') \<and>
     rbac_step\<^sup>*\<^sup>* (o_rbacEng orc) (o_rbacEng orc') \<and> (pipe_step (pipe_exec env))\<^sup>*\<^sup>* (o_snowpipeEng orc) (o_snowpipeEng orc')"

lemma moves_refl [simp]: "moves env orc orc"
  by (simp add: moves_def)

lemma moves_trans: "moves env a b \<Longrightarrow> moves env b c \<Longrightarrow> moves env a c"
  unfolding moves_def by (meson rtranclp_trans)

lemma moves_upd [simp]:
  "moves env orc (orc\<lparr>o_engine := e\<rparr>)" "moves env orc (set_stages orc s)" "moves env orc (set_tasks orc t)"
  "moves env orc (orc\<lparr>o_timeTravelEng := tt\<rparr>)" "moves env orc (orc\<lparr>o_cloneEng := c\<rparr>)" "moves env orc (orc\<lparr>o_udfReg := u\<rparr>)"
  by (simp_all add: moves_def set_stages_def set_tasks_def)

lemma moves_streams: "stream_step (o_streamEng orc) s \<Longrightarrow> moves env orc (set_streams orc s)"
  by (simp add: moves_def set_streams_def)

lemma moves_pipes: "pipe_step (pipe_exec env) (o_snowpipeEng orc) p \<Longrightarrow> moves env orc (set_pipes orc p)"
  by (simp add: moves_def set_pipes_def)

lemma moves_roles: "rbac_step (o_rbacEng orc) r \<Longrightarrow> moves env orc (orc\<lparr>o_rbacEng := r\<rparr>)"
  by (simp add: moves_def)

lemma moves_catalog: "catalog_step (o_catalog orc) c \<Longrightarrow> moves env orc (orc\<lparr>o_catalog := c\<rparr>)"
  by (simp add: moves_def)

text \<open>An operation whose error is ignored.\<close>

lemma moves_catalog_ignore:
  "(\<And>c. r = Inr c \<Longrightarrow> catalog_step (o_catalog orc) c) \<Longrightarrow>
     moves env orc (orc\<lparr>o_catalog := ignore_error (o_catalog orc) r\<rparr>)"
  by (cases r) (simp_all add: moves_def)

definition moves_out :: "('w, 'h, 'v) orch_env \<Rightarrow> ('w, 'd) Orchestrator \<Rightarrow> ('w, 'v, 'd) outcome \<Rightarrow> bool" where
  "moves_out env orc out \<longleftrightarrow> moves env orc (fst (snd out))"

lemma moves_out_simp [simp]: "moves_out env orc (w, orc', r) = moves env orc orc'"
  by (simp add: moves_out_def)

lemma moves_commit:
  "(\<And>s. r = Inr s \<Longrightarrow> moves env orc (put s)) \<Longrightarrow> moves_out env orc (commit w orc put r res)"
  "(\<And>s. r = Inr s \<Longrightarrow> moves env orc (put s)) \<Longrightarrow> moves_out env orc (commit_drop w orc put r what b)"
  by (cases r; simp add: commit_def commit_drop_def)+

lemma moves_on_stages [simp]: "moves_out env orc (on_stages orc out)"
  by (cases out) (simp add: on_stages_def)

named_theorems move_intros \<open>handlers that move the subsystems by their steps\<close>

lemma moves_handleCopyInto [move_intros]: "moves_out env orc (handleCopyInto env orc sess t w)"
  by (auto simp: handleCopyInto_def split: sum.split prod.split option.split)

lemma moves_stream_handlers [move_intros]:
  "moves_out env orc (handleCreateStream env orc sess t w)" "moves_out env orc (handleDropStream orc sess t b w)"
  "moves_out env orc (handleShowStreams env orc sess t w)"
  by (auto simp: handleCreateStream_def handleDropStream_def handleShowStreams_def Let_def
      split: option.split prod.split intro!: moves_commit moves_streams intro: stream_step.intros)

lemma moves_task_handlers [move_intros]:
  "moves_out env orc (handleCreateTask env orc sess t w)" "moves_out env orc (handleDropTask orc sess t b w)"
  "moves_out env orc (handleAlterTask orc sess t a w)" "moves_out env orc (handleShowTasks env orc sess t w)"
  "moves_out env orc (handleExecuteTask env orc sess t w)"
  by (auto simp: handleCreateTask_def handleDropTask_def handleAlterTask_def handleShowTasks_def handleExecuteTask_def
      Let_def split: option.split prod.split sum.split intro!: moves_commit)

lemma moves_pipe_handlers [move_intros]:
  "moves_out env orc (handleCreatePipe env orc sess t w)" "moves_out env orc (handleDropPipe orc sess t b w)"
  "moves_out env orc (handleShowPipes env orc sess t w)"
  by (auto simp: handleCreatePipe_def handleDropPipe_def handleShowPipes_def Let_def
      split: option.split prod.split intro!: moves_commit moves_pipes intro: pipe_step.intros)

lemma moves_other_handlers [move_intros]:
  "moves_out env orc (handleUndropTable env orc sess t w)" "moves_out env orc (fallback env orc t w)"
  by (auto simp: handleUndropTable_def fallback_def Let_def split: prod.split sum.split)

lemma moves_marker_handlers: "list_all (\<lambda>(r, h). \<forall>m. moves_out env orc (h m)) (marker_handlers env orc sess w)"
  by (simp add: marker_handlers_def move_intros)

lemma moves_capture: "moves env orc (snd (capture env orc db schema t w))"
  by (simp add: capture_def split: prod.split)

lemma moves_ddl_catalog [move_intros]:
  "moves_out env orc (ddl_create_database env orc sess w m)" "moves_out env orc (ddl_drop_database orc w m)"
  "moves_out env orc (ddl_create_schema env orc sess t w m)" "moves_out env orc (ddl_drop_schema env orc sess t w m)"
  "moves_out env orc (ddl_create_table env orc sess t w m)"
  by (auto simp: ddl_create_database_def ddl_drop_database_def ddl_create_schema_def ddl_drop_schema_def
      ddl_create_table_def Let_def split: sum.split prod.split intro!: moves_catalog moves_catalog_ignore
      intro: catalog_step.intros)

lemma moves_ddl_drop_table [move_intros]: "moves_out env orc (ddl_drop_table env orc sess t w m)"
proof -
  obtain db schema tbl where tgt: "table_target sess (cleanIdent (m 2)) = (db, schema, tbl)" by (metis prod_cases3)
  obtain w1 orc1 where cap: "capture env orc db schema tbl w = (w1, orc1)" by fastforce
  have "moves env orc orc1" using moves_capture [of env orc db schema tbl w] cap by simp
  moreover have "moves env orc1 (orc1\<lparr>o_catalog := ignore_error (o_catalog orc1) (DropTable (o_catalog orc1) db schema tbl)\<rparr>)"
    by (intro moves_catalog_ignore catalog_step.drop_table)
  ultimately show ?thesis using tgt cap
    by (auto simp: ddl_drop_table_def Let_def split: prod.split sum.split intro: moves_trans)
qed

lemma moves_ddl_objects [move_intros]:
  "moves_out env orc (ddl_clone env orc sess w m)" "moves_out env orc (ddl_create_view env orc t w)"
  "moves_out env orc (ddl_create_task env orc sess w m)" "moves_out env orc (ddl_drop_task orc sess w m)"
  "moves_out env orc (ddl_alter_task orc sess w st m)" "moves_out env orc (ddl_drop_stage env orc sess w m)"
  "moves_out env orc (ddl_create_func env orc sess t w m)"
  by (auto simp: ddl_clone_def ddl_create_view_def ddl_create_task_def ddl_drop_task_def ddl_alter_task_def
      ddl_drop_stage_def ddl_create_func_def Let_def split: sum.split prod.split intro!: moves_commit)

lemma moves_ddl_create_stage [move_intros]: "moves_out env orc (ddl_create_stage env orc sess w m)"
proof -
  have "moves env orc (set_stages (set_stages orc a) b)" for a b using moves_upd(2) moves_trans by blast
  then show ?thesis by (auto simp: ddl_create_stage_def Let_def split: sum.split prod.split)
qed

lemma moves_ddl_steps [move_intros]:
  "moves_out env orc (ddl_create_stream env orc sess w m)" "moves_out env orc (ddl_drop_stream orc sess w m)"
  "moves_out env orc (ddl_create_pipe env orc sess w m)" "moves_out env orc (ddl_drop_pipe orc sess w m)"
  "moves_out env orc (ddl_grant env orc w m)" "moves_out env orc (ddl_revoke orc w m)"
  "moves_out env orc (ddl_create_role env orc w m)"
  by (auto simp: ddl_create_stream_def ddl_drop_stream_def ddl_create_pipe_def ddl_drop_pipe_def ddl_grant_def
      ddl_revoke_def ddl_create_role_def intro!: moves_commit moves_streams moves_pipes moves_roles
      intro: stream_step.intros pipe_step.intros rbac_step.intros)

lemma moves_ddl_handlers: "list_all (\<lambda>(r, h). \<forall>m. moves_out env orc (h m)) (ddl_handlers env orc sess t w)"
  by (simp add: ddl_handlers_def move_intros)

lemma moves_handleDML: "handleDML env orc sess t u w = Some out \<Longrightarrow> moves_out env orc out"
proof -
  assume run: "handleDML env orc sess t u w = Some out"
  define tbl where "tbl = extractTableFromDML u"
  obtain w1 orc1 where pre: "(if tbl \<noteq> '''' then capture env orc (sess_Database sess) (sess_Schema sess) tbl w else (w, orc)) = (w1, orc1)"
    by fastforce
  have "moves env orc orc1"
    using pre moves_capture [of env orc "sess_Database sess" "sess_Schema sess" tbl w] by (auto split: if_splits)
  moreover have "moves env orc1 (record_dml env orc1 sess u w2)" for w2
    by (auto simp: record_dml_def Let_def intro: moves_streams stream_step.recrd)
  ultimately have "moves env orc orc1" "moves env orc (record_dml env orc1 sess u w2)" for w2
    using moves_trans by blast+
  then show ?thesis using run pre
    by (auto simp: handleDML_def tbl_def Let_def split: if_splits prod.splits sum.splits)
qed

lemma moves_plain:
  "handleTransaction env orc t u w = Some out \<Longrightarrow> moves_out env orc out"
  "handleQuery env orc t u w = Some out \<Longrightarrow> moves_out env orc out"
  by (auto simp: handleTransaction_def handleQuery_def split: if_splits prod.splits sum.splits)

lemma ExecuteSQL_moves:
  assumes "orch_ExecuteSQL env orc sess sql w = Some (w', orc', sess', r)"
  shows "moves env orc orc'"
  using assms
proof (cases rule: ExecuteSQL_cases)
  case (use kind name)
  then show ?thesis by (auto simp: handleUse_def Let_def split: if_splits)
next
  case (marker t)
  then show ?thesis using route_all [OF _ moves_marker_handlers] by fastforce
next
  case (plain t)
  have "moves_out env orc (dispatch env orc sess t w)"
    by (rule dispatch_cases)
      (auto simp: handleDDL_def move_intros intro: moves_handleDML moves_plain dest: route_all [OF _ moves_ddl_handlers])
  with plain show ?thesis by simp
qed simp_all

lemma Reset_moves: "orch_Reset env orc w = (w', orc', err) \<Longrightarrow> moves env orc orc'"
  by (auto simp: orch_Reset_def moves_def set_stages_def Let_def split: prod.splits option.splits
      intro!: catalog_step.reset stream_step.reset rbac_step.reset pipe_step.reset)

lemma InsertPipeFiles_moves: "InsertPipeFiles env clock orc db schema p fs w = (w', orc', err) \<Longrightarrow> moves env orc orc'"
  by (auto simp: InsertPipeFiles_def split: prod.splits sum.splits intro: moves_pipes InsertFiles_step)

text \<open>
  What whole calls make of an orchestrator: statements of any session, files for a pipe, resets, and ticks of the
  scheduler, which change the tasks only, one after the other.
\<close>

inductive orch_runs :: "('w, 'h, 'v) orch_env \<Rightarrow> ('w, 'd) Orchestrator \<Rightarrow> ('w, 'd) Orchestrator \<Rightarrow> bool"
  for env :: "('w, 'h, 'v) orch_env" and orc0 :: "('w, 'd) Orchestrator" where
  start: "orch_runs env orc0 orc0"
| statement: "orch_runs env orc0 orc \<Longrightarrow> orch_ExecuteSQL env orc sess sql w = Some (w', orc', sess', r) \<Longrightarrow> orch_runs env orc0 orc'"
| pipe_files: "orch_runs env orc0 orc \<Longrightarrow> InsertPipeFiles env clock orc db schema p fs w = (w', orc', err) \<Longrightarrow> orch_runs env orc0 orc'"
| reset: "orch_runs env orc0 orc \<Longrightarrow> orch_Reset env orc w = (w', orc', err) \<Longrightarrow> orch_runs env orc0 orc'"
| tick: "orch_runs env orc0 orc \<Longrightarrow> orch_tick env orc ks ord fuel now w = Some (w', orc', log) \<Longrightarrow> orch_runs env orc0 orc'"

text \<open>A state that is closed under the steps of a relation is closed under its closure.\<close>

lemma closed_star: "(\<And>x y. P x \<Longrightarrow> R x y \<Longrightarrow> P y) \<Longrightarrow> P x \<Longrightarrow> R\<^sup>*\<^sup>* x y \<Longrightarrow> P y"
  by (erule rtranclp_induct [where P = P]) auto

definition subsystems_reachable :: "('w, 'h, 'v) orch_env \<Rightarrow> ('w, 'd) Orchestrator \<Rightarrow> bool" where
  "subsystems_reachable env orc \<longleftrightarrow> catalog_reachable (o_catalog orc) \<and> stream_reachable (o_streamEng orc) \<and>
     rbac_reachable (o_rbacEng orc) \<and> pipe_reachable (pipe_exec env) (o_snowpipeEng orc)"

lemma moves_reachable: "moves env orc orc' \<Longrightarrow> subsystems_reachable env orc \<Longrightarrow> subsystems_reachable env orc'"
  unfolding moves_def subsystems_reachable_def
  by (blast intro: closed_star [of catalog_reachable catalog_step] catalog_reachable.step
      closed_star [of stream_reachable stream_step] stream_reachable.step
      closed_star [of rbac_reachable rbac_step] rbac_reachable.step
      closed_star [of "pipe_reachable (pipe_exec env)" "pipe_step (pipe_exec env)"] pipe_reachable.step)

lemma orch_runs_moves: "orch_runs env orc0 orc \<Longrightarrow> moves env orc0 orc"
proof (induction rule: orch_runs.induct)
  case (tick orc ks ord fuel now w w' orc' log)
  then show ?case by (auto simp: orch_tick_def intro: moves_trans)
qed (auto intro: moves_trans ExecuteSQL_moves Reset_moves InsertPipeFiles_moves)

lemma orch_New_reachable: "subsystems_reachable env (orch_New dir stageDir exec hasData now1 now2)"
  by (simp add: subsystems_reachable_def orch_New_def catalog_reachable.start stream_reachable.start
      rbac_reachable.start pipe_reachable.start)

subsection \<open>The orchestrator as an executor of statements\<close>

definition orch_exec ::
  "('w, 'h, 'v) orch_env \<Rightarrow> ('w \<times> ('w, 'd) Orchestrator \<times> Session, 'v) executor" where
  "orch_exec env st stmt =
     (case st of (w, orc, sess) \<Rightarrow> map_option (\<lambda>(w, orc, sess, r). ((w, orc, sess), r)) (orch_ExecuteSQL env orc sess stmt w))"

lemma orch_exec_Some: "orch_exec env (w, orc, sess) stmt = Some ((w', orc', sess'), r) \<longleftrightarrow>
    orch_ExecuteSQL env orc sess stmt w = Some (w', orc', sess', r)"
  by (auto simp: orch_exec_def)

interpretation orch: statement_executor "orch_exec env" "\<lambda>s. Rewrite (TrimSpace s) \<noteq> None" "rows_fit (drv env)"
  "\<lambda>(w, orc, sess). orch_runs env orc0 orc" "\<lambda>(w, orc, sess). sess_Token sess" for env orc0
proof (unfold_locales, goal_cases)
  case (1 st s)
  then show ?case by (simp add: orch_exec_def orch_returns split: prod.split)
next
  case (2 st s st' res)
  then show ?case by (cases st; cases st') (auto simp: orch_exec_Some intro: result_fits)
next
  case (3 st s st' r)
  then show ?case by (cases st; cases st') (auto simp: orch_exec_Some intro: orch_runs.statement)
next
  case (4 st s st' r)
  then show ?case by (cases st; cases st') (auto simp: orch_exec_Some same_identity_def dest!: session_kept)
qed

subsection \<open>Reset\<close>

lemma stage_Reset_fresh: "stage_Reset os m w = (w', m', err) \<Longrightarrow> m' = stage_NewManager (baseDir m)"
  by (auto simp: stage_Reset_def stage_NewManager_def Let_def split: prod.splits option.splits)

lemma tt_Reset_fresh: "tt_Reset os e w = (e', w', err) \<Longrightarrow> e' = e\<lparr>snapshots := Map.empty, nextID := 1\<rparr>"
  by (auto simp: tt_Reset_def Let_def split: if_splits prod.splits option.splits)


lemma task_Reset_fresh: "task_Reset s = SetStreamHasDataFn (NewScheduler (execFn s)) (streamHasDataFn s)"
  by (cases s) (simp add: task_Reset_def SetStreamHasDataFn_def NewScheduler_def)

text \<open>
  C26. Resetting the program is the same as starting it again: when the reset reports no error, the orchestrator
  is exactly the one that a start with the same directories and callbacks builds, with every subsystem empty
  or holding only its built-in objects, stamped with the time of the reset.
\<close>

theorem reset_restarts:
  assumes "orch_Reset env orc w = (w', orc', None)"
    and "dataDir (o_timeTravelEng orc) = path_Join [eng_dataDir (o_engine orc), ''snapshots'']"
    and "maxAge (o_timeTravelEng orc) = 7 * 24 * hour"
  shows "\<exists>now1 now2. orc' = orch_New (eng_dataDir (o_engine orc)) (baseDir (o_stageMgr orc))
    (execFn (o_taskSched orc)) (streamHasDataFn (o_taskSched orc)) now1 now2"
proof -
  obtain w1 e where e: "engine_Reset (drv env) (o_engine orc) w = (w1, e, None)"
    using assms(1) by (auto simp: orch_Reset_def split: prod.splits option.splits)
  with assms(1) obtain w2 m where m: "stage_Reset (fsys env) (o_stageMgr orc) w1 = (w2, m, None)"
    by (auto simp: orch_Reset_def Let_def split: prod.splits option.splits)
  with e assms(1) obtain w3 t where t: "tt_Reset (tt_env env) (o_timeTravelEng orc) w2 = (t, w3, None)"
    by (auto simp: orch_Reset_def Let_def set_stages_def split: prod.splits option.splits)
  have tt: "t = tt_NewEngine (path_Join [eng_dataDir (o_engine orc), ''snapshots'']) (7 * 24 * hour)"
    using tt_Reset_fresh [OF t] assms(2,3)
    by (cases "o_timeTravelEng orc") (simp add: tt_NewEngine_def hour_def minute_def second_def)
  have "orc' = orch_New (eng_dataDir (o_engine orc)) (baseDir (o_stageMgr orc)) (execFn (o_taskSched orc))
      (streamHasDataFn (o_taskSched orc)) (now_of env w1) (now_of env w3)"
    using assms(1) e m t tt engine_Reset_context [OF e] stage_Reset_fresh [OF m]
    by (cases orc) (auto simp: orch_Reset_def orch_New_def Let_def set_stages_def cat_reset.reset_fresh
        streams_reset.reset_fresh task_Reset_fresh clone_reset.reset_fresh rbac_reset.reset_fresh
        pipes_reset.reset_fresh udf_reset.reset_fresh)
  then show ?thesis by blast
qed

subsection \<open>Changes reach the streams\<close>

definition watches :: "Session \<Rightarrow> string \<Rightarrow> 'd Stream \<Rightarrow> bool" where
  "watches sess tbl s \<longleftrightarrow>
     tableKey (st_DatabaseName s) (st_SchemaName s) (st_TableName s) = tableKey (sess_Database sess) (sess_Schema sess) tbl"

lemma dml_change_simps [simp]:
  "cr_Action (dml_change u) = dml_action u" "stamp now (dml_change u) = (dml_change u)\<lparr>cr_Timestamp := Some now\<rparr>"
  by (simp_all add: dml_change_def stamp_def)

lemma capture_keeps: "capture env orc db schema t w = (w', orc') \<Longrightarrow> o_streamEng orc' = o_streamEng orc \<and>
    o_catalog orc' = o_catalog orc"
  by (auto simp: capture_def split: prod.splits)

text \<open>
  C25. A statement that changes a table is recorded exactly once. For an INSERT INTO, UPDATE, DELETE FROM or MERGE INTO
  with a plain table name, followed by a blank or the end of the statement: when the engine accepts it, each
  stream on this table in the session's schema gets one change with the action of the statement appended
  (an append-only stream only for inserts, and a MERGE counts as an insert), every other stream keeps its
  changes; when the engine refuses it, no stream changes.
\<close>

theorem dml_recorded_once:
  assumes "dml_statement (ToUpper (TrimSpace sql)) act t"
    and "handleDML env orc sess sql (ToUpper (TrimSpace sql)) w = Some (w', orc', r)"
  shows "case r of
      Inl e \<Rightarrow> o_streamEng orc' = o_streamEng orc
    | Inr res \<Rightarrow> \<exists>now. \<forall>k. streams (o_streamEng orc') k =
        map_option (\<lambda>s. if watches sess t s \<and> (st_Type s = ''APPEND_ONLY'' \<longrightarrow> act = ChangeInsert)
            then s\<lparr>st_changes := st_changes s @ [\<lparr>cr_Action = act, cr_IsUpdate = False, cr_RowID = '''',
              cr_Data = Map.empty, cr_Timestamp = Some now\<rparr>]\<rparr> else s)
          (streams (o_streamEng orc) k)"
proof -
  define upper where "upper = ToUpper (TrimSpace sql)"
  have target: "extractTableFromDML upper = t" "dml_action upper = act" "t \<noteq> ''''"
    using dml_statement_target [OF assms(1)] assms(1)
    by (auto simp: upper_def plain_name_def elim: dml_statement.cases)
  have change: "stamp now (dml_change upper) = \<lparr>cr_Action = act, cr_IsUpdate = False, cr_RowID = '''',
      cr_Data = Map.empty, cr_Timestamp = Some now\<rparr>" for now
    by (simp add: dml_change_def stamp_def target)
  note run = assms(2) [folded upper_def]
  define tbl where "tbl = extractTableFromDML upper"
  obtain w1 orc1 where pre: "(if tbl \<noteq> '''' then capture env orc (sess_Database sess) (sess_Schema sess) tbl w else (w, orc)) = (w1, orc1)"
    by fastforce
  then have st: "o_streamEng orc1 = o_streamEng orc" by (auto dest: capture_keeps split: if_splits)
  obtain w2 res where ex: "ExecNoResult (drv env) sql w1 = (w2, res)" by fastforce
  show ?thesis
  proof (cases res)
    case (Inl e)
    with run pre ex st show ?thesis by (auto simp: handleDML_def tbl_def Let_def split: if_splits)
  next
    case (Inr n)
    with run pre ex have "orc' = record_dml env orc1 sess upper w2" "r = Ok (dml_result n)"
      by (auto simp: handleDML_def tbl_def Let_def split: if_splits)
    moreover from this have "streams (o_streamEng orc') k = map_option
        (record_in (tableKey (sess_Database sess) (sess_Schema sess) t) (stamp (now_of env w2) (dml_change upper)))
        (streams (o_streamEng orc) k)" for k
      using st target(3) by (simp add: record_dml_def target(1) Let_def RecordChange_def set_streams_def map_values_def)
    ultimately show ?thesis
      by (auto simp: record_in_def watches_def change simp del: dml_change_simps(2)
          intro!: exI [of _ "now_of env w2"] option.map_cong0)
  qed
qed

subsection \<open>Dropped tables can be restored\<close>

lemma Undrop_captured:
  assumes "CaptureSnapshot os tt now db schema t w = (w', Ok tt')"
  shows "Undrop tt' db schema t = Ok (snapshot_file tt now db schema t)"
  using CaptureSnapshot_ok [OF assms] by (simp add: Undrop_def snaps_of_def Let_def)

text \<open>
  C27. UNDROP restores what DROP saved: when DROP TABLE on a table of the session's schema could export its
  snapshot, a later UNDROP TABLE of the same name, as long as no snapshot of this table was added or removed in between
  (whatever else happened, to other tables too), runs exactly one statement, which recreates the table from the file that the drop exported, and its outcome is that of
  the statement.
\<close>

theorem undrop_restores_drop:
  assumes "table_target sess (cleanIdent (m 2)) = (sess_Database sess, sess_Schema sess, t)"
    and "CaptureSnapshot (tt_env env) (o_timeTravelEng orc) (now_of env w) (sess_Database sess) (sess_Schema sess) t w = (w1, Ok tt)"
    and "ddl_drop_table env orc sess sql w m = (w2, orc2, r)"
    and "snaps_of (o_timeTravelEng orc3) (fqTableName (sess_Database sess) (sess_Schema sess) t) =
      snaps_of (o_timeTravelEng orc2) (fqTableName (sess_Database sess) (sess_Schema sess) t)" and "Trim name quotes2 = t"
  shows "handleUndropTable env orc3 sess name w3 =
    (case ExecNoResult (drv env)
        (restore_sql t (snapshot_file (o_timeTravelEng orc) (now_of env w) (sess_Database sess) (sess_Schema sess) t)) w3 of
       (w4, Inl e) \<Rightarrow> (w4, orc3, Err (Wrap (''UNDROP TABLE '' @ t @ '': restore failed'') e))
     | (w4, Inr _) \<Rightarrow> (w4, orc3, Ok (statusResult (''Table '' @ t @ '' successfully restored.''))))"
proof -
  have "o_timeTravelEng orc2 = tt"
    using assms(1-3) by (auto simp: ddl_drop_table_def capture_def Let_def split: prod.splits sum.splits if_splits)
  moreover have "Undrop (o_timeTravelEng orc3) (sess_Database sess) (sess_Schema sess) t =
      Undrop (o_timeTravelEng orc2) (sess_Database sess) (sess_Schema sess) t"
    using assms(4) by (simp add: Undrop_def)
  ultimately show ?thesis using assms(5) Undrop_captured [OF assms(2)]
    by (simp add: handleUndropTable_def split: prod.split sum.split)
qed

subsection \<open>Concrete runs\<close>

definition sample_orch :: "(string list, nat) Orchestrator" where
  "sample_orch = orch_New ''/d'' ''/s'' (\<lambda>q w. w @ [q]) None 0 0"

lemma sample_rows_fit: "rows_fit (drv sample_env)"
  by (simp add: rows_fit_def sample_env_def sample_driver_def)

text \<open>The statement USE ROLE x, from its text.\<close>

lemma use_role_rewritten: "Rewrite (TrimSpace ''USE ROLE x'') = Some (marker ''USE_ROLE'' ''x'')"
  by code_simp

lemma use_role_marker:
  "handleSpecialMarkers sample_env sample_orch sample_session (marker ''USE_ROLE'' ''x'') [] =
     Some ([], sample_orch, sample_session\<lparr>sess_Role := ''x''\<rparr>, Ok (status_as ''USE'' ''Statement executed successfully.''))"
proof -
  have "map_option (\<lambda>m. (ToUpper (m 1), Trim (m 2) (quotes3 @ '' ''))) (FindStringSubmatch reMarkerUse (marker ''USE_ROLE'' ''x'')) =
      Some (''ROLE'', ''x'')" by code_simp
  then show ?thesis by (auto simp: handleSpecialMarkers_def use_route_def handleUse_def)
qed

lemma use_role_runs:
  "orch_ExecuteSQL sample_env sample_orch sample_session ''USE ROLE x'' [] =
     Some ([], sample_orch, sample_session\<lparr>sess_Role := ''x''\<rparr>, Ok (status_as ''USE'' ''Statement executed successfully.''))"
proof -
  have "TrimSpace ''USE ROLE x'' \<noteq> ''''" by code_simp
  then show ?thesis using use_role_rewritten use_role_marker by (simp add: orch_ExecuteSQL_def)
qed

theorem session_identity_kept_witness:
  "same_identity sample_session (sample_session\<lparr>sess_Role := ''x''\<rparr>)"
  using session_identity_kept [OF use_role_runs] by blast

theorem results_rectangular_witness:
  "rectangular (status_as ''USE'' ''Statement executed successfully.'' :: nat QueryResult)"
  by (rule results_rectangular [OF sample_rows_fit use_role_runs])

definition empty_env :: "(string list, unit, nat) orch_env" where
  "empty_env = sample_env\<lparr>drv := sample_driver\<lparr>db_Query := (\<lambda>q args w. (w @ [q], Inr ([], [], None)))\<rparr>\<rparr>"

lemma sample_reset_ok: "snd (snd (orch_Reset empty_env sample_orch [])) = None"
  by code_simp

theorem reset_restarts_witness:
  "\<exists>now1 now2. fst (snd (orch_Reset empty_env sample_orch [])) =
     orch_New ''/d'' ''/s'' (execFn (o_taskSched sample_orch)) (streamHasDataFn (o_taskSched sample_orch)) now1 now2"
proof -
  obtain w' orc' where run: "orch_Reset empty_env sample_orch [] = (w', orc', None)"
    using sample_reset_ok by (metis prod.collapse)
  have "dataDir (o_timeTravelEng sample_orch) = path_Join [eng_dataDir (o_engine sample_orch), ''snapshots'']"
    "maxAge (o_timeTravelEng sample_orch) = 7 * 24 * hour"
    by (simp_all add: sample_orch_def orch_New_def tt_NewEngine_def new_engine_def hour_def minute_def second_def)
  from reset_restarts [OF run this] run show ?thesis
    by (simp add: sample_orch_def orch_New_def new_engine_def stage_NewManager_def)
qed

definition watched_orch :: "(string list, nat) Orchestrator" where
  "watched_orch = set_streams sample_orch \<lparr>streams = [''d.s.st'' \<mapsto> new_stream 0 ''D'' ''S'' ''st'' ''t'' ''STANDARD'']\<rparr>"

definition insert_text :: string where "insert_text = ''INSERT INTO T VALUES (1)''"

lemma insert_runs:
  "case handleDML sample_env watched_orch sample_session insert_text insert_text [] of
     Some (_, _, Ok _) \<Rightarrow> True | _ \<Rightarrow> False" "extractTableFromDML insert_text = ''T''" "dml_action insert_text = ChangeInsert"
  by code_simp+

theorem dml_recorded_once_witness:
  "\<exists>w orc r s now. handleDML sample_env watched_orch sample_session insert_text insert_text [] = Some (w, orc, Ok r) \<and>
     streams (o_streamEng orc) ''d.s.st'' = Some s \<and>
     st_changes s = [\<lparr>cr_Action = ChangeInsert, cr_IsUpdate = False, cr_RowID = '''', cr_Data = Map.empty, cr_Timestamp = Some now\<rparr>]"
proof -
  have same: "ToUpper (TrimSpace insert_text) = insert_text" by code_simp
  have parts: "blank_run '' ''" "plain_name ''T''" "blank_after '' VALUES (1)''" by code_simp+
  have stmt: "dml_statement (ToUpper (TrimSpace insert_text)) ChangeInsert ''T''"
    unfolding same using dml_statement.insert [OF parts(1,1,2,3)] by (simp add: insert_text_def)
  obtain w orc r where run: "handleDML sample_env watched_orch sample_session insert_text insert_text [] = Some (w, orc, Ok r)"
    using insert_runs(1) by (auto split: option.splits prod.splits sum.splits)
  have "watches sample_session ''T'' (new_stream 0 ''D'' ''S'' ''st'' ''t'' ''STANDARD'' :: nat Stream)" by code_simp
  with dml_recorded_once [OF stmt, unfolded same, OF run] run show ?thesis
    by (auto simp: watched_orch_def set_streams_def new_stream_def)
qed

definition drop_groups :: "nat \<Rightarrow> string" where
  "drop_groups n = (if n = 2 then ''T'' else '''')"

theorem undrop_restores_drop_witness:
  "snd (snd (handleUndropTable sample_env
       (fst (snd (ddl_drop_table sample_env sample_orch sample_session ''DROP TABLE T'' [] drop_groups))) sample_session ''T'' [])) =
     Ok (statusResult ''Table T successfully restored.'' :: nat QueryResult)"
proof -
  have tgt: "table_target sample_session (cleanIdent (drop_groups 2)) = (sess_Database sample_session, sess_Schema sample_session, ''T'')"
    by code_simp
  obtain w1 c where cap: "CaptureSnapshot (tt_env sample_env) (o_timeTravelEng sample_orch) (now_of sample_env [])
      (sess_Database sample_session) (sess_Schema sample_session) ''T'' [] = (w1, c)" by fastforce
  moreover have "case snd (CaptureSnapshot (tt_env sample_env) (o_timeTravelEng sample_orch) (now_of sample_env [])
      (sess_Database sample_session) (sess_Schema sample_session) ''T'' []) of Inl _ \<Rightarrow> False | Inr _ \<Rightarrow> True" by code_simp
  ultimately obtain tt where c: "c = Ok tt" by (auto split: sum.splits)
  obtain w2 orc2 r where drop: "ddl_drop_table sample_env sample_orch sample_session ''DROP TABLE T'' [] drop_groups = (w2, orc2, r)"
    by (metis prod_cases3)
  have "Trim ''T'' quotes2 = ''T''" by code_simp
  from undrop_restores_drop [OF tgt cap [unfolded c] drop refl this] drop show ?thesis
    by (simp add: ExecNoResult_def sample_env_def sample_driver_def)
qed

subsection \<open>Limits of the statement parsers\<close>

text \<open>The option APPEND_ONLY = FALSE makes a stream append-only: only the word is looked for.\<close>

lemma append_only_false_ignored:
  "map_option st_Type (streams (o_streamEng (fst (snd (handleCreateStream sample_env sample_orch sample_session
     ''CREATE STREAM s ON TABLE t APPEND_ONLY = FALSE'' [])))) ''d.s.s'') = Some ''APPEND_ONLY''"
  by code_simp

text \<open>A column list that touches the name becomes part of it: the streams on T miss the change.\<close>

lemma column_list_taken_as_name: "extractTableFromDML ''INSERT INTO T(A) VALUES (1)'' = ''T(A)''"
  by code_simp

text \<open>CREATE strips the quotes of a name, DROP and ALTER do not: a stream created as "s" cannot be dropped as "s".\<close>

definition quoted_s :: string where "quoted_s = [CHR 0x22, CHR ''s'', CHR 0x22]"

lemma quoted_name_cannot_be_dropped:
  "case handleCreateStream sample_env sample_orch sample_session (''CREATE STREAM '' @ quoted_s @ '' ON TABLE t'') [] of
     (w, orc, Inr _) \<Rightarrow> snd (snd (handleDropStream orc sample_session quoted_s False w :: (string list, nat, nat) outcome)) =
       Err (DoesNotExist ''stream'' quoted_s)
   | _ \<Rightarrow> False"
  by code_simp

text \<open>The snapshot of a table dropped by its qualified name is not found by UNDROP of the same name.\<close>

definition drop_qualified :: "nat \<Rightarrow> string" where
  "drop_qualified n = (if n = 2 then ''D.S.T'' else '''')"

lemma qualified_undrop_fails:
  "snd (snd (handleUndropTable sample_env
       (fst (snd (ddl_drop_table sample_env sample_orch sample_session ''DROP TABLE D.S.T'' [] drop_qualified)))
       sample_session ''D.S.T'' [] :: (string list, nat, nat) outcome)) =
     Err (Wrap ''UNDROP TABLE D.S.T'' (DoesNotExist ''snapshots'' ''d.s.d.s.t''))"
  by code_simp

text \<open>CREATE DATABASE of an existing database succeeds also without IF NOT EXISTS, and DROP DATABASE of none succeeds.\<close>

lemma create_database_never_fails:
  "\<exists>w' orc'. ddl_create_database env orc sess w m = (w', orc', Ok ddlResult)"
  by (auto simp: ddl_create_database_def CreateDatabase_def says_exists_def Let_def)

lemma drop_database_never_fails: "\<exists>orc'. ddl_drop_database orc w m = (w, orc', Ok ddlResult)"
  by (simp add: ddl_drop_database_def)

end
