(* ===== verification/Server.thy ===== *)
theory Server
  imports Wire Orch_Props Parameters Bulk
begin

text \<open>
  The HTTP front end (\<^verbatim>\<open>server/server.go\<close>): requests, the routes of the mux, the handlers and the lock that
  keeps a reset apart from the other requests. A handler is a function of the environment, the state of the
  server, the request and the world of the driver; it returns the answer with the new world and state, and
  \<open>None\<close> when it does not return. JSON and gzip are arguments of the model: a body is a value of a type \<open>'b\<close>,
  and the environment says what decoding and inflating it gives. The clock and the random bytes are read
  from the world.
\<close>

subsection \<open>Requests\<close>

record 'b http_request =
  rq_Method :: string
  rq_Path :: string
  rq_Authorization :: string
  rq_ContentEncoding :: string
  rq_Query :: "string \<Rightarrow> string"
  rq_Body :: 'b

record loginRequestBody =
  lb_LoginName :: string
  lb_Password :: string
  lb_AccountName :: string
  lb_DatabaseName :: string
  lb_SchemaName :: string
  lb_WarehouseName :: string

record queryRequestBody =
  qb_SQLText :: string
  qb_AsyncExec :: bool
  qb_SequenceID :: int
  qb_QuerySubmissionTime :: int
  qb_Bindings :: bindings
  qb_BindStage :: string
  qb_DescribeOnly :: bool

record v2_body =
  v2_Statement :: string
  v2_Timeout :: int
  v2_Database :: string
  v2_Schema :: string
  v2_Warehouse :: string
  v2_Role :: string
  v2_Bindings :: bindings

record ('w, 'h, 'v, 'b) server_env =
  se_orch :: "('w, 'h, 'v) orch_env"
  se_bind :: bind_lib
  go_view :: "'v \<Rightarrow> go_value"
  decode_login :: "'b \<Rightarrow> loginRequestBody option"
  decode_query :: "'b \<Rightarrow> queryRequestBody option"
  decode_v2 :: "'b \<Rightarrow> v2_body option"
  decode_files :: "'b \<Rightarrow> (string \<times> int) list option"
  gunzip :: "'b \<Rightarrow> 'b option"
  rand_ids :: "'w \<Rightarrow> 'w \<times> 8 word list \<times> 8 word list"
  clock :: "'w \<Rightarrow> nat \<Rightarrow> time"

subsection \<open>Responses\<close>

record loginSessionInfo =
  si_DatabaseName :: string
  si_SchemaName :: string
  si_WarehouseName :: string
  si_RoleName :: string

record loginResponseData =
  lr_Token :: string
  lr_MasterToken :: string
  lr_SessionID :: int
  lr_MasterValidityInSec :: int
  lr_DisplayUserName :: string
  lr_ServerVersion :: string
  lr_SessionInfo :: loginSessionInfo
  lr_Parameters :: "(string \<times> pvalue) list"

record queryResponseData =
  qd_QueryID :: string
  qd_SQLText :: string
  qd_QueryResultFormat :: string
  qd_RowType :: "rowTypeField list"
  qd_RowSet :: "string option list list"
  qd_Total :: int
  qd_Returned :: int
  qd_QueryStatus :: string
  qd_StatementTypeID :: int
  qd_ArrayBindSupported :: bool

text \<open>What the handlers put into the field \<^verbatim>\<open>data\<close>, and into answers that have no envelope.\<close>

datatype payload =
    DNull
  | DLogin loginResponseData
  | DQuery queryResponseData
  | DFailure failure_data
  | DMap "(string \<times> string) list"
  | DV2Affected string int
  | DV2Rows string "rowTypeField list" "string list list"

record snowflakeResponse =
  sr_Data :: payload
  sr_Code :: "string option"
  sr_Message :: "string option"
  sr_Success :: bool

datatype http_body = Snowflake snowflakeResponse | Plain "(string \<times> string) list"

datatype http_response = Reply nat http_body | Redirect string | NotFound

definition reply :: "nat \<Rightarrow> payload \<Rightarrow> string option \<Rightarrow> string option \<Rightarrow> bool \<Rightarrow> http_response" where
  "reply status data code msg success =
     Reply status (Snowflake \<lparr>sr_Data = data, sr_Code = code, sr_Message = msg, sr_Success = success\<rparr>)"

definition errorResponse :: "nat \<Rightarrow> string \<Rightarrow> string \<Rightarrow> http_response" where
  "errorResponse httpStatus code message = reply httpStatus DNull (Some code) (Some message) False"

definition successResponse :: "payload \<Rightarrow> http_response" where
  "successResponse data = reply 200 data None None True"

definition method_not_allowed :: http_response where
  "method_not_allowed = errorResponse 405 ''405'' ''method not allowed''"

definition invalid_body :: http_response where
  "invalid_body = errorResponse 400 ''400'' ''invalid request body''"

definition invalid_token :: http_response where
  "invalid_token = errorResponse 401 ''390100'' ''session token is invalid''"

definition writeBindFailure :: "string \<Rightarrow> string \<Rightarrow> string \<Rightarrow> http_response" where
  "writeBindFailure queryID sqlText msg =
     reply 200 (DFailure \<lparr>fd_queryId = queryID, fd_queryStatus = ''FAILED_WITH_ERROR'', fd_sqlText = sqlText, fd_sqlState = None\<rparr>)
       (Some ''000008'') (Some msg) False"

text \<open>A failed statement: \<^verbatim>\<open>queryFailure\<close> and the answer the handlers write with it.\<close>

definition query_failed :: "string \<Rightarrow> string \<Rightarrow> string \<Rightarrow> http_response" where
  "query_failed msg queryID sqlText =
     (case queryFailure msg queryID sqlText of (code, msg, data) \<Rightarrow> reply 200 (DFailure data) (Some code) (Some msg) False)"

text \<open>A successful statement with its rowtype and rowset.\<close>

definition query_ok :: "string \<Rightarrow> string \<Rightarrow> rowTypeField list \<Rightarrow> string option list list \<Rightarrow> http_response" where
  "query_ok queryID sqlText rowType rowSet =
     reply 200 (DQuery
       \<lparr>qd_QueryID = queryID, qd_SQLText = sqlText, qd_QueryResultFormat = ''json'', qd_RowType = rowType,
        qd_RowSet = rowSet, qd_Total = int (length rowSet), qd_Returned = int (length rowSet),
        qd_QueryStatus = ''SUCCESS'', qd_StatementTypeID = statementTypeID sqlText,
        qd_ArrayBindSupported = (statementTypeID sqlText = stmtInsert)\<rparr>)
       (Some ''090000'') None True"

text \<open>The rows of a result on the wire; a describe-only request gets the rowtype and no rows.\<close>

definition rows_ok :: "string \<Rightarrow> string \<Rightarrow> bool \<Rightarrow> string list \<Rightarrow> go_value list list \<Rightarrow> http_response" where
  "rows_ok queryID sqlText describeOnly cols rows =
     query_ok queryID sqlText (row_type cols rows) (if describeOnly then [] else buildRowSet rows)"

subsection \<open>The server\<close>

record ('w, 'd) Server =
  sv_sessionMgr :: session_Manager
  sv_orchestrator :: "('w, 'd) Orchestrator option"
  sv_sessionIDCounter :: "64 word"
  sv_host :: string
  sv_port :: int
  sv_stageDir :: string
  sv_Addr :: string

definition server_New :: "session_Manager \<Rightarrow> string \<Rightarrow> int \<Rightarrow> string \<Rightarrow> ('w, 'd) Orchestrator option \<Rightarrow> ('w, 'd) Server" where
  "server_New sessionMgr host port stageDir orch =
     \<lparr>sv_sessionMgr = sessionMgr, sv_orchestrator = orch, sv_sessionIDCounter = 0, sv_host = host, sv_port = port,
      sv_stageDir = stageDir, sv_Addr = host @ '':'' @ Itoa port\<rparr>"

type_synonym ('w, 'd) served = "'w \<times> ('w, 'd) Server \<times> http_response"

definition request_token :: "'b http_request \<Rightarrow> string" where
  "request_token r = extractToken (rq_Authorization r)"

definition touch_session :: "('w, 'h, 'v, 'b) server_env \<Rightarrow> ('w, 'd) Server \<Rightarrow> string \<Rightarrow> 'w \<Rightarrow> ('w, 'd) Server" where
  "touch_session env srv token w =
     (if token = '''' then srv
      else srv\<lparr>sv_sessionMgr := UpdateActivity (sv_sessionMgr srv) (clock env w 0) token\<rparr>)"

definition query_id :: "('w, 'h, 'v, 'b) server_env \<Rightarrow> 'w \<Rightarrow> string" where
  "query_id env w = generateQueryID (clock env w 1) (clock env w 2) (clock env w 3)"

text \<open>\<^verbatim>\<open>atomic.AddUint64(&sessionIDCounter, 1)\<close> and the conversion of its result to a signed number.\<close>

definition next_session_id :: "('w, 'd) Server \<Rightarrow> ('w, 'd) Server \<times> int" where
  "next_session_id srv =
     (let n = sv_sessionIDCounter srv + 1 in (srv\<lparr>sv_sessionIDCounter := n\<rparr>, sint n))"

subsection \<open>Sessions\<close>

definition body_or :: "string \<Rightarrow> string \<Rightarrow> string" where
  "body_or b q = (if b = '''' then q else b)"

definition loginParameters :: "(string \<times> pvalue) list" where
  "loginParameters = DefaultSessionParameters"

definition handleLogin ::
  "('w, 'h, 'v, 'b) server_env \<Rightarrow> ('w, 'd) Server \<Rightarrow> 'b http_request \<Rightarrow> 'w \<Rightarrow> ('w, 'd) served" where
  "handleLogin env srv r w =
     (if rq_Method r \<noteq> ''POST'' then (w, srv, method_not_allowed)
      else case decode_login env (rq_Body r) of
             None \<Rightarrow> (w, srv, invalid_body)
           | Some body \<Rightarrow>
               (let database = body_or (lb_DatabaseName body) (rq_Query r ''databaseName'');
                    schema = body_or (lb_SchemaName body) (rq_Query r ''schemaName'');
                    warehouse = body_or (lb_WarehouseName body) (rq_Query r ''warehouse'');
                    (w', rid, rtok) = rand_ids env w;
                    (sess, mgr) = CreateSession (sv_sessionMgr srv) rid rtok (clock env w 0) (lb_LoginName body) database
                                    schema warehouse ''SYSADMIN'';
                    (srv, sid) = next_session_id (srv\<lparr>sv_sessionMgr := mgr\<rparr>)
                in (w', srv, successResponse (DLogin
                     \<lparr>lr_Token = sess_Token sess, lr_MasterToken = sess_ID sess, lr_SessionID = sid,
                      lr_MasterValidityInSec = 14400, lr_DisplayUserName = ToUpper (lb_LoginName body),
                      lr_ServerVersion = ''10.37.0'',
                      lr_SessionInfo = \<lparr>si_DatabaseName = database, si_SchemaName = schema, si_WarehouseName = warehouse,
                                        si_RoleName = ''SYSADMIN''\<rparr>,
                      lr_Parameters = loginParameters\<rparr>))))"

definition handleTokenRefresh ::
  "('w, 'h, 'v, 'b) server_env \<Rightarrow> ('w, 'd) Server \<Rightarrow> 'b http_request \<Rightarrow> 'w \<Rightarrow> ('w, 'd) served" where
  "handleTokenRefresh env srv r w =
     (if rq_Method r \<noteq> ''POST'' then (w, srv, method_not_allowed)
      else let token = request_token r
           in case GetSession (sv_sessionMgr srv) token of
                None \<Rightarrow> (w, srv, invalid_token)
              | Some sess \<Rightarrow>
                  (let srv = srv\<lparr>sv_sessionMgr := UpdateActivity (sv_sessionMgr srv) (clock env w 0) token\<rparr>;
                       (srv, sid) = next_session_id srv
                   in (w, srv, successResponse (DLogin
                        \<lparr>lr_Token = sess_Token sess, lr_MasterToken = sess_ID sess, lr_SessionID = sid,
                         lr_MasterValidityInSec = 14400, lr_DisplayUserName = ToUpper (sess_User sess),
                         lr_ServerVersion = '''',
                         lr_SessionInfo = \<lparr>si_DatabaseName = '''', si_SchemaName = '''', si_WarehouseName = '''', si_RoleName = ''''\<rparr>,
                         lr_Parameters = []\<rparr>))))"

definition handleAuthenticator ::
  "('w, 'd) Server \<Rightarrow> 'b http_request \<Rightarrow> 'w \<Rightarrow> ('w, 'd) served" where
  "handleAuthenticator srv r w =
     (w, srv, if rq_Method r \<noteq> ''POST'' then method_not_allowed
              else successResponse (DMap [(''tokenUrl'', ''''), (''ssoUrl'', ''''), (''proofKey'', '''')]))"

definition handleSession ::
  "('w, 'd) Server \<Rightarrow> 'b http_request \<Rightarrow> 'w \<Rightarrow> ('w, 'd) served" where
  "handleSession srv r w =
     (if rq_Method r \<noteq> ''DELETE'' \<and> rq_Query r ''delete'' \<noteq> ''true'' then (w, srv, method_not_allowed)
      else let token = request_token r
           in (w, if token = '''' then srv else srv\<lparr>sv_sessionMgr := DeleteSession (sv_sessionMgr srv) token\<rparr>,
               successResponse DNull))"

definition handleHeartbeat ::
  "('w, 'h, 'v, 'b) server_env \<Rightarrow> ('w, 'd) Server \<Rightarrow> 'b http_request \<Rightarrow> 'w \<Rightarrow> ('w, 'd) served" where
  "handleHeartbeat env srv r w = (w, touch_session env srv (request_token r) w, successResponse (DMap []))"


subsection \<open>Queries through the orchestrator\<close>

text \<open>
  The loop of \<^verbatim>\<open>executeStatements\<close>; \<open>prev\<close> is the pointer \<^verbatim>\<open>last\<close>, \<open>affected\<close> the sum \<^verbatim>\<open>total\<close>. Its dereference after the loop is
  a panic when no statement ran, which counts as not returning.
\<close>

fun exec_statements ::
  "('w, 'h, 'v) orch_env \<Rightarrow> ('w, 'd) Orchestrator \<Rightarrow> Session \<Rightarrow> string list \<Rightarrow> int \<Rightarrow> 'v QueryResult option \<Rightarrow> 'w \<Rightarrow>
     ('w \<times> ('w, 'd) Orchestrator \<times> Session \<times> 'v QueryResult result) option"
where
  "exec_statements env orc sess [] affected prev w =
     map_option (\<lambda>res. (w, orc, sess, Ok (res\<lparr>qr_RowsAffected := affected, qr_Rows := [[CInt affected, CInt 0, CInt 0]]\<rparr>))) prev"
| "exec_statements env orc sess (stmt # stmts) affected prev w =
     (case orch_ExecuteSQL env orc sess stmt w of
        None \<Rightarrow> None
      | Some (w, orc, sess, Inl e) \<Rightarrow> Some (w, orc, sess, Err e)
      | Some (w, orc, sess, Inr res) \<Rightarrow>
          if qr_StatementType res \<noteq> ''DML'' then
            Some (w, orc, sess, Err (NotAllowed ''array binding'' ''is only supported for DML statements''))
          else exec_statements env orc sess stmts (wrap64 (affected + qr_RowsAffected res)) (Some res) w)"

definition executeStatements ::
  "('w, 'h, 'v) orch_env \<Rightarrow> ('w, 'd) Orchestrator \<Rightarrow> Session \<Rightarrow> string list \<Rightarrow> 'w \<Rightarrow>
     ('w \<times> ('w, 'd) Orchestrator \<times> Session \<times> 'v QueryResult result) option" where
  "executeStatements env orc sess stmts w =
     (if length stmts = 1 then orch_ExecuteSQL env orc sess (hd stmts) w
      else exec_statements env orc sess stmts 0 None w)"

definition temp_session :: Session where
  "temp_session =
     \<lparr>sess_ID = '''', sess_Token = '''', sess_Database = ''miniflake'', sess_Schema = ''main'',
      sess_Warehouse = ''COMPUTE_WH'', sess_Role = ''SYSADMIN'', sess_User = '''', sess_CreatedAt = 0, sess_LastActiveAt = 0\<rparr>"

text \<open>
  The manager hands out pointers: what a statement changes in the session is in the manager afterwards. The
  session of an unauthenticated query is a fresh one that nobody keeps.
\<close>

definition store_session :: "session_Manager \<Rightarrow> string \<Rightarrow> Session \<Rightarrow> session_Manager" where
  "store_session m token sess =
     (if sessions m token = None then m else m\<lparr>sessions := (sessions m)(token \<mapsto> sess)\<rparr>)"

definition query_orchestrated ::
  "('w, 'h, 'v, 'b) server_env \<Rightarrow> ('w, 'd) Server \<Rightarrow> ('w, 'd) Orchestrator \<Rightarrow> string \<Rightarrow> string \<Rightarrow> string \<Rightarrow> bool \<Rightarrow>
     string list \<Rightarrow> 'w \<Rightarrow> ('w, 'd) served option"
where
  "query_orchestrated env srv orc token queryID sqlText describeOnly stmts w =
     (let found = GetSession (sv_sessionMgr srv) token
      in if found = None \<and> token \<noteq> '''' then Some (w, srv, invalid_token)
         else let sess = (case found of Some s \<Rightarrow> s | None \<Rightarrow> temp_session)
              in case executeStatements (se_orch env) orc sess stmts w of
                   None \<Rightarrow> None
                 | Some (w, orc, sess, res) \<Rightarrow>
                     (let srv = srv\<lparr>sv_orchestrator := Some orc,
                                    sv_sessionMgr := store_session (sv_sessionMgr srv) token sess\<rparr>
                      in Some (w, srv,
                           case res of
                             Inl e \<Rightarrow> query_failed (err_text (se_orch env) e) queryID sqlText
                           | Inr result \<Rightarrow>
                               rows_ok queryID sqlText describeOnly (qr_Columns result)
                                 (map (map (cell_value (go_view env))) (qr_Rows result)))))"

subsection \<open>Queries without an orchestrator\<close>

fun exec_direct :: "('w, 'v) driver \<Rightarrow> string list \<Rightarrow> int \<Rightarrow> 'w \<Rightarrow> 'w \<times> int result" where
  "exec_direct d [] affected w = (w, Ok affected)"
| "exec_direct d (stmt # stmts) affected w =
     (case ExecNoResult d stmt w of
        (w, Inl e) \<Rightarrow> (w, Err e)
      | (w, Inr n) \<Rightarrow> exec_direct d stmts (wrap64 (affected + n)) w)"

definition affected_ok :: "string \<Rightarrow> string \<Rightarrow> int \<Rightarrow> http_response" where
  "affected_ok queryID sqlText affected =
     query_ok queryID sqlText
       [\<lparr>rt_Name = ''rows_affected'', rt_Type = ''fixed'', rt_Meta = metadata None (Some 38) (Some 0) None, rt_Nullable = False\<rparr>]
       [[Some (Itoa affected)]]"

text \<open>\<open>None\<close>: the statement list is empty and the index of its first element is out of range.\<close>

definition query_direct ::
  "('w, 'h, 'v, 'b) server_env \<Rightarrow> ('w, 'd) Server \<Rightarrow> string \<Rightarrow> string \<Rightarrow> bool \<Rightarrow> string list \<Rightarrow> 'w \<Rightarrow> ('w, 'd) served option" where
  "query_direct env srv queryID sqlText describeOnly stmts w =
     (case stmts of
        [] \<Rightarrow> None
      | execSQL # _ \<Rightarrow>
          (let upper = ToUpper sqlText;
               d = drv (se_orch env);
               failed = (\<lambda>e. query_failed (err_text (se_orch env) e) queryID sqlText);
               isQuery = length stmts = 1 \<and>
                 list_ex (HasPrefix upper) [''SELECT'', ''SHOW'', ''DESCRIBE'', ''DESC'', ''EXPLAIN'', ''LIST'', ''WITH'']
           in Some (if isQuery then
                (case engine_Execute d execSQL [] w of
                   (w, Inl e) \<Rightarrow> (w, srv, failed e)
                 | (w, Inr (cols, rows)) \<Rightarrow>
                     (w, srv, rows_ok queryID sqlText describeOnly cols (map (map (go_view env)) rows)))
              else
                (case exec_direct d stmts 0 w of
                   (w, Inl e) \<Rightarrow> (w, srv, failed e)
                 | (w, Inr affected) \<Rightarrow> (w, srv, affected_ok queryID sqlText affected)))))"

subsection \<open>The query endpoint\<close>

definition exec_text :: "queryRequestBody \<Rightarrow> string \<Rightarrow> string" where
  "exec_text body sqlText = (if qb_DescribeOnly body \<and> qb_Bindings body = [] then FillNull sqlText else sqlText)"

definition handleQueryRequest ::
  "('w, 'h, 'v, 'b) server_env \<Rightarrow> ('w, 'd) Server \<Rightarrow> 'b http_request \<Rightarrow> 'w \<Rightarrow> ('w, 'd) served option" where
  "handleQueryRequest env srv r w =
     (if rq_Method r \<noteq> ''POST'' then Some (w, srv, method_not_allowed)
      else
        let token = request_token r;
            srv = touch_session env srv token w
        in case decode_query env (rq_Body r) of
             None \<Rightarrow> Some (w, srv, invalid_body)
           | Some body \<Rightarrow>
               (let sqlText = TrimSpace (qb_SQLText body);
                    queryID = query_id env w
                in if sqlText = '''' then Some (w, srv, errorResponse 400 ''400'' ''empty SQL text'')
                   else if qb_BindStage body \<noteq> '''' then
                     Some (w, srv, writeBindFailure queryID sqlText ''staged array binding (bindStage) is not supported'')
                   else if qb_DescribeOnly body \<and> \<not> isQueryStatement sqlText then
                     Some (w, srv, query_ok queryID sqlText [] [])
                   else case Expand (se_bind env) (exec_text body sqlText) (qb_Bindings body) of
                          Inl e \<Rightarrow> Some (w, srv, writeBindFailure queryID sqlText (err_text (se_orch env) e))
                        | Inr stmts \<Rightarrow>
                            (case sv_orchestrator srv of
                               Some orc \<Rightarrow>
                                 query_orchestrated env srv orc token queryID sqlText (qb_DescribeOnly body) stmts w
                             | None \<Rightarrow> query_direct env srv queryID sqlText (qb_DescribeOnly body) stmts w)))"

definition handleAbortRequest :: "('w, 'd) Server \<Rightarrow> 'b http_request \<Rightarrow> 'w \<Rightarrow> ('w, 'd) served" where
  "handleAbortRequest srv r w =
     (w, srv, if rq_Method r \<noteq> ''POST'' then method_not_allowed else successResponse (DMap []))"

definition handleQueryStatus :: "('w, 'd) Server \<Rightarrow> 'b http_request \<Rightarrow> 'w \<Rightarrow> ('w, 'd) served" where
  "handleQueryStatus srv r w =
     (w, srv, if rq_Method r \<noteq> ''GET'' then method_not_allowed
              else successResponse (DMap
                [(''queryId'', hd (Split (TrimPrefix (rq_Path r) ''/monitoring/queries/'') (CHR ''/''))),
                 (''queryStatus'', ''SUCCESS'')]))"

subsection \<open>SQL API v2\<close>

definition handleV2Statements ::
  "('w, 'h, 'v, 'b) server_env \<Rightarrow> ('w, 'd) Server \<Rightarrow> 'b http_request \<Rightarrow> 'w \<Rightarrow> ('w, 'd) served" where
  "handleV2Statements env srv r w =
     (if rq_Method r \<noteq> ''POST'' then (w, srv, method_not_allowed)
      else
        let srv = touch_session env srv (request_token r) w; d = drv (se_orch env); err = err_text (se_orch env)
        in case decode_v2 env (rq_Body r) of
             None \<Rightarrow> (w, srv, invalid_body)
           | Some body \<Rightarrow>
               (let sqlText = TrimSpace (v2_Statement body); queryID = query_id env w
                in if sqlText = '''' then (w, srv, errorResponse 400 ''400'' ''empty statement'')
                   else case Substitute (se_bind env) sqlText (v2_Bindings body) of
                          Inl e \<Rightarrow> (w, srv, errorResponse 422 ''000008'' (err e))
                        | Inr sqlText \<Rightarrow>
                            (case engine_Execute d sqlText [] w of
                               (w, Inl e) \<Rightarrow>
                                 (case ExecNoResult d sqlText w of
                                    (w, Inl e2) \<Rightarrow> (w, srv, errorResponse 422 ''002043'' (err e))
                                  | (w, Inr affected) \<Rightarrow> (w, srv, successResponse (DV2Affected queryID affected)))
                             | (w, Inr (cols, rows)) \<Rightarrow>
                                 (let vals = map (map (go_view env)) rows
                                  in (w, srv, successResponse (DV2Rows queryID (row_type cols vals)
                                       (map (map cellToString) vals)))))))"

definition handleV2StatementsID :: "('w, 'd) Server \<Rightarrow> 'b http_request \<Rightarrow> 'w \<Rightarrow> ('w, 'd) served" where
  "handleV2StatementsID srv r w =
     (let parts = Split (TrimPrefix (rq_Path r) ''/api/v2/statements/'') (CHR ''/'');
          handle = hd parts
      in (w, srv,
          if 2 \<le> length parts \<and> parts ! 1 = ''cancel'' then
            successResponse (DMap [(''statementHandle'', handle), (''status'', ''ABORTED'')])
          else if rq_Method r \<noteq> ''GET'' then method_not_allowed
          else successResponse (DMap [(''statementHandle'', handle), (''status'', ''SUCCESS'')])))"

subsection \<open>Internal endpoints\<close>

definition handleTelemetry :: "('w, 'd) Server \<Rightarrow> 'w \<Rightarrow> ('w, 'd) served" where
  "handleTelemetry srv w = (w, srv, successResponse (DMap []))"

definition handleHealth :: "('w, 'd) Server \<Rightarrow> 'w \<Rightarrow> ('w, 'd) served" where
  "handleHealth srv w = (w, srv, Reply 200 (Plain [(''status'', ''ok'')]))"

definition no_orchestrator :: http_response where
  "no_orchestrator = errorResponse 503 ''503'' ''orchestrator not configured''"

definition handleReset ::
  "('w, 'h, 'v, 'b) server_env \<Rightarrow> ('w, 'd) Server \<Rightarrow> 'b http_request \<Rightarrow> 'w \<Rightarrow> ('w, 'd) served" where
  "handleReset env srv r w =
     (if rq_Method r \<noteq> ''POST'' then (w, srv, method_not_allowed)
      else case sv_orchestrator srv of
             None \<Rightarrow> (w, srv, no_orchestrator)
           | Some orc \<Rightarrow>
               (case orch_Reset (se_orch env) orc w of
                  (w, orc, Some e) \<Rightarrow>
                    (w, srv\<lparr>sv_orchestrator := Some orc\<rparr>, errorResponse 500 ''500'' (err_text (se_orch env) e))
                | (w, orc, None) \<Rightarrow>
                    (w, srv\<lparr>sv_orchestrator := Some orc, sv_sessionMgr := session_Reset (sv_sessionMgr srv)\<rparr>,
                     Reply 200 (Plain [(''status'', ''ok'')]))))"

definition handleSnowpipeIngest ::
  "('w, 'h, 'v, 'b) server_env \<Rightarrow> ('w, 'd) Server \<Rightarrow> 'b http_request \<Rightarrow> 'w \<Rightarrow> ('w, 'd) served" where
  "handleSnowpipeIngest env srv r w =
     (if rq_Method r \<noteq> ''POST'' then (w, srv, method_not_allowed)
      else case sv_orchestrator srv of
             None \<Rightarrow> (w, srv, no_orchestrator)
           | Some orc \<Rightarrow>
               (let parts = Split (TrimPrefix (rq_Path r) ''/v1/data/pipes/'') (CHR ''/'')
                in if length parts \<noteq> 4 \<or> parts ! 3 \<noteq> ''insertFiles'' then
                     (w, srv, errorResponse 404 ''404'' ''unknown pipe endpoint'')
                   else case decode_files env (rq_Body r) of
                          None \<Rightarrow> (w, srv, invalid_body)
                        | Some files \<Rightarrow>
                            if files = [] then (w, srv, errorResponse 400 ''400'' ''files list is required'')
                            else (case InsertPipeFiles (se_orch env) (clock env w) orc (parts ! 0) (parts ! 1) (parts ! 2)
                                         (map fst files) w of
                                    (w, orc, Some e) \<Rightarrow>
                                      (w, srv\<lparr>sv_orchestrator := Some orc\<rparr>, errorResponse 400 ''002043'' (err_text (se_orch env) e))
                                  | (w, orc, None) \<Rightarrow>
                                      (w, srv\<lparr>sv_orchestrator := Some orc\<rparr>,
                                       Reply 200 (Plain
                                         [(''requestId'', query_id env w), (''pipe'', Join (take 3 parts) ''.''),
                                          (''statusCode'', ''200''), (''message'', ''SUCCESS'')])))))"


subsection \<open>Routing\<close>

datatype endpoint =
    Login | TokenRefresh | Authenticator | Session_EP | QueryRequest | AbortRequest | QueryStatus
  | V2Statements | V2StatementsID | Telemetry | Heartbeat | SnowpipeIngest | Health | Reset

definition mux_patterns :: "(string \<times> endpoint) list" where
  "mux_patterns =
     [(''/session/v1/login-request'', Login), (''/session/token-request'', TokenRefresh),
      (''/session/authenticator-request'', Authenticator), (''/session'', Session_EP),
      (''/queries/v1/query-request'', QueryRequest), (''/queries/v1/abort-request'', AbortRequest),
      (''/monitoring/queries/'', QueryStatus), (''/api/v2/statements'', V2Statements),
      (''/api/v2/statements/'', V2StatementsID), (''/telemetry/send'', Telemetry),
      (''/session/heartbeat'', Heartbeat), (''/v1/data/pipes/'', SnowpipeIngest),
      (''/_miniflake/health'', Health), (''/_miniflake/reset'', Reset)]"

text \<open>
  \<^verbatim>\<open>http.ServeMux\<close>: a pattern matches its own path, and one that ends in a slash matches every path below it (no two
  such patterns match the same path). A path that is not clean, or that is a pattern but for its final slash,
  is redirected. Paths with percent escapes are not modelled.
\<close>

definition cleanPath :: "string \<Rightarrow> string" where
  "cleanPath p =
     (if p = '''' then ''/''
      else let p = (if hd p = CHR ''/'' then p else CHR ''/'' # p); np = Clean p
           in if last p = CHR ''/'' \<and> np \<noteq> ''/'' then np @ ''/'' else np)"

definition mux_match :: "string \<Rightarrow> endpoint option" where
  "mux_match path =
     (case map_of mux_patterns path of
        Some e \<Rightarrow> Some e
      | None \<Rightarrow> map_option snd (List.find (\<lambda>(p, e). HasSuffix p ''/'' \<and> HasPrefix path p) mux_patterns))"

definition mux_redirect :: "string \<Rightarrow> string \<Rightarrow> string option" where
  "mux_redirect method path =
     (let clean = (if method = ''CONNECT'' then path else cleanPath path)
      in if map_of mux_patterns clean = None \<and> map_of mux_patterns (clean @ ''/'') \<noteq> None then Some (clean @ ''/'')
         else if clean \<noteq> path then Some clean else None)"

definition endpoint_handler ::
  "('w, 'h, 'v, 'b) server_env \<Rightarrow> ('w, 'd) Server \<Rightarrow> endpoint \<Rightarrow> 'b http_request \<Rightarrow> 'w \<Rightarrow> ('w, 'd) served option" where
  "endpoint_handler env srv e r w =
     (case e of
        Login \<Rightarrow> Some (handleLogin env srv r w)
      | TokenRefresh \<Rightarrow> Some (handleTokenRefresh env srv r w)
      | Authenticator \<Rightarrow> Some (handleAuthenticator srv r w)
      | Session_EP \<Rightarrow> Some (handleSession srv r w)
      | QueryRequest \<Rightarrow> handleQueryRequest env srv r w
      | AbortRequest \<Rightarrow> Some (handleAbortRequest srv r w)
      | QueryStatus \<Rightarrow> Some (handleQueryStatus srv r w)
      | V2Statements \<Rightarrow> Some (handleV2Statements env srv r w)
      | V2StatementsID \<Rightarrow> Some (handleV2StatementsID srv r w)
      | Telemetry \<Rightarrow> Some (handleTelemetry srv w)
      | Heartbeat \<Rightarrow> Some (handleHeartbeat env srv r w)
      | SnowpipeIngest \<Rightarrow> Some (handleSnowpipeIngest env srv r w)
      | Health \<Rightarrow> Some (handleHealth srv w)
      | Reset \<Rightarrow> Some (handleReset env srv r w))"

definition mux_serve ::
  "('w, 'h, 'v, 'b) server_env \<Rightarrow> ('w, 'd) Server \<Rightarrow> 'b http_request \<Rightarrow> 'w \<Rightarrow> ('w, 'd) served option" where
  "mux_serve env srv r w =
     (case mux_redirect (rq_Method r) (rq_Path r) of
        Some path \<Rightarrow> Some (w, srv, Redirect path)
      | None \<Rightarrow>
          (case mux_match (rq_Path r) of
             None \<Rightarrow> Some (w, srv, NotFound)
           | Some e \<Rightarrow> endpoint_handler env srv e r w))"

text \<open>\<^verbatim>\<open>withDecompressedBody\<close>; a request that net/http delivers always has a body.\<close>

definition withDecompressedBody ::
  "('w, 'h, 'v, 'b) server_env \<Rightarrow> ('w, 'd) Server \<Rightarrow> 'b http_request \<Rightarrow> 'w \<Rightarrow> ('w, 'd) served option" where
  "withDecompressedBody env srv r w =
     (if \<not> hasGzipEncoding (rq_ContentEncoding r) then mux_serve env srv r w
      else case gunzip env (rq_Body r) of
             None \<Rightarrow> Some (w, srv, invalid_body)
           | Some b \<Rightarrow> mux_serve env srv (r\<lparr>rq_Body := b, rq_ContentEncoding := ''''\<rparr>) w)"

subsection \<open>The state lock\<close>

datatype lock_mode = Unlocked | Shared | Exclusive

text \<open>The lock \<^verbatim>\<open>withStateLock\<close> takes for a request.\<close>

definition lock_of :: "string \<Rightarrow> string \<Rightarrow> lock_mode" where
  "lock_of method path =
     (if path = ''/_miniflake/health'' then Unlocked
      else if path = ''/_miniflake/reset'' then (if method \<noteq> ''POST'' then Unlocked else Exclusive)
      else Shared)"

text \<open>
  The requests in progress, by a number for each. \<^verbatim>\<open>sync.RWMutex\<close> grants the exclusive lock when nobody holds the
  lock, and the shared one when nobody holds it exclusively; a request holds its lock until it ends.
\<close>

type_synonym 'b running = "nat \<rightharpoonup> 'b http_request"

definition req_lock :: "'b http_request \<Rightarrow> lock_mode" where
  "req_lock r = lock_of (rq_Method r) (rq_Path r)"

definition grants :: "'b running \<Rightarrow> lock_mode \<Rightarrow> bool" where
  "grants run mode =
     (case mode of
        Unlocked \<Rightarrow> True
      | Shared \<Rightarrow> (\<forall>r \<in> ran run. req_lock r \<noteq> Exclusive)
      | Exclusive \<Rightarrow> (\<forall>r \<in> ran run. req_lock r = Unlocked))"

inductive serve_step :: "'b running \<Rightarrow> 'b running \<Rightarrow> bool" where
  start: "run i = None \<Longrightarrow> grants run (req_lock r) \<Longrightarrow> serve_step run (run(i \<mapsto> r))"
| finish: "run i = Some r \<Longrightarrow> serve_step run (run(i := None))"

inductive serving :: "'b running \<Rightarrow> bool" where
  idle: "serving Map.empty"
| step: "serving run \<Longrightarrow> serve_step run run' \<Longrightarrow> serving run'"

inductive_cases serve_stepE: "serve_step run run'"

end
