(* ===== verification/Server_Props.thy ===== *)
theory Server_Props
  imports Server
begin

text \<open>
  What the server promises: a query request is answered, a token that is not a session's never reaches the SQL
  engine, a login opens a session that a logout closes, a request changes no session but its own, a batch of
  statements runs in order up to the first error, the rows of an answer fit its columns, a reset never overlaps
  with a request that could see it, and every state the server reaches is one the subsystems reach.
\<close>

subsection \<open>Statement batches\<close>

lemma subst_rows_length: "subst_rows lib sql rows = Inr ts \<Longrightarrow> length ts = length rows"
  by (drule subst_rows_Ok) (simp add: list_all2_lengthD)

lemma splitRows_nonempty: "splitRows lib bs = Inr rows \<Longrightarrow> rows \<noteq> []"
  by (auto simp: splitRows_def split: sum.splits prod.splits if_splits)

lemma Expand_nonempty: "Expand lib sql bs = Inr stmts \<Longrightarrow> stmts \<noteq> []"
  by (auto simp: Expand_def dest!: splitRows_nonempty subst_rows_length split: if_splits sum.splits option.splits prod.splits)


lemma exec_statements_batch:
  "exec_statements env orc sess stmts n prev w =
     map_option (\<lambda>((w, orc, sess), r). (w, orc, sess, r)) (batch (orch_exec env) stmts n prev (w, orc, sess))"
proof (induction stmts arbitrary: orc sess n prev w)
  case (Cons s stmts)
  then show ?case
    by (auto simp: orch_exec_def not_dml_def split: option.split sum.split)
qed (simp add: option.map_comp comp_def)

lemma executeStatements_batch:
  assumes "length stmts \<noteq> 1"
  shows "executeStatements env orc sess stmts w = Some (w', orc', sess', r) \<longleftrightarrow>
    batch (orch_exec env) stmts 0 None (w, orc, sess) = Some ((w', orc', sess'), r)"
  using assms by (auto simp: executeStatements_def exec_statements_batch)

text \<open>
  C16. A batch of statements that array binding produced runs in order and stops at the first error: when it
  succeeds, every statement ran, on the state the one before left, and returned a row count, and the answer holds the
  sum of the counts, in 64 bits; when it fails, the statements up to the failing one were executed, each on the state
  the one before left, and none behind it, and their effects stay. The failing statement is one that the
  orchestrator answers with an error, or one that it executes but that is no DML statement, and whose effects stay too.
\<close>

theorem executeStatements_in_order:
  assumes "executeStatements env orc sess stmts w = Some (w', orc', sess', r)" and "length stmts \<noteq> 1"
  shows "case r of
      Inr res \<Rightarrow> (\<exists>rs. runs (orch_exec env) (w, orc, sess) stmts rs (w', orc', sess') \<and> all_dml rs \<and>
        qr_RowsAffected res = wrap64 (sum_list (map qr_RowsAffected rs)) \<and> qr_Rows res = [[CInt (qr_RowsAffected res), CInt 0, CInt 0]])
    | Inl e \<Rightarrow> stopped (orch_exec env) (w, orc, sess) stmts (w', orc', sess') e"
proof -
  have "0 = wrap64 0" by (simp add: wrap64_def)
  from batch_in_order [OF iffD1 [OF executeStatements_batch [OF assms(2)] assms(1)] this] show ?thesis by (cases r) simp_all
qed

subsection \<open>Query requests are answered\<close>

lemma executeStatements_answers:
  assumes "\<And>s. s \<in> set stmts \<Longrightarrow> Rewrite (TrimSpace s) \<noteq> None" "stmts \<noteq> []"
  shows "executeStatements env orc sess stmts w \<noteq> None"
proof -
  have "Rewrite (TrimSpace (hd stmts)) \<noteq> None" using assms by simp
  moreover have "batch (orch_exec env) stmts 0 None (w, orc, sess) \<noteq> None"
    using assms by (intro orch.batch_returns) auto
  ultimately show ?thesis by (simp add: executeStatements_def exec_statements_batch orch_returns del: not_None_eq)
qed

lemma query_orchestrated_answers:
  assumes "\<And>sess. executeStatements (se_orch env) orc sess stmts w \<noteq> None"
  shows "query_orchestrated env srv orc token q t b stmts w \<noteq> None"
proof -
  define sess where "sess = (case GetSession (sv_sessionMgr srv) token of Some s \<Rightarrow> s | None \<Rightarrow> temp_session)"
  obtain x where x: "executeStatements (se_orch env) orc sess stmts w = Some x" using assms [of sess] by blast
  show ?thesis unfolding query_orchestrated_def Let_def sess_def [symmetric] x case_prod_beta by simp
qed

text \<open>The statements a query request runs.\<close>

definition request_statements :: "('w, 'h, 'v, 'b) server_env \<Rightarrow> 'b http_request \<Rightarrow> string list" where
  "request_statements env r =
     (case decode_query env (rq_Body r) of
        None \<Rightarrow> []
      | Some body \<Rightarrow>
          (case Expand (se_bind env) (exec_text body (TrimSpace (qb_SQLText body))) (qb_Bindings body) of
             Inl e \<Rightarrow> [] | Inr stmts \<Rightarrow> stmts))"

text \<open>
  C18. A query request is answered: whatever the body, the bindings, the session and the driver, the handler returns
  an answer, provided that the rewriter returns on each of the statements the request expands to. In
  particular the result of a batch is never missing and the list of statements is never empty.
\<close>

theorem query_request_answered:
  assumes "list_all (\<lambda>s. Rewrite (TrimSpace s) \<noteq> None) (request_statements env r)"
  shows "handleQueryRequest env srv r w \<noteq> None"
proof (cases "decode_query env (rq_Body r)")
  case None
  then show ?thesis by (simp add: handleQueryRequest_def Let_def)
next
  case (Some body)
  show ?thesis
  proof (cases "Expand (se_bind env) (exec_text body (TrimSpace (qb_SQLText body))) (qb_Bindings body)")
    case (Inl e)
    with Some show ?thesis by (simp add: handleQueryRequest_def Let_def)
  next
    case (Inr stmts)
    note ne = Expand_nonempty [OF Inr]
    have "executeStatements (se_orch env) orc sess stmts w \<noteq> None" for orc sess
      using assms Some Inr ne by (intro executeStatements_answers) (auto simp: request_statements_def list_all_iff)
    then have "query_orchestrated env srv' orc token q t b stmts w \<noteq> None" for srv' orc token q t b
      by (rule query_orchestrated_answers)
    moreover have "query_direct env srv' q t b stmts w \<noteq> None" for srv' q t b
      using ne by (cases stmts) (simp_all add: query_direct_def Let_def del: not_None_eq)
    ultimately show ?thesis using Some Inr by (auto simp: handleQueryRequest_def Let_def split: option.split)
  qed
qed

subsection \<open>Tokens\<close>

lemma touch_unknown: "sessions (sv_sessionMgr srv) token = None \<Longrightarrow> touch_session env srv token w = srv"
  by (cases srv) (simp add: touch_session_def UpdateActivity_def)

lemma unknown_token_query:
  assumes "sv_orchestrator srv \<noteq> None" and "request_token r \<noteq> ''''"
    and "GetSession (sv_sessionMgr srv) (request_token r) = None"
  shows "\<exists>resp. handleQueryRequest env srv r w = Some (w, srv, resp) \<and>
    ((\<exists>status data code msg. resp = reply status data code msg False) \<or>
     (\<exists>body. decode_query env (rq_Body r) = Some body \<and> qb_DescribeOnly body \<and>
        resp = query_ok (query_id env w) (TrimSpace (qb_SQLText body)) [] []))"
proof -
  have touch_session: "touch_session env srv (request_token r) w = srv"
    using assms(3) by (simp add: GetSession_def touch_unknown)
  have orch: "query_orchestrated env srv orc (request_token r) q t b stmts w = Some (w, srv, invalid_token)" for orc q t b stmts
    using assms(2,3) by (simp add: query_orchestrated_def)
  show ?thesis
    using assms(1) unfolding handleQueryRequest_def Let_def touch_session
    by (auto simp: orch method_not_allowed_def invalid_body_def invalid_token_def errorResponse_def writeBindFailure_def
        split: option.split sum.split)
qed

text \<open>
  C12. A token that belongs to no session gets nothing run: a query request that carries one leaves the world of the
  SQL engine and the whole server as they were, and its answer is an error, except for the empty description
  of a statement that a describe-only request does not run.
\<close>

theorem unknown_token_runs_nothing:
  assumes "sv_orchestrator srv \<noteq> None" and "request_token r \<noteq> ''''"
    and "GetSession (sv_sessionMgr srv) (request_token r) = None"
  shows "\<exists>resp. handleQueryRequest env srv r w = Some (w, srv, resp) \<and>
    ((\<exists>status data code msg. resp = reply status data code msg False) \<or>
     (\<exists>body. decode_query env (rq_Body r) = Some body \<and> qb_DescribeOnly body \<and>
        resp = query_ok (query_id env w) (TrimSpace (qb_SQLText body)) [] []))"
  using assms by (rule unknown_token_query)

subsection \<open>The shape of an answer\<close>

text \<open>The rowset has a cell for every field of the rowtype, the counts are its length, the metadata are those of the type.\<close>

definition well_shaped :: "queryResponseData \<Rightarrow> bool" where
  "well_shaped d \<longleftrightarrow>
     list_all (\<lambda>row. length row = length (qd_RowType d)) (qd_RowSet d) \<and>
     qd_Total d = int (length (qd_RowSet d)) \<and> qd_Returned d = int (length (qd_RowSet d)) \<and>
     list_all (\<lambda>f. rt_Meta f = snowflakeColumnMetadata (rt_Type f)) (qd_RowType d)"

definition shaped :: "http_response \<Rightarrow> bool" where
  "shaped resp \<longleftrightarrow> (\<forall>status code msg ok d. resp = reply status (DQuery d) code msg ok \<longrightarrow> well_shaped d)"

lemma reply_inject [simp]:
  "reply s d c m b = reply s' d' c' m' b' \<longleftrightarrow> s = s' \<and> d = d' \<and> c = c' \<and> m = m' \<and> b = b'"
  by (auto simp: reply_def)

lemma shaped_errors [simp]:
  "shaped (errorResponse s c m)" "shaped (writeBindFailure q t m)" "shaped (query_failed m q t)"
  "shaped method_not_allowed" "shaped invalid_body" "shaped invalid_token"
  by (simp_all add: shaped_def errorResponse_def writeBindFailure_def query_failed_def method_not_allowed_def invalid_body_def
      invalid_token_def split: prod.split)

lemma shaped_query_ok:
  "shaped (query_ok q t fs rows) \<longleftrightarrow> list_all (\<lambda>row. length row = length fs) rows \<and>
     list_all (\<lambda>f. rt_Meta f = snowflakeColumnMetadata (rt_Type f)) fs"
  by (auto simp: shaped_def query_ok_def well_shaped_def)

lemma shaped_rows_ok: "list_all (\<lambda>row. length row = length cols) rows \<Longrightarrow> shaped (rows_ok q t b cols rows)"
  by (auto simp: rows_ok_def shaped_query_ok row_type_def buildRowSet_def list_all_iff Let_def)

lemma shaped_affected_ok: "shaped (affected_ok q t n)"
  by (simp add: affected_ok_def shaped_query_ok snowflakeColumnMetadata_def)

text \<open>Where a query request ends: before any statement, in the orchestrator or in the engine.\<close>

lemma touch_keeps [simp]: "sv_orchestrator (touch_session env srv token w) = sv_orchestrator srv"
  by (simp add: touch_session_def)

lemma handleQueryRequest_cases:
  assumes "handleQueryRequest env srv r w = Some (w', srv', resp)"
  obtains (early) "w' = w" "srv' = srv \<or> srv' = touch_session env srv (request_token r) w" "shaped resp"
  | (orch) orc q t b stmts where "sv_orchestrator srv = Some orc"
      "query_orchestrated env (touch_session env srv (request_token r) w) orc (request_token r) q t b stmts w = Some (w', srv', resp)"
  | (direct) q t b stmts where "sv_orchestrator srv = None"
      "query_direct env (touch_session env srv (request_token r) w) q t b stmts w = Some (w', srv', resp)"
proof (cases "rq_Method r \<noteq> ''POST'' \<or> decode_query env (rq_Body r) = None")
  case True
  with assms have "w' = w \<and> (srv' = srv \<or> srv' = touch_session env srv (request_token r) w) \<and> shaped resp"
    by (auto simp: handleQueryRequest_def Let_def split: if_splits)
  then show ?thesis by (auto intro: early)
next
  case False
  then obtain body where post: "rq_Method r = ''POST''" and body: "decode_query env (rq_Body r) = Some body" by blast
  note run = assms [unfolded handleQueryRequest_def Let_def post body, simplified]
  show ?thesis
  proof (cases "TrimSpace (qb_SQLText body) = '''' \<or> qb_BindStage body \<noteq> '''' \<or>
      qb_DescribeOnly body \<and> \<not> isQueryStatement (TrimSpace (qb_SQLText body))")
    case True
    with run have "w' = w \<and> srv' = touch_session env srv (request_token r) w \<and> shaped resp"
      by (auto simp: shaped_query_ok split: if_splits)
    then show ?thesis by (auto intro: early)
  next
    case False
    show ?thesis
    proof (cases "Expand (se_bind env) (exec_text body (TrimSpace (qb_SQLText body))) (qb_Bindings body)")
      case (Inl e)
      with run False show ?thesis by (auto split: if_splits intro: early)
    next
      case (Inr stmts)
      with run False show ?thesis by (cases "sv_orchestrator srv") (auto split: if_splits intro: orch direct)
    qed
  qed
qed

lemma executeStatements_fit:
  assumes "rows_fit (drv env)" "executeStatements env orc sess stmts w = Some (w', orc', sess', Ok res)"
  shows "rectangular res"
proof (cases "length stmts = 1")
  case True
  with assms show ?thesis using result_fits [OF assms(1)] by (fastforce simp: executeStatements_def fits_def)
next
  case False
  from orch.batch_fits [OF assms(1) iffD1 [OF executeStatements_batch [OF False] assms(2)]] show ?thesis by simp
qed

text \<open>
  C17. The rows of an answer fit its columns: whatever the statement, the session and the path through the server, in
  the answer to a query request every row of the rowset has exactly one cell for every field of the rowtype,
  the totals are the number of rows, and every field carries the metadata of its type, given that the rows the
  driver returns have a value for every column. This holds for batches too, whose row is put together from
  the counts of the statements.
\<close>

theorem query_answer_well_shaped:
  assumes "rows_fit (drv (se_orch env))" and "handleQueryRequest env srv r w = Some (w', srv', reply status (DQuery d) code msg ok)"
  shows "well_shaped d"
proof -
  have orch: "shaped resp" if "query_orchestrated env s orc token q t b stmts w = Some (w', srv', resp)" for s orc token q t b stmts resp
  proof -
    have "rectangular res \<Longrightarrow>
        shaped (rows_ok q t b (qr_Columns res) (map (map (cell_value (go_view env))) (qr_Rows res)))" for res
      by (rule shaped_rows_ok) (simp add: rectangular_def list_all_iff)
    with that executeStatements_fit [OF assms(1)] show ?thesis
      by (fastforce simp: query_orchestrated_def Let_def split: if_splits option.splits prod.splits sum.splits)
  qed
  have direct: "shaped resp" if "query_direct env s q t b stmts w = Some (w', srv', resp)" for s q t b stmts resp
  proof -
    have "list_all (\<lambda>row. length row = length cols) rows"
      if "engine_Execute (drv (se_orch env)) x [] w = (w2, Inr (cols, rows))" for x w2 cols rows
      using assms(1) that by (fastforce simp: engine_Execute_def rows_fit_def split: prod.splits sum.splits option.splits)
    then have "shaped (rows_ok q t b cols (map (map (go_view env)) rows))"
      if "engine_Execute (drv (se_orch env)) x [] w = (w2, Inr (cols, rows))" for x w2 cols rows
      using that by (intro shaped_rows_ok) (fastforce simp: list_all_iff)
    with that show ?thesis
      by (auto simp: query_direct_def Let_def shaped_affected_ok split: if_splits list.splits prod.splits sum.splits)
  qed
  from assms(2) have "shaped (reply status (DQuery d) code msg ok)"
    by (cases rule: handleQueryRequest_cases) (auto intro: orch direct)
  then show ?thesis by (simp add: shaped_def)
qed


subsection \<open>Sessions of other clients\<close>

abbreviation session_at :: "('w, 'd) Server \<Rightarrow> string \<Rightarrow> Session option" where
  "session_at srv token \<equiv> sessions (sv_sessionMgr srv) token"

lemma session_at_touch: "k \<noteq> token \<Longrightarrow> session_at (touch_session env srv token w) k = session_at srv k"
  by (simp add: touch_session_def UpdateActivity_def split: option.split)

lemma session_at_store: "k \<noteq> token \<Longrightarrow> sessions (store_session m token sess) k = sessions m k"
  by (simp add: store_session_def)

lemma session_at_query:
  assumes "handleQueryRequest env srv r w = Some (w', srv', resp)" "k \<noteq> request_token r"
  shows "session_at srv' k = session_at srv k"
  using assms(1)
proof (cases rule: handleQueryRequest_cases)
  case early
  with assms(2) show ?thesis by (auto simp: session_at_touch)
next
  case (orch orc q t b stmts)
  then show ?thesis using assms(2)
    by (auto simp: query_orchestrated_def Let_def session_at_touch session_at_store split: if_splits option.splits prod.splits)
next
  case (direct q t b stmts)
  then show ?thesis using assms(2)
    by (auto simp: query_direct_def Let_def session_at_touch split: if_splits list.splits prod.splits sum.splits)
qed

lemma next_session_id_keeps [simp]:
  "sv_sessionMgr (fst (next_session_id srv)) = sv_sessionMgr srv"
  "sv_orchestrator (fst (next_session_id srv)) = sv_orchestrator srv"
  by (simp_all add: next_session_id_def Let_def)

lemma session_at_login:
  assumes "handleLogin env srv r w = (w', srv', resp)"
  shows "session_at srv' k = session_at srv k \<or> (\<exists>d. resp = successResponse (DLogin d) \<and> lr_Token d = k)"
  using assms
  by (auto simp: handleLogin_def Let_def CreateSession_def next_session_id_def split: if_splits option.splits prod.splits)

lemma session_at_others:
  assumes "k \<noteq> request_token r"
  shows "handleTokenRefresh env srv r w = (w', srv', resp) \<Longrightarrow> session_at srv' k = session_at srv k"
    "handleSession srv r w = (w', srv', resp) \<Longrightarrow> session_at srv' k = session_at srv k"
    "handleV2Statements env srv r w = (w', srv', resp) \<Longrightarrow> session_at srv' k = session_at srv k"
    "handleSnowpipeIngest env srv r w = (w', srv', resp) \<Longrightarrow> session_at srv' k = session_at srv k"
    "rq_Method r \<noteq> ''POST'' \<Longrightarrow> handleReset env srv r w = (w', srv', resp) \<Longrightarrow> session_at srv' k = session_at srv k"
  using assms
  by (auto simp: handleTokenRefresh_def handleSession_def handleV2Statements_def handleSnowpipeIngest_def handleReset_def
      Let_def next_session_id_def UpdateActivity_def DeleteSession_def session_at_touch
      split: if_splits option.splits prod.splits sum.splits)

text \<open>The requests that reach the body of \<^verbatim>\<open>handleReset\<close>.\<close>

definition resets :: "'b http_request \<Rightarrow> bool" where
  "resets r \<longleftrightarrow> rq_Method r = ''POST'' \<and> mux_redirect (rq_Method r) (rq_Path r) = None \<and> mux_match (rq_Path r) = Some Reset"

lemma session_at_endpoint:
  assumes "endpoint_handler env srv e r w = Some (w', srv', resp)" "k \<noteq> request_token r" "e = Reset \<longrightarrow> rq_Method r \<noteq> ''POST''"
  shows "session_at srv' k = session_at srv k \<or> (\<exists>d. resp = successResponse (DLogin d) \<and> lr_Token d = k)"
  using assms session_at_login [of env srv r w w' srv' resp k]
  by (cases e) (auto simp: endpoint_handler_def handleAuthenticator_def handleAbortRequest_def handleQueryStatus_def
      handleV2StatementsID_def handleTelemetry_def handleHealth_def handleHeartbeat_def session_at_touch Let_def
      dest: session_at_others [OF assms(2)] session_at_query [OF _ assms(2)])

lemma session_at_mux:
  assumes "mux_serve env srv r w = Some (w', srv', resp)" "k \<noteq> request_token r" "\<not> resets r"
  shows "session_at srv' k = session_at srv k \<or> (\<exists>d. resp = successResponse (DLogin d) \<and> lr_Token d = k)"
proof (cases "mux_redirect (rq_Method r) (rq_Path r)")
  case None
  then show ?thesis
    using assms session_at_endpoint [of env srv _ r w w' srv' resp k]
    by (cases "mux_match (rq_Path r)") (auto simp: mux_serve_def resets_def)
next
  case (Some p)
  with assms(1) show ?thesis by (simp add: mux_serve_def)
qed

text \<open>
  C19. A request changes no session but its own: whatever the endpoint, the body and the answer, the session of every
  other token is afterwards exactly what it was, except that a login opens the session whose token it
  returns and that a reset closes all sessions.
\<close>

theorem sessions_isolated:
  assumes "withDecompressedBody env srv r w = Some (w', srv', resp)" and "token \<noteq> request_token r" and "\<not> resets r"
  shows "session_at srv' token = session_at srv token \<or> (\<exists>d. resp = successResponse (DLogin d) \<and> lr_Token d = token)"
proof -
  have "request_token (r\<lparr>rq_Body := b, rq_ContentEncoding := []\<rparr>) = request_token r"
    "resets (r\<lparr>rq_Body := b, rq_ContentEncoding := []\<rparr>) = resets r" for b
    by (simp_all add: request_token_def resets_def)
  with assms session_at_mux [of env srv _ w w' srv' resp token] show ?thesis
    by (auto simp: withDecompressedBody_def split: if_splits option.splits)
qed


subsection \<open>Login and logout\<close>

lemma hex_bytes_no_quote: "CHR 0x22 \<notin> set (hex_bytes bs)"
proof -
  have digit: "hex_digit n \<noteq> CHR 0x22" if "n < 16" for n
  proof -
    have "CHR 0x22 \<notin> set (map hex_digit [0..<16])" by code_simp
    with that show ?thesis by (metis atLeast0LessThan image_eqI lessThan_iff list.set_map set_upt)
  qed
  show ?thesis
    by (induction bs) (use digit byte_halves in \<open>auto simp: hex_bytes_def hex_byte_def\<close>, metis+)
qed

lemma generateUUID_no_quote: "CHR 0x22 \<notin> set (generateUUID buf)"
  by (simp add: generateUUID_def Let_def hex_bytes_no_quote)

text \<open>What a login asks for: the value of the body, else the parameter of the URL, else the default.\<close>

definition requested :: "string \<Rightarrow> string \<Rightarrow> string \<Rightarrow> string" where
  "requested in_body in_url dflt = (if in_body \<noteq> '''' then in_body else if in_url \<noteq> '''' then in_url else dflt)"

definition login_session :: "'b http_request \<Rightarrow> loginRequestBody \<Rightarrow> Session \<Rightarrow> bool" where
  "login_session r body s \<longleftrightarrow>
     sess_User s = lb_LoginName body \<and> sess_Role s = ''SYSADMIN'' \<and>
     sess_Database s = requested (lb_DatabaseName body) (rq_Query r ''databaseName'') ''miniflake'' \<and>
     sess_Schema s = requested (lb_SchemaName body) (rq_Query r ''schemaName'') ''main'' \<and>
     sess_Warehouse s = requested (lb_WarehouseName body) (rq_Query r ''warehouse'') ''''"

lemma handleLogin_opens:
  assumes "rq_Method r = ''POST''" and "decode_login env (rq_Body r) = Some body"
    and "handleLogin env srv r w = (w1, srv1, resp)"
  shows "\<exists>d s rtok. resp = successResponse (DLogin d) \<and> lr_Token d = generateUUID rtok \<and>
    session_at srv1 (lr_Token d) = Some s \<and> login_session r body s \<and> sv_orchestrator srv1 = sv_orchestrator srv"
proof -
  obtain w' rid rtok where rnd: "rand_ids env w = (w', rid, rtok)" by (metis prod_cases3)
  then show ?thesis
    using assms
    by (simp add: handleLogin_def Let_def CreateSession_def next_session_id_def successResponse_def body_or_def
        login_session_def requested_def) auto
qed

text \<open>
  C20. A login opens a session and a logout closes it. A login with a well-formed body succeeds, and every request
  whose authorization header carries the returned token finds a session of that user with the role SYSADMIN,
  in the database, schema and warehouse that the body or else the URL of the login names, or else the default ones. After a
  logout with that header the token is unknown, and a query with it runs nothing, changes nothing and is
  answered with an error (a describe-only query apart).
\<close>

theorem login_opens_logout_closes:
  fixes r :: "'b http_request"
  assumes "rq_Method r = ''POST''" and "decode_login env (rq_Body r) = Some body"
    and "handleLogin env srv r w = (w1, srv1, resp)" and "sv_orchestrator srv \<noteq> None"
  shows "\<exists>d s. resp = successResponse (DLogin d) \<and> login_session r body s \<and>
    (\<forall>r' :: 'b http_request. rq_Authorization r' = auth_header (lr_Token d) \<longrightarrow>
       GetSession (sv_sessionMgr srv1) (request_token r') = Some s) \<and>
    (\<forall>(out :: 'b http_request) w2 srv2 resp2. rq_Authorization out = auth_header (lr_Token d) \<and> rq_Method out = ''DELETE'' \<and>
       handleSession srv1 out w2 = (w2, srv2, resp2) \<longrightarrow> resp2 = successResponse DNull \<and>
       (\<forall>q w3. rq_Authorization q = auth_header (lr_Token d) \<and>
          (\<forall>b. decode_query env (rq_Body q) = Some b \<longrightarrow> \<not> qb_DescribeOnly b) \<longrightarrow>
          GetSession (sv_sessionMgr srv2) (request_token q) = None \<and>
          (\<exists>status data code msg. handleQueryRequest env srv2 q w3 = Some (w3, srv2, reply status data code msg False))))"
proof -
  obtain d s rtok where opened: "resp = successResponse (DLogin d)" "lr_Token d = generateUUID rtok"
      "session_at srv1 (lr_Token d) = Some s" "login_session r body s" "sv_orchestrator srv1 = sv_orchestrator srv"
    using handleLogin_opens [OF assms(1-3)] by blast
  have token: "request_token r' = lr_Token d" if "rq_Authorization r' = auth_header (lr_Token d)" for r' :: "'b http_request"
    using that opened(2) by (simp add: request_token_def extractToken_header generateUUID_no_quote)
  have some: "lr_Token d \<noteq> ''''" using opened(2) by (simp add: generateUUID_def Let_def)
  have closed: "resp2 = successResponse DNull \<and> GetSession (sv_sessionMgr srv2) (lr_Token d) = None \<and> sv_orchestrator srv2 \<noteq> None"
    if "rq_Authorization out = auth_header (lr_Token d)" "rq_Method out = ''DELETE''" "handleSession srv1 out w2 = (w2, srv2, resp2)"
    for out :: "'b http_request" and w2 srv2 resp2
    using that some assms(4) opened(5) by (auto simp: handleSession_def GetSession_def DeleteSession_def token)
  have refused: "\<exists>status data code msg. handleQueryRequest env srv2 q w3 = Some (w3, srv2, reply status data code msg False)"
    if "GetSession (sv_sessionMgr srv2) (lr_Token d) = None" "sv_orchestrator srv2 \<noteq> None"
      "rq_Authorization q = auth_header (lr_Token d)" "\<forall>b. decode_query env (rq_Body q) = Some b \<longrightarrow> \<not> qb_DescribeOnly b"
    for srv2 q w3
    using unknown_token_query [OF that(2), of q env w3] that some by (auto simp: token)
  have "GetSession (sv_sessionMgr srv1) (request_token r') = Some s"
    if "rq_Authorization r' = auth_header (lr_Token d)" for r' :: "'b http_request"
    using opened(3) token [OF that] by (simp add: GetSession_def)
  moreover have "resp2 = successResponse DNull \<and> (\<forall>q w3. rq_Authorization q = auth_header (lr_Token d) \<and>
        (\<forall>b. decode_query env (rq_Body q) = Some b \<longrightarrow> \<not> qb_DescribeOnly b) \<longrightarrow>
        GetSession (sv_sessionMgr srv2) (request_token q) = None \<and>
        (\<exists>status data code msg. handleQueryRequest env srv2 q w3 = Some (w3, srv2, reply status data code msg False)))"
    if "rq_Authorization out = auth_header (lr_Token d)" "rq_Method out = ''DELETE''" "handleSession srv1 out w2 = (w2, srv2, resp2)"
    for out :: "'b http_request" and w2 srv2 resp2
    using closed [OF that] refused [of srv2] by (auto simp: token)
  ultimately show ?thesis using opened(1,4) by blast
qed


subsection \<open>A reset runs alone\<close>

definition lock_inv :: "'b running \<Rightarrow> bool" where
  "lock_inv run \<longleftrightarrow>
     (\<forall>i j r r'. run i = Some r \<longrightarrow> run j = Some r' \<longrightarrow> i \<noteq> j \<longrightarrow> req_lock r = Exclusive \<longrightarrow> req_lock r' = Unlocked)"

lemma serve_step_inv:
  assumes "serve_step run run'" "lock_inv run"
  shows "lock_inv run'"
  using assms
proof (cases rule: serve_step.cases)
  case (start i r)
  have old: "req_lock r' = Unlocked" if "run j = Some r'" "req_lock r = Exclusive" for j r'
    using start(3) that by (auto simp: grants_def ranI)
  have new: "req_lock r = Unlocked" if "run j = Some r'" "req_lock r' = Exclusive" for j r'
    using start(3) that by (cases "req_lock r") (auto simp: grants_def ranI)
  show ?thesis unfolding lock_inv_def
  proof (intro allI impI)
    fix j k p q
    assume jk: "run' j = Some p" "run' k = Some q" "j \<noteq> k" "req_lock p = Exclusive"
    show "req_lock q = Unlocked"
    proof (cases "j = i")
      case True
      with jk start(1) have "p = r" "run k = Some q" by auto
      with old jk(4) show ?thesis by blast
    next
      case False
      with jk start(1) have p: "run j = Some p" by simp
      show ?thesis
      proof (cases "k = i")
        case True
        with jk start(1) have "q = r" by simp
        with new [OF p jk(4)] show ?thesis by simp
      next
        case False
        with jk start(1) have "run k = Some q" by simp
        with p jk assms(2) show ?thesis unfolding lock_inv_def by blast
      qed
    qed
  qed
next
  case (finish i r)
  have "run j = Some p" if "run' j = Some p" for j p using that finish(1) by (simp split: if_splits)
  with assms(2) show ?thesis unfolding lock_inv_def by blast
qed

lemma serving_inv: "serving run \<Longrightarrow> lock_inv run"
  by (induction rule: serving.induct) (simp add: lock_inv_def, erule serve_step_inv)

lemma mux_match_Reset: "mux_match path = Some Reset \<longleftrightarrow> path = ''/_miniflake/reset''"
  by (auto simp: mux_match_def mux_patterns_def HasSuffix_def split: if_splits option.splits)

lemma resets_locked: "resets r \<Longrightarrow> req_lock r = Exclusive"
  by (simp add: resets_def mux_match_Reset req_lock_def lock_of_def)

lemma unlocked_cases: "req_lock r = Unlocked \<Longrightarrow>
    rq_Path r = ''/_miniflake/health'' \<or> rq_Path r = ''/_miniflake/reset'' \<and> rq_Method r \<noteq> ''POST''"
  by (auto simp: req_lock_def lock_of_def split: if_splits)

lemma mux_internal:
  "mux_match ''/_miniflake/health'' = Some Health" "mux_match ''/_miniflake/reset'' = Some Reset"
  "mux_redirect m ''/_miniflake/health'' = None" "mux_redirect m ''/_miniflake/reset'' = None"
proof -
  have "cleanPath ''/_miniflake/health'' = ''/_miniflake/health''" "cleanPath ''/_miniflake/reset'' = ''/_miniflake/reset''"
    by code_simp+
  then show "mux_redirect m ''/_miniflake/health'' = None" "mux_redirect m ''/_miniflake/reset'' = None"
    by (simp_all add: mux_redirect_def mux_patterns_def)
qed code_simp+

text \<open>What a request without a lock does: nothing, with an answer that does not depend on the state.\<close>

lemma unlocked_is_stateless:
  assumes "req_lock r = Unlocked"
  shows "\<exists>resp. \<forall>srv w. withDecompressedBody env srv r w = Some (w, srv, resp)"
proof -
  have "\<exists>resp. \<forall>srv w. mux_serve env srv r' w = Some (w, srv, resp)" if "req_lock r' = Unlocked" for r'
    using unlocked_cases [OF that]
    by (auto simp: mux_serve_def mux_internal endpoint_handler_def handleHealth_def handleReset_def)
  from this [of r] this [of "r\<lparr>rq_Body := b, rq_ContentEncoding := []\<rparr>" for b] assms show ?thesis
    by (cases "gunzip env (rq_Body r)"; cases "hasGzipEncoding (rq_ContentEncoding r)")
      (auto simp: withDecompressedBody_def req_lock_def)
qed

text \<open>
  C15. A reset never overlaps with a request that could see it: whatever the order in which requests arrive, wait for
  the lock and end, while a request that resets the server is in progress every other request in progress
  is one that neither reads nor changes the state: its answer is the same for every state of the server
  and of the SQL engine. No request that reaches the reset escapes the exclusive lock.
\<close>

theorem reset_runs_alone:
  assumes "serving run" and "run i = Some r" and "resets r" and "run j = Some r'" and "i \<noteq> j"
  shows "\<exists>resp. \<forall>srv w. withDecompressedBody env srv r' w = Some (w, srv, resp)"
  using serving_inv [OF assms(1)] resets_locked [OF assms(3)] assms(2,4,5)
  by (intro unlocked_is_stateless) (auto simp: lock_inv_def)


subsection \<open>The states of the server\<close>

definition keyed :: "session_Manager \<Rightarrow> bool" where
  "keyed m \<longleftrightarrow> (\<forall>token s. sessions m token = Some s \<longrightarrow> sess_Token s = token)"

definition server_ok :: "('w, 'h, 'v, 'b) server_env \<Rightarrow> ('w, 'd) Orchestrator \<Rightarrow> ('w, 'd) Server \<Rightarrow> bool" where
  "server_ok env orc0 srv \<longleftrightarrow>
     (\<exists>orc. sv_orchestrator srv = Some orc \<and> orch_runs (se_orch env) orc0 orc) \<and> keyed (sv_sessionMgr srv)"

lemma keyed_ops:
  "keyed session_NewManager" "keyed (session_Reset m)" "keyed m \<Longrightarrow> keyed (DeleteSession m token)"
  "keyed m \<Longrightarrow> keyed (UpdateActivity m now token)"
  "keyed m \<Longrightarrow> CreateSession m rid rtok now u db sc wh role = (s, m') \<Longrightarrow> keyed m'"
  "keyed m \<Longrightarrow> range_order (sessions m) ks \<Longrightarrow> keyed (expire_tick m ks now)"
  by (auto simp: keyed_def session_NewManager_def session_Reset_def DeleteSession_def UpdateActivity_def CreateSession_def
      Let_def sessions_expire_tick bind_eq_Some_conv split: option.split if_splits)

lemma executeStatements_reach:
  assumes "executeStatements env orc sess stmts w = Some (w', orc', sess', r)" "orch_runs env orc0 orc"
  shows "orch_runs env orc0 orc' \<and> sess_Token sess' = sess_Token sess"
proof (cases "length stmts = 1")
  case True
  with assms(1) have one: "orch_exec env (w, orc, sess) (hd stmts) = Some ((w', orc', sess'), r)"
    by (simp add: executeStatements_def orch_exec_Some)
  from orch.exec_good [OF _ one] orch.exec_ident [OF one] assms(2) show ?thesis by simp
next
  case False
  from orch.batch_keeps [OF iffD1 [OF executeStatements_batch [OF False] assms(1)]] assms(2) show ?thesis by simp
qed

lemma server_ok_touch: "server_ok env orc0 srv \<Longrightarrow> server_ok env orc0 (touch_session env' srv token w)"
  by (simp add: server_ok_def touch_session_def keyed_ops)

lemma server_ok_query:
  assumes "handleQueryRequest env srv r w = Some (w', srv', resp)" "server_ok env orc0 srv"
  shows "server_ok env orc0 srv'"
  using assms(1)
proof (cases rule: handleQueryRequest_cases)
  case early
  with assms(2) show ?thesis by (auto intro: server_ok_touch)
next
  case (orch orc q t b stmts)
  let ?srv = "touch_session env srv (request_token r) w"
  have ok: "server_ok env orc0 ?srv" using assms(2) by (rule server_ok_touch)
  with orch have "orch_runs (se_orch env) orc0 orc" by (simp add: server_ok_def)
  then have "server_ok env orc0 (?srv\<lparr>sv_orchestrator := Some orc', sv_sessionMgr := store_session (sv_sessionMgr ?srv) (request_token r) sess'\<rparr>)"
    if "executeStatements (se_orch env) orc (case GetSession (sv_sessionMgr ?srv) (request_token r) of Some s \<Rightarrow> s | None \<Rightarrow> temp_session) stmts w
      = Some (w1, orc', sess', res)" for w1 orc' sess' res
    using executeStatements_reach [OF that] ok
    by (auto simp: server_ok_def store_session_def keyed_def GetSession_def)
  with orch(2) ok show ?thesis
    by (auto simp: query_orchestrated_def Let_def split: if_splits option.splits prod.splits sum.splits)
next
  case (direct q t b stmts)
  with assms(2) show ?thesis by (simp add: server_ok_def)
qed

lemma server_ok_login: "handleLogin env srv r w = (w', srv', resp) \<Longrightarrow> server_ok env orc0 srv \<Longrightarrow> server_ok env orc0 srv'"
  using keyed_ops(5)
  by (fastforce simp: handleLogin_def Let_def next_session_id_def server_ok_def split: if_splits option.splits prod.splits)

lemma server_ok_reset: "handleReset env srv r w = (w', srv', resp) \<Longrightarrow> server_ok env orc0 srv \<Longrightarrow> server_ok env orc0 srv'"
  by (auto simp: handleReset_def server_ok_def keyed_ops split: if_splits option.splits prod.splits intro: orch_runs.reset)

lemma server_ok_ingest: "handleSnowpipeIngest env srv r w = (w', srv', resp) \<Longrightarrow> server_ok env orc0 srv \<Longrightarrow> server_ok env orc0 srv'"
  by (auto simp: handleSnowpipeIngest_def server_ok_def Let_def split: if_splits option.splits prod.splits
      intro: orch_runs.pipe_files)

lemma server_ok_others:
  assumes "server_ok env orc0 srv"
  shows "handleTokenRefresh env srv r w = (w', srv', resp) \<Longrightarrow> server_ok env orc0 srv'"
    "handleSession srv r w = (w', srv', resp) \<Longrightarrow> server_ok env orc0 srv'"
    "handleV2Statements env srv r w = (w', srv', resp) \<Longrightarrow> server_ok env orc0 srv'"
  using assms server_ok_touch [OF assms]
  by (auto simp: handleTokenRefresh_def handleSession_def handleV2Statements_def Let_def next_session_id_def server_ok_def
      keyed_ops split: if_splits option.splits prod.splits sum.splits)

lemma server_ok_endpoint:
  assumes "endpoint_handler env srv e r w = Some (w', srv', resp)" "server_ok env orc0 srv"
  shows "server_ok env orc0 srv'"
  using assms
  by (cases e) (auto simp: endpoint_handler_def handleAuthenticator_def handleAbortRequest_def handleQueryStatus_def
      handleV2StatementsID_def handleTelemetry_def handleHealth_def handleHeartbeat_def Let_def
      intro: server_ok_touch server_ok_query server_ok_login server_ok_reset server_ok_ingest server_ok_others)

lemma server_ok_request:
  "withDecompressedBody env srv r w = Some (w', srv', resp) \<Longrightarrow> server_ok env orc0 srv \<Longrightarrow> server_ok env orc0 srv'"
  by (auto simp: withDecompressedBody_def mux_serve_def split: if_splits option.splits intro: server_ok_endpoint)


text \<open>
  The states that whole requests, ticks of the scheduler and session expiries reach, one after the other, from a
  start: there the catalog, the streams, the roles and the pipes are in reachable states of their own.
\<close>

inductive server_reachable :: "('w, 'h, 'v, 'b) server_env \<Rightarrow> ('w, 'd) Server \<Rightarrow> bool"
  for env :: "('w, 'h, 'v, 'b) server_env" where
  start: "server_reachable env (server_New session_NewManager host port stageDir
    (Some (orch_New dir stageDir exec hasData now1 now2)))"
| request: "server_reachable env srv \<Longrightarrow> withDecompressedBody env srv r w = Some (w', srv', resp) \<Longrightarrow> server_reachable env srv'"
| expire: "server_reachable env srv \<Longrightarrow> range_order (sessions (sv_sessionMgr srv)) ks \<Longrightarrow>
    server_reachable env (srv\<lparr>sv_sessionMgr := expire_tick (sv_sessionMgr srv) ks now\<rparr>)"
| schedule: "server_reachable env srv \<Longrightarrow> sv_orchestrator srv = Some orc \<Longrightarrow>
    orch_tick (se_orch env) orc ks ord fuel now w = Some (w', orc', log) \<Longrightarrow>
    server_reachable env (srv\<lparr>sv_orchestrator := Some orc'\<rparr>)"

lemma server_reachable_ok:
  "server_reachable env srv \<Longrightarrow> \<exists>dir stageDir exec hasData now1 now2.
     server_ok env (orch_New dir stageDir exec hasData now1 now2) srv"
proof (induction rule: server_reachable.induct)
  case (start host port stageDir dir exec hasData now1 now2)
  have "server_ok env (orch_New dir stageDir exec hasData now1 now2) (server_New session_NewManager host port stageDir
      (Some (orch_New dir stageDir exec hasData now1 now2)))"
    by (simp add: server_ok_def server_New_def keyed_ops orch_runs.start)
  then show ?case by blast
next
  case (schedule srv orc ks ord fuel now w w' orc' log)
  then show ?case unfolding server_ok_def by (fastforce intro: orch_runs.tick)
next
  case (request srv r w w' srv' resp)
  then show ?case by (blast intro: server_ok_request)
next
  case (expire srv ks now)
  then show ?case unfolding server_ok_def by (auto simp: keyed_ops)
qed

lemma server_parts_reachable:
  assumes "server_reachable env srv"
  shows "\<exists>orc. sv_orchestrator srv = Some orc \<and> subsystems_reachable (se_orch env) orc"
  using server_reachable_ok [OF assms] unfolding server_ok_def
  by (blast intro: moves_reachable [OF orch_runs_moves orch_New_reachable])

subsection \<open>A concrete server\<close>

text \<open>Bodies are given by what they decode to; random bytes and the clock are constant.\<close>

type_synonym sample_body = "queryRequestBody option \<times> loginRequestBody option \<times> v2_body option"

definition sample_senv :: "(string list, unit, nat, sample_body) server_env" where
  "sample_senv =
     \<lparr>se_orch = sample_env, se_bind = sample_lib, go_view = (\<lambda>v. VInt (int v)), decode_login = (\<lambda>b. fst (snd b)),
      decode_query = fst, decode_v2 = (\<lambda>b. snd (snd b)), decode_files = (\<lambda>b. None), gunzip = Some,
      rand_ids = (\<lambda>w. (w, replicate 16 0, replicate 16 1)), clock = (\<lambda>w n. 0)\<rparr>"

definition sample_query :: "string \<Rightarrow> bool \<Rightarrow> queryRequestBody" where
  "sample_query sql describe =
     \<lparr>qb_SQLText = sql, qb_AsyncExec = False, qb_SequenceID = 1, qb_QuerySubmissionTime = 0, qb_Bindings = [],
      qb_BindStage = '''', qb_DescribeOnly = describe\<rparr>"

definition sample_login :: loginRequestBody where
  "sample_login =
     \<lparr>lb_LoginName = ''bob'', lb_Password = '''', lb_AccountName = '''', lb_DatabaseName = '''', lb_SchemaName = ''S'',
      lb_WarehouseName = ''''\<rparr>"

definition sample_request :: "string \<Rightarrow> string \<Rightarrow> sample_body \<Rightarrow> sample_body http_request" where
  "sample_request path token body =
     \<lparr>rq_Method = ''POST'', rq_Path = path, rq_Authorization = auth_header token, rq_ContentEncoding = '''',
      rq_Query = (\<lambda>k. ''''), rq_Body = body\<rparr>"

definition sample_server :: "(string list, nat) Server" where
  "sample_server = server_New session_NewManager ''localhost'' 8084 ''/s'' (Some sample_orch)"

lemma sample_token [simp]: "CHR 0x22 \<notin> set token \<Longrightarrow> request_token (sample_request path token body) = token"
  by (simp add: request_token_def sample_request_def extractToken_header)

lemma sample_no_session [simp]: "session_at sample_server token = None"
  by (simp add: sample_server_def server_New_def session_NewManager_def)

text \<open>The statement MERGE, from its text, in any state.\<close>

lemma merge_no_marker:
  "list_all (\<lambda>r. Option.is_none (FindStringSubmatch r ''MERGE''))
     [reMarkerUse, reMarkerCopyInto, reMarkerPut, reMarkerGet, reMarkerList, reMarkerRemove, reMarkerCreateStream, reMarkerDropStream,
      reMarkerShowStreams, reMarkerCreateTask, reMarkerDropTask, reMarkerAlterTask, reMarkerShowTasks, reMarkerExecuteTask,
      reMarkerCreatePipe, reMarkerDropPipe, reMarkerShowPipes, reMarkerShowParameters, reMarkerUndropTable]"
  by code_simp

lemma merge_no_ddl:
  "list_all (\<lambda>r. Option.is_none (FindStringSubmatch r ''MERGE''))
     [reCloneTable, reCreateDatabase, reDropDatabase, reCreateSchema, reDropSchema, reCreateTable, reDropTable, reCreateView,
      reCreateStream, reDropStream, reCreateTask, reDropTask, reAlterTaskResume, reAlterTaskSusp, reCreatePipe, reDropPipe,
      reCreateStage, reDropStage, reCreateFunc, reGrant, reRevoke, reCreateRole]"
  by code_simp

lemma merge_plain:
  "Rewrite ''MERGE'' = Some ''MERGE''" "TrimSpace ''MERGE'' = ''MERGE''" "ToUpper ''MERGE'' = ''MERGE''"
  "re_pieces reMarkerAtOffset None ''MERGE'' = ([], ''MERGE'')" "re_pieces reMarkerAtTimestamp None ''MERGE'' = ([], ''MERGE'')"
  "extractTableFromDML ''MERGE'' = ''''" "starts_with_any [''INSERT'', ''UPDATE'', ''DELETE'', ''MERGE''] ''MERGE''"
  by code_simp+

lemma merge_runs: "orch_ExecuteSQL sample_env orc sess ''MERGE'' w = Some (w @ [''MERGE''], orc, sess, Ok (dml_result 1))"
proof -
  have "route (marker_handlers sample_env orc sess w) ''MERGE'' = None" "FindStringSubmatch reMarkerUse ''MERGE'' = None"
    using merge_no_marker by (simp_all add: marker_handlers_def Option.is_none_def)
  then have "handleSpecialMarkers sample_env orc sess ''MERGE'' w = None" by (simp add: handleSpecialMarkers_def)
  moreover have "expandTimeTravelMarkers sample_env (o_timeTravelEng orc) sess ''MERGE'' w = Some (''MERGE'', None)"
    by (simp add: expandTimeTravelMarkers_def expand_with_def merge_plain)
  moreover have "route (ddl_handlers sample_env orc sess ''MERGE'' w) ''MERGE'' = None"
    using merge_no_ddl by (simp add: ddl_handlers_def Option.is_none_def)
  ultimately show ?thesis
    by (simp add: orch_ExecuteSQL_def merge_plain dispatch_def handleDDL_def handleDML_def record_dml_def with_session_def
      ExecNoResult_def sample_env_def sample_driver_def)
qed

lemma sample_batch:
  "executeStatements sample_env orc sess [''MERGE'', ''MERGE''] w =
     Some ((w @ [''MERGE'']) @ [''MERGE''], orc, sess, Ok (dml_result 2))"
  by (simp add: executeStatements_def merge_runs dml_result_def wrap64_def table_result_def)

theorem executeStatements_in_order_witness:
  "\<exists>rs. runs (orch_exec sample_env) ([], sample_orch, sample_session) [''MERGE'', ''MERGE''] rs
       ([''MERGE'', ''MERGE''], sample_orch, sample_session) \<and>
     all_dml rs \<and> wrap64 (sum_list (map qr_RowsAffected rs)) = 2"
  using executeStatements_in_order [OF sample_batch [of sample_orch sample_session "[]"]]
  by (auto simp: dml_result_def)

definition merge_request :: "sample_body http_request" where
  "merge_request = sample_request ''/queries/v1/query-request'' '''' (Some (sample_query '' MERGE'' False), None, None)"

lemma merge_expands: "Expand sample_lib ''MERGE'' [] = Inr [''MERGE'']" "TrimSpace '' MERGE'' = ''MERGE''"
  by code_simp+

lemma merge_answer:
  "handleQueryRequest sample_senv sample_server merge_request [] =
     Some ([''MERGE''], sample_server, rows_ok (query_id sample_senv []) ''MERGE'' False
       [''number of rows inserted'', ''number of rows updated'', ''number of rows deleted''] [[VInt 1, VInt 0, VInt 0]])"
proof -
  have "touch_session sample_senv sample_server '''' [] = sample_server" by (simp add: touch_session_def)
  then show ?thesis
    using merge_expands
    by (simp add: handleQueryRequest_def merge_request_def)
      (simp add: sample_request_def sample_senv_def sample_query_def exec_text_def query_orchestrated_def GetSession_def
        executeStatements_def merge_runs dml_result_def table_result_def Let_def store_session_def sample_server_def server_New_def
        session_NewManager_def)
qed

theorem query_answer_well_shaped_witness:
  "\<exists>d. qd_RowSet d = [[Some ''1'', Some ''0'', Some ''0'']] \<and> well_shaped d"
proof -
  have fit: "rows_fit (drv (se_orch sample_senv))" using sample_rows_fit by (simp add: sample_senv_def)
  have set: "buildRowSet [[VInt 1, VInt 0, VInt 0]] = [[Some ''1'', Some ''0'', Some ''0'']]" by code_simp
  show ?thesis
    using query_answer_well_shaped [OF fit merge_answer [unfolded rows_ok_def query_ok_def]] set by (intro exI conjI) auto
qed

theorem query_request_answered_witness: "handleQueryRequest sample_senv sample_server merge_request [] \<noteq> None"
proof (rule query_request_answered)
  have "request_statements sample_senv merge_request = [''MERGE'']"
    by (simp add: request_statements_def merge_request_def sample_request_def sample_senv_def sample_query_def exec_text_def
        merge_expands)
  then show "list_all (\<lambda>s. Rewrite (TrimSpace s) \<noteq> None) (request_statements sample_senv merge_request)"
    by (simp add: merge_plain)
qed

theorem unknown_token_runs_nothing_witness:
  "\<exists>resp. handleQueryRequest sample_senv sample_server
     (sample_request ''/queries/v1/query-request'' ''stolen'' (Some (sample_query ''DROP TABLE t'' False), None, None)) []
     = Some ([], sample_server, resp)"
  using unknown_token_runs_nothing [of sample_server
      "sample_request ''/queries/v1/query-request'' ''stolen'' (Some (sample_query ''DROP TABLE t'' False), None, None)" sample_senv "[]"]
  by (auto simp: GetSession_def) (auto simp: sample_server_def server_New_def)

theorem login_opens_logout_closes_witness:
  "\<exists>w1 srv1 d s. handleLogin sample_senv sample_server (sample_request '''' '''' (None, Some sample_login, None)) []
       = (w1, srv1, successResponse (DLogin d)) \<and>
     GetSession (sv_sessionMgr srv1) (request_token (sample_request '''' (lr_Token d) (None, None, None))) = Some s \<and>
     sess_User s = ''bob'' \<and> sess_Database s = ''miniflake'' \<and> sess_Schema s = ''S''"
proof -
  obtain w1 srv1 resp where run: "handleLogin sample_senv sample_server (sample_request '''' '''' (None, Some sample_login, None)) []
      = (w1, srv1, resp)" by (metis prod_cases3)
  have pre: "rq_Method (sample_request '''' '''' (None, Some sample_login, None)) = ''POST''"
    "decode_login sample_senv (rq_Body (sample_request '''' '''' (None, Some sample_login, None))) = Some sample_login"
    by (simp_all add: sample_request_def sample_senv_def)
  have "sv_orchestrator sample_server \<noteq> None" by (simp add: sample_server_def server_New_def)
  from login_opens_logout_closes [OF pre run this] obtain d s where
    s: "resp = successResponse (DLogin d)" "login_session (sample_request '''' '''' (None, Some sample_login, None)) sample_login s"
    "\<forall>r' :: sample_body http_request. rq_Authorization r' = auth_header (lr_Token d) \<longrightarrow>
      GetSession (sv_sessionMgr srv1) (request_token r') = Some s" by blast
  have "rq_Authorization (sample_request '''' (lr_Token d) (None, None, None)) = auth_header (lr_Token d)"
    by (simp add: sample_request_def)
  with s(3) have "GetSession (sv_sessionMgr srv1) (request_token (sample_request '''' (lr_Token d) (None, None, None))) = Some s" by blast
  moreover have "sess_User s = ''bob''" "sess_Database s = ''miniflake''" "sess_Schema s = ''S''"
    using s(2) by (simp_all add: login_session_def requested_def sample_login_def sample_request_def)
  ultimately show ?thesis using run s(1) by blast
qed

lemma heartbeat_route:
  "mux_redirect ''POST'' ''/session/heartbeat'' = None" "mux_match ''/session/heartbeat'' = Some Heartbeat" "\<not> hasGzipEncoding ''''"
  by code_simp+

lemma heartbeat_served:
  assumes "CHR 0x22 \<notin> set token"
  shows "withDecompressedBody sample_senv srv (sample_request ''/session/heartbeat'' token (None, None, None)) w =
    Some (w, touch_session sample_senv srv token w, successResponse (DMap []))"
  using sample_token [OF assms, of "''/session/heartbeat''" "(None, None, None)"] heartbeat_route
  by (simp add: withDecompressedBody_def mux_serve_def)
    (simp add: sample_request_def endpoint_handler_def handleHeartbeat_def)

definition two_sessions :: "(string list, nat) Server" where
  "two_sessions = sample_server\<lparr>sv_sessionMgr := \<lparr>sessions = [''t'' \<mapsto> sample_session, ''u'' \<mapsto> sample_session\<lparr>sess_Token := ''u''\<rparr>]\<rparr>\<rparr>"

theorem sessions_isolated_witness:
  "session_at (touch_session sample_senv two_sessions ''t'' []) ''u'' = Some (sample_session\<lparr>sess_Token := ''u''\<rparr>)"
proof -
  have other: "''u'' \<noteq> request_token (sample_request ''/session/heartbeat'' ''t'' (None, None, None))" by simp
  have "\<not> resets (sample_request ''/session/heartbeat'' ''t'' (None, None, None))"
    using heartbeat_route by (simp add: resets_def sample_request_def)
  from sessions_isolated [OF heartbeat_served other this, of two_sessions "[]"] show ?thesis
    by (simp add: successResponse_def) (simp add: two_sessions_def)
qed

definition sample_running :: "sample_body running" where
  "sample_running =
     [0 \<mapsto> sample_request ''/_miniflake/reset'' ''t'' (None, None, None), 1 \<mapsto> sample_request ''/_miniflake/health'' ''t'' (None, None, None)]"

lemma sample_running_serving: "serving sample_running"
proof -
  have "serve_step Map.empty [0 \<mapsto> sample_request ''/_miniflake/reset'' ''t'' (None, None, None)]"
    by (rule serve_step.start) (simp_all add: grants_def split: lock_mode.split)
  moreover have "serve_step [0 \<mapsto> sample_request ''/_miniflake/reset'' ''t'' (None, None, None)] sample_running"
    unfolding sample_running_def
    by (rule serve_step.start) (simp_all add: grants_def req_lock_def lock_of_def sample_request_def)
  ultimately show ?thesis by (blast intro: serving.intros)
qed

theorem reset_runs_alone_witness:
  "\<exists>resp. \<forall>(srv :: (string list, nat) Server) w.
     withDecompressedBody sample_senv srv (sample_request ''/_miniflake/health'' ''t'' (None, None, None)) w = Some (w, srv, resp)"
proof -
  have "resets (sample_request ''/_miniflake/reset'' ''t'' (None, None, None))"
    by (simp add: resets_def sample_request_def mux_internal)
  then show ?thesis
    by (intro reset_runs_alone [OF sample_running_serving, of 0 _ 1]) (simp_all add: sample_running_def)
qed










subsection \<open>Where the server departs from its comments\<close>

text \<open>A describe-only request of a statement that starts like a query runs the statement as any other request does.\<close>

lemma describe_only_executes:
  assumes "decode_query env (rq_Body r) = Some body" "decode_query env (rq_Body r') = Some (body\<lparr>qb_DescribeOnly := True\<rparr>)"
    and "r' = r\<lparr>rq_Body := b\<rparr>" "\<not> qb_DescribeOnly body" "isQueryStatement (TrimSpace (qb_SQLText body))"
    and "FillNull (TrimSpace (qb_SQLText body)) = TrimSpace (qb_SQLText body)"
  shows "map_option (\<lambda>(w, srv, _). (w, srv)) (handleQueryRequest env srv r' w) =
    map_option (\<lambda>(w, srv, _). (w, srv)) (handleQueryRequest env srv r w)"
proof -
  have "exec_text (body\<lparr>qb_DescribeOnly := True\<rparr>) (TrimSpace (qb_SQLText body)) = exec_text body (TrimSpace (qb_SQLText body))"
    using assms(4,6) by (simp add: exec_text_def)
  moreover have "request_token r' = request_token r" "rq_Method r' = rq_Method r"
    using assms(3) by (simp_all add: request_token_def)
  ultimately show ?thesis using assms(1,2,4,5)
    by (auto simp: handleQueryRequest_def query_orchestrated_def query_direct_def Let_def
        split: option.split sum.split list.split prod.split)
qed

lemma query_prefix_hides_drop:
  "isQueryStatement ''SELECT 1; DROP TABLE t''" "FillNull ''SELECT 1; DROP TABLE t'' = ''SELECT 1; DROP TABLE t''"
  by code_simp+

text \<open>The SQL API v2 does not look at the token, and its statements do not pass through the orchestrator.\<close>

lemma v2_ignores_token:
  "fst (handleV2Statements env srv r w) = fst (handleV2Statements env srv (r\<lparr>rq_Authorization := a\<rparr>) w)"
  "sv_orchestrator (fst (snd (handleV2Statements env srv r w))) = sv_orchestrator srv"
  by (auto simp: handleV2Statements_def request_token_def Let_def split: option.split sum.split prod.split)

text \<open>A login that names no database is told that it has none; its session is in the database miniflake.\<close>

lemma login_reports_no_database:
  "case snd (snd (handleLogin sample_senv sample_server (sample_request '''' '''' (None, Some sample_login, None)) [])) of
     Reply _ (Snowflake resp) \<Rightarrow>
       (case sr_Data resp of DLogin d \<Rightarrow> si_DatabaseName (lr_SessionInfo d) = '''' | _ \<Rightarrow> False)
   | _ \<Rightarrow> False"
  by (simp add: handleLogin_def Let_def sample_request_def sample_senv_def sample_login_def body_or_def successResponse_def reply_def
      next_session_id_def CreateSession_def)

end
