(* ===== verification/Tls.thy ===== *)
theory Tls
  imports Go_Net Go_Paths
begin

text \<open>
  \<^verbatim>\<open>server/tls.go\<close>: the certificate of the server, loaded, reused or generated, and the listener that serves TLS and
  plain HTTP on one port by looking at the first byte of a connection. The crypto packages and the file system
  are the record \<open>tls_lib\<close> of the calls the code makes; \<open>'c\<close> is a loaded key pair, \<open>'k\<close> a private key.
\<close>

unbundle bit_operations_syntax

definition tlsHandshakeRecord :: "8 word" where
  "tlsHandshakeRecord = 0x16"

subsection \<open>Certificates\<close>

datatype key_usage = KeyUsageDigitalSignature | KeyUsageKeyEncipherment | KeyUsageCertSign

datatype ext_key_usage = ExtKeyUsageServerAuth

record Certificate =
  ct_SerialNumber :: int
  ct_Organization :: "string list"
  ct_CommonName :: string
  ct_NotBefore :: time
  ct_NotAfter :: time
  ct_KeyUsage :: "key_usage list"
  ct_ExtKeyUsage :: "ext_key_usage list"
  ct_IsCA :: bool
  ct_BasicConstraintsValid :: bool
  ct_IPAddresses :: "IP list"
  ct_DNSNames :: "string list"

record ('w, 'c, 'k) tls_lib =
  LoadX509KeyPair :: "string \<Rightarrow> string \<Rightarrow> 'w \<Rightarrow> string + 'c"
  X509KeyPair :: "string \<Rightarrow> string \<Rightarrow> string + 'c"
  cert_chain :: "'c \<Rightarrow> string list"
  ParseCertificate :: "string \<Rightarrow> string + Certificate"
  CreateCertificate :: "Certificate \<Rightarrow> 'k \<Rightarrow> 'w \<Rightarrow> 'w \<times> (string + string)"
  GenerateKey :: "'w \<Rightarrow> 'w \<times> (string + 'k)"
  rand_Int :: "'w \<Rightarrow> 'w \<times> (string + int)"
  pem_Encode :: "string \<Rightarrow> string \<Rightarrow> string"
  MarshalPKCS1PrivateKey :: "'k \<Rightarrow> string"
  stat_IsDir :: "string \<Rightarrow> 'w \<Rightarrow> bool option"
  os_WriteFile :: "string \<Rightarrow> string \<Rightarrow> nat \<Rightarrow> 'w \<Rightarrow> 'w \<times> string option"
  tls_now :: "'w \<Rightarrow> nat \<Rightarrow> time"
  AddDays :: "time \<Rightarrow> int \<Rightarrow> time"

definition fileExists :: "('w, 'c, 'k) tls_lib \<Rightarrow> string \<Rightarrow> 'w \<Rightarrow> bool" where
  "fileExists lib p w = (stat_IsDir lib p w = Some False)"

definition certExpired :: "('w, 'c, 'k) tls_lib \<Rightarrow> 'c \<Rightarrow> 'w \<Rightarrow> bool" where
  "certExpired lib cert w =
     (case cert_chain lib cert of
        [] \<Rightarrow> True
      | der # _ \<Rightarrow>
          (case ParseCertificate lib der of Inl _ \<Rightarrow> True | Inr leaf \<Rightarrow> tls_now lib w 0 > ct_NotAfter leaf))"

text \<open>The template: addresses and names are told apart by \<^verbatim>\<open>net.ParseIP\<close>, each in the order of the hosts.\<close>

definition cert_template :: "('w, 'c, 'k) tls_lib \<Rightarrow> string list \<Rightarrow> int \<Rightarrow> 'w \<Rightarrow> Certificate" where
  "cert_template lib hosts serial w =
     \<lparr>ct_SerialNumber = serial, ct_Organization = [''MiniFlake''], ct_CommonName = ''miniflake'',
      ct_NotBefore = tls_now lib w 0 - hour, ct_NotAfter = AddDays lib (tls_now lib w 1) 397,
      ct_KeyUsage = [KeyUsageDigitalSignature, KeyUsageKeyEncipherment, KeyUsageCertSign],
      ct_ExtKeyUsage = [ExtKeyUsageServerAuth], ct_IsCA = True, ct_BasicConstraintsValid = True,
      ct_IPAddresses = List.map_filter ParseIP hosts, ct_DNSNames = filter (\<lambda>h. ParseIP h = None) hosts\<rparr>"

definition generateSelfSignedCert ::
  "('w, 'c, 'k) tls_lib \<Rightarrow> string list \<Rightarrow> 'w \<Rightarrow> 'w \<times> (string + string \<times> string)" where
  "generateSelfSignedCert lib hosts w =
     (case GenerateKey lib w of
        (w, Inl e) \<Rightarrow> (w, Inl e)
      | (w, Inr priv) \<Rightarrow>
          (case rand_Int lib w of
             (w, Inl e) \<Rightarrow> (w, Inl e)
           | (w, Inr serial) \<Rightarrow>
               (case CreateCertificate lib (cert_template lib hosts serial w) priv w of
                  (w, Inl e) \<Rightarrow> (w, Inl e)
                | (w, Inr der) \<Rightarrow>
                    (w, Inr (pem_Encode lib ''CERTIFICATE'' der,
                             pem_Encode lib ''RSA PRIVATE KEY'' (MarshalPKCS1PrivateKey lib priv))))))"

subsection \<open>Enabling TLS\<close>

record 'c tls_state =
  tlsConfig :: "'c option"
  certPath :: string

definition setTLSCert :: "'c tls_state \<Rightarrow> 'c \<Rightarrow> string \<Rightarrow> 'c tls_state" where
  "setTLSCert s cert path = s\<lparr>tlsConfig := Some cert, certPath := path\<rparr>"

definition CertPath :: "'c tls_state \<Rightarrow> string" where
  "CertPath s = certPath s"

definition cert_hosts :: "string \<Rightarrow> string list" where
  "cert_hosts host =
     [''localhost'', ''127.0.0.1'', ''::1''] @ (if host \<in> {'''', ''0.0.0.0'', ''::''} then [] else [host])"

definition generate_pair ::
  "('w, 'c, 'k) tls_lib \<Rightarrow> string \<Rightarrow> 'c tls_state \<Rightarrow> string \<Rightarrow> string \<Rightarrow> 'w \<Rightarrow> 'w \<times> 'c tls_state \<times> go_error option" where
  "generate_pair lib host s certFile keyFile w =
     (case generateSelfSignedCert lib (cert_hosts host) w of
        (w, Inl e) \<Rightarrow> (w, s, Some (Wrap ''generate self-signed cert'' (ExecError e)))
      | (w, Inr (certPEM, keyPEM)) \<Rightarrow>
          (case os_WriteFile lib certFile certPEM 420 w of
             (w, Some e) \<Rightarrow> (w, s, Some (Wrap ''write cert'' (ExecError e)))
           | (w, None) \<Rightarrow>
               (case os_WriteFile lib keyFile keyPEM 384 w of
                  (w, Some e) \<Rightarrow> (w, s, Some (Wrap ''write key'' (ExecError e)))
                | (w, None) \<Rightarrow>
                    (case X509KeyPair lib certPEM keyPEM of
                       Inl e \<Rightarrow> (w, s, Some (Wrap ''parse generated cert'' (ExecError e)))
                     | Inr cert \<Rightarrow> (w, setTLSCert s cert certFile, None)))))"

text \<open>The persisted pair, when both files are there, load and have not expired.\<close>

definition persisted_pair :: "('w, 'c, 'k) tls_lib \<Rightarrow> string \<Rightarrow> string \<Rightarrow> 'w \<Rightarrow> 'c option" where
  "persisted_pair lib certFile keyFile w =
     (if fileExists lib certFile w \<and> fileExists lib keyFile w then
        (case LoadX509KeyPair lib certFile keyFile w of
           Inl _ \<Rightarrow> None | Inr cert \<Rightarrow> if certExpired lib cert w then None else Some cert)
      else None)"

definition EnableTLS ::
  "('w, 'c, 'k) tls_lib \<Rightarrow> string \<Rightarrow> 'c tls_state \<Rightarrow> string \<Rightarrow> string \<Rightarrow> string \<Rightarrow> 'w \<Rightarrow> 'w \<times> 'c tls_state \<times> go_error option" where
  "EnableTLS lib host s certFile keyFile dir w =
     (if certFile \<noteq> '''' \<and> keyFile \<noteq> '''' then
        (case LoadX509KeyPair lib certFile keyFile w of
           Inl e \<Rightarrow> (w, s, Some (Wrap ''load tls key pair'' (ExecError e)))
         | Inr cert \<Rightarrow> (w, setTLSCert s cert certFile, None))
      else
        let certFile = path_Join [dir, ''miniflake-cert.pem'']; keyFile = path_Join [dir, ''miniflake-key.pem'']
        in case persisted_pair lib certFile keyFile w of
             Some cert \<Rightarrow> (w, setTLSCert s cert certFile, None)
           | None \<Rightarrow> generate_pair lib host s certFile keyFile w)"

subsection \<open>The listener\<close>

text \<open>
  What the listener below delivers: an error, or a connection with the bytes its client sends; a client that
  sends nothing in time, or whose first read fails, has no first byte.
\<close>

datatype attempt = Accept_Error string | Client "8 word list"

record peekedConn =
  pc_prefix :: "8 word list"
  pc_Conn :: "8 word list"

datatype conn = Tls_Server peekedConn | Plain_Conn peekedConn

text \<open>\<open>None\<close>: no connection arrives any more and the call blocks.\<close>

fun Accept :: "attempt list \<Rightarrow> (attempt list \<times> (string + conn)) option" where
  "Accept [] = None"
| "Accept (Accept_Error e # as) = Some (as, Inl e)"
| "Accept (Client [] # as) = Accept as"
| "Accept (Client (b # bs) # as) =
     (let pc = \<lparr>pc_prefix = [b], pc_Conn = bs\<rparr>
      in Some (as, Inr (if b = tlsHandshakeRecord then Tls_Server pc else Plain_Conn pc)))"

text \<open>
  \<^verbatim>\<open>Read\<close> into a buffer of \<open>n\<close> bytes; the connection below has \<open>k\<close> bytes ready, of which it delivers as many as fit.
\<close>

definition conn_Read :: "nat \<Rightarrow> nat \<Rightarrow> peekedConn \<Rightarrow> peekedConn \<times> 8 word list" where
  "conn_Read k n c =
     (if pc_prefix c \<noteq> [] then (c\<lparr>pc_prefix := drop n (pc_prefix c)\<rparr>, take n (pc_prefix c))
      else (c\<lparr>pc_Conn := drop (min k n) (pc_Conn c)\<rparr>, take (min k n) (pc_Conn c)))"

fun reads :: "(nat \<times> nat) list \<Rightarrow> peekedConn \<Rightarrow> peekedConn \<times> 8 word list" where
  "reads [] c = (c, [])"
| "reads ((k, n) # rs) c = (case conn_Read k n c of (c, bs) \<Rightarrow> (case reads rs c of (c, bs') \<Rightarrow> (c, bs @ bs')))"

subsection \<open>Certificates that are installed\<close>

text \<open>A failure leaves the server as it was; a success installs a pair, the given one or the one in the data directory.\<close>

lemma generate_pair_outcome:
  assumes "generate_pair lib host s certFile keyFile w = (w', s', err)"
  shows "case err of Some e \<Rightarrow> s' = s | None \<Rightarrow> \<exists>cert. s' = setTLSCert s cert certFile"
  using assms by (auto simp: generate_pair_def split: prod.splits sum.splits option.splits)

lemma EnableTLS_outcome:
  assumes "EnableTLS lib host s certFile keyFile dir w = (w', s', err)"
  shows "case err of
      Some e \<Rightarrow> s' = s
    | None \<Rightarrow> \<exists>cert. tlsConfig s' = Some cert \<and>
        CertPath s' = (if certFile \<noteq> '''' \<and> keyFile \<noteq> '''' then certFile else path_Join [dir, ''miniflake-cert.pem''])"
  using assms generate_pair_outcome [of lib host s "path_Join [dir, ''miniflake-cert.pem'']"
      "path_Join [dir, ''miniflake-key.pem'']" w w' s' err]
  by (auto simp: EnableTLS_def Let_def setTLSCert_def CertPath_def split: if_splits option.splits sum.splits)

text \<open>A restart with a good pair in the data directory installs that pair and writes nothing.\<close>

lemma EnableTLS_reuses:
  assumes "persisted_pair lib (path_Join [dir, ''miniflake-cert.pem'']) (path_Join [dir, ''miniflake-key.pem'']) w = Some cert"
  shows "EnableTLS lib host s '''' keyFile dir w = (w, setTLSCert s cert (path_Join [dir, ''miniflake-cert.pem'']), None)"
  using assms by (simp add: EnableTLS_def Let_def)

text \<open>
  The generated certificate names every host once, as an address or as a name. It is valid for 397 days and an hour,
  below the 398 days that some verifiers accept, when a calendar day has 24 hours.
\<close>

lemma cert_template_hosts:
  "length (ct_IPAddresses (cert_template lib hosts serial w)) + length (ct_DNSNames (cert_template lib hosts serial w)) = length hosts"
  by (induction hosts) (auto simp: cert_template_def map_filter_def)

lemma cert_template_validity:
  assumes "AddDays lib (tls_now lib w 1) 397 = tls_now lib w 1 + 397 * (24 * hour)" "tls_now lib w 1 - tls_now lib w 0 < 23 * hour"
  shows "ct_NotAfter (cert_template lib hosts serial w) - ct_NotBefore (cert_template lib hosts serial w) < 398 * (24 * hour)"
  using assms by (simp add: cert_template_def hour_def minute_def second_def)

subsection \<open>The listener hides the sniffing\<close>

definition conn_of :: "conn \<Rightarrow> peekedConn" where
  "conn_of c = (case c of Tls_Server pc \<Rightarrow> pc | Plain_Conn pc \<Rightarrow> pc)"

lemma reads_stream: "reads rs c = (c', bs) \<Longrightarrow> bs @ pc_prefix c' @ pc_Conn c' = pc_prefix c @ pc_Conn c"
proof (induction rs c arbitrary: c' bs rule: reads.induct)
  case (2 k n rs c)
  obtain c1 b1 where one: "conn_Read k n c = (c1, b1)" by fastforce
  obtain c2 b2 where rest: "reads rs c1 = (c2, b2)" by fastforce
  have "b1 @ pc_prefix c1 @ pc_Conn c1 = pc_prefix c @ pc_Conn c"
    using one by (auto simp: conn_Read_def split: if_splits)
  moreover have "b2 @ pc_prefix c2 @ pc_Conn c2 = pc_prefix c1 @ pc_Conn c1" using "2.IH" [OF one [symmetric] rest] .
  ultimately show ?case using "2.prems" one rest by auto
qed auto

lemma Accept_first:
  "Accept as = Some (rest, Inr c) \<longleftrightarrow>
     (\<exists>silent b bs. as = replicate silent (Client []) @ Client (b # bs) # rest \<and>
        c = (if b = tlsHandshakeRecord then Tls_Server \<lparr>pc_prefix = [b], pc_Conn = bs\<rparr> else Plain_Conn \<lparr>pc_prefix = [b], pc_Conn = bs\<rparr>))"
proof (induction as rule: Accept.induct)
  case (2 e as)
  have "Accept_Error e # as \<noteq> replicate n (Client []) @ Client bs # rest" for n bs by (cases n) auto
  then show ?case by simp
next
  case (3 as)
  have shift: "(Client [] # as = replicate n (Client []) @ Client (b # bs) # rest) \<longleftrightarrow>
      (\<exists>m. n = Suc m \<and> as = replicate m (Client []) @ Client (b # bs) # rest)" for n b bs
    by (cases n) auto
  show ?case unfolding Accept.simps 3 shift by blast
next
  case (4 b bs as)
  have "(Client (b # bs) # as = replicate n (Client []) @ Client (b' # bs') # rest) \<longleftrightarrow> n = 0 \<and> b' = b \<and> bs' = bs \<and> rest = as" for n b' bs'
    by (cases n) auto
  then show ?case by (auto simp: Let_def)
qed simp

text \<open>
  C22. Sharing the port is invisible to the clients: the listener skips exactly the clients that send nothing, hands
  the first of the others to TLS if its first byte is the byte of a TLS handshake and to plain HTTP if not, and
  however the reader splits its reads, it gets the bytes the client sent, from the first one on, in order and
  without loss or repetition.
\<close>

theorem listener_transparent:
  assumes "Accept as = Some (rest, Inr c)" and "reads rs (conn_of c) = (c', bs)"
  shows "\<exists>silent sent. as = replicate silent (Client []) @ Client sent # rest \<and> sent \<noteq> [] \<and>
    (\<exists>pc. c = (if hd sent = tlsHandshakeRecord then Tls_Server pc else Plain_Conn pc)) \<and>
    (\<exists>unread. sent = bs @ unread)"
proof -
  obtain silent b ys where as: "as = replicate silent (Client []) @ Client (b # ys) # rest"
    and c: "c = (if b = tlsHandshakeRecord then Tls_Server \<lparr>pc_prefix = [b], pc_Conn = ys\<rparr> else Plain_Conn \<lparr>pc_prefix = [b], pc_Conn = ys\<rparr>)"
    using assms(1) by (auto simp: Accept_first)
  have "conn_of c = \<lparr>pc_prefix = [b], pc_Conn = ys\<rparr>" using c by (simp add: conn_of_def)
  with reads_stream [OF assms(2)] have "b # ys = bs @ pc_prefix c' @ pc_Conn c'" by simp
  then obtain unread where "b # ys = bs @ unread" by blast
  then have "\<exists>unread. b # ys = bs @ unread" "hd (bs @ unread) = b" by (auto dest: sym)
  with as c show ?thesis by (intro exI [of _ silent] exI [of _ "b # ys"]) auto
qed

theorem listener_transparent_witness:
  "\<exists>silent sent. [Client [], Client [0x16, 3, 1], Client [71]] = replicate silent (Client []) @ Client sent # [Client [71]] \<and>
     sent = [0x16, 3] @ [1]"
proof -
  have acc: "Accept [Client [], Client [0x16, 3, 1], Client [71]] =
      Some ([Client [71]], Inr (Tls_Server \<lparr>pc_prefix = [0x16], pc_Conn = [3, 1]\<rparr>))"
    by (simp add: tlsHandshakeRecord_def)
  have rd: "reads [(0, 8), (1, 8)] (conn_of (Tls_Server \<lparr>pc_prefix = [0x16], pc_Conn = [3, 1]\<rparr>)) =
      (\<lparr>pc_prefix = [], pc_Conn = [1]\<rparr>, [0x16, 3])"
    by (simp add: conn_of_def conn_Read_def)
  from listener_transparent [OF acc rd] obtain silent sent where
    "[Client [], Client [0x16, 3, 1], Client [71]] = replicate silent (Client []) @ Client sent # [Client [71]]" by blast
  moreover from this have "sent = [0x16, 3, 1]" by (cases silent; cases "silent - 1") auto
  ultimately show ?thesis by auto
qed

end
