(* ===== verification/Startup.thy ===== *)
theory Startup
  imports Server_Props Tls
begin

text \<open>
  \<^verbatim>\<open>cmd/miniflake/main.go\<close>: the flags with their defaults and the way from them to a running server, with every exit on
  the way. Opening the database, making directories and the random sources are calls of the environment; the
  signals and the network loop behind \<^verbatim>\<open>Serve\<close> belong to the operating system.
\<close>

record flags =
  fl_host :: string
  fl_port :: int
  fl_dataDir :: string
  fl_stageDir :: string
  fl_tlsCert :: string
  fl_tlsKey :: string
  fl_logLevel :: string
  fl_readOnly :: bool
  fl_showVersion :: bool

definition default_flags :: flags where
  "default_flags =
     \<lparr>fl_host = ''0.0.0.0'', fl_port = 8084, fl_dataDir = ''./data'', fl_stageDir = ''./stages'', fl_tlsCert = '''',
      fl_tlsKey = '''', fl_logLevel = ''info'', fl_readOnly = False, fl_showVersion = False\<rparr>"

record ('w, 'c, 'k) start_env =
  st_MkdirAll :: "string \<Rightarrow> 'w \<Rightarrow> 'w \<times> string option"
  sql_Open :: "string \<Rightarrow> 'w \<Rightarrow> 'w \<times> string option"
  db_Ping :: "'w \<Rightarrow> 'w \<times> string option"
  st_tls :: "('w, 'c, 'k) tls_lib"
  st_now :: "'w \<Rightarrow> time"

definition snowflakeEngineConfig :: string where
  "snowflakeEngineConfig = ''TimeZone=America%2FLos_Angeles&ieee_floating_point_ops=false''"

text \<open>\<^verbatim>\<open>engine.New\<close>: the directory, the database file, a ping.\<close>

definition engine_New :: "('w, 'c, 'k) start_env \<Rightarrow> string \<Rightarrow> 'w \<Rightarrow> 'w \<times> Engine result" where
  "engine_New st dir w =
     (case st_MkdirAll st dir w of
        (w, Some e) \<Rightarrow> (w, Err (Wrap ''engine: create data dir'' (ExecError e)))
      | (w, None) \<Rightarrow>
          (case sql_Open st (dir @ ''/miniflake.duckdb'' @ ''?'' @ snowflakeEngineConfig) w of
             (w, Some e) \<Rightarrow> (w, Err (Wrap ''engine: open duckdb'' (ExecError e)))
           | (w, None) \<Rightarrow>
               (case db_Ping st w of
                  (w, Some e) \<Rightarrow> (w, Err (Wrap ''engine: ping duckdb'' (ExecError e)))
                | (w, None) \<Rightarrow> (w, Ok (new_engine dir)))))"

text \<open>
  How the start ends: the version was printed, \<^verbatim>\<open>log.Fatalf\<close>, or the goroutine that calls \<^verbatim>\<open>ListenAndServe\<close> is started.
  Whether the address can be bound is known only then; the step \<open>failed\<close> of the process is the fatal error that follows.
\<close>

datatype ('w, 'd, 'c) started = Printed_Version | Fatal string | Serving "('w, 'd) Server" "'c tls_state"

text \<open>\<^verbatim>\<open>taskExec\<close>: tasks run their SQL on the engine.\<close>

definition task_exec :: "('w, 'v) driver \<Rightarrow> string \<Rightarrow> 'w \<Rightarrow> 'w" where
  "task_exec d query w = fst (ExecNoResult d query w)"

text \<open>
  The callback that main installs on the scheduler asks the stream engine that is handed to the orchestrator as well.
  It reads that engine as it is when it is called, so that it is not a part of the scheduler's value here: \<open>wired_scheduler\<close>
  installs it, on the streams of the moment, for each tick (\<open>orch_tick\<close>).
\<close>

definition main_start ::
  "('w, 'c, 'k) start_env \<Rightarrow> ('w, 'v) driver \<Rightarrow> flags \<Rightarrow> 'w \<Rightarrow> 'w \<times> ('w, 'd, 'c) started" where
  "main_start st d fl w =
     (if fl_showVersion fl then (w, Printed_Version)
      else case st_MkdirAll st (fl_dataDir fl) w of
        (w, Some e) \<Rightarrow> (w, Fatal ''create data dir'')
      | (w, None) \<Rightarrow>
          (case st_MkdirAll st (fl_stageDir fl) w of
             (w, Some e) \<Rightarrow> (w, Fatal ''create stage dir'')
           | (w, None) \<Rightarrow>
               (case engine_New st (fl_dataDir fl) w of
                  (w, Inl e) \<Rightarrow> (w, Fatal ''init engine'')
                | (w, Inr eng) \<Rightarrow>
                    (let orch = orch_New (eng_dataDir eng) (fl_stageDir fl) (task_exec d) None (st_now st w) (st_now st w);
                         srv = server_New session_NewManager (fl_host fl) (fl_port fl) (fl_stageDir fl) (Some orch)
                     in case EnableTLS (st_tls st) (fl_host fl) \<lparr>tlsConfig = None, certPath = ''''\<rparr> (fl_tlsCert fl) (fl_tlsKey fl)
                               (fl_dataDir fl) w of
                          (w, tls, Some e) \<Rightarrow> (w, Fatal ''enable tls'')
                        | (w, tls, None) \<Rightarrow> (w, Serving srv tls)))))"

lemma engine_New_Ok: "engine_New st dir w = (w', Inr e) \<Longrightarrow> e = new_engine dir"
  by (auto simp: engine_New_def split: prod.splits option.splits)

lemma main_start_Serving:
  assumes "main_start st d fl w = (w', Serving srv tls)"
  obtains w1 eng w2 where "engine_New st (fl_dataDir fl) w1 = (w2, Inr eng)"
    "srv = server_New session_NewManager (fl_host fl) (fl_port fl) (fl_stageDir fl)
       (Some (orch_New (eng_dataDir eng) (fl_stageDir fl) (task_exec d) None (st_now st w2) (st_now st w2)))"
    "EnableTLS (st_tls st) (fl_host fl) \<lparr>tlsConfig = None, certPath = ''''\<rparr> (fl_tlsCert fl) (fl_tlsKey fl) (fl_dataDir fl) w2
       = (w', tls, None)"
  using assms by (auto simp: main_start_def Let_def split: if_splits prod.splits option.splits sum.splits)

text \<open>
  C23. A server that started is ready: when the start with any flags gets as far as the call that listens, the server
  has a TLS certificate, the address of the flags, no session, and its orchestrator is the initial one
  of the reachable states on the data and stage directories of the flags, so that everything proved of
  the reachable states holds of it. Its scheduler has no task, and the condition of a stream task added to it asks the
  streams of that orchestrator.
\<close>

theorem started_server_ready:
  assumes "main_start st d fl w = (w', Serving srv tls)"
  shows "tlsConfig tls \<noteq> None \<and> sv_Addr srv = fl_host fl @ '':'' @ Itoa (fl_port fl) \<and> server_reachable env srv \<and>
    (\<forall>token. session_at srv token = None) \<and>
    (\<exists>orc. sv_orchestrator srv = Some orc \<and> eng_dataDir (o_engine orc) = fl_dataDir fl \<and> baseDir (o_stageMgr orc) = fl_stageDir fl \<and>
       tasks (o_taskSched orc) = Map.empty \<and>
       streamHasDataFn (wired_scheduler orc) = Some (\<lambda>db schema name w. HasData (o_streamEng orc) db schema name))"
  using assms
proof (cases rule: main_start_Serving)
  case (1 w1 eng w2)
  have "server_reachable env srv" unfolding 1(2) by (rule server_reachable.start)
  moreover have "tlsConfig tls \<noteq> None" using EnableTLS_outcome [OF 1(3)] by auto
  ultimately show ?thesis
    using 1(2) engine_New_Ok [OF 1(1)]
    by (simp add: server_New_def session_NewManager_def orch_New_def new_engine_def stage_NewManager_def
        wired_scheduler_def SetStreamHasDataFn_def NewScheduler_def)
qed

definition sample_tls :: "(string list, unit, unit) tls_lib" where
  "sample_tls =
     \<lparr>LoadX509KeyPair = (\<lambda>c k w. Inr ()), X509KeyPair = (\<lambda>c k. Inr ()), cert_chain = (\<lambda>c. []),
      ParseCertificate = (\<lambda>der. Inl ''bad''), CreateCertificate = (\<lambda>t k w. (w, Inr ''der'')), GenerateKey = (\<lambda>w. (w, Inr ())),
      rand_Int = (\<lambda>w. (w, Inr 7)), pem_Encode = (\<lambda>ty s. ty @ s), MarshalPKCS1PrivateKey = (\<lambda>k. ''key''),
      stat_IsDir = (\<lambda>p w. None), os_WriteFile = (\<lambda>p s perm w. (w @ [p], None)), tls_now = (\<lambda>w n. 0), AddDays = (\<lambda>t n. t)\<rparr>"

definition sample_start :: "(string list, unit, unit) start_env" where
  "sample_start =
     \<lparr>st_MkdirAll = (\<lambda>p w. (w @ [p], None)), sql_Open = (\<lambda>p w. (w, None)), db_Ping = (\<lambda>w. (w, None)), st_tls = sample_tls,
      st_now = (\<lambda>w. 0)\<rparr>"

lemma sample_started:
  "\<exists>w' (srv :: (string list, nat) Server) tls. main_start sample_start sample_driver default_flags [] = (w', Serving srv tls)"
  by (auto simp: main_start_def default_flags_def sample_start_def engine_New_def Let_def EnableTLS_def persisted_pair_def
      fileExists_def sample_tls_def generate_pair_def generateSelfSignedCert_def split: prod.split)

theorem started_server_ready_witness:
  "\<exists>w' (srv :: (string list, nat) Server) tls.
     main_start sample_start sample_driver default_flags [] = (w', Serving srv tls) \<and> server_reachable sample_senv srv"
  using sample_started started_server_ready [of sample_start sample_driver default_flags "[]" _ _ _ sample_senv] by metis

end
