(* ===== verification/Lifecycle.thy ===== *)
theory Lifecycle
  imports Startup
begin

text \<open>
  The running process: the goroutines that \<^verbatim>\<open>main.go\<close> starts (the scheduler's loop, the session expiry, the handlers of the
  HTTP server) interleaved in any order with the main goroutine, which waits for a signal, shuts the server down
  and then runs its deferred calls in reverse order. Handlers overlap each other and the ticks of the scheduler: what
  they do to the server and the database is left open here, at every moment. It is proved that ticks never
  overlap, that no task runs when the database is closed, and that the shutdown cannot get stuck.
\<close>

subsection \<open>Cancellable contexts\<close>

text \<open>A context is known by a number; its lineage lists it with the contexts it was derived from.\<close>

record contexts =
  cx_next :: nat
  cx_lineage :: "nat \<Rightarrow> nat list"
  cx_cancelled :: "nat set"

definition no_contexts :: contexts where
  "no_contexts = \<lparr>cx_next = 0, cx_lineage = (\<lambda>_. []), cx_cancelled = {}\<rparr>"

definition WithCancel :: "nat option \<Rightarrow> contexts \<Rightarrow> nat \<times> contexts" where
  "WithCancel parent cx =
     (let c = cx_next cx
      in (c, cx\<lparr>cx_next := Suc c,
                cx_lineage := (cx_lineage cx)(c := c # (case parent of None \<Rightarrow> [] | Some p \<Rightarrow> cx_lineage cx p))\<rparr>))"

definition ctx_cancel :: "nat \<Rightarrow> contexts \<Rightarrow> contexts" where
  "ctx_cancel c cx = cx\<lparr>cx_cancelled := insert c (cx_cancelled cx)\<rparr>"

definition ctx_Done :: "contexts \<Rightarrow> nat \<Rightarrow> bool" where
  "ctx_Done cx c \<longleftrightarrow> list_ex (\<lambda>a. a \<in> cx_cancelled cx) (cx_lineage cx c)"

subsection \<open>The loop of the scheduler\<close>

text \<open>
  The fields \<^verbatim>\<open>cancel\<close> and \<^verbatim>\<open>wg\<close> of the scheduler: the context to cancel, and the live loops with their contexts,
  each idle in its select or busy with a tick. The wait group is at zero when no loop is live.
\<close>

record sched_loop =
  sl_ctx :: contexts
  sl_cancel :: "nat option"
  sl_loops :: "(nat \<times> bool) list"

definition sched_Start :: "nat option \<Rightarrow> sched_loop \<Rightarrow> sched_loop" where
  "sched_Start parent l =
     (case WithCancel parent (sl_ctx l) of
        (c, cx) \<Rightarrow> l\<lparr>sl_ctx := cx, sl_cancel := Some c, sl_loops := (c, False) # sl_loops l\<rparr>)"

text \<open>\<^verbatim>\<open>Stop\<close> in its two parts: the cancellation, and the wait that returns when the loops are gone.\<close>

definition sched_Stop :: "sched_loop \<Rightarrow> sched_loop" where
  "sched_Stop l = (case sl_cancel l of None \<Rightarrow> l | Some c \<Rightarrow> l\<lparr>sl_ctx := ctx_cancel c (sl_ctx l)\<rparr>)"

definition wg_zero :: "sched_loop \<Rightarrow> bool" where
  "wg_zero l \<longleftrightarrow> sl_loops l = []"

subsection \<open>The process\<close>

datatype phase = Listening | Draining | Stopping_Sessions | Cancelling_Tasks | Waiting_Tasks | Cancelling_Context | Closing
  | Exited | Died

record ('w, 'd) process =
  pr_phase :: phase
  pr_srv :: "('w, 'd) Server"
  pr_world :: 'w
  pr_sched :: sched_loop
  pr_schedCtx :: nat
  pr_expiring :: bool
  pr_done :: bool
  pr_active :: nat
  pr_dbOpen :: bool

text \<open>What \<^verbatim>\<open>main\<close> has started when the server begins to listen.\<close>

definition launch :: "('w, 'd) Server \<Rightarrow> 'w \<Rightarrow> ('w, 'd) process" where
  "launch srv w =
     (case WithCancel None no_contexts of
        (schedCtx, cx) \<Rightarrow>
          \<lparr>pr_phase = Listening, pr_srv = srv, pr_world = w,
           pr_sched = sched_Start (Some schedCtx) \<lparr>sl_ctx = cx, sl_cancel = None, sl_loops = []\<rparr>,
           pr_schedCtx = schedCtx, pr_expiring = True, pr_done = False, pr_active = 0, pr_dbOpen = True\<rparr>)"

text \<open>\<^verbatim>\<open>Stop\<close> of the session manager closes its channel \<^verbatim>\<open>done\<close>; to close a closed channel is a panic.\<close>

definition session_Stop :: "bool \<Rightarrow> bool option" where
  "session_Stop closed = (if closed then None else Some True)"

text \<open>
  The main goroutine behind the select. \<^verbatim>\<open>Shutdown\<close> returns when the active requests are done or after ten
  seconds; the deferred calls follow. \<^const>\<open>None\<close> is a call that blocks.
\<close>

definition main_step :: "('w, 'd) process \<Rightarrow> ('w, 'd) process option" where
  "main_step p =
     (case pr_phase p of
        Draining \<Rightarrow> Some (p\<lparr>pr_phase := Stopping_Sessions\<rparr>)
      | Stopping_Sessions \<Rightarrow>
          (case session_Stop (pr_done p) of
             None \<Rightarrow> Some (p\<lparr>pr_phase := Died\<rparr>)
           | Some closed \<Rightarrow> Some (p\<lparr>pr_phase := Cancelling_Tasks, pr_done := closed\<rparr>))
      | Cancelling_Tasks \<Rightarrow> Some (p\<lparr>pr_phase := Waiting_Tasks, pr_sched := sched_Stop (pr_sched p)\<rparr>)
      | Waiting_Tasks \<Rightarrow> if wg_zero (pr_sched p) then Some (p\<lparr>pr_phase := Cancelling_Context\<rparr>) else None
      | Cancelling_Context \<Rightarrow>
          Some (p\<lparr>pr_phase := Closing, pr_sched := (pr_sched p)\<lparr>sl_ctx := ctx_cancel (pr_schedCtx p) (sl_ctx (pr_sched p))\<rparr>\<rparr>)
      | Closing \<Rightarrow> Some (p\<lparr>pr_phase := Exited, pr_dbOpen := False\<rparr>)
      | _ \<Rightarrow> None)"

definition alive :: "('w, 'd) process \<Rightarrow> bool" where
  "alive p \<longleftrightarrow> pr_phase p \<noteq> Exited \<and> pr_phase p \<noteq> Died"

definition set_loops :: "('w, 'd) process \<Rightarrow> (nat \<times> bool) list \<Rightarrow> ('w, 'd) process" where
  "set_loops p ls = p\<lparr>pr_sched := (pr_sched p)\<lparr>sl_loops := ls\<rparr>\<rparr>"

abbreviation live_loops :: "('w, 'd) process \<Rightarrow> (nat \<times> bool) list" where
  "live_loops p \<equiv> sl_loops (pr_sched p)"

text \<open>
  The steps of the process itself. A request is accepted and answered; \<open>tick\<close> is the return of a tick that
  nothing else overlapped.
\<close>

inductive prog_step :: "('w, 'h, 'v, 'b) server_env \<Rightarrow> ('w, 'd) process \<Rightarrow> ('w, 'd) process \<Rightarrow> bool"
  for env :: "('w, 'h, 'v, 'b) server_env" where
  accept: "pr_phase p = Listening \<Longrightarrow> prog_step env p (p\<lparr>pr_active := Suc (pr_active p)\<rparr>)"
| answer: "alive p \<Longrightarrow> pr_active p = Suc n \<Longrightarrow> prog_step env p (p\<lparr>pr_active := n\<rparr>)"
| expire: "alive p \<Longrightarrow> pr_expiring p \<Longrightarrow> range_order (sessions (sv_sessionMgr (pr_srv p))) ks \<Longrightarrow>
    prog_step env p (p\<lparr>pr_srv := (pr_srv p)\<lparr>sv_sessionMgr := expire_tick (sv_sessionMgr (pr_srv p)) ks now\<rparr>\<rparr>)"
| expire_exit: "alive p \<Longrightarrow> pr_expiring p \<Longrightarrow> pr_done p \<Longrightarrow> prog_step env p (p\<lparr>pr_expiring := False\<rparr>)"
| fire: "alive p \<Longrightarrow> live_loops p = us @ (c, False) # vs \<Longrightarrow> prog_step env p (set_loops p (us @ (c, True) # vs))"
| tick: "alive p \<Longrightarrow> live_loops p = us @ (c, True) # vs \<Longrightarrow> sv_orchestrator (pr_srv p) = Some orc \<Longrightarrow>
    orch_tick (se_orch env) orc ks ord fuel now (pr_world p) = Some (w', orc', log) \<Longrightarrow>
    prog_step env p ((set_loops p (us @ (c, False) # vs))
      \<lparr>pr_srv := (pr_srv p)\<lparr>sv_orchestrator := Some orc'\<rparr>, pr_world := w'\<rparr>)"
| loop_exit: "alive p \<Longrightarrow> live_loops p = us @ (c, False) # vs \<Longrightarrow> ctx_Done (sl_ctx (pr_sched p)) c \<Longrightarrow>
    prog_step env p (set_loops p (us @ vs))"
| failed: "pr_phase p = Listening \<Longrightarrow> prog_step env p (p\<lparr>pr_phase := Died\<rparr>)"
| signal: "pr_phase p = Listening \<Longrightarrow> prog_step env p (p\<lparr>pr_phase := Draining\<rparr>)"
| main: "main_step p = Some p' \<Longrightarrow> prog_step env p p'"

text \<open>
  The states the process can be in. As long as a request or a tick is under way, the server and the
  database may change in any way between two steps (\<open>work\<close>), whatever handlers overlap: the one thing taken for granted is that
  the server keeps an orchestrator, which no handler replaces.
\<close>

inductive prog_reachable ::
  "('w, 'c, 'k) start_env \<Rightarrow> ('w, 'v) driver \<Rightarrow> ('w, 'h, 'v, 'b) server_env \<Rightarrow> ('w, 'd) process \<Rightarrow> bool"
  for st :: "('w, 'c, 'k) start_env" and d :: "('w, 'v) driver" and env :: "('w, 'h, 'v, 'b) server_env" where
  started: "main_start st d fl w0 = (w, Serving srv tls) \<Longrightarrow> prog_reachable st d env (launch srv w)"
| step: "prog_reachable st d env p \<Longrightarrow> prog_step env p p' \<Longrightarrow> prog_reachable st d env p'"
| work: "prog_reachable st d env p \<Longrightarrow> alive p \<Longrightarrow> pr_active p \<noteq> 0 \<or> (\<exists>c. (c, True) \<in> set (live_loops p)) \<Longrightarrow>
    sv_orchestrator srv' \<noteq> None \<Longrightarrow> prog_reachable st d env (p\<lparr>pr_srv := srv', pr_world := w'\<rparr>)"

subsection \<open>The invariant of the process\<close>

text \<open>
  One loop at most, the one that \<^verbatim>\<open>Stop\<close> cancels; it is cancelled when main waits for it, and gone once the wait is over.
\<close>

definition loop_inv :: "('w, 'd) process \<Rightarrow> bool" where
  "loop_inv p \<longleftrightarrow>
     (\<exists>c. sl_cancel (pr_sched p) = Some c \<and> (live_loops p = [] \<or> map fst (live_loops p) = [c]) \<and>
        c \<in> set (cx_lineage (sl_ctx (pr_sched p)) c) \<and>
        (pr_phase p = Waiting_Tasks \<longrightarrow> c \<in> cx_cancelled (sl_ctx (pr_sched p)))) \<and>
     (pr_phase p \<in> {Cancelling_Context, Closing, Exited} \<longrightarrow> live_loops p = []) \<and>
     (pr_dbOpen p \<longleftrightarrow> pr_phase p \<noteq> Exited) \<and>
     (pr_phase p \<in> {Cancelling_Tasks, Waiting_Tasks, Cancelling_Context, Closing, Exited} \<longrightarrow> pr_done p) \<and>
     (pr_phase p \<in> {Listening, Draining, Stopping_Sessions} \<longrightarrow> \<not> pr_done p)"

lemma loop_inv_loops: "loop_inv p \<Longrightarrow> \<exists>c. live_loops p = [] \<or> map fst (live_loops p) = [c]"
  unfolding loop_inv_def by (elim conjE exE) (rule exI)

lemma launch_inv: "loop_inv (launch srv w)"
  by (auto simp: loop_inv_def launch_def WithCancel_def sched_Start_def no_contexts_def Let_def)

lemma main_step_inv: "main_step p = Some p' \<Longrightarrow> loop_inv p \<Longrightarrow> loop_inv p'"
  by (auto simp: main_step_def loop_inv_def sched_Stop_def session_Stop_def ctx_cancel_def wg_zero_def
      split: phase.splits if_splits)

lemma one_loop: "loop_inv p \<Longrightarrow> live_loops p = us @ (c, b) # vs \<Longrightarrow> us = [] \<and> vs = [] \<and> sl_cancel (pr_sched p) = Some c"
  by (auto simp: loop_inv_def append_eq_Cons_conv)

lemma prog_step_inv: "prog_step env p p' \<Longrightarrow> loop_inv p \<Longrightarrow> loop_inv p'"
proof (induction rule: prog_step.induct)
  case (main p p')
  then show ?case by (rule main_step_inv)
next
  case (tick p us c vs orc ks ord fuel now w' orc' log)
  with one_loop [OF tick.prems tick.hyps(2)] show ?case by (auto simp: loop_inv_def set_loops_def)
next
  case (fire p us c vs)
  with one_loop [OF fire.prems fire.hyps(2)] show ?case by (auto simp: loop_inv_def set_loops_def)
next
  case (loop_exit p us c vs)
  with one_loop [OF loop_exit.prems loop_exit.hyps(2)] show ?case by (auto simp: loop_inv_def set_loops_def)
qed (auto simp: loop_inv_def)

lemma main_step_srv: "main_step p = Some p' \<Longrightarrow> pr_srv p' = pr_srv p"
  by (auto simp: main_step_def split: phase.splits if_splits option.splits)

lemma prog_step_server:
  "prog_step env p p' \<Longrightarrow> sv_orchestrator (pr_srv p) \<noteq> None \<Longrightarrow> sv_orchestrator (pr_srv p') \<noteq> None"
  by (induction rule: prog_step.induct) (auto simp: set_loops_def main_step_srv)

lemma prog_reachable_inv: "prog_reachable st d env p \<Longrightarrow> sv_orchestrator (pr_srv p) \<noteq> None \<and> loop_inv p"
proof (induction rule: prog_reachable.induct)
  case (started fl w0 w srv tls)
  then have "sv_orchestrator srv \<noteq> None" by (elim main_start_Serving) (simp add: server_New_def)
  then show ?case by (simp add: launch_inv) (simp add: launch_def split: prod.split)
next
  case (step p p')
  then show ?case using prog_step_server [OF step.hyps(2)] prog_step_inv [OF step.hyps(2)] by simp
next
  case (work p srv' w')
  then show ?case by (simp add: loop_inv_def)
qed

subsection \<open>Properties\<close>

text \<open>
  C14. The process is shut down in order. However requests, ticks, expiries and the shutdown interleave and overlap after
  a start, and whatever they do to the server and the database: at most one scheduler loop is live, so
  that ticks do not overlap; once main is past the wait for the scheduler, and so when the database is closed,
  no loop is live that could run a task, and the session manager was told to stop before.
\<close>

theorem shutdown_in_order:
  assumes "prog_reachable st d env p"
  shows "length (live_loops p) \<le> 1 \<and>
    (pr_phase p \<in> {Cancelling_Context, Closing, Exited} \<longrightarrow> live_loops p = [] \<and> pr_done p) \<and>
    (\<not> pr_dbOpen p \<longrightarrow> live_loops p = [])"
proof -
  from prog_reachable_inv [OF assms] have inv: "loop_inv p" by blast
  obtain c where "live_loops p = [] \<or> map fst (live_loops p) = [c]" using loop_inv_loops [OF inv] by (rule exE)
  then have "length (live_loops p) \<le> 1" by auto
  moreover have "pr_phase p \<in> {Cancelling_Context, Closing, Exited} \<longrightarrow> live_loops p = [] \<and> pr_done p"
    "\<not> pr_dbOpen p \<longrightarrow> live_loops p = []"
    using inv unfolding loop_inv_def by simp_all
  ultimately show ?thesis by blast
qed

lemma finite_range_order: "finite (dom m) \<Longrightarrow> \<exists>ks. range_order m ks"
  using finite_distinct_list unfolding range_order_def by metis

lemma tick_possible:
  assumes "tasks_inv (tasks (o_taskSched orc))"
  shows "\<exists>ks ord fuel w' orc' log. orch_tick env orc ks ord fuel now w = Some (w', orc', log)"
proof -
  have tasks: "tasks (wired_scheduler orc) = tasks (o_taskSched orc)"
    by (simp add: wired_scheduler_def SetStreamHasDataFn_def)
  obtain ks where ks: "range_order (tasks (wired_scheduler orc)) ks"
    using finite_range_order [of "tasks (wired_scheduler orc)"] assms unfolding tasks_inv_def tasks by blast
  have "tick (load_zone env) (wired_scheduler orc) ks (\<lambda>_. ks) (card (dom (tasks (wired_scheduler orc)))) now w \<noteq> None"
    by (rule tick_returns [OF _ ks ks order_refl]) (simp add: tasks assms)
  then obtain s w' log where
    "tick (load_zone env) (wired_scheduler orc) ks (\<lambda>_. ks) (card (dom (tasks (wired_scheduler orc)))) now w = Some (s, w', log)"
    by (metis not_None_eq prod_cases3)
  then show ?thesis by (fastforce simp: orch_tick_def)
qed

definition completes :: "('w, 'h, 'v, 'b) server_env \<Rightarrow> ('w, 'd) process \<Rightarrow> bool" where
  "completes env p \<longleftrightarrow> (\<exists>p'. (prog_step env)\<^sup>*\<^sup>* p p' \<and> pr_phase p' = Exited)"

lemma completes_step: "prog_step env p p' \<Longrightarrow> completes env p' \<Longrightarrow> completes env p"
  unfolding completes_def by (meson converse_rtranclp_into_rtranclp)

lemma completes_main: "main_step p = Some p' \<Longrightarrow> completes env p' \<Longrightarrow> completes env p"
  by (blast intro: completes_step prog_step.main)

lemma completes_exited: "pr_phase p = Exited \<Longrightarrow> completes env p"
  unfolding completes_def by blast

lemma completes_closing: "pr_phase p = Closing \<Longrightarrow> completes env p"
  by (rule completes_main [OF _ completes_exited]) (simp add: main_step_def, simp)

lemma completes_cancelling: "pr_phase p = Cancelling_Context \<Longrightarrow> completes env p"
  by (rule completes_main [OF _ completes_closing]) (simp add: main_step_def, simp)

lemma completes_waited: "pr_phase p = Waiting_Tasks \<Longrightarrow> live_loops p = [] \<Longrightarrow> completes env p"
  by (rule completes_main [OF _ completes_cancelling]) (simp add: main_step_def wg_zero_def, simp)

lemma completes_idle:
  assumes "loop_inv p" "pr_phase p = Waiting_Tasks" "live_loops p = [(c, False)]"
  shows "completes env p"
proof -
  from assms have "c \<in> set (cx_lineage (sl_ctx (pr_sched p)) c)" "c \<in> cx_cancelled (sl_ctx (pr_sched p))"
    unfolding loop_inv_def by auto
  then have "ctx_Done (sl_ctx (pr_sched p)) c" unfolding ctx_Done_def list_ex_iff by blast
  then have "prog_step env p (set_loops p ([] @ []))"
    using assms(2,3) by (intro prog_step.loop_exit [where c = c]) (simp_all add: alive_def)
  then show ?thesis
    by (rule completes_step [OF _ completes_waited]) (use assms(2) in \<open>simp_all add: set_loops_def\<close>)
qed

text \<open>A tick that is under way returns, and the loop is idle again.\<close>

lemma completes_busy:
  assumes "loop_inv p" "pr_phase p = Waiting_Tasks" "live_loops p = [(c, True)]"
    and "sv_orchestrator (pr_srv p) = Some orc" "tasks_inv (tasks (o_taskSched orc))"
  shows "completes env p"
proof -
  obtain ks ord fuel w' orc' log where
    "orch_tick (se_orch env) orc ks ord fuel 0 (pr_world p) = Some (w', orc', log)"
    using tick_possible [OF assms(5)] by blast
  then have step: "prog_step env p ((set_loops p ([] @ (c, False) # []))
      \<lparr>pr_srv := (pr_srv p)\<lparr>sv_orchestrator := Some orc'\<rparr>, pr_world := w'\<rparr>)"
    using assms(2,3,4) by (intro prog_step.tick) (simp_all add: alive_def)
  show ?thesis
    by (rule completes_step [OF step completes_idle [OF prog_step_inv [OF step assms(1)]]])
      (use assms(2) in \<open>simp_all add: set_loops_def\<close>)
qed

lemma completes_waiting:
  assumes "loop_inv p" "pr_phase p = Waiting_Tasks" "sv_orchestrator (pr_srv p) = Some orc" "tasks_inv (tasks (o_taskSched orc))"
  shows "completes env p"
proof -
  obtain c where "live_loops p = [] \<or> map fst (live_loops p) = [c]" using loop_inv_loops [OF assms(1)] by (rule exE)
  then consider "live_loops p = []" | "live_loops p = [(c, False)]" | "live_loops p = [(c, True)]"
    by (cases "snd (hd (live_loops p))") (auto simp: map_eq_Cons_conv)
  then show ?thesis using assms by cases (blast intro: completes_waited completes_idle completes_busy)+
qed

definition at_phase :: "('w, 'd) Orchestrator \<Rightarrow> phase \<Rightarrow> ('w, 'd) process \<Rightarrow> bool" where
  "at_phase orc ph p \<longleftrightarrow> loop_inv p \<and> pr_phase p = ph \<and> sv_orchestrator (pr_srv p) = Some orc"

text \<open>A step of main from one phase to the next.\<close>

lemma completes_via:
  assumes "at_phase orc ph p" "pr_phase p = ph \<Longrightarrow> loop_inv p \<Longrightarrow> \<exists>p'. main_step p = Some p' \<and> pr_phase p' = ph'"
    and "\<And>p'. at_phase orc ph' p' \<Longrightarrow> completes env p'"
  shows "completes env p"
proof -
  from assms(1,2) obtain p' where step: "main_step p = Some p'" "pr_phase p' = ph'" unfolding at_phase_def by blast
  then have "at_phase orc ph' p'"
    using assms(1) main_step_inv [OF step(1)] main_step_srv [OF step(1)] by (simp add: at_phase_def)
  with assms(3) step(1) show ?thesis by (blast intro: completes_main)
qed

lemma reachable_completes:
  assumes "prog_reachable st d env p" "pr_phase p \<noteq> Listening" "pr_phase p \<noteq> Died"
    and "\<And>orc. sv_orchestrator (pr_srv p) = Some orc \<Longrightarrow> tasks_inv (tasks (o_taskSched orc))"
  shows "completes env p"
proof -
  from prog_reachable_inv [OF assms(1)] have inv: "sv_orchestrator (pr_srv p) \<noteq> None" "loop_inv p" by blast+
  from inv(1) obtain orc where orc: "sv_orchestrator (pr_srv p) = Some orc" by blast
  note ok = assms(4) [OF this]
  have waiting: "completes env p'" if "at_phase orc Waiting_Tasks p'" for p'
    by (rule completes_waiting [OF _ _ _ ok]) (use that in \<open>simp_all add: at_phase_def\<close>)
  have cancelling: "completes env p'" if "at_phase orc Cancelling_Tasks p'" for p'
    by (rule completes_via [OF that _ waiting]) (simp add: main_step_def)
  have stopping: "completes env p'" if "at_phase orc Stopping_Sessions p'" for p'
    by (rule completes_via [OF that _ cancelling]) (simp add: main_step_def session_Stop_def loop_inv_def)
  have draining: "completes env p'" if "at_phase orc Draining p'" for p'
    by (rule completes_via [OF that _ stopping]) (simp add: main_step_def)
  show ?thesis
    using assms(2,3) inv(2) orc draining stopping cancelling waiting completes_cancelling completes_closing completes_exited
    by (cases "pr_phase p") (simp_all add: at_phase_def)
qed

text \<open>
  C13. A shutdown that has begun can always be completed: from every state after the signal that the process can
  reach, with requests and a tick of the scheduler still under way, the deferred calls can run to the end of the
  process. In particular the wait for the scheduler is never for a loop that was not told to stop. The tasks must have
  names that are not empty; the tick of a started task without a name does not return.
\<close>

theorem shutdown_completes:
  assumes "prog_reachable st d env p" "pr_phase p \<noteq> Listening" "pr_phase p \<noteq> Died"
    and "\<And>orc. sv_orchestrator (pr_srv p) = Some orc \<Longrightarrow> tasks_inv (tasks (o_taskSched orc))"
  shows "\<exists>p'. (prog_step env)\<^sup>*\<^sup>* p p' \<and> pr_phase p' = Exited"
  using reachable_completes [OF assms] by (simp add: completes_def)

subsection \<open>A run of the process\<close>

lemma sample_signalled:
  "\<exists>(p :: (string list, nat) process). prog_reachable sample_start sample_driver sample_senv p \<and> pr_phase p = Draining \<and>
     (\<forall>orc. sv_orchestrator (pr_srv p) = Some orc \<longrightarrow> tasks_inv (tasks (o_taskSched orc)))"
proof -
  obtain w and srv :: "(string list, nat) Server" and tls where
    run: "main_start sample_start sample_driver default_flags [] = (w, Serving srv tls)"
    using sample_started by blast
  let ?p = "(launch srv w)\<lparr>pr_phase := Draining\<rparr>"
  have "prog_step sample_senv (launch srv w) ?p"
    by (rule prog_step.signal) (simp add: launch_def split: prod.split)
  then have "prog_reachable sample_start sample_driver sample_senv ?p"
    by (rule prog_reachable.step [OF prog_reachable.started [OF run]])
  moreover have "pr_srv ?p = srv" by (simp add: launch_def split: prod.split)
  moreover have "tasks_inv (tasks (o_taskSched orc))" if "sv_orchestrator srv = Some orc" for orc
    using run that by (elim main_start_Serving)
      (auto simp: server_New_def orch_New_def SetStreamHasDataFn_def NewScheduler_def tasks_inv_def)
  ultimately show ?thesis by (intro exI [of _ ?p]) simp
qed

theorem shutdown_completes_witness:
  "\<exists>(p :: (string list, nat) process) p'. pr_phase p = Draining \<and> (prog_step sample_senv)\<^sup>*\<^sup>* p p' \<and> pr_phase p' = Exited"
proof -
  obtain p :: "(string list, nat) process" where p: "prog_reachable sample_start sample_driver sample_senv p"
    "pr_phase p = Draining" "\<forall>orc. sv_orchestrator (pr_srv p) = Some orc \<longrightarrow> tasks_inv (tasks (o_taskSched orc))"
    using sample_signalled by blast
  have "\<exists>p'. (prog_step sample_senv)\<^sup>*\<^sup>* p p' \<and> pr_phase p' = Exited"
    by (rule shutdown_completes [OF p(1)]) (use p(2,3) in auto)
  with p(2) show ?thesis by blast
qed

lemma prog_reachable_star: "(prog_step env)\<^sup>*\<^sup>* p p' \<Longrightarrow> prog_reachable st d env p \<Longrightarrow> prog_reachable st d env p'"
  by (induction rule: rtranclp_induct) (auto intro: prog_reachable.step)

theorem shutdown_in_order_witness:
  "\<exists>p :: (string list, nat) process. pr_phase p = Exited \<and> live_loops p = [] \<and> pr_done p"
proof -
  obtain p :: "(string list, nat) process" where p: "prog_reachable sample_start sample_driver sample_senv p"
    "pr_phase p = Draining" "\<forall>orc. sv_orchestrator (pr_srv p) = Some orc \<longrightarrow> tasks_inv (tasks (o_taskSched orc))"
    using sample_signalled by blast
  have "completes sample_senv p" by (rule reachable_completes [OF p(1)]) (use p(2,3) in auto)
  then obtain p' where p': "(prog_step sample_senv)\<^sup>*\<^sup>* p p'" "pr_phase p' = Exited" unfolding completes_def by blast
  from shutdown_in_order [OF prog_reachable_star [OF p'(1) p(1)]] p'(2) show ?thesis by auto
qed

text \<open>
  The program starts its scheduler once. A second start would forget the context of the first: \<^verbatim>\<open>Stop\<close> would cancel
  only the later loop and wait for the earlier one as long as the context of the caller is not cancelled.
\<close>

lemma second_start_not_stopped:
  assumes "fst ` set (sl_loops l) \<subseteq> {..< cx_next (sl_ctx l)}" "sl_loops l = [(c, False)]" "\<not> ctx_Done (sl_ctx l) c"
    and "cx_next (sl_ctx l) \<notin> set (cx_lineage (sl_ctx l) c)"
  shows "(c, False) \<in> set (sl_loops (sched_Stop (sched_Start parent l))) \<and> \<not> ctx_Done (sl_ctx (sched_Stop (sched_Start parent l))) c"
  using assms by (auto simp: sched_Start_def sched_Stop_def WithCancel_def ctx_cancel_def ctx_Done_def list_ex_iff Let_def)

end
