(* ===== verification/Marker_Roundtrip.thy ===== *)
theory Marker_Roundtrip
  imports Dml_Target
begin

text \<open>
  The interface between the rewriter and the orchestrator. The rewriter turns a statement it does not pass on to the
  SQL engine into a comment, a marker with the name of the statement's kind and its text; the orchestrator finds
  the marker again with a regular expression for every kind. Here the expressions are proved to find
  exactly what the rewriter left in the marker.
\<close>

subsection \<open>Matching literals, blanks and lazy text\<close>

definition sp :: re where "sp = Cls False False [ISpace]"

fun lit_cat :: "string \<Rightarrow> re \<Rightarrow> re" where
  "lit_cat [] r = r"
| "lit_cat (c # cs) r = Cat (Cls False False [IChar c]) (lit_cat cs r)"

lemma in_class_char [simp]: "in_class False False [IChar d] c \<longleftrightarrow> c = d"
  by (simp add: in_class_def)

lemma in_class_space [simp]: "in_class False False [ISpace] c \<longleftrightarrow> Go_Regexp.re_space c"
  by (simp add: in_class_def)

lemma rmatch_lit:
  "rmatch (Run (lit_cat cs r) # k) p (cs @ s) c = rmatch (Run r # k) (if cs = [] then p else Some (last cs)) s c"
  by (induction cs arbitrary: p) auto

lemma rmatch_lit_None: "\<not> HasPrefix s cs \<Longrightarrow> rmatch (Run (lit_cat cs r) # k) p s c = None"
proof (induction cs arbitrary: p s)
  case (Cons d cs)
  then show ?case by (cases s) auto
qed simp

lemma re_space_blank: "Go_Regexp.re_space (CHR '' '')"
  by (simp add: Go_Regexp.re_space_def)

lemma rmatch_space: "rmatch (Run sp # k) p s c =
    (case s of [] \<Rightarrow> None | x # s' \<Rightarrow> if Go_Regexp.re_space x then rmatch k (Some x) s' c else None)"
  by (simp add: sp_def split: list.split)

text \<open>A greedy run of blanks: it takes them all, or matching goes on nowhere behind it.\<close>

lemma rmatch_spaces:
  assumes "list_all Go_Regexp.re_space u" "v = [] \<or> \<not> Go_Regexp.re_space (hd v)" "\<And>p. rmatch k p v c = Some q"
  shows "rmatch (Run (Star True sp) # k) p (u @ v) c = Some q"
  using assms(1)
proof (induction u arbitrary: p)
  case Nil
  have "rmatch (Run sp # Again (length v) True sp # k) p v c = None"
    using assms(2) by (cases v) (auto simp: rmatch_space)
  with assms(3) show ?case by simp
qed (simp add: rmatch_space)

lemma rmatch_spaces_None:
  assumes "\<And>u v p. s = u @ v \<Longrightarrow> list_all Go_Regexp.re_space u \<Longrightarrow> rmatch k p v c = None"
  shows "rmatch (Run (Star True sp) # k) p s c = None"
  using assms
proof (induction s arbitrary: p)
  case Nil
  from Nil [of "[]" "[]"] show ?case by (simp add: rmatch_space)
next
  case (Cons x s)
  from Cons.prems [of "[]" "x # s"] have here: "rmatch k p (x # s) c = None" for p by simp
  have "rmatch (Run (Star True sp) # k) p s c = None" if "Go_Regexp.re_space x" for p
  proof (rule Cons.IH)
    fix u v p
    assume "s = u @ v" "list_all Go_Regexp.re_space u"
    with that Cons.prems [of "x # u" v] show "rmatch k p v c = None" by simp
  qed
  with here show ?case by (simp add: rmatch_space)
qed

text \<open>A greedy word ends at the blank behind it.\<close>

definition not_sp :: re where "not_sp = Cls False False [INotSpace]"

lemma rmatch_not_sp:
  "rmatch (Run not_sp # k) p (x # s) c = (if Go_Regexp.re_space x then None else rmatch k (Some x) s c)"
  by (simp add: not_sp_def in_class_def)

lemma rmatch_word:
  assumes "list_all (\<lambda>x. \<not> Go_Regexp.re_space x) t" "Go_Regexp.re_space b" "\<And>p. rmatch k p (b # v) c = Some q"
  shows "rmatch (Run (Star True not_sp) # k) p (t @ b # v) c = Some q"
  using assms(1)
proof (induction t arbitrary: p)
  case Nil
  with assms(2,3) show ?case by (simp add: not_sp_def in_class_def)
qed (simp add: not_sp_def in_class_def)

text \<open>Lazy text stops where what follows it matches for the first time.\<close>

lemma rmatch_lazy:
  assumes "\<And>i p. i < length t \<Longrightarrow> rmatch k p (drop i t @ s) c = None" "\<And>p. rmatch k p s c = Some q"
  shows "rmatch (Run (Star False (Dot True)) # k) p (t @ s) c = Some q"
  using assms(1)
proof (induction t arbitrary: p)
  case Nil
  with assms(2) show ?case by simp
next
  case (Cons x t)
  have "rmatch k p (x # t @ s) c = None" for p using Cons.prems [of 0] by simp
  moreover have "rmatch (Run (Star False (Dot True)) # k) p (t @ s) c = Some q" for p
    by (rule Cons.IH) (use Cons.prems [of "Suc _"] in simp)
  ultimately show ?case by simp
qed


subsection \<open>The shape of the expressions\<close>

definition marker_re :: "string \<Rightarrow> re \<Rightarrow> re" where
  "marker_re name r = lit_cat ''/*'' (Cat (Star True sp) (lit_cat (''MINIFLAKE_'' @ name) r))"

definition close_re :: re where
  "close_re = lit_cat ''*'' (Cls False False [IChar (CHR ''/'')])"

text \<open>Behind the name: the text of a statement, or a single word.\<close>

definition body_tail :: re where
  "body_tail = Cat sp (Cat (Star True sp) (Cat (Grp 1 (Star False (Dot True))) (Cat (Star True sp) close_re)))"

definition word_tail :: re where
  "word_tail = Cat sp (Cat (Star True sp) (Cat (Grp 1 (Cat not_sp (Star True not_sp))) (Cat (Star True sp) close_re)))"

fun strip_lit :: "string \<Rightarrow> re \<Rightarrow> re option" where
  "strip_lit [] r = Some r"
| "strip_lit (c # cs) (Cat (Cls False False [IChar d]) r) = (if c = d then strip_lit cs r else None)"
| "strip_lit _ _ = None"

definition is_marker :: "string \<Rightarrow> re \<Rightarrow> bool" where
  "is_marker name r =
     (case strip_lit ''/*'' r of
        Some (Cat (Star True (Cls False False [ISpace])) r') \<Rightarrow> \<not> Option.is_none (strip_lit (''MINIFLAKE_'' @ name) r')
      | _ \<Rightarrow> False)"

lemma strip_lit_cat: "strip_lit cs r = Some r' \<Longrightarrow> r = lit_cat cs r'"
  by (induction cs r rule: strip_lit.induct) (auto split: if_splits)

lemma is_markerD: "is_marker name r \<Longrightarrow> \<exists>t. r = marker_re name t"
  unfolding is_marker_def marker_re_def sp_def Option.is_none_def
  by (auto dest!: strip_lit_cat split: option.splits re.splits bool.splits list.splits re_item.splits)

lemma marker_names:
  "is_marker ''USE_'' reMarkerUse" "is_marker ''COPY_INTO'' reMarkerCopyInto" "is_marker ''PUT'' reMarkerPut"
  "is_marker ''GET'' reMarkerGet" "is_marker ''LIST'' reMarkerList" "is_marker ''REMOVE'' reMarkerRemove"
  "is_marker ''CREATE_STREAM'' reMarkerCreateStream" "is_marker ''DROP_STREAM'' reMarkerDropStream"
  "is_marker ''SHOW_STREAMS'' reMarkerShowStreams" "is_marker ''CREATE_TASK'' reMarkerCreateTask"
  "is_marker ''DROP_TASK'' reMarkerDropTask" "is_marker ''ALTER_TASK'' reMarkerAlterTask"
  "is_marker ''SHOW_TASKS'' reMarkerShowTasks" "is_marker ''EXECUTE_TASK'' reMarkerExecuteTask"
  "is_marker ''CREATE_PIPE'' reMarkerCreatePipe" "is_marker ''DROP_PIPE'' reMarkerDropPipe"
  "is_marker ''SHOW_PIPES'' reMarkerShowPipes" "is_marker ''SHOW_PARAMETERS'' reMarkerShowParameters"
  "is_marker ''UNDROP_TABLE'' reMarkerUndropTable"
  by code_simp+

lemma body_markers:
  "reMarkerCopyInto = marker_re ''COPY_INTO'' body_tail" "reMarkerPut = marker_re ''PUT'' body_tail"
  "reMarkerGet = marker_re ''GET'' body_tail" "reMarkerList = marker_re ''LIST'' body_tail"
  "reMarkerRemove = marker_re ''REMOVE'' body_tail" "reMarkerCreateStream = marker_re ''CREATE_STREAM'' body_tail"
  "reMarkerCreateTask = marker_re ''CREATE_TASK'' body_tail" "reMarkerCreatePipe = marker_re ''CREATE_PIPE'' body_tail"
  by code_simp+

lemma word_markers:
  "reMarkerExecuteTask = marker_re ''EXECUTE_TASK'' word_tail" "reMarkerUndropTable = marker_re ''UNDROP_TABLE'' word_tail"
  by code_simp+

subsection \<open>A marker matches no expression of another kind\<close>

lemma find_re_None: "(\<And>u v p. s = u @ v \<Longrightarrow> rmatch_at r p v = None) \<Longrightarrow> find_re r p s = None"
proof (induction s arbitrary: p)
  case Nil
  from Nil [of "[]" "[]"] show ?case by (subst find_re.simps) simp
next
  case (Cons x s)
  have "rmatch_at r p (x # s) = None" for p using Cons.prems [of "[]" "x # s"] by simp
  moreover have "find_re r (Some x) s = None" by (rule Cons.IH) (use Cons.prems [of "x # _"] in simp)
  ultimately show ?case by (subst find_re.simps) simp
qed

lemma Contains_Cons: "Contains (c # s) p \<longleftrightarrow> HasPrefix (c # s) p \<or> Contains s p"
  by (auto simp: Contains_def)

lemma Contains_pair_append:
  assumes "x \<noteq> y"
  shows "Contains (a @ b) [x, y] \<longleftrightarrow> Contains a [x, y] \<or> Contains b [x, y] \<or> (a \<noteq> [] \<and> b \<noteq> [] \<and> last a = x \<and> hd b = y)"
proof (induction a)
  case (Cons c a)
  show ?case
  proof (cases a)
    case Nil
    then show ?thesis by (cases b) (auto simp: Contains_Cons Contains_def)
  next
    case (Cons d a')
    with Cons.IH show ?thesis by (auto simp: Contains_Cons)
  qed
qed (simp add: Contains_def)

lemma no_open_without_slash: "CHR ''/'' \<notin> set a \<Longrightarrow> \<not> Contains a ''/*''"
  by (induction a) (auto simp: Contains_Cons, simp add: Contains_def)

lemma marker_tail_no_open:
  assumes "CHR ''/'' \<notin> set name" "\<not> Contains t ''/*''"
  shows "\<not> Contains (''* MINIFLAKE_'' @ name @ '' '' @ t @ '' */'') ''/*''"
proof -
  have "\<not> Contains '' */'' ''/*''" by code_simp
  with assms(2) have "\<not> Contains (t @ '' */'') ''/*''" by (subst Contains_pair_append) auto
  moreover have "\<not> Contains ((''* MINIFLAKE_'' @ name) @ '' '') ''/*''" using assms(1) by (intro no_open_without_slash) simp
  ultimately have "\<not> Contains (((''* MINIFLAKE_'' @ name) @ '' '') @ (t @ '' */'')) ''/*''"
    by (subst Contains_pair_append) auto
  then show ?thesis by simp
qed

lemma marker_other:
  assumes "is_marker other r" "\<not> HasPrefix (name @ '' '' @ t @ '' */'') other" "CHR ''/'' \<notin> set name" "\<not> Contains t ''/*''"
  shows "FindStringSubmatch r (marker name t) = None"
proof -
  obtain tl' where r: "r = marker_re other tl'" using is_markerD [OF assms(1)] by blast
  have whole: "rmatch_at r p (marker name t) = None" for p
  proof -
    have "rmatch (Run (lit_cat (''MINIFLAKE_'' @ other) tl') # k) q v c = None"
      if "'' MINIFLAKE_'' @ name @ '' '' @ t @ '' */'' = u @ v" "list_all Go_Regexp.re_space u" for k q u v c
    proof (rule rmatch_lit_None)
      from that consider "u = []" | "u = '' ''" | s where "u = CHR '' '' # CHR ''M'' # s"
        by (cases u; cases "tl u") (auto simp: Cons_eq_append_conv)
      then show "\<not> HasPrefix v (''MINIFLAKE_'' @ other)"
        using that assms(2) by cases (auto simp: Go_Regexp.re_space_def)
    qed
    then have "rmatch [Run (Star True sp), Run (lit_cat (''MINIFLAKE_'' @ other) tl')] q
        ('' MINIFLAKE_'' @ name @ '' '' @ t @ '' */'') c = None" for q c
      by (intro rmatch_spaces_None) blast
    then show ?thesis
      using rmatch_lit [of "''/*''" _ "[]" p "'' MINIFLAKE_'' @ name @ '' '' @ t @ '' */''" "[]"]
      by (simp add: rmatch_at_def r marker_re_def marker_def)
  qed
  have "rmatch_at r p v = None" if "marker name t = u @ v" for u v p
  proof (cases u)
    case Nil
    with that whole show ?thesis by simp
  next
    case (Cons x u')
    with that have "''* MINIFLAKE_'' @ name @ '' '' @ t @ '' */'' = u' @ v" by (auto simp: marker_def)
    with marker_tail_no_open [OF assms(3,4)] have "\<not> HasPrefix v ''/*''"
      by (metis Contains_iff HasPrefix_iff append.assoc)
    then show ?thesis unfolding rmatch_at_def r marker_re_def by (rule rmatch_lit_None)
  qed
  then show ?thesis by (simp add: FindStringSubmatch_def find_re_None)
qed

subsection \<open>A marker matches the expression of its kind\<close>

text \<open>The text of a statement as the rewriter leaves it: no blank at its ends, and it neither opens nor closes a comment.\<close>

definition marker_text :: "string \<Rightarrow> bool" where
  "marker_text t \<longleftrightarrow> t \<noteq> '''' \<and> \<not> Go_Regexp.re_space (hd t) \<and> \<not> Go_Regexp.re_space (last t) \<and>
     \<not> Contains t ''/*'' \<and> \<not> Contains t ''*/''"

definition marker_word :: "string \<Rightarrow> bool" where
  "marker_word t \<longleftrightarrow> t \<noteq> '''' \<and> list_all (\<lambda>c. \<not> Go_Regexp.re_space c) t \<and> \<not> Contains t ''/*''"

lemma rmatch_close: "rmatch (Run close_re # k) p (''*/'' @ s) c = rmatch k (Some (CHR ''/'')) s c"
  by (simp add: close_re_def)

lemma rmatch_close_None: "\<not> HasPrefix v ''*/'' \<Longrightarrow> rmatch (Run close_re # k) p v c = None"
  by (cases v; cases "tl v") (auto simp: close_re_def)

text \<open>The end of a marker.\<close>

lemma rmatch_end: "rmatch [Run (Star True sp), Run close_re] p '' */'' c = Some ('''', c)"
proof -
  have "rmatch [Run close_re] p ''*/'' c = Some ('''', c)" for p using rmatch_close [of "[]" p "''''" c] by simp
  then have "rmatch [Run (Star True sp), Run close_re] p ('' '' @ ''*/'') c = Some ('''', c)"
    by (intro rmatch_spaces) (simp_all add: Go_Regexp.re_space_def)
  then show ?thesis by simp
qed

text \<open>No place inside the text can be taken for the end.\<close>

lemma rmatch_end_None:
  assumes "marker_text t" "i < length t"
  shows "rmatch [Run (Star True sp), Run close_re] p (drop i t @ '' */'') c = None"
proof (intro rmatch_spaces_None rmatch_close_None notI)
  fix u v
  assume split: "drop i t @ '' */'' = u @ v" and blank: "list_all Go_Regexp.re_space u" and "HasPrefix v ''*/''"
  then obtain s where v: "v = ''*/'' @ s" by (auto simp: HasPrefix_iff)
  have ends: "drop i t \<noteq> []" "last (drop i t) = last t" using assms(2) by auto
  have inside: "\<not> Contains (drop i t) ''*/''"
    using assms(1) Contains_pair_append [of "CHR ''*''" "CHR ''/''" "take i t" "drop i t"] by (simp add: marker_text_def)
  obtain x where "u = drop i t @ x \<or> drop i t = u @ x \<and> x @ '' */'' = v"
    using split [unfolded append_eq_append_conv2] by blast
  then consider "u = drop i t @ x" | "drop i t = u @ x" "x \<noteq> []" "x @ '' */'' = v"
    using v by (cases "x = []") auto
  then show False
  proof cases
    case 1
    with blank ends have "Go_Regexp.re_space (last t)" by (metis last_in_set list_all_append list_all_iff)
    with assms(1) show False by (simp add: marker_text_def)
  next
    case 2
    from 2(2,3) v obtain x' where "x = ''*/'' @ x'"
      by (cases x; cases "tl x") (auto simp: Cons_eq_append_conv)
    with 2(1) inside show False by (auto simp: Contains_iff)
  qed
qed

text \<open>The opening of a marker, up to the text behind its name.\<close>

lemma rmatch_open:
  assumes "t \<noteq> ''''" "\<not> Go_Regexp.re_space (hd t)" "\<And>p. rmatch [Run r] p (t @ '' */'') [] = Some q"
  shows "rmatch_at (marker_re name (Cat sp (Cat (Star True sp) r))) p (marker name t) = Some q"
proof -
  have "rmatch [Run (Star True sp), Run r] p ([] @ t @ '' */'') [] = Some q" for p
    by (rule rmatch_spaces) (use assms in auto)
  then have "rmatch [Run (Cat sp (Cat (Star True sp) r))] p ('' '' @ t @ '' */'') [] = Some q" for p
    by (simp only: rmatch_cat rmatch_space append.simps list.case re_space_blank if_True)
  then have "rmatch [Run (lit_cat (''MINIFLAKE_'' @ name) (Cat sp (Cat (Star True sp) r)))] p
      ((''MINIFLAKE_'' @ name) @ '' '' @ t @ '' */'') [] = Some q" for p
    by (subst rmatch_lit) simp
  then have "rmatch [Run (Star True sp), Run (lit_cat (''MINIFLAKE_'' @ name) (Cat sp (Cat (Star True sp) r)))] p
      ('' '' @ (''MINIFLAKE_'' @ name) @ '' '' @ t @ '' */'') [] = Some q" for p
    by (intro rmatch_spaces) (simp_all add: Go_Regexp.re_space_def)
  then show ?thesis
    using rmatch_lit [of "''/*''" _ "[]" p "'' MINIFLAKE_'' @ name @ '' '' @ t @ '' */''" "[]"]
    by (simp add: rmatch_at_def marker_re_def marker_def)
qed

lemma FindStringSubmatch_start:
  "rmatch_at r None s = Some ('''', c) \<Longrightarrow> FindStringSubmatch r s = Some (re_group s c)"
  by (simp add: FindStringSubmatch_def find_re.simps)

lemma marker_body:
  assumes "marker_text t"
  shows "FindStringSubmatch (marker_re name body_tail) (marker name t) = Some (re_group (marker name t) [(1, t)])"
proof -
  have "rmatch [CloseG 1 (t @ '' */''), Run (Cat (Star True sp) close_re)] p (drop i t @ '' */'') [] = None"
    if "i < length t" for i p
    using rmatch_end_None [OF assms that] by simp
  moreover have "rmatch [CloseG 1 (t @ '' */''), Run (Cat (Star True sp) close_re)] p '' */'' [] = Some ('''', [(1, t)])" for p
    using rmatch_end [of p "[(1, t)]"] by simp
  ultimately have "rmatch [Run (Star False (Dot True)), CloseG 1 (t @ '' */''), Run (Cat (Star True sp) close_re)] p
      (t @ '' */'') [] = Some ('''', [(1, t)])" for p
    by (rule rmatch_lazy)
  then have "rmatch [Run (Cat (Grp 1 (Star False (Dot True))) (Cat (Star True sp) close_re))] p (t @ '' */'') [] =
      Some ('''', [(1, t)])" for p
    by (simp only: rmatch_cat rmatch_grp)
  with assms show ?thesis
    unfolding body_tail_def by (intro FindStringSubmatch_start rmatch_open) (simp_all add: marker_text_def)
qed

lemma marker_one_word:
  assumes "marker_word t"
  shows "FindStringSubmatch (marker_re name word_tail) (marker name t) = Some (re_group (marker name t) [(1, t)])"
proof -
  obtain x u where t: "t = x # u" using assms by (cases t) (auto simp: marker_word_def)
  have blanks: "\<not> Go_Regexp.re_space x" "list_all (\<lambda>c. \<not> Go_Regexp.re_space c) u"
    using assms by (simp_all add: marker_word_def t)
  have "rmatch [CloseG 1 (t @ '' */''), Run (Cat (Star True sp) close_re)] p '' */'' [] = Some ('''', [(1, t)])" for p
    using rmatch_end [of p "[(1, t)]"] by simp
  then have "rmatch [Run (Star True not_sp), CloseG 1 (t @ '' */''), Run (Cat (Star True sp) close_re)] p
      (u @ CHR '' '' # ''*/'') [] = Some ('''', [(1, t)])" for p
    using blanks(2) by (intro rmatch_word) (simp_all add: re_space_blank)
  then have "rmatch [Run not_sp, Run (Star True not_sp), CloseG 1 (t @ '' */''), Run (Cat (Star True sp) close_re)] p
      (t @ '' */'') [] = Some ('''', [(1, t)])" for p
    using blanks(1) by (simp only: t rmatch_not_sp append.simps if_False)
  then have "rmatch [Run (Cat (Grp 1 (Cat not_sp (Star True not_sp))) (Cat (Star True sp) close_re))] p (t @ '' */'') [] =
      Some ('''', [(1, t)])" for p
    by (simp only: rmatch_cat rmatch_grp)
  with blanks(1) show ?thesis
    unfolding word_tail_def by (intro FindStringSubmatch_start rmatch_open) (simp_all add: t)
qed

subsection \<open>The handlers receive what the rewriter wrote\<close>

lemmas marker_kinds = marker_names [THEN marker_other]


lemma text_group [simp]: "re_group s [(Suc 0, t)] (Suc 0) = t"
  by (simp add: re_group_def)

lemma text_markers_routed:
  assumes "marker_text t"
  shows "handleSpecialMarkers env orc sess (marker ''COPY_INTO'' t) w = with_session sess (handleCopyInto env orc sess t w)"
    and "handleSpecialMarkers env orc sess (marker ''PUT'' t) w = with_session sess (on_stages orc (handlePut env (o_stageMgr orc) sess t w))"
    and "handleSpecialMarkers env orc sess (marker ''GET'' t) w = with_session sess (on_stages orc (handleGet env (o_stageMgr orc) sess t w))"
    and "handleSpecialMarkers env orc sess (marker ''LIST'' t) w = with_session sess (on_stages orc (handleListStage env (o_stageMgr orc) sess t w))"
    and "handleSpecialMarkers env orc sess (marker ''REMOVE'' t) w = with_session sess (on_stages orc (handleRemoveStage env (o_stageMgr orc) sess t w))"
    and "handleSpecialMarkers env orc sess (marker ''CREATE_STREAM'' t) w = with_session sess (handleCreateStream env orc sess t w)"
    and "handleSpecialMarkers env orc sess (marker ''CREATE_TASK'' t) w = with_session sess (handleCreateTask env orc sess t w)"
    and "handleSpecialMarkers env orc sess (marker ''CREATE_PIPE'' t) w = with_session sess (handleCreatePipe env orc sess t w)"
proof -
  have plain: "\<not> Contains t ''/*''" using assms by (simp add: marker_text_def)
  note route = handleSpecialMarkers_def marker_handlers_def marker_kinds plain
    marker_body [OF assms, of "''COPY_INTO''", folded body_markers] marker_body [OF assms, of "''PUT''", folded body_markers]
    marker_body [OF assms, of "''GET''", folded body_markers] marker_body [OF assms, of "''LIST''", folded body_markers]
    marker_body [OF assms, of "''REMOVE''", folded body_markers]
    marker_body [OF assms, of "''CREATE_STREAM''", folded body_markers]
    marker_body [OF assms, of "''CREATE_TASK''", folded body_markers]
    marker_body [OF assms, of "''CREATE_PIPE''", folded body_markers]
  show "handleSpecialMarkers env orc sess (marker ''COPY_INTO'' t) w = with_session sess (handleCopyInto env orc sess t w)"
    by (simp add: route)
  show "handleSpecialMarkers env orc sess (marker ''PUT'' t) w = with_session sess (on_stages orc (handlePut env (o_stageMgr orc) sess t w))"
    by (simp add: route)
  show "handleSpecialMarkers env orc sess (marker ''GET'' t) w = with_session sess (on_stages orc (handleGet env (o_stageMgr orc) sess t w))"
    by (simp add: route)
  show "handleSpecialMarkers env orc sess (marker ''LIST'' t) w = with_session sess (on_stages orc (handleListStage env (o_stageMgr orc) sess t w))"
    by (simp add: route)
  show "handleSpecialMarkers env orc sess (marker ''REMOVE'' t) w = with_session sess (on_stages orc (handleRemoveStage env (o_stageMgr orc) sess t w))"
    by (simp add: route)
  show "handleSpecialMarkers env orc sess (marker ''CREATE_STREAM'' t) w = with_session sess (handleCreateStream env orc sess t w)"
    by (simp add: route)
  show "handleSpecialMarkers env orc sess (marker ''CREATE_TASK'' t) w = with_session sess (handleCreateTask env orc sess t w)"
    by (simp add: route)
  show "handleSpecialMarkers env orc sess (marker ''CREATE_PIPE'' t) w = with_session sess (handleCreatePipe env orc sess t w)"
    by (simp add: route)
qed

lemma word_markers_routed:
  assumes "marker_word t"
  shows "handleSpecialMarkers env orc sess (marker ''EXECUTE_TASK'' t) w = with_session sess (handleExecuteTask env orc sess t w)"
    and "handleSpecialMarkers env orc sess (marker ''UNDROP_TABLE'' t) w = with_session sess (handleUndropTable env orc sess t w)"
proof -
  have plain: "\<not> Contains t ''/*''" using assms by (simp add: marker_word_def)
  note route = handleSpecialMarkers_def marker_handlers_def marker_kinds plain
    marker_one_word [OF assms, of "''EXECUTE_TASK''", folded word_markers]
    marker_one_word [OF assms, of "''UNDROP_TABLE''", folded word_markers]
  show "handleSpecialMarkers env orc sess (marker ''EXECUTE_TASK'' t) w = with_session sess (handleExecuteTask env orc sess t w)"
    by (simp add: route)
  show "handleSpecialMarkers env orc sess (marker ''UNDROP_TABLE'' t) w = with_session sess (handleUndropTable env orc sess t w)"
    by (simp add: route)
qed

text \<open>A statement that the rewriter turns into a marker is executed by the handler of the marker alone.\<close>

lemma execute_marker:
  assumes "Rewrite (TrimSpace sql) = Some rewritten" "handleSpecialMarkers env orc sess rewritten w = with_session sess out"
    and "rewritten \<noteq> ''''"
  shows "orch_ExecuteSQL env orc sess sql w = with_session sess out"
proof -
  have "Rewrite '''' = Some ''''" by code_simp
  with assms(1,3) have "TrimSpace sql \<noteq> ''''" by auto
  moreover obtain res where "with_session sess out = Some res" by (cases out) (simp add: with_session_def)
  ultimately show ?thesis using assms(1,2) by (simp add: orch_ExecuteSQL_def Let_def)
qed

lemmas execute_text_marker = execute_marker [OF _ text_markers_routed(1)] execute_marker [OF _ text_markers_routed(2)]
  execute_marker [OF _ text_markers_routed(3)] execute_marker [OF _ text_markers_routed(4)]
  execute_marker [OF _ text_markers_routed(5)] execute_marker [OF _ text_markers_routed(6)]
  execute_marker [OF _ text_markers_routed(7)] execute_marker [OF _ text_markers_routed(8)]

lemmas execute_word_marker = execute_marker [OF _ word_markers_routed(1)] execute_marker [OF _ word_markers_routed(2)]

lemma marker_nonempty: "marker kind t \<noteq> ''''"
  by (simp add: marker_def)

text \<open>
  C24. What the rewriter leaves in a marker is what the handler reads. When the rewriter turns a statement into the
  marker of a kind, executing the statement is calling the handler of that kind, no other one and nothing
  else, with exactly the text that stands in the marker: none of the expressions tried before takes the
  marker, and its own expression neither loses nor adds a character. The text has no blank at its ends and no comment
  bracket inside; for the two markers that carry a single name it is a word. (The text is the one that the rewriter
  returned. It is the statement where no rule behind the one that wrote the marker changed it.)
\<close>

theorem marker_reaches_handler:
  fixes env :: "('w, 'h, 'v) orch_env"
  assumes "marker_text t" "marker_word name"
  shows "(Rewrite (TrimSpace sql) = Some (marker ''COPY_INTO'' t) \<longrightarrow>
       orch_ExecuteSQL env orc sess sql w = with_session sess (handleCopyInto env orc sess t w)) \<and>
    (Rewrite (TrimSpace sql) = Some (marker ''PUT'' t) \<longrightarrow>
       orch_ExecuteSQL env orc sess sql w = with_session sess (on_stages orc (handlePut env (o_stageMgr orc) sess t w))) \<and>
    (Rewrite (TrimSpace sql) = Some (marker ''GET'' t) \<longrightarrow>
       orch_ExecuteSQL env orc sess sql w = with_session sess (on_stages orc (handleGet env (o_stageMgr orc) sess t w))) \<and>
    (Rewrite (TrimSpace sql) = Some (marker ''LIST'' t) \<longrightarrow>
       orch_ExecuteSQL env orc sess sql w = with_session sess (on_stages orc (handleListStage env (o_stageMgr orc) sess t w))) \<and>
    (Rewrite (TrimSpace sql) = Some (marker ''REMOVE'' t) \<longrightarrow>
       orch_ExecuteSQL env orc sess sql w = with_session sess (on_stages orc (handleRemoveStage env (o_stageMgr orc) sess t w))) \<and>
    (Rewrite (TrimSpace sql) = Some (marker ''CREATE_STREAM'' t) \<longrightarrow>
       orch_ExecuteSQL env orc sess sql w = with_session sess (handleCreateStream env orc sess t w)) \<and>
    (Rewrite (TrimSpace sql) = Some (marker ''CREATE_TASK'' t) \<longrightarrow>
       orch_ExecuteSQL env orc sess sql w = with_session sess (handleCreateTask env orc sess t w)) \<and>
    (Rewrite (TrimSpace sql) = Some (marker ''CREATE_PIPE'' t) \<longrightarrow>
       orch_ExecuteSQL env orc sess sql w = with_session sess (handleCreatePipe env orc sess t w)) \<and>
    (Rewrite (TrimSpace sql) = Some (marker ''EXECUTE_TASK'' name) \<longrightarrow>
       orch_ExecuteSQL env orc sess sql w = with_session sess (handleExecuteTask env orc sess name w)) \<and>
    (Rewrite (TrimSpace sql) = Some (marker ''UNDROP_TABLE'' name) \<longrightarrow>
       orch_ExecuteSQL env orc sess sql w = with_session sess (handleUndropTable env orc sess name w))"
  by (intro conjI impI)
    (erule execute_text_marker [OF _ assms(1) marker_nonempty] execute_word_marker [OF _ assms(2) marker_nonempty])+

theorem marker_reaches_handler_witness:
  "\<forall>(env :: (nat, nat, nat) orch_env) (orc :: (nat, nat) Orchestrator) sess w.
      orch_ExecuteSQL env orc sess '' LIST @s/in '' w =
        with_session sess (on_stages orc (handleListStage env (o_stageMgr orc) sess ''LIST @s/in'' w)) \<and>
      orch_ExecuteSQL env orc sess ''UNDROP TABLE d.s.t'' w = with_session sess (handleUndropTable env orc sess ''d.s.t'' w)"
proof -
  have ok: "marker_text ''LIST @s/in''" "marker_word ''d.s.t''" by code_simp+
  have "Rewrite (TrimSpace '' LIST @s/in '') = Some (marker ''LIST'' ''LIST @s/in'')"
    "Rewrite (TrimSpace ''UNDROP TABLE d.s.t'') = Some (marker ''UNDROP_TABLE'' ''d.s.t'')" by code_simp+
  with marker_reaches_handler [OF ok] show ?thesis by metis
qed

text \<open>
  The two sides of the condition on the text. A comment inside the statement ends its marker early: the
  handler of COPY INTO receives a statement without its source. And a marker is found anywhere in a statement, in a
  string literal too: a query that only selects such a text changes the role of the session.
\<close>

lemma comment_ends_marker:
  "Rewrite ''COPY INTO t /* daily */ FROM @s'' = Some (marker ''COPY_INTO'' ''COPY INTO t /* daily */ FROM @s'') \<and>
   map_option (\<lambda>m. m 1) (FindStringSubmatch reMarkerCopyInto (marker ''COPY_INTO'' ''COPY INTO t /* daily */ FROM @s'')) =
     Some ''COPY INTO t /* daily''"
  by code_simp

definition marker_literal :: string where
  "marker_literal = ''SELECT '' @ [CHR 0x27] @ ''/* MINIFLAKE_USE_ROLE x */'' @ [CHR 0x27]"

lemma literal_is_marker:
  "Rewrite marker_literal = Some marker_literal \<and>
   map_option (\<lambda>m. (m 1, m 2)) (FindStringSubmatch reMarkerUse marker_literal) = Some (''ROLE'', ''x'')"
  by code_simp

end
