(* ===== verification/Stream_Tasks.thy ===== *)
theory Stream_Tasks
  imports Orchestrator
begin

text \<open>
  The scheduler and the streams together: \<^verbatim>\<open>main.go\<close> installs the stream engine's \<^verbatim>\<open>HasData\<close> as the callback that the
  scheduler evaluates WHEN conditions with. The lemmas say what a tick does to a due root task, and that the log of a tick
  accounts for all its effects on the world.
\<close>

subsection \<open>Due roots\<close>

lemma root_no_successor: "ts k = Some t \<Longrightarrow> is_root t \<Longrightarrow> k \<notin> Range (depends ts db schema)"
  by (auto simp: depends_def is_root_def)

text \<open>The run of another root's tree leaves a root alone.\<close>

lemma executeDAG_other_root:
  assumes "tasks_inv (fst r)" "\<And>k. range_order (fst r) (ord k)" "card (dom (fst r)) \<le> fuel"
    and "fst r other = Some u" "is_root u" "fst r key = Some t" "is_root t" "key \<noteq> other"
    and "executeDAG load s ord now fuel other u r = Some r'"
  shows "fst r' key = Some t \<and> count_list (snd (snd r')) key = count_list (snd (snd r)) key"
proof (cases "evaluateWhen (streamHasDataFn s) (fst (snd r)) u")
  case False
  with assms(6,8,9) show ?thesis by (auto simp: executeDAG_def)
next
  case True
  obtain ts w log where r: "r = (ts, w, log)" by (metis prod_cases3)
  let ?D = "depends ts (t_DatabaseName u) (t_SchemaName u)"
  from executeDAG_tree [where load = load and now = now and log = log and ord = ord and s = s and w = w, OF
      assms(1) [unfolded r fst_conv] assms(4) [unfolded r fst_conv] assms(5)
      assms(2) [unfolded r fst_conv] assms(3) [unfolded r fst_conv]] True assms(9)
  obtain new where eff: "run_effect load now (other # new) (ts, w, log) r'"
    and sub: "subtree_run ?D (unconditional ts) other (?D\<^sup>+ `` {other}) new"
    unfolding r by auto
  have "key \<notin> set new"
  proof
    assume "key \<in> set new"
    with sub have "(other, key) \<in> ?D\<^sup>+" unfolding subtree_run_def by blast
    then have "key \<in> Range ?D" by (metis Range.intros trancl.cases)
    with root_no_successor [of ts key t] assms(6,7) r show False by simp
  qed
  with eff assms(6,8) show ?thesis unfolding r by (auto simp: run_effect_def)
qed

text \<open>A due root itself: run once, or put off.\<close>

lemma executeDAG_due_root:
  assumes "tasks_inv (fst r)" "\<And>k. range_order (fst r) (ord k)" "card (dom (fst r)) \<le> fuel"
    and "fst r key = Some t" "is_root t" "executeDAG load s ord now fuel key t r = Some r'"
  shows "if evaluateWhen (streamHasDataFn s) (fst (snd r)) t
    then fst r' key = Some (after_run load now t) \<and> count_list (snd (snd r')) key = Suc (count_list (snd (snd r)) key)
    else fst r' key = Some (t\<lparr>t_NextRunAt := Some (nextRunTime load (t_Schedule t) now)\<rparr>) \<and>
      count_list (snd (snd r')) key = count_list (snd (snd r)) key"
proof (cases "evaluateWhen (streamHasDataFn s) (fst (snd r)) t")
  case False
  with assms(6) show ?thesis by (auto simp: executeDAG_def)
next
  case True
  obtain ts w log where r: "r = (ts, w, log)" by (metis prod_cases3)
  from executeDAG_tree [where load = load and now = now and log = log and ord = ord and s = s and w = w, OF
      assms(1) [unfolded r fst_conv] assms(4) [unfolded r fst_conv] assms(5)
      assms(2) [unfolded r fst_conv] assms(3) [unfolded r fst_conv]] True assms(6)
  obtain new where "run_effect load now (key # new) (ts, w, log) r'" "key \<notin> set new"
    unfolding r by auto
  with True assms(4) show ?thesis unfolding r by (auto simp: run_effect_def)
qed

text \<open>One round of the loop over the roots.\<close>

definition root_round ::
  "(string \<Rightarrow> Location result) \<Rightarrow> 'w Scheduler \<Rightarrow> (string \<Rightarrow> string list) \<Rightarrow> nat \<Rightarrow> time \<Rightarrow> string \<Rightarrow> Task \<Rightarrow> 'w run \<Rightarrow> 'w run option"
where
  "root_round load s ord fuel now k u r =
     (case t_NextRunAt u of
        None \<Rightarrow> Some ((fst r)(k \<mapsto> u\<lparr>t_NextRunAt := Some (nextRunTime load (t_Schedule u) now)\<rparr>), snd r)
      | Some at \<Rightarrow> if now < at then Some r else executeDAG load s ord now fuel k u r)"

lemma tick_roots_round:
  "fst r k = Some u \<Longrightarrow> tick_roots load s ord fuel now (k # keys) r =
     Option.bind (root_round load s ord fuel now k u r) (tick_roots load s ord fuel now keys)"
  by (simp add: root_round_def split: option.split)

lemma root_round_static:
  "root_round load s ord fuel now k u r = Some r' \<Longrightarrow> fst r k = Some u \<Longrightarrow> same_static (fst r) (fst r')"
  by (auto simp: root_round_def same_static_upd executeDAG_static split: option.splits if_splits)

text \<open>The side conditions of a run, kept by each round.\<close>

definition run_ready :: "(string \<Rightarrow> string list) \<Rightarrow> nat \<Rightarrow> 'w run \<Rightarrow> bool" where
  "run_ready ord fuel r \<longleftrightarrow> tasks_inv (fst r) \<and> (\<forall>k. range_order (fst r) (ord k)) \<and> card (dom (fst r)) \<le> fuel"

lemma run_ready_static: "run_ready ord fuel r \<Longrightarrow> same_static (fst r) (fst r') \<Longrightarrow> run_ready ord fuel r'"
  by (auto simp: run_ready_def range_order_def same_static_dom intro: tasks_inv_static)

definition roots_of :: "(string \<rightharpoonup> Task) \<Rightarrow> string list \<Rightarrow> bool" where
  "roots_of ts keys \<longleftrightarrow> (\<forall>k\<in>set keys. \<exists>u. ts k = Some u \<and> is_root u)"

lemma roots_of_static: "roots_of ts keys \<Longrightarrow> same_static ts ts' \<Longrightarrow> roots_of ts' keys"
  unfolding roots_of_def by (meson same_staticD(2) is_root_static)

lemma root_round_other:
  assumes "run_ready ord fuel r" "fst r k = Some u" "is_root u" "fst r key = Some t" "is_root t" "key \<noteq> k"
    and "root_round load s ord fuel now k u r = Some r'"
  shows "fst r' key = Some t \<and> count_list (snd (snd r')) key = count_list (snd (snd r)) key"
proof -
  consider "r' = ((fst r)(k \<mapsto> u\<lparr>t_NextRunAt := Some (nextRunTime load (t_Schedule u) now)\<rparr>), snd r)"
    | "r' = r" | "executeDAG load s ord now fuel k u r = Some r'"
  proof (cases "t_NextRunAt u")
    case None
    with assms(7) that(1) show thesis by (simp add: root_round_def)
  next
    case (Some at)
    with assms(7) that(2,3) show thesis by (cases "now < at") (simp_all add: root_round_def)
  qed
  then show ?thesis
  proof cases
    case 3
    with executeDAG_other_root [of r ord fuel k u key t load s now r'] assms(1-6) show ?thesis
      by (simp add: run_ready_def)
  qed (use assms(4,6) in simp_all)
qed

lemma tick_roots_other:
  assumes "is_root t"
  shows "tick_roots load s ord fuel now keys r = Some r' \<Longrightarrow> run_ready ord fuel r \<Longrightarrow> roots_of (fst r) keys \<Longrightarrow>
    key \<notin> set keys \<Longrightarrow> fst r key = Some t \<Longrightarrow>
    fst r' key = Some t \<and> count_list (snd (snd r')) key = count_list (snd (snd r)) key"
proof (induction keys arbitrary: r)
  case (Cons k keys)
  from Cons.prems(3) obtain u where u: "fst r k = Some u" "is_root u" unfolding roots_of_def by auto
  from Cons.prems(1) obtain r1 where
    r1: "root_round load s ord fuel now k u r = Some r1" "tick_roots load s ord fuel now keys r1 = Some r'"
    unfolding tick_roots_round [of r, OF u(1)] by (auto simp: bind_eq_Some_conv)
  note st = root_round_static [OF r1(1) u(1)]
  have "roots_of (fst r) keys" using Cons.prems(3) by (simp add: roots_of_def)
  from roots_of_static [OF this st] have "roots_of (fst r1) keys" .
  moreover have "fst r1 key = Some t \<and> count_list (snd (snd r1)) key = count_list (snd (snd r)) key"
    using root_round_other [OF Cons.prems(2) u Cons.prems(5) assms _ r1(1)] Cons.prems(4) by auto
  ultimately show ?case
    using Cons.IH [OF r1(2) run_ready_static [OF Cons.prems(2) st]] Cons.prems(4) by simp
qed simp

text \<open>The task after its turn: run, or only put off to its next time.\<close>

definition turn_taken :: "(string \<Rightarrow> Location result) \<Rightarrow> time \<Rightarrow> bool \<Rightarrow> Task \<Rightarrow> Task" where
  "turn_taken load now fires t =
     (if fires then t\<lparr>t_LastRunAt := Some now, t_NextRunAt := Some (nextRunTime load (t_Schedule t) now)\<rparr>
      else t\<lparr>t_NextRunAt := Some (nextRunTime load (t_Schedule t) now)\<rparr>)"

lemma root_round_due:
  assumes "run_ready ord fuel r" "fst r key = Some t" "is_root t" "t_NextRunAt t = Some at" "at \<le> now"
    and "root_round load s ord fuel now key t r = Some r'" "\<And>w. evaluateWhen (streamHasDataFn s) w t = fires"
  shows "fst r' key = Some (turn_taken load now fires t) \<and>
    count_list (snd (snd r')) key = count_list (snd (snd r)) key + (if fires then 1 else 0)"
proof -
  have "executeDAG load s ord now fuel key t r = Some r'" using assms(4-6) by (simp add: root_round_def)
  moreover have "t_Schedule t \<noteq> ''''" using assms(3) by (simp add: is_root_def)
  ultimately show ?thesis
    using executeDAG_due_root [of r ord fuel key t load s now r'] assms(1-3,7)
    by (auto simp: run_ready_def turn_taken_def after_run_def Let_def split: if_splits)
qed

lemma tick_roots_due:
  assumes "is_root t" "t_NextRunAt t = Some at" "at \<le> now" "\<And>w. evaluateWhen (streamHasDataFn s) w t = fires"
  shows "tick_roots load s ord fuel now keys r = Some r' \<Longrightarrow> run_ready ord fuel r \<Longrightarrow> roots_of (fst r) keys \<Longrightarrow>
    distinct keys \<Longrightarrow> key \<in> set keys \<Longrightarrow> fst r key = Some t \<Longrightarrow>
    fst r' key = Some (turn_taken load now fires t) \<and>
      count_list (snd (snd r')) key = count_list (snd (snd r)) key + (if fires then 1 else 0)"
proof (induction keys arbitrary: r)
  case (Cons k keys)
  from Cons.prems(3) obtain u where u: "fst r k = Some u" "is_root u" unfolding roots_of_def by auto
  from Cons.prems(1) obtain r1 where
    r1: "root_round load s ord fuel now k u r = Some r1" "tick_roots load s ord fuel now keys r1 = Some r'"
    unfolding tick_roots_round [of r, OF u(1)] by (auto simp: bind_eq_Some_conv)
  note st = root_round_static [OF r1(1) u(1)]
  have "roots_of (fst r) keys" using Cons.prems(3) by (simp add: roots_of_def)
  note roots = roots_of_static [OF this st]
  note ready = run_ready_static [OF Cons.prems(2) st]
  show ?case
  proof (cases "k = key")
    case True
    with u Cons.prems(6) have t: "u = t" by simp
    have after: "fst r1 key = Some (turn_taken load now fires t)"
      "count_list (snd (snd r1)) key = count_list (snd (snd r)) key + (if fires then 1 else 0)"
      using root_round_due [OF Cons.prems(2,6) assms(1-3) _ assms(4)] r1(1) True t by auto
    have "is_root (turn_taken load now fires t)" using assms(1) by (simp add: turn_taken_def is_root_def)
    from tick_roots_other [OF this r1(2) ready roots _ after(1)] Cons.prems(4) True after(2) show ?thesis by auto
  next
    case False
    then have "fst r1 key = Some t \<and> count_list (snd (snd r1)) key = count_list (snd (snd r)) key"
      using root_round_other [OF Cons.prems(2) u Cons.prems(6) assms(1) _ r1(1)] by auto
    with Cons.IH [OF r1(2) ready roots] Cons.prems(4,5) False show ?thesis by simp
  qed
qed simp

subsection \<open>The log of a tick and its effects\<close>

text \<open>What the statements of the tasks \<open>new\<close>, executed one after the other, make of the world.\<close>

definition replay :: "(string \<Rightarrow> 'w \<Rightarrow> 'w) \<Rightarrow> (string \<rightharpoonup> Task) \<Rightarrow> string list \<Rightarrow> 'w \<Rightarrow> 'w" where
  "replay exec ts new w = fold (\<lambda>k w. case ts k of None \<Rightarrow> w | Some t \<Rightarrow> exec (t_SQLText t) w) new w"

lemma replay_append: "replay exec ts (a @ b) w = replay exec ts b (replay exec ts a w)"
  by (simp add: replay_def)

definition replayed :: "'w Scheduler \<Rightarrow> (string \<rightharpoonup> Task) \<Rightarrow> 'w run \<Rightarrow> 'w run \<Rightarrow> bool" where
  "replayed s ts r r' \<longleftrightarrow>
     (\<exists>new. snd (snd r') = snd (snd r) @ new \<and> fst (snd r') = replay (execFn s) ts new (fst (snd r)))"

lemma replayed_refl: "snd r' = snd r \<Longrightarrow> replayed s ts r r'"
  by (simp add: replayed_def replay_def)

lemma replayed_trans: "replayed s ts r r' \<Longrightarrow> replayed s ts r' r'' \<Longrightarrow> replayed s ts r r''"
  by (auto simp: replayed_def replay_append)

lemma replayed_task:
  assumes "same_static ts (fst r)" "fst r k = Some t"
  shows "replayed s ts r (runTask load (execFn s) now k t r)"
proof -
  obtain t0 where t0: "ts k = Some t0" "static t0 = static t" using same_staticD(1) [OF assms] by blast
  then have "t_SQLText (static t0) = t_SQLText (static t)" by simp
  then have "t_SQLText t0 = t_SQLText t" by (simp add: static_def)
  with t0(1) show ?thesis by (cases r) (simp add: replayed_def replay_def runTask_def Let_def)
qed

lemma run_replayed:
  "runSuccessors load s ord now db schema fuel n r = Some r' \<Longrightarrow> same_static ts (fst r) \<Longrightarrow> replayed s ts r r'"
  "run_each load s ord now db schema fuel keys r = Some r' \<Longrightarrow> same_static ts (fst r) \<Longrightarrow> replayed s ts r r'"
proof (induction load s ord now db schema fuel n r and load s ord now db schema fuel keys r
    arbitrary: r' and r' rule: runSuccessors_run_each.induct)
  case (4 load s ord now db schema fuel key keys r)
  show ?case
  proof (cases "fst r key")
    case None
    with 4 show ?thesis by simp
  next
    case (Some t)
    let ?r1 = "runTask load (execFn s) now key t r"
    show ?thesis
    proof (cases "evaluateWhen (streamHasDataFn s) (fst (snd r)) t")
      case False
      with 4 Some show ?thesis by simp
    next
      case True
      with Some "4.prems" obtain r2 where r2:
        "runSuccessors load s ord now db schema fuel (t_Name t) ?r1 = Some r2"
        "run_each load s ord now db schema fuel keys r2 = Some r'"
        by (cases "runSuccessors load s ord now db schema fuel (t_Name t) ?r1") simp_all
      have s1: "same_static ts (fst ?r1)"
        by (rule same_static_trans [OF "4.prems"(2) run_effect_static [OF run_effect_task [OF Some]]])
      have s2: "same_static ts (fst r2)" by (rule same_static_trans [OF s1 run_static(1) [OF r2(1)]])
      have "replayed s ts ?r1 r2" using "4.IH"(3) Some True r2(1) s1 by simp
      moreover have "replayed s ts r2 r'" using "4.IH"(4) Some True r2 s2 by simp
      ultimately show ?thesis by (meson replayed_trans replayed_task [OF "4.prems"(2) Some])
    qed
  qed
qed (auto intro: replayed_refl)

lemma root_round_replayed:
  assumes "root_round load s ord fuel now k u r = Some r'" "same_static ts (fst r)" "fst r k = Some u"
  shows "replayed s ts r r'"
proof (cases "snd r' = snd r")
  case False
  then have "executeDAG load s ord now fuel k u r = Some r'"
    using assms(1) by (auto simp: root_round_def split: option.splits if_splits)
  with False have "runSuccessors load s ord now (t_DatabaseName u) (t_SchemaName u) fuel (t_Name u)
      (runTask load (execFn s) now k u r) = Some r'"
    by (auto simp: executeDAG_def split: if_splits)
  from run_replayed(1) [OF this same_static_trans [OF assms(2) run_effect_static [OF run_effect_task [OF assms(3)]]]]
  show ?thesis by (rule replayed_trans [OF replayed_task [OF assms(2,3)]])
qed (rule replayed_refl)

lemma tick_roots_replayed:
  "tick_roots load s ord fuel now keys r = Some r' \<Longrightarrow> same_static ts (fst r) \<Longrightarrow> replayed s ts r r'"
proof (induction keys arbitrary: r)
  case (Cons k keys)
  show ?case
  proof (cases "fst r k")
    case (Some u)
    from Cons.prems(1) obtain r1 where
      r1: "root_round load s ord fuel now k u r = Some r1" "tick_roots load s ord fuel now keys r1 = Some r'"
      unfolding tick_roots_round [of r, OF Some] by (auto simp: bind_eq_Some_conv)
    have "same_static ts (fst r1)" by (rule same_static_trans [OF Cons.prems(2) root_round_static [OF r1(1) Some]])
    from Cons.IH [OF r1(2) this] show ?thesis
      by (rule replayed_trans [OF root_round_replayed [OF r1(1) Cons.prems(2) Some]])
  qed (use Cons in simp)
qed (simp add: replayed_refl)

text \<open>The log of a tick lists the tasks whose statements made the new world, in their order.\<close>

lemma tick_replayed:
  assumes "tick load s ks ord fuel now w = Some (s', w', log)"
  shows "w' = replay (execFn s) (tasks s) log w"
proof -
  from assms obtain keys where "tick_roots load s ord fuel now keys (tasks s, w, []) = Some (tasks s', w', log)"
    by (auto simp: tick_def Let_def)
  from tick_roots_replayed [OF this, of "tasks s"] show ?thesis by (simp add: replayed_def same_static_def)
qed

subsection \<open>Tasks that wait for a stream\<close>

lemma wired_tasks: "tasks (wired_scheduler orc) = tasks (o_taskSched orc)"
  by (simp add: wired_scheduler_def SetStreamHasDataFn_def)

lemma wired_condition:
  assumes "stream_reachable (o_streamEng orc)" "when_stream (t_When t) = Some name"
  shows "evaluateWhen (streamHasDataFn (wired_scheduler orc)) w t \<longleftrightarrow>
    pending_changes (o_streamEng orc) (streamKey (t_DatabaseName t) (t_SchemaName t) name) \<noteq> []"
proof -
  have "t_When t \<noteq> ''''" using assms(2) by auto
  with assms(2) HasData_iff [OF stream_reachable_inv [OF assms(1)]] show ?thesis
    by (simp add: evaluateWhen_def wired_scheduler_def SetStreamHasDataFn_def)
qed

end
