(* ===== verification/Spec2Isabelle.thy ===== *)
theory Spec2Isabelle
  imports Session Catalog Sequence Rbac Cron Task Task_Order Streams Timetravel Snowpipe Tag
    Binding Bulk Account_Usage Network Sharing Alert Rewrite_Rules Copyinto
    Engine Udf Clone Dynamic_Table Matview Extfunc Lifecycle Marker_Roundtrip Stream_Tasks
begin

text \<open>
  \<^bold>\<open>Miniflake, a local Snowflake emulator.\<close> The program (\<^verbatim>\<open>src/cmd\<close> and \<^verbatim>\<open>src/internal\<close>, in Go) answers
  the HTTP protocol of the Snowflake drivers. A request passes through the server
  (\<^verbatim>\<open>internal/server\<close>), which resolves its session and renders its bind variables into the SQL text;
  the orchestrator (\<^verbatim>\<open>internal/orchestrator\<close>) decides which subsystem owns the statement; ordinary SQL is
  rewritten (\<^verbatim>\<open>internal/rewriter\<close>) and sent to an embedded DuckDB (\<^verbatim>\<open>internal/engine\<close>). Around that path
  sit the subsystems that hold the state of the emulated account: catalog, sessions, roles, sequences,
  streams, tasks, snapshots, pipes, tags, shares, alerts, network policies and usage histories. Each is
  a Go package with one mutex around maps of records, and it reaches the SQL engine through callbacks
  that \<^verbatim>\<open>cmd/miniflake/main.go\<close> and the orchestrator install. This development models the whole path of a
  request, from the bytes of the connection to the subsystems and back to the encoded answer, the subsystems, and
  the start of the program; it proves what each part promises to its callers and what follows for the whole.

  \<^bold>\<open>How code becomes definitions.\<close> A struct is a record with the fields of the code, an enumerated
  string type a datatype, a Go map a partial function, a returned error the left injection of
  \<open>go_error + 'a\<close>. An operation is a function from the state of its package (and the clock reading
  \<open>now\<close>) to the new state: the code holds the package's mutex for the whole operation. Where it
  releases the mutex in between (loading files in a pipe, taking a snapshot, firing an alert) the parts are separate
  definitions, composed as the code composes them, and the step relations of the package have the critical sections as
  their steps, so that other calls fall in between. A handler of the server and the executor of the orchestrator are
  functions from the state before to the state after: a theorem about one of them is about a request that runs by itself.
  Requests that overlap are in the step relations of the packages, in the lock protocol of the server, and in
  \<open>Lifecycle\<close>, where what the handlers under way do is left open. A loop that ranges over a map takes the visiting
  order as an argument, and theorems hold for every order with \<open>range_order\<close>. Goroutines are steps of
  \<open>inductive\<close> relations on the same state. The SQL engine, the file system, the time zone database, the cryptography
  of TLS and the JSON and number formats of the libraries are arguments: records of functions on an abstract
  world \<open>'w\<close>, so that their effects are ordered as the code orders its calls. What a theorem needs of them is a
  named hypothesis, and its witness gives an instance that satisfies it.

  \<^bold>\<open>The library.\<close>
  \<^item> \<open>Go_Prelude\<close>, \<open>Go_Strings\<close>, \<open>Go_Paths\<close>, \<open>Go_Net\<close>: errors, maps and range loops, 64-bit wrap-around,
    durations; \<^verbatim>\<open>strings\<close> and \<^verbatim>\<open>strconv\<close> on ASCII bytes and the qualified keys; \<^verbatim>\<open>path/filepath\<close>; IP addresses
    and CIDR blocks of \<^verbatim>\<open>net\<close>.
  \<^item> \<open>Go_Regexp\<close>, \<open>Go_Regexp_Lang\<close>, \<open>Go_Rel\<close>: the syntax of \<^verbatim>\<open>regexp\<close> that the program uses, parsed from the literals
    of the source, with a leftmost-first matcher that always ends and, for expressions without assertions, finds a
    match exactly when one exists; relative paths.
  \<^item> \<open>Registry\<close>: the locale \<open>registry\<close>, the create and drop contract that most packages share, with the
    refinement of any call history to a plain map, and \<open>resettable\<close>. They are interpreted in \<open>Catalog\<close>,
    \<open>Sequence\<close>, \<open>Rbac\<close>, \<open>Streams\<close>, \<open>Snowpipe\<close>, \<open>Tag\<close>, \<open>Sharing\<close> and \<open>Alert\<close>.
  \<^item> \<open>Graph_Search\<close>: the locale \<open>graph_search\<close> for a depth-first search with a shared visited set, and
    \<open>forest\<close> for a graph in which every node has one parent; \<open>Rbac\<close> and \<open>Task\<close> interpret them.
  \<^item> \<open>Statement_Executor\<close>: the locale \<open>statement_executor\<close>, what the server relies on when it runs the statements of
    a request one after the other: every statement returns, its result has rows of the width of its columns, and
    what is kept by one statement is kept by a batch. \<open>Orch_Props\<close> interprets it with the orchestrator.

  \<^bold>\<open>The components.\<close>
  \<^item> \<open>Session\<close> (\<^verbatim>\<open>session/session.go\<close>): every stored session is filed under its own token; the expiry
    tick removes exactly the sessions idle for more than four hours; the UUIDs are of version 4.
  \<^item> \<open>Catalog\<close> (\<^verbatim>\<open>catalog/catalog.go\<close>): names match keys in every reachable catalog, a registered table is
    found in any case of its name, databases refine a map, reset equals a fresh start.
  \<^item> \<open>Sequence\<close> (\<^verbatim>\<open>sequence/sequence.go\<close>): interleaved NEXTVAL calls walk, for each sequence, the
    arithmetic progression of 64-bit words; no two values coincide within the 64-bit range.
  \<^item> \<open>Rbac\<close> (\<^verbatim>\<open>rbac/rbac.go\<close>): the access check decides reachability in the role hierarchy; grants and
    memberships never name a missing role; a revocation undoes a grant.
  \<^item> \<open>Cron\<close> (\<^verbatim>\<open>task/cron.go\<close>): field parsing is exact, the expansion loop ends, and the search gives the
    earliest matching minute behind the minute of the argument within its four years.
  \<^item> \<open>Task\<close>, \<open>Task_Order\<close> (\<^verbatim>\<open>task/task.go\<close>): a tick returns, the execution of a root runs each task of
    its tree once and after its predecessor, next run times lie in the future, and the dependency order
    is a topological sort of the tasks that no cycle blocks.
  \<^item> \<open>Streams\<close> (\<^verbatim>\<open>stream/stream.go\<close>): the locale \<open>change_source\<close>, pending changes taken all at once; every
    change captured by a stream is consumed exactly once and in order.
  \<^item> \<open>Timetravel\<close> (\<^verbatim>\<open>timetravel/timetravel.go\<close>): captures overlap, because the time is read and the file written
    before the mutex is taken; a query at a time reads the snapshot not after it that was filed last, which is the latest one
    for a table whose captures did not overlap; cleanup removes exactly what has expired, a dropped table comes
    back from its last snapshot.
  \<^item> \<open>Snowpipe\<close> (\<^verbatim>\<open>snowpipe/snowpipe.go\<close>): the load history records each file with its outcome; every pipe has a
    history, and a load that ends after its pipe was dropped leaves one behind.
  \<^item> \<open>Tag\<close> (\<^verbatim>\<open>tag/tag.go\<close>): set, get and unset of tag values.
  \<^item> \<open>Binding\<close>, \<open>Bulk\<close> (\<^verbatim>\<open>binding/binding.go\<close>, \<^verbatim>\<open>binding/bulk.go\<close>): a rendered literal is inert text for the
    scanner that finds quotes, comments and placeholders; statements without placeholders pass
    unchanged; array bindings are pivoted exactly; a bulk INSERT is folded into one statement.
  \<^item> \<open>Account_Usage\<close> (\<^verbatim>\<open>accountusage/accountusage.go\<close>): the locale \<open>bounded_log\<close>; the views show the
    newest entries within the bound whatever the interleaving.
  \<^item> \<open>Network\<close> (\<^verbatim>\<open>network/network.go\<close>): the active policy exists, its lists are valid, and the check admits
    exactly the addresses it describes.
  \<^item> \<open>Sharing\<close> (\<^verbatim>\<open>sharing/sharing.go\<close>): shares refine sets of objects and accounts.
  \<^item> \<open>Alert\<close> (\<^verbatim>\<open>alert/alert.go\<close>): at most one live goroutine for an alert, none for an alert that is not
    started, and a tick runs the action exactly when the condition returns rows.

  \<^item> \<open>Rewriter\<close>, \<open>Rewrite_Rules\<close> (\<^verbatim>\<open>rewriter/rewriter.go\<close>, \<^verbatim>\<open>rewriter/snowflake_ddl.go\<close>): statements are split exactly
    at the semicolons outside literals; the rewrites of function calls, casts, time travel and semi-structured
    access; the function rules whose replacement loop ends on every statement, and calls with too few arguments on which
    the loop of the others never ends.
  \<^item> \<open>Stage\<close>, \<open>Stage_Commands\<close> (\<^verbatim>\<open>stage\<close>, \<^verbatim>\<open>orchestrator/stageref.go\<close>): no stage path leaves the directory of its stage, a
    listed file is found again under its listed name, and the two parsers of stage references agree.
  \<^item> \<open>Copyinto\<close> (\<^verbatim>\<open>copyinto\<close>): the parsed file format does not depend on the order of the option map; a load runs the
    statement of every file and reports what the engine answered, and stops or goes on at an error as its options say.
  \<^item> \<open>Engine\<close> (\<^verbatim>\<open>engine\<close>), \<open>Udf\<close> (\<^verbatim>\<open>udf\<close>), \<open>Clone\<close> (\<^verbatim>\<open>clone\<close>), \<open>Dynamic_Table\<close> (\<^verbatim>\<open>dynamictable\<close>), \<open>Matview\<close> (\<^verbatim>\<open>matview\<close>),
    \<open>Extfunc\<close> (\<^verbatim>\<open>extfunc\<close>): the wrapper of the database, user-defined functions, clones, the refresh loops (one live loop
    for every started table and none for others), materialized views and external functions.
  \<^item> \<open>Orch_Env\<close>, \<open>Parameters\<close>, \<open>Orch_Handlers\<close>, \<open>Orchestrator\<close>, \<open>Dml_Target\<close>, \<open>Orch_Props\<close> (\<^verbatim>\<open>orchestrator\<close>): the state of all
    subsystems in one record, the handlers of the statements that never reach the database, and the dispatch. Every statement whose
    rewriting ends returns; results are rectangular; an INSERT, UPDATE, DELETE or MERGE whose table is followed by a blank is
    attributed to that table, and when it succeeds it is recorded once in each stream on it; UNDROP restores what DROP took; a
    reset gives the state of a fresh start; LIKE patterns mean what they should.
  \<^item> \<open>Marker_Roundtrip\<close>: the contract between rewriter and orchestrator. A statement that the rewriter hides in a
    comment reaches the handler of its kind with exactly the text that the comment holds.
  \<^item> \<open>Wire\<close>, \<open>Server\<close>, \<open>Server_Props\<close> (\<^verbatim>\<open>server/server.go\<close>): the type mapping and the encoding of cells, under which
    rowtype and rowset determine the result; all handlers, the routing, compressed bodies, and the lock that separates a reset
    from the requests. A request with an unknown token runs nothing, a request changes no session but its own, statements of
    a batch run in order up to the first error, an answer has a type for each column and a value for each
    type, and a request moves the catalog, the streams, the roles and the pipes by their own operations alone.
  \<^item> \<open>Tls\<close> (\<^verbatim>\<open>server/tls.go\<close>), \<open>Startup\<close> (\<^verbatim>\<open>cmd/miniflake/main.go\<close>): the listener that serves TLS and plain connections on
    one port loses no byte and adds none; the certificate is reused or generated; a start that gets as far as
    listening has every subsystem in its initial state and wired as the handlers expect it.
  \<^item> \<open>Lifecycle\<close> (\<^verbatim>\<open>main.go\<close>, \<^verbatim>\<open>Start\<close>, \<^verbatim>\<open>Stop\<close> and \<^verbatim>\<open>loop\<close> of \<^verbatim>\<open>task/task.go\<close>): the goroutines of the running process as a step
    relation. Ticks do not overlap, no task runs once the database is closed, and a shutdown that has begun
    can always be completed.
  \<^item> \<open>Stream_Tasks\<close> (\<^verbatim>\<open>main.go\<close>, \<^verbatim>\<open>task/task.go\<close>): the scheduler as it is wired to the streams; what a tick does to a due task,
    and that its effects on the world are those of the tasks it ran, in order.

  This theory holds the property of the scheduler and the streams together: a task that waits for a stream.

  \<^bold>\<open>Fuel.\<close> The walks of the role hierarchy return for any fuel above the number of roles, the execution
  of task trees for any fuel of at least the number of tasks, and Kahn's queue for as many rounds as
  there are task names: no walk visits a node twice. The expansion of a cron field runs 64 rounds, enough
  for a range within 0 to 59, a step that wraps included. The theorems about these definitions
  say that they return. The replacement of function calls may run forever and is a partial function into
  options: not returning is the value None, and theorems say for which statements it returns. All other recursion is
  structural or has a measure; the cron search ends at its limit of four years.

  \<^bold>\<open>What is not modelled.\<close> Byte strings are treated as ASCII text by the case mappings and by the white
  space test. The texts of error messages are kept as kind and name. The database behind its driver, the JSON and
  gzip codecs, the cryptography, the accept loop of \<^verbatim>\<open>net/http\<close> and the signals of the operating system are
  arguments or left out; request paths carry no percent escapes. \<^verbatim>\<open>internal/protocol/types.go\<close> declares JSON structs that
  no package of the program imports: there is no behaviour in it to model.
\<close>

section \<open>Properties that span components\<close>

text \<open>
  C38. A task that waits for a stream is run exactly when the stream has something for it. Take a started task without
  predecessor whose time has come and whose WHEN condition asks for a stream, and a tick of the scheduler
  as main wires it to the stream engine, that nothing else overlaps: the tick returns, whatever the order of the maps;
  if changes of the stream are pending the task is run once and its two run times are set; if none are pending it is not
  run and only its next time is set. The tasks that were run are the ones whose statements, executed in the order of the log,
  made the new world. The tick does not consume the stream: as long as the changes are pending,
  the task is run again each time it is due. The names of the tasks must not be empty.
\<close>

theorem stream_task_waits:
  assumes "stream_reachable (o_streamEng orc)" "tasks_inv (tasks (o_taskSched orc))"
    and "range_order (tasks (o_taskSched orc)) ks" "\<And>k. range_order (tasks (o_taskSched orc)) (ord k)"
    and "card (dom (tasks (o_taskSched orc))) \<le> fuel"
    and "tasks (o_taskSched orc) key = Some t" "t_State t = TaskStarted" "t_Schedule t \<noteq> ''''" "t_Predecessor t = ''''"
    and "t_NextRunAt t = Some at" "at \<le> now" "when_stream (t_When t) = Some name"
  shows "\<exists>w' orc' log. orch_tick env orc ks ord fuel now w = Some (w', orc', log) \<and>
    w' = replay (execFn (o_taskSched orc)) (tasks (o_taskSched orc)) log w \<and> o_streamEng orc' = o_streamEng orc \<and>
    (if pending_changes (o_streamEng orc) (streamKey (t_DatabaseName t) (t_SchemaName t) name) \<noteq> []
     then count_list log key = 1 \<and> tasks (o_taskSched orc') key = Some (t\<lparr>t_LastRunAt := Some now,
       t_NextRunAt := Some (nextRunTime (load_zone env) (t_Schedule t) now)\<rparr>)
     else count_list log key = 0 \<and> tasks (o_taskSched orc') key = Some (t\<lparr>
       t_NextRunAt := Some (nextRunTime (load_zone env) (t_Schedule t) now)\<rparr>))"
proof -
  let ?s = "wired_scheduler orc" and ?ts = "tasks (o_taskSched orc)"
  let ?roots = "map fst (filter (\<lambda>(_, t). is_root t) (range_entries ?ts ks))"
  have root: "is_root t" using assms(7-9) by (simp add: is_root_def)
  obtain s' w' log where tick: "tick (load_zone env) ?s ks ord fuel now w = Some (s', w', log)"
    using tick_returns [of ?s ks ord fuel] assms(2-5) unfolding wired_tasks by (metis not_None_eq prod_cases3)
  then have loop: "tick_roots (load_zone env) ?s ord fuel now ?roots (?ts, w, []) = Some (tasks s', w', log)"
    by (auto simp: tick_def Let_def wired_tasks)
  have world: "w' = replay (execFn (o_taskSched orc)) ?ts log w"
    using tick_replayed [OF tick] by (simp add: wired_scheduler_def SetStreamHasDataFn_def)
  have ready: "run_ready ord fuel (?ts, w, [])" using assms(2,4,5) by (simp add: run_ready_def)
  have roots: "roots_of (fst (?ts, w, [])) ?roots" "key \<in> set ?roots" "distinct ?roots"
    using assms(3,6) root map_fst_range_entries [of ks ?ts]
    by (force simp: roots_of_def set_range_entries_order [OF assms(3)] distinct_map_filter range_order_def)+
  show ?thesis
    using tick_roots_due [OF root assms(10,11) wired_condition [OF assms(1,12)] loop ready roots(1,3,2)] tick world assms(6)
    by (auto simp: orch_tick_def set_tasks_def turn_taken_def split: if_splits)
qed

text \<open>A task that waits for the stream \<open>x\<close>, which has one pending change.\<close>

definition waiting_task :: Task where
  "waiting_task = (new_task 0 ''d'' ''s'' ''load'' ''INSERT'' ''1 MINUTE'' '''' ''''
     (''SYSTEM$STREAM_HAS_DATA('' @ [CHR 0x27] @ ''x'' @ [CHR 0x27] @ '')''))\<lparr>t_State := TaskStarted, t_NextRunAt := Some 0\<rparr>"

definition changed_streams :: "nat stream_Engine" where
  "changed_streams = RecordChange sample_streams 2 ''d'' ''s'' ''t'' sample_change"

definition waiting_orch :: "(string list, nat) Orchestrator" where
  "waiting_orch =
     (let orc = orch_New ''data'' ''stages'' (\<lambda>sql w. w @ [sql]) None 0 0
      in orc\<lparr>o_streamEng := changed_streams, o_taskSched := (o_taskSched orc)\<lparr>tasks := [''d.s.load'' \<mapsto> waiting_task]\<rparr>\<rparr>)"

theorem stream_task_waits_witness:
  "\<forall>(env :: (string list, nat, nat) orch_env) w. \<exists>w' orc' log t.
     orch_tick env waiting_orch [''d.s.load''] (\<lambda>_. [''d.s.load'']) 1 7 w = Some (w', orc', log) \<and>
     count_list log ''d.s.load'' = 1 \<and> tasks (o_taskSched orc') ''d.s.load'' = Some t \<and> t_LastRunAt t = Some 7"
proof (intro allI)
  fix env :: "(string list, nat, nat) orch_env" and w
  have key: "taskKey ''d'' ''s'' ''load'' = ''d.s.load''" and name: "when_stream (t_When waiting_task) = Some ''x''"
    and pending: "pending_changes changed_streams (streamKey ''d'' ''s'' ''x'') \<noteq> []" by code_simp+
  have orc: "o_streamEng waiting_orch = changed_streams" "tasks (o_taskSched waiting_orch) = [''d.s.load'' \<mapsto> waiting_task]"
    by (simp_all add: waiting_orch_def Let_def)
  have parts: "t_DatabaseName waiting_task = ''d''" "t_SchemaName waiting_task = ''s''" "t_Name waiting_task = ''load''"
    "t_State waiting_task = TaskStarted" "t_Schedule waiting_task \<noteq> ''''" "t_Predecessor waiting_task = ''''"
    "t_NextRunAt waiting_task = Some 0"
    by (simp_all add: waiting_task_def new_task_def)
  have inv: "tasks_inv (tasks (o_taskSched waiting_orch))" "range_order (tasks (o_taskSched waiting_orch)) [''d.s.load'']"
    "card (dom (tasks (o_taskSched waiting_orch))) \<le> 1" "tasks (o_taskSched waiting_orch) ''d.s.load'' = Some waiting_task"
    by (auto simp: orc tasks_inv_def range_order_def parts key)
  have streams: "stream_reachable (o_streamEng waiting_orch)" 
    unfolding orc changed_streams_def by (intro stream_reachable.step [OF sample_streams_reachable] stream_step.recrd)
  show "\<exists>w' orc' log t. orch_tick env waiting_orch [''d.s.load''] (\<lambda>_. [''d.s.load'']) 1 7 w = Some (w', orc', log) \<and>
     count_list log ''d.s.load'' = 1 \<and> tasks (o_taskSched orc') ''d.s.load'' = Some t \<and> t_LastRunAt t = Some 7"
    using stream_task_waits [where now = 7 and env = env and w = w, OF streams inv(1,2,2,3,4) parts(4-7) _ name] pending
    by (fastforce simp: orc parts)
qed

end
